(* ===== verification/Prelude.thy ===== *)
theory Prelude
  imports Main "HOL-Library.Word" "HOL-Library.List_Lexorder" "HOL-Library.Char_ord"
begin

text \<open>
  Shared vocabulary of the development: Go's scalar types (\<open>uint32\<close>, \<open>uint64\<close>,
  \<open>time.Duration\<close>, \<open>time.Time\<close>, \<open>[]byte\<close>), the sentinel errors of the module, the three
  identifier patterns that every component validates against, the zero-value reading of Go
  maps, and the lemmas about them that all component proofs share.
\<close>

named_theorems replay_simps "unfolding of the replay handlers"
named_theorems valid_simps "unfolding of the validators"

section \<open>Scalar types\<close>

type_synonym uint32 = "32 word"
type_synonym uint64 = "64 word"

text \<open>
  A \<open>time.Duration\<close> is a signed 64-bit count of nanoseconds: the word is read with
  \<open>sint\<close> wherever Go compares or adds it as a signed number.
\<close>

type_synonym duration = "64 word"

text \<open>
  A Go byte slice: \<open>None\<close> is the nil slice, \<open>Some []\<close> the empty non-nil slice. Both have
  length zero; they differ in their JSON rendering. Bytes are characters, so that
  \<open>string(data)\<close> is \<open>bstr data\<close>.
\<close>

type_synonym bytes = "string option"

definition blen :: "bytes \<Rightarrow> nat" where
  "blen b = (case b of None \<Rightarrow> 0 | Some s \<Rightarrow> length s)"

definition bstr :: "bytes \<Rightarrow> string" where
  "bstr b = (case b of None \<Rightarrow> [] | Some s \<Rightarrow> s)"

lemma blen_simps [simp]: "blen None = 0" "blen (Some s) = length s"
  by (simp_all add: blen_def)

lemma bstr_simps [simp]: "bstr None = []" "bstr (Some s) = s"
  by (simp_all add: bstr_def)

lemma length_bstr [simp]: "length (bstr b) = blen b"
  by (cases b) simp_all

text \<open>\<open>cloneBytes\<close> (history.go) copies a slice; as a value the copy is the original.\<close>

definition cloneBytes :: "bytes \<Rightarrow> bytes" where
  "cloneBytes value = (case value of None \<Rightarrow> None | Some s \<Rightarrow> Some (take (length s) s))"

lemma cloneBytes_id [simp]: "cloneBytes b = b"
  by (cases b) (simp_all add: cloneBytes_def)

section \<open>Go time values\<close>

text \<open>
  A \<open>time.Time\<close>: the wall-clock instant in nanoseconds since the zero instant (January 1 of
  year 1, UTC), an optional monotonic clock reading in nanoseconds, and a location
  (\<open>None\<close> is UTC). Comparisons use the monotonic readings when both operands carry one;
  \<open>==\<close> compares all three parts. Wall instants are unbounded integers: Go's 64-bit seconds
  overflow only beyond 292 billion years.
\<close>

record gotime =
  wall :: int
  mono :: "int option"
  loc :: "string option"

definition time_zero :: gotime where
  "time_zero = \<lparr>wall = 0, mono = None, loc = None\<rparr>"

definition IsZero :: "gotime \<Rightarrow> bool" where
  "IsZero t \<longleftrightarrow> wall t = 0"

definition Before :: "gotime \<Rightarrow> gotime \<Rightarrow> bool" where
  "Before t u \<longleftrightarrow>
     (case (mono t, mono u) of (Some a, Some b) \<Rightarrow> a < b | _ \<Rightarrow> wall t < wall u)"

definition After :: "gotime \<Rightarrow> gotime \<Rightarrow> bool" where
  "After t u \<longleftrightarrow>
     (case (mono t, mono u) of (Some a, Some b) \<Rightarrow> a > b | _ \<Rightarrow> wall t > wall u)"

definition Equal :: "gotime \<Rightarrow> gotime \<Rightarrow> bool" where
  "Equal t u \<longleftrightarrow>
     (case (mono t, mono u) of (Some a, Some b) \<Rightarrow> a = b | _ \<Rightarrow> wall t = wall u)"

definition int64_fits :: "int \<Rightarrow> bool" where
  "int64_fits n \<longleftrightarrow> - (2 ^ 63) \<le> n \<and> n < 2 ^ 63"

text \<open>\<open>Time.Add\<close> drops a monotonic reading that would overflow; \<open>Time.Sub\<close> saturates.\<close>

definition Add :: "gotime \<Rightarrow> duration \<Rightarrow> gotime" where
  "Add t d = t\<lparr>wall := wall t + sint d,
     mono := (case mono t of None \<Rightarrow> None
              | Some m \<Rightarrow> if int64_fits (m + sint d) then Some (m + sint d) else None)\<rparr>"

definition saturate64 :: "int \<Rightarrow> int" where
  "saturate64 n = (if n < - (2 ^ 63) then - (2 ^ 63) else if n \<ge> 2 ^ 63 then 2 ^ 63 - 1 else n)"

definition Sub :: "gotime \<Rightarrow> gotime \<Rightarrow> int" where
  "Sub t u = saturate64
     (case (mono t, mono u) of (Some a, Some b) \<Rightarrow> a - b | _ \<Rightarrow> wall t - wall u)"

text \<open>\<open>canonicalTime\<close> (history.go) strips the monotonic reading and moves to UTC.\<close>

definition Round0 :: "gotime \<Rightarrow> gotime" where
  "Round0 t = t\<lparr>mono := None\<rparr>"

definition UTC :: "gotime \<Rightarrow> gotime" where
  "UTC t = t\<lparr>loc := None\<rparr>"

definition canonicalTime :: "gotime \<Rightarrow> gotime" where
  "canonicalTime value = UTC (Round0 value)"

definition canonical :: "gotime \<Rightarrow> bool" where
  "canonical t \<longleftrightarrow> mono t = None \<and> loc t = None"

definition utc :: "int \<Rightarrow> gotime" where
  "utc n = \<lparr>wall = n, mono = None, loc = None\<rparr>"

lemma canonicalTime_parts [simp]:
  "wall (canonicalTime t) = wall t" "mono (canonicalTime t) = None" "loc (canonicalTime t) = None"
  by (simp_all add: canonicalTime_def UTC_def Round0_def)

lemma canonicalTime_utc: "canonicalTime t = utc (wall t)"
  by (simp add: canonicalTime_def UTC_def Round0_def utc_def)

lemma canonicalTime_Add: "canonicalTime (Add t d) = utc (wall t + sint d)"
  by (simp add: canonicalTime_utc Add_def)

lemma canonical_canonicalTime [simp]: "canonical (canonicalTime t)"
  by (simp add: canonical_def)

lemma canonicalTime_id: "canonical t \<Longrightarrow> canonicalTime t = t"
  by (simp add: canonical_def canonicalTime_def UTC_def Round0_def)

lemma canonicalTime_idem [simp]: "canonicalTime (canonicalTime t) = canonicalTime t"
  by (simp add: canonicalTime_id)

lemma utc_parts [simp]: "wall (utc n) = n" "mono (utc n) = None" "loc (utc n) = None"
  by (simp_all add: utc_def)

lemma canonical_utc [simp]: "canonical (utc n)"
  by (simp add: canonical_def)

lemma canonicalTime_of_utc [simp]: "canonicalTime (utc n) = utc n"
  by (simp add: canonicalTime_id)

lemma utc_inject [simp]: "utc m = utc n \<longleftrightarrow> m = n"
  by (simp add: utc_def)

lemma time_zero_utc: "time_zero = utc 0"
  by (simp add: time_zero_def utc_def)

lemma canonical_time_zero [simp]: "canonical time_zero"
  by (simp add: time_zero_utc)

lemma wall_time_zero [simp]: "wall time_zero = 0"
  by (simp add: time_zero_def)

lemma mono_time_zero [simp]: "mono time_zero = None"
  by (simp add: time_zero_def)

lemma canonical_eq_iff: "canonical t \<Longrightarrow> canonical u \<Longrightarrow> t = u \<longleftrightarrow> wall t = wall u"
  by (cases t; cases u) (auto simp: canonical_def)

lemma Before_wall: "mono t = None \<or> mono u = None \<Longrightarrow> Before t u \<longleftrightarrow> wall t < wall u"
  by (auto simp: Before_def split: option.splits)

lemma After_wall: "mono t = None \<or> mono u = None \<Longrightarrow> After t u \<longleftrightarrow> wall t > wall u"
  by (auto simp: After_def split: option.splits)

lemma Equal_wall: "mono t = None \<or> mono u = None \<Longrightarrow> Equal t u \<longleftrightarrow> wall t = wall u"
  by (auto simp: Equal_def split: option.splits)

lemma wall_Add [simp]: "wall (Add t d) = wall t + sint d"
  by (simp add: Add_def)

lemma mono_Add_None [simp]: "mono t = None \<Longrightarrow> mono (Add t d) = None"
  by (simp add: Add_def)

lemma IsZero_simps [simp]: "IsZero (canonicalTime t) = IsZero t" "IsZero time_zero"
  by (simp_all add: IsZero_def)

lemma IsZero_utc [simp]: "IsZero (utc n) \<longleftrightarrow> n = 0"
  by (simp add: IsZero_def)

section \<open>Identifier patterns\<close>

text \<open>
  The regular expressions of definition.go and history.go. Go strings are byte sequences; none
  of the classes has a byte above 127, so a string matches exactly when its bytes do.
\<close>

definition in_range :: "nat \<Rightarrow> nat \<Rightarrow> char \<Rightarrow> bool" where
  "in_range lo hi c \<longleftrightarrow> lo \<le> of_char c \<and> of_char c \<le> (hi :: nat)"

definition is_digit :: "char \<Rightarrow> bool" where
  "is_digit c \<longleftrightarrow> in_range 48 57 c"

definition is_alnum :: "char \<Rightarrow> bool" where
  "is_alnum c \<longleftrightarrow> is_digit c \<or> in_range 65 90 c \<or> in_range 97 122 c"

definition name_char :: "char \<Rightarrow> bool" where
  "name_char c \<longleftrightarrow> is_alnum c \<or> c = CHR ''.'' \<or> c = CHR ''_'' \<or> c = CHR ''/'' \<or> c = CHR ''-''"

definition id_char :: "char \<Rightarrow> bool" where
  "id_char c \<longleftrightarrow> name_char c \<or> c = CHR '':''"

definition hex_char :: "char \<Rightarrow> bool" where
  "hex_char c \<longleftrightarrow> is_digit c \<or> in_range 97 102 c"

definition stableName :: "string \<Rightarrow> bool" where
  "stableName s = (case s of [] \<Rightarrow> False
     | c # cs \<Rightarrow> is_alnum c \<and> length cs \<le> 127 \<and> list_all name_char cs)"

definition instanceIDPattern :: "string \<Rightarrow> bool" where
  "instanceIDPattern s = (case s of [] \<Rightarrow> False
     | c # cs \<Rightarrow> is_alnum c \<and> length cs \<le> 255 \<and> list_all id_char cs)"

definition fingerprintPattern :: "string \<Rightarrow> bool" where
  "fingerprintPattern s \<longleftrightarrow> length s = 64 \<and> list_all hex_char s"

lemma stableName_nonempty: "stableName s \<Longrightarrow> s \<noteq> []"
  by (auto simp: stableName_def)

lemma instanceIDPattern_nonempty: "instanceIDPattern s \<Longrightarrow> s \<noteq> []"
  by (auto simp: instanceIDPattern_def)

lemma fingerprintPattern_nonempty: "fingerprintPattern s \<Longrightarrow> s \<noteq> []"
  by (auto simp: fingerprintPattern_def)

lemma empty_patterns [simp]:
  "\<not> stableName []" "\<not> instanceIDPattern []" "\<not> fingerprintPattern []"
  by (auto simp: stableName_def instanceIDPattern_def fingerprintPattern_def)

lemma stableName_length: "stableName s \<Longrightarrow> length s \<le> 128"
  by (auto simp: stableName_def split: list.splits)

lemma instanceIDPattern_length: "instanceIDPattern s \<Longrightarrow> length s \<le> 256"
  by (auto simp: instanceIDPattern_def split: list.splits)

lemma stableName_chars: "stableName s \<Longrightarrow> list_all id_char s"
  by (auto simp: stableName_def id_char_def name_char_def list_all_iff split: list.splits)

lemma instanceIDPattern_chars: "instanceIDPattern s \<Longrightarrow> list_all id_char s"
  by (auto simp: instanceIDPattern_def id_char_def name_char_def list_all_iff split: list.splits)

lemma fingerprintPattern_chars: "fingerprintPattern s \<Longrightarrow> list_all id_char s"
  by (auto simp: fingerprintPattern_def id_char_def name_char_def hex_char_def is_alnum_def
      in_range_def list_all_iff)

lemma stableName_instanceID: "stableName s \<Longrightarrow> instanceIDPattern s"
  by (auto simp: stableName_def instanceIDPattern_def id_char_def list_all_iff split: list.splits)

section \<open>Errors and results\<close>

text \<open>
  The sentinel errors of the module; \<open>ErrInvalidDefinition\<close> carries the field named by
  \<open>invalidDefinition\<close>, and \<open>GoPanic\<close> stands for a run-time panic. \<open>StoreCommitError\<close> (store.go) and
  \<open>operationError\<close> (postgres/store.go) wrap a cause, \<open>JoinedError\<close> is \<open>errors.Join\<close> of two errors and
  \<open>ForeignError\<close> an error that code outside the module returned. A call returns \<open>Inl\<close> of its error or \<open>Inr\<close> of its value.
\<close>

datatype StoreCommitOutcome =
  StoreCommitUnknown | StoreCommitNotCommitted | StoreCommitCommitted | StoreCommitInvalid

datatype go_error =
    ErrInvalidDefinition string
  | ErrDuplicateDefinition
  | ErrDefinitionNotFound
  | ErrInvalidMigration
  | ErrDuplicateMigration
  | ErrMigrationNotFound
  | ErrInvalidDefinitionReference
  | ErrInvalidHistoryEvent
  | ErrEmptyHistory
  | ErrHistoryConflict
  | ErrInvalidTransition
  | ErrDefinitionMismatch
  | ErrInvalidPendingWork
  | ErrInvalidTransitionPlan
  | ErrInvalidWorkLease
  | ErrInvalidActivityTransition
  | ErrInvalidActivityRequest
  | ErrInvalidActivityOutcome
  | ErrInvalidActivity
  | ErrDuplicateActivity
  | ErrActivityNotFound
  | ErrInvalidWait
  | ErrInvalidCompensation
  | ErrInvalidChildTransition
  | ErrInvalidChildStart
  | ErrInvalidOperatorCommand
  | ErrInvalidOrchestration
  | ErrInvalidStoreRequest
  | ErrStoreNotFound
  | ErrStoreConflict
  | ErrDuplicateTransition
  | ErrStaleWorkLease
  | ErrInvalidWorker
  | ErrInvalidActivityProcessor
  | ErrInvalidChildProcessor
  | ErrInvalidCompensationProcessor
  | ErrHistoryLimitExceeded
  | ErrCorruptStore
  | ContextCanceled
  | ContextDeadlineExceeded
  | GoPanic string
  | ForeignError string
  | StoreCommitError StoreCommitOutcome go_error
  | OperationError string go_error
  | JoinedError go_error go_error

type_synonym 'a result = "go_error + 'a"

text \<open>\<open>v, _ := f()\<close>: a discarded error leaves the zero value.\<close>

definition value_or :: "'a \<Rightarrow> 'a result \<Rightarrow> 'a" where
  "value_or z r = (case r of Inl _ \<Rightarrow> z | Inr v \<Rightarrow> v)"

lemma value_or_simps [simp]: "value_or z (Inr v) = v" "value_or z (Inl e) = z"
  by (simp_all add: value_or_def)

section \<open>Go maps\<close>

text \<open>\<open>v, ok := m[k]\<close>: a missing key reads the zero value of the element type.\<close>

definition lookup_zero :: "'v \<Rightarrow> ('k \<rightharpoonup> 'v) \<Rightarrow> 'k \<Rightarrow> 'v" where
  "lookup_zero z m k = (case m k of None \<Rightarrow> z | Some v \<Rightarrow> v)"

definition has_key :: "('k \<rightharpoonup> 'v) \<Rightarrow> 'k \<Rightarrow> bool" where
  "has_key m k \<longleftrightarrow> m k \<noteq> None"

lemma lookup_zero_simps [simp]:
  "m k = None \<Longrightarrow> lookup_zero z m k = z"
  "m k = Some v \<Longrightarrow> lookup_zero z m k = v"
  by (simp_all add: lookup_zero_def)

lemma has_key_simps [simp]:
  "m k = None \<Longrightarrow> \<not> has_key m k"
  "m k = Some v \<Longrightarrow> has_key m k"
  by (simp_all add: has_key_def)

lemma has_key_Some: "has_key m k \<longleftrightarrow> (\<exists>v. m k = Some v)"
  by (auto simp: has_key_def)

section \<open>Words\<close>

lemma word_le_unat: "(a :: 'a::len word) \<le> b \<longleftrightarrow> unat a \<le> unat b"
  by (rule word_le_nat_alt)

lemma word_less_unat: "(a :: 'a::len word) < b \<longleftrightarrow> unat a < unat b"
  by (rule word_less_nat_alt)

lemma word_pos_iff: "(0 :: 'a::len word) < a \<longleftrightarrow> a \<noteq> 0"
  by (rule word_neq_0_conv [symmetric])

lemma unat_uint64: "unat (a :: uint64) < 2 ^ 64"
  using unsigned_less [of a] by simp

lemma unat_Suc_word: "(a :: 'a::len word) + 1 \<noteq> 0 \<Longrightarrow> unat (a + 1) = Suc (unat a)"
  using unatSuc [of a] by (simp add: add.commute)

end
