(* ===== verification/Json.thy ===== *)
theory Json
  imports Prelude
begin

text \<open>
  The part of Go's \<open>encoding/json\<close> that the module relies on: \<open>json.Marshal\<close> of structs with
  string, integer, boolean, byte-slice and time fields, and \<open>json.Decoder\<close> with
  \<open>DisallowUnknownFields\<close> into structs with string and unsigned integer fields. Strings are
  byte sequences; ill-formed UTF-8 is replaced by U+FFFD as Go does.
\<close>

section \<open>UTF-8\<close>

definition byte :: "char \<Rightarrow> nat" where
  "byte c = of_char c"

definition cont_in :: "nat \<Rightarrow> nat \<Rightarrow> char \<Rightarrow> bool" where
  "cont_in lo hi c \<longleftrightarrow> lo \<le> byte c \<and> byte c \<le> hi"

text \<open>\<open>utf8.DecodeRune\<close>: the rune and its width; \<open>(0xFFFD, 1)\<close> for an ill-formed sequence.\<close>

definition utf8_decode :: "string \<Rightarrow> nat \<times> nat" where
  "utf8_decode s = (case s of [] \<Rightarrow> (0xFFFD, 0) | c # cs \<Rightarrow>
     (let b = byte c in
      if b < 0x80 then (b, 1)
      else if 0xC2 \<le> b \<and> b \<le> 0xDF then
        (case cs of c1 # _ \<Rightarrow> if cont_in 0x80 0xBF c1
             then ((b - 0xC0) * 64 + (byte c1 - 0x80), 2) else (0xFFFD, 1)
         | _ \<Rightarrow> (0xFFFD, 1))
      else if 0xE0 \<le> b \<and> b \<le> 0xEF then
        (case cs of c1 # c2 # _ \<Rightarrow>
           if cont_in (if b = 0xE0 then 0xA0 else 0x80) (if b = 0xED then 0x9F else 0xBF) c1
              \<and> cont_in 0x80 0xBF c2
           then (((b - 0xE0) * 64 + (byte c1 - 0x80)) * 64 + (byte c2 - 0x80), 3) else (0xFFFD, 1)
         | _ \<Rightarrow> (0xFFFD, 1))
      else if 0xF0 \<le> b \<and> b \<le> 0xF4 then
        (case cs of c1 # c2 # c3 # _ \<Rightarrow>
           if cont_in (if b = 0xF0 then 0x90 else 0x80) (if b = 0xF4 then 0x8F else 0xBF) c1
              \<and> cont_in 0x80 0xBF c2 \<and> cont_in 0x80 0xBF c3
           then ((((b - 0xF0) * 64 + (byte c1 - 0x80)) * 64 + (byte c2 - 0x80)) * 64
                  + (byte c3 - 0x80), 4) else (0xFFFD, 1)
         | _ \<Rightarrow> (0xFFFD, 1))
      else (0xFFFD, 1)))"

definition utf8_encode :: "nat \<Rightarrow> string" where
  "utf8_encode r =
     (if r < 0x80 then [char_of r]
      else if r < 0x800 then [char_of (0xC0 + r div 64), char_of (0x80 + r mod 64)]
      else if r < 0x10000 then
        [char_of (0xE0 + r div 4096), char_of (0x80 + r div 64 mod 64), char_of (0x80 + r mod 64)]
      else [char_of (0xF0 + r div 262144), char_of (0x80 + r div 4096 mod 64),
            char_of (0x80 + r div 64 mod 64), char_of (0x80 + r mod 64)])"

section \<open>Rendering\<close>

datatype json =
    JNull
  | JBool bool
  | JNum string
  | JStr string
  | JArr "json list"
  | JObj "(string \<times> json) list"

definition bslash :: char where "bslash = CHR 0x5C"
definition quote :: char where "quote = CHR 0x22"

definition hexd :: "nat \<Rightarrow> char" where
  "hexd n = (if n < 10 then char_of (48 + n) else char_of (87 + n))"

definition esc_ascii :: "char \<Rightarrow> string" where
  "esc_ascii c =
     (if c = bslash \<or> c = quote then [bslash, c]
      else if c = CHR 0x08 then [bslash, CHR ''b'']
      else if c = CHR 0x0C then [bslash, CHR ''f'']
      else if c = CHR 0x0A then [bslash, CHR ''n'']
      else if c = CHR 0x0D then [bslash, CHR ''r'']
      else if c = CHR 0x09 then [bslash, CHR ''t'']
      else if byte c < 0x20 \<or> c = CHR ''<'' \<or> c = CHR ''>'' \<or> c = CHR ''&''
        then [bslash, CHR ''u'', CHR ''0'', CHR ''0'', hexd (byte c div 16), hexd (byte c mod 16)]
      else [c])"

fun json_chars :: "string \<Rightarrow> string" where
  "json_chars [] = []"
| "json_chars (c # cs) =
     (if byte c < 0x80 then esc_ascii c @ json_chars cs
      else (case utf8_decode (c # cs) of (r, n) \<Rightarrow>
        if r = 0xFFFD \<and> n = 1 then bslash # ''ufffd'' @ json_chars cs
        else if r = 0x2028 then bslash # ''u2028'' @ json_chars (drop (n - 1) cs)
        else if r = 0x2029 then bslash # ''u2029'' @ json_chars (drop (n - 1) cs)
        else take n (c # cs) @ json_chars (drop (n - 1) cs)))"

definition json_string :: "string \<Rightarrow> string" where
  "json_string s = quote # json_chars s @ [quote]"

fun dec_nat :: "nat \<Rightarrow> string" where
  "dec_nat n = (if n < 10 then [char_of (48 + n)] else dec_nat (n div 10) @ [char_of (48 + n mod 10)])"

declare dec_nat.simps [simp del]

definition dec_int :: "int \<Rightarrow> string" where
  "dec_int n = (if n < 0 then CHR ''-'' # dec_nat (nat (- n)) else dec_nat (nat n))"

fun comma_sep :: "string list \<Rightarrow> string" where
  "comma_sep [] = []"
| "comma_sep [x] = x"
| "comma_sep (x # y # ys) = x @ CHR '','' # comma_sep (y # ys)"

fun json_print :: "json \<Rightarrow> string" where
  "json_print JNull = ''null''"
| "json_print (JBool b) = (if b then ''true'' else ''false'')"
| "json_print (JNum s) = s"
| "json_print (JStr s) = json_string s"
| "json_print (JArr vs) = CHR ''['' # comma_sep (map json_print vs) @ '']''"
| "json_print (JObj ms) =
     CHR ''{'' # comma_sep (map (\<lambda>(k, v). json_string k @ CHR '':'' # json_print v) ms) @ ''}''"

definition j_uint :: "'a::len word \<Rightarrow> json" where
  "j_uint w = JNum (dec_nat (unat w))"

definition j_duration :: "duration \<Rightarrow> json" where
  "j_duration d = JNum (dec_int (sint d))"

text \<open>A byte slice is a base64 string, the nil slice \<open>null\<close>.\<close>

definition b64_char :: "nat \<Rightarrow> char" where
  "b64_char n = (if n < 26 then char_of (65 + n) else if n < 52 then char_of (71 + n)
     else if n < 62 then char_of (n - 4) else if n = 62 then CHR ''+'' else CHR ''/'')"

fun base64 :: "string \<Rightarrow> string" where
  "base64 (a # b # c # cs) =
     [b64_char (byte a div 4), b64_char (byte a mod 4 * 16 + byte b div 16),
      b64_char (byte b mod 16 * 4 + byte c div 64), b64_char (byte c mod 64)] @ base64 cs"
| "base64 [a, b] =
     [b64_char (byte a div 4), b64_char (byte a mod 4 * 16 + byte b div 16),
      b64_char (byte b mod 16 * 4), CHR ''='']"
| "base64 [a] = [b64_char (byte a div 4), b64_char (byte a mod 4 * 16), CHR ''='', CHR ''='']"
| "base64 [] = []"

definition j_bytes :: "bytes \<Rightarrow> json" where
  "j_bytes b = (case b of None \<Rightarrow> JNull | Some s \<Rightarrow> JStr (base64 s))"

text \<open>
  \<open>Time.MarshalJSON\<close> of a UTC instant (RFC 3339 with nanoseconds, trailing zeros dropped); it is
  an error outside the years 0 to 9999, and \<open>json.Marshal\<close> of the enclosing value then fails.
\<close>

definition civil_date :: "int \<Rightarrow> int \<times> int \<times> int" where
  "civil_date days =
     (let z = days + 306; era = z div 146097; doe = z mod 146097;
          yoe = (doe - doe div 1460 + doe div 36524 - doe div 146096) div 365;
          doy = doe - (365 * yoe + yoe div 4 - yoe div 100);
          mp = (5 * doy + 2) div 153;
          d = doy - (153 * mp + 2) div 5 + 1;
          m = (if mp < 10 then mp + 3 else mp - 9);
          y = yoe + era * 400 + (if m \<le> 2 then 1 else 0)
      in (y, m, d))"

definition pad_to :: "nat \<Rightarrow> int \<Rightarrow> string" where
  "pad_to w n = (let s = dec_nat (nat n) in replicate (w - length s) (CHR ''0'') @ s)"

definition drop_zeros :: "string \<Rightarrow> string" where
  "drop_zeros s = rev (dropWhile (\<lambda>c. c = CHR ''0'') (rev s))"

definition time_text :: "gotime \<Rightarrow> string option" where
  "time_text t =
     (let ns = wall t mod 1000000000; secs = wall t div 1000000000;
          days = secs div 86400; tod = secs mod 86400
      in case civil_date days of (y, m, d) \<Rightarrow>
        if y < 0 \<or> 9999 < y then None
        else Some (pad_to 4 y @ ''-'' @ pad_to 2 m @ ''-'' @ pad_to 2 d @ ''T''
          @ pad_to 2 (tod div 3600) @ '':'' @ pad_to 2 (tod div 60 mod 60) @ '':''
          @ pad_to 2 (tod mod 60)
          @ (if ns = 0 then [] else ''.'' @ drop_zeros (pad_to 9 ns)) @ ''Z''))"

definition j_time :: "gotime \<Rightarrow> json option" where
  "j_time t = map_option JStr (time_text t)"

text \<open>\<open>json.Marshal\<close>: the text, or the nil slice when a member fails to marshal.\<close>

definition marshal :: "json option \<Rightarrow> string" where
  "marshal v = (case v of None \<Rightarrow> [] | Some j \<Rightarrow> json_print j)"

text \<open>An object one of whose members may fail.\<close>

fun j_members :: "(string \<times> json option) list \<Rightarrow> (string \<times> json) list option" where
  "j_members [] = Some []"
| "j_members ((k, v) # ms) = (case v of None \<Rightarrow> None | Some j \<Rightarrow>
     (case j_members ms of None \<Rightarrow> None | Some js \<Rightarrow> Some ((k, j) # js)))"

definition j_object :: "(string \<times> json option) list \<Rightarrow> json option" where
  "j_object ms = map_option JObj (j_members ms)"

fun j_list :: "json option list \<Rightarrow> json list option" where
  "j_list [] = Some []"
| "j_list (v # vs) = (case v of None \<Rightarrow> None | Some j \<Rightarrow>
     (case j_list vs of None \<Rightarrow> None | Some js \<Rightarrow> Some (j # js)))"

definition j_array :: "json option list \<Rightarrow> json option" where
  "j_array vs = map_option JArr (j_list vs)"

lemma j_members_None: "j_members ms = None \<longleftrightarrow> (\<exists>k. (k, None) \<in> set ms)"
  by (induction ms rule: j_members.induct) (auto split: option.splits)

lemma j_list_None: "j_list vs = None \<longleftrightarrow> None \<in> set vs"
  by (induction vs) (auto split: option.splits)

section \<open>Parsing\<close>

definition is_ws :: "char \<Rightarrow> bool" where
  "is_ws c \<longleftrightarrow> c = CHR 0x20 \<or> c = CHR 0x09 \<or> c = CHR 0x0A \<or> c = CHR 0x0D"

definition skip_ws :: "string \<Rightarrow> string" where
  "skip_ws s = dropWhile is_ws s"

definition hex_val :: "char \<Rightarrow> nat option" where
  "hex_val c =
     (if in_range 48 57 c then Some (byte c - 48)
      else if in_range 97 102 c then Some (byte c - 87)
      else if in_range 65 70 c then Some (byte c - 55) else None)"

definition hex4 :: "string \<Rightarrow> nat option" where
  "hex4 s = (case s of a # b # c # d # _ \<Rightarrow>
       (case (hex_val a, hex_val b, hex_val c, hex_val d) of
          (Some w, Some x, Some y, Some z) \<Rightarrow> Some (((w * 16 + x) * 16 + y) * 16 + z)
        | _ \<Rightarrow> None)
     | _ \<Rightarrow> None)"

definition unescape :: "char \<Rightarrow> char option" where
  "unescape e =
     (if e = quote \<or> e = bslash \<or> e = CHR ''/'' then Some e
      else if e = CHR ''b'' then Some (CHR 0x08)
      else if e = CHR ''f'' then Some (CHR 0x0C)
      else if e = CHR ''n'' then Some (CHR 0x0A)
      else if e = CHR ''r'' then Some (CHR 0x0D)
      else if e = CHR ''t'' then Some (CHR 0x09)
      else None)"

definition u4_escape :: "string \<Rightarrow> nat option" where
  "u4_escape s = (case s of a # b # r \<Rightarrow> if a = bslash \<and> b = CHR ''u'' then hex4 r else None
     | _ \<Rightarrow> None)"

definition low_surrogate :: "nat \<Rightarrow> string \<Rightarrow> nat option" where
  "low_surrogate r s = (case u4_escape s of None \<Rightarrow> None
     | Some r2 \<Rightarrow> if r < 0xDC00 \<and> 0xDC00 \<le> r2 \<and> r2 \<le> 0xDFFF
         then Some ((r - 0xD800) * 1024 + (r2 - 0xDC00) + 0x10000) else None)"

definition prepend :: "string \<Rightarrow> (string \<times> string) option \<Rightarrow> (string \<times> string) option" where
  "prepend p r = (case r of None \<Rightarrow> None | Some (s, rest) \<Rightarrow> Some (p @ s, rest))"

text \<open>The characters of a string literal after its opening quote, unquoted, and the rest.\<close>

function json_str :: "string \<Rightarrow> (string \<times> string) option" where
  "json_str [] = None"
| "json_str (c # cs) =
     (if c = quote then Some ([], cs)
      else if c = bslash then
        (case cs of [] \<Rightarrow> None | e # rest \<Rightarrow>
           if e = CHR ''u'' then
             (case hex4 rest of None \<Rightarrow> None | Some r \<Rightarrow>
                if 0xD800 \<le> r \<and> r \<le> 0xDFFF then
                  (case low_surrogate r (drop 4 rest) of
                     Some r2 \<Rightarrow> prepend (utf8_encode r2) (json_str (drop 10 rest))
                   | None \<Rightarrow> prepend (utf8_encode 0xFFFD) (json_str (drop 4 rest)))
                else prepend (utf8_encode r) (json_str (drop 4 rest)))
           else (case unescape e of None \<Rightarrow> None | Some b \<Rightarrow> prepend [b] (json_str rest)))
      else if byte c < 0x20 then None
      else if byte c < 0x80 then prepend [c] (json_str cs)
      else (case utf8_decode (c # cs) of (r, n) \<Rightarrow>
              prepend (utf8_encode r) (json_str (drop (n - 1) cs))))"
  by pat_completeness auto
termination
  by (relation "measure length") auto

declare json_str.simps [simp del]

definition span_digits :: "string \<Rightarrow> string \<times> string" where
  "span_digits s = (takeWhile is_digit s, dropWhile is_digit s)"

definition json_int_part :: "string \<Rightarrow> (string \<times> string) option" where
  "json_int_part s = (case s of [] \<Rightarrow> None | c # cs \<Rightarrow>
     if c = CHR ''0'' then Some ([c], cs)
     else if is_digit c then Some (span_digits s) else None)"

definition json_frac :: "string \<Rightarrow> (string \<times> string) option" where
  "json_frac s = (case s of c # cs \<Rightarrow>
       if c = CHR ''.'' then (case span_digits cs of (ds, r) \<Rightarrow>
         if ds = [] then None else Some (c # ds, r)) else Some ([], s)
     | [] \<Rightarrow> Some ([], s))"

definition json_exp :: "string \<Rightarrow> (string \<times> string) option" where
  "json_exp s = (case s of c # cs \<Rightarrow>
       if c = CHR ''e'' \<or> c = CHR ''E'' then
         (let (sg, r0) = (case cs of g # gs \<Rightarrow>
                if g = CHR ''+'' \<or> g = CHR ''-'' then ([g], gs) else ([], cs) | [] \<Rightarrow> ([], cs))
          in case span_digits r0 of (ds, r) \<Rightarrow>
               if ds = [] then None else Some (c # sg @ ds, r))
       else Some ([], s)
     | [] \<Rightarrow> Some ([], s))"

definition json_number :: "string \<Rightarrow> (string \<times> string) option" where
  "json_number s =
     (let (sg, s0) = (case s of c # cs \<Rightarrow> if c = CHR ''-'' then ([c], cs) else ([], s)
                      | [] \<Rightarrow> ([], s))
      in case json_int_part s0 of None \<Rightarrow> None | Some (i, s1) \<Rightarrow>
        (case json_frac s1 of None \<Rightarrow> None | Some (f, s2) \<Rightarrow>
          (case json_exp s2 of None \<Rightarrow> None | Some (e, s3) \<Rightarrow> Some (sg @ i @ f @ e, s3))))"

definition json_literal :: "string \<Rightarrow> (json \<times> string) option" where
  "json_literal s =
     (if take 4 s = ''null'' then Some (JNull, drop 4 s)
      else if take 4 s = ''true'' then Some (JBool True, drop 4 s)
      else if take 5 s = ''false'' then Some (JBool False, drop 5 s)
      else case json_number s of None \<Rightarrow> None | Some (t, r) \<Rightarrow> Some (JNum t, r))"

text \<open>
  Values, object members and array elements. The first argument bounds the nesting of calls;
  each call consumes at least one byte, so the length of the input is enough.
\<close>

fun pj_value :: "nat \<Rightarrow> string \<Rightarrow> (json \<times> string) option"
  and pj_members :: "nat \<Rightarrow> string \<Rightarrow> ((string \<times> json) list \<times> string) option"
  and pj_elems :: "nat \<Rightarrow> string \<Rightarrow> (json list \<times> string) option" where
  "pj_value 0 s = None"
| "pj_value (Suc n) s = (case skip_ws s of [] \<Rightarrow> None | c # cs \<Rightarrow>
     if c = CHR ''{'' then
       (case skip_ws cs of [] \<Rightarrow> None | d # ds \<Rightarrow>
          if d = CHR ''}'' then Some (JObj [], ds)
          else (case pj_members n (d # ds) of None \<Rightarrow> None | Some (ms, r) \<Rightarrow> Some (JObj ms, r)))
     else if c = CHR ''['' then
       (case skip_ws cs of [] \<Rightarrow> None | d # ds \<Rightarrow>
          if d = CHR '']'' then Some (JArr [], ds)
          else (case pj_elems n (d # ds) of None \<Rightarrow> None | Some (vs, r) \<Rightarrow> Some (JArr vs, r)))
     else if c = quote then
       (case json_str cs of None \<Rightarrow> None | Some (t, r) \<Rightarrow> Some (JStr t, r))
     else json_literal (c # cs))"
| "pj_members 0 s = None"
| "pj_members (Suc n) s = (case skip_ws s of [] \<Rightarrow> None | q # cs \<Rightarrow>
     if q \<noteq> quote then None else
     (case json_str cs of None \<Rightarrow> None | Some (k, r) \<Rightarrow>
     (case skip_ws r of [] \<Rightarrow> None | d # r1 \<Rightarrow>
     if d \<noteq> CHR '':'' then None else
     (case pj_value n r1 of None \<Rightarrow> None | Some (v, r2) \<Rightarrow>
     (case skip_ws r2 of [] \<Rightarrow> None | e # r3 \<Rightarrow>
     if e = CHR ''}'' then Some ([(k, v)], r3)
     else if e = CHR '','' then
       (case pj_members n r3 of None \<Rightarrow> None | Some (ms, r4) \<Rightarrow> Some ((k, v) # ms, r4))
     else None)))))"
| "pj_elems 0 s = None"
| "pj_elems (Suc n) s = (case pj_value n s of None \<Rightarrow> None | Some (v, r) \<Rightarrow>
     (case skip_ws r of [] \<Rightarrow> None | e # r1 \<Rightarrow>
     if e = CHR '']'' then Some ([v], r1)
     else if e = CHR '','' then
       (case pj_elems n r1 of None \<Rightarrow> None | Some (vs, r2) \<Rightarrow> Some (v # vs, r2))
     else None))"

text \<open>
  \<open>Decode\<close> of one value followed by a second \<open>Decode\<close> that must report \<open>io.EOF\<close>: exactly one
  value surrounded by white space.
\<close>

definition json_single :: "string \<Rightarrow> json option" where
  "json_single s = (case pj_value (Suc (length s)) s of None \<Rightarrow> None
     | Some (v, r) \<Rightarrow> if skip_ws r = [] then Some v else None)"

section \<open>Decoding into struct fields\<close>

text \<open>
  A member key selects the field of that exact name, or else the field with the same folded
  name: ASCII letters fold to upper case, U+017F to S and U+212A to K.
\<close>

fun fold_name :: "string \<Rightarrow> string" where
  "fold_name [] = []"
| "fold_name (c # cs) =
     (if c = CHR 0xC5 \<and> take 1 cs = [CHR 0xBF] then CHR ''S'' # fold_name (drop 1 cs)
      else if c = CHR 0xE2 \<and> take 2 cs = [CHR 0x84, CHR 0xAA]
        then CHR ''K'' # fold_name (drop 2 cs)
      else if in_range 97 122 c then char_of (byte c - 32) # fold_name cs
      else c # fold_name cs)"

definition match_field :: "string list \<Rightarrow> string \<Rightarrow> string option" where
  "match_field names key =
     (if key \<in> set names then Some key
      else List.find (\<lambda>n. fold_name n = fold_name key) names)"

definition read_string :: "string \<Rightarrow> json \<Rightarrow> string option" where
  "read_string old v = (case v of JNull \<Rightarrow> Some old | JStr s \<Rightarrow> Some s | _ \<Rightarrow> None)"

definition nat_of_digits :: "string \<Rightarrow> nat" where
  "nat_of_digits s = foldl (\<lambda>n c. 10 * n + (byte c - 48)) 0 s"

definition read_uint :: "'a::len word \<Rightarrow> json \<Rightarrow> 'a word option" where
  "read_uint old v = (case v of
     JNull \<Rightarrow> Some old
   | JNum t \<Rightarrow> if t \<noteq> [] \<and> list_all is_digit t \<and> nat_of_digits t < 2 ^ LENGTH('a)
               then Some (of_nat (nat_of_digits t)) else None
   | _ \<Rightarrow> None)"

fun fold_members :: "('d \<Rightarrow> string \<times> json \<Rightarrow> 'd option) \<Rightarrow> 'd \<Rightarrow> (string \<times> json) list \<Rightarrow> 'd option" where
  "fold_members f d [] = Some d"
| "fold_members f d (m # ms) = (case f d m of None \<Rightarrow> None | Some d' \<Rightarrow> fold_members f d' ms)"

definition decode_struct :: "('d \<Rightarrow> string \<times> json \<Rightarrow> 'd option) \<Rightarrow> 'd \<Rightarrow> string \<Rightarrow> 'd option" where
  "decode_struct f z s = (case json_single s of
     None \<Rightarrow> None
   | Some JNull \<Rightarrow> Some z
   | Some (JObj ms) \<Rightarrow> fold_members f z ms
   | Some _ \<Rightarrow> None)"

section \<open>Round trips\<close>

text \<open>
  Strings over the identifier alphabet are rendered without escapes and read back unchanged,
  decimal numbers are read back as the number, and so every object of such members is read
  back as itself.
\<close>

abbreviation plain :: "string \<Rightarrow> bool" where
  "plain s \<equiv> list_all id_char s"

lemma id_char_byte: "id_char c \<Longrightarrow> 45 \<le> byte c \<and> byte c \<le> 122 \<and> byte c \<noteq> 92 \<and> byte c \<noteq> 60 \<and> byte c \<noteq> 62"
  by (auto simp: id_char_def name_char_def is_alnum_def is_digit_def in_range_def byte_def)

lemma id_char_special:
  assumes "id_char c"
  shows "c \<noteq> quote" "c \<noteq> bslash" "\<not> byte c < 0x20" "byte c < 0x80"
  using id_char_byte [OF assms] by (auto simp: quote_def bslash_def byte_def)

lemma escaped_not_id_char:
  "\<not> id_char (CHR 0x08)" "\<not> id_char (CHR 0x0C)" "\<not> id_char (CHR 0x0A)" "\<not> id_char (CHR 0x0D)"
  "\<not> id_char (CHR 0x09)" "\<not> id_char (CHR ''<'')" "\<not> id_char (CHR ''>'')" "\<not> id_char (CHR ''&'')"
  by (simp_all add: id_char_def name_char_def is_alnum_def is_digit_def in_range_def)

lemma esc_ascii_id_char:
  assumes "id_char c"
  shows "esc_ascii c = [c]"
proof -
  have "c \<noteq> CHR 0x08" "c \<noteq> CHR 0x0C" "c \<noteq> CHR 0x0A" "c \<noteq> CHR 0x0D"
    "c \<noteq> CHR 0x09" "c \<noteq> CHR ''<''" "c \<noteq> CHR ''>''" "c \<noteq> CHR ''&''"
    using assms escaped_not_id_char by metis+
  then show ?thesis
    using id_char_special [OF assms] by (simp add: esc_ascii_def)
qed

lemma json_chars_plain [simp]: "plain s \<Longrightarrow> json_chars s = s"
  by (induction s) (simp_all add: esc_ascii_id_char id_char_special)

lemma json_str_quote [simp]: "json_str (quote # rest) = Some ([], rest)"
  by (simp add: json_str.simps)

lemma json_str_plain [simp]: "plain s \<Longrightarrow> json_str (s @ quote # rest) = Some (s, rest)"
  by (induction s) (simp_all add: json_str.simps(2) id_char_special prepend_def)

lemma of_char_digit [simp]: "n < 10 \<Longrightarrow> of_char (char_of (48 + n :: nat)) = (48 + n :: nat)"
  by simp

lemma digit_of_char: "n < 10 \<Longrightarrow> is_digit (char_of (48 + n :: nat))"
  by (simp add: is_digit_def in_range_def)

lemma byte_digit [simp]: "n < 10 \<Longrightarrow> byte (char_of (48 + n :: nat)) = 48 + n"
  by (simp add: byte_def)

lemma byte_0: "byte (CHR ''0'') = 48"
  by (simp add: byte_def)

lemma dec_nat_digits: "list_all is_digit (dec_nat n)"
proof (induction n rule: dec_nat.induct)
  case (1 n)
  then show ?case by (subst dec_nat.simps) (auto intro: digit_of_char)
qed

lemma dec_nat_nonempty [simp]: "dec_nat n \<noteq> []"
  by (subst dec_nat.simps) simp

lemma dec_nat_hd: "0 < n \<Longrightarrow> hd (dec_nat n) \<noteq> CHR ''0''"
proof (induction n rule: dec_nat.induct)
  case (1 n)
  show ?case
  proof (cases "n < 10")
    case True
    then have "byte (char_of (48 + n)) \<noteq> byte (CHR ''0'')"
      using 1 by (simp add: byte_0)
    then have "char_of (48 + n) \<noteq> CHR ''0''" by metis
    with True show ?thesis by (subst dec_nat.simps) simp
  next
    case False
    with 1 show ?thesis by (subst dec_nat.simps) simp
  qed
qed

lemma nat_of_digits_dec_nat [simp]: "nat_of_digits (dec_nat n) = n"
proof (induction n rule: dec_nat.induct)
  case (1 n)
  then show ?case by (subst dec_nat.simps) (simp add: nat_of_digits_def)
qed

definition num_stop :: "char \<Rightarrow> bool" where
  "num_stop c \<longleftrightarrow> c = CHR '','' \<or> c = CHR ''}''"

lemma span_digits_stop:
  assumes "list_all is_digit ds" "num_stop c"
  shows "span_digits (ds @ c # rest) = (ds, c # rest)"
  using assms by (auto simp: span_digits_def num_stop_def list_all_iff takeWhile_append
      dropWhile_append is_digit_def in_range_def)

lemma json_number_dec_nat [simp]:
  assumes "num_stop c"
  shows "json_number (dec_nat n @ c # rest) = Some (dec_nat n, c # rest)"
proof -
  obtain d ds where d: "dec_nat n = d # ds" by (cases "dec_nat n") auto
  have dig: "is_digit d" "list_all is_digit ds"
    using dec_nat_digits [of n] by (simp_all add: d)
  have not_minus: "d \<noteq> CHR ''-''"
    using dig(1) by (auto simp: is_digit_def in_range_def)
  have tail: "json_frac (c # rest) = Some ([], c # rest)" "json_exp (c # rest) = Some ([], c # rest)"
    using assms by (auto simp: json_frac_def json_exp_def num_stop_def)
  have int: "json_int_part (dec_nat n @ c # rest) = Some (dec_nat n, c # rest)"
  proof (cases "n = 0")
    case True
    have "dec_nat n = ''0''"
      by (subst True, subst dec_nat.simps) (simp add: char_of_eq_iff)
    then show ?thesis by (simp add: json_int_part_def)
  next
    case False
    then have "d \<noteq> CHR ''0''" using dec_nat_hd [of n] by (simp add: d)
    with dig assms span_digits_stop [OF dec_nat_digits [of n], of c rest]
    show ?thesis by (simp add: json_int_part_def d)
  qed
  show ?thesis
    using int tail not_minus by (simp add: json_number_def d)
qed

fun flat_value :: "json \<Rightarrow> bool" where
  "flat_value (JStr s) = plain s"
| "flat_value (JNum t) = (\<exists>n. t = dec_nat n)"
| "flat_value _ = False"

lemma skip_ws_keep: "\<not> is_ws c \<Longrightarrow> skip_ws (c # cs) = c # cs"
  by (simp add: skip_ws_def)

lemma not_ws [simp]:
  "\<not> is_ws quote" "\<not> is_ws (CHR ''{'')" "\<not> is_ws (CHR ''}'')" "\<not> is_ws (CHR '','')" "\<not> is_ws (CHR '':'')"
  by (simp_all add: is_ws_def quote_def)

lemma quote_neq [simp]: "quote \<noteq> CHR ''{''" "quote \<noteq> CHR ''['' " "quote \<noteq> CHR ''}''"
  by (simp_all add: quote_def)

lemma pj_value_num:
  assumes "num_stop c"
  shows "pj_value (Suc k) (dec_nat n @ c # rest) = Some (JNum (dec_nat n), c # rest)"
proof -
  obtain d ds where d: "dec_nat n = d # ds" by (cases "dec_nat n") auto
  have dig: "is_digit d" using dec_nat_digits [of n] by (simp add: d)
  then have neq: "\<not> is_ws d" "d \<noteq> CHR ''{''" "d \<noteq> CHR ''[''" "d \<noteq> quote"
    "d \<noteq> CHR ''n''" "d \<noteq> CHR ''t''" "d \<noteq> CHR ''f''"
    by (auto simp: is_digit_def in_range_def is_ws_def quote_def)
  have "json_literal (d # ds @ c # rest) = Some (JNum (dec_nat n), c # rest)"
    using json_number_dec_nat [OF assms, of n rest] neq
    by (simp add: json_literal_def d)
  then show ?thesis
    using neq by (simp add: d skip_ws_keep)
qed

lemma pj_value_flat:
  assumes "flat_value v" "num_stop c"
  shows "pj_value (Suc k) (json_print v @ c # rest) = Some (v, c # rest)"
  using assms by (cases v)
    (auto simp: json_string_def skip_ws_keep pj_value_num simp del: pj_value.simps(2)
      simp: pj_value.simps(2) [of k "quote # _"])

lemma pj_members_flat:
  assumes "ms \<noteq> []" "list_all (\<lambda>(k, v). plain k \<and> flat_value v) ms" "length ms < n"
  shows "pj_members n (comma_sep (map (\<lambda>(k, v). json_string k @ CHR '':'' # json_print v) ms)
           @ CHR ''}'' # rest) = Some (ms, rest)"
  using assms
proof (induction ms arbitrary: n)
  case Nil
  then show ?case by simp
next
  case (Cons m ms)
  obtain k v where m: "m = (k, v)" by (cases m)
  note IH = Cons.IH and prems = Cons.prems
  from prems have kv: "plain k" "flat_value v" by (auto simp: m)
  from Cons.prems obtain n' where n: "n = Suc (Suc n')" "length ms < Suc n'"
    by (cases n; cases "n - 1") auto
  show ?case
  proof (cases ms)
    case Nil
    have "pj_value (Suc n') (json_print v @ CHR ''}'' # rest) = Some (v, CHR ''}'' # rest)"
      by (rule pj_value_flat [OF kv(2)]) (simp add: num_stop_def)
    then show ?thesis
      using kv by (simp add: m n(1) Nil json_string_def skip_ws_keep del: pj_value.simps)
  next
    case (Cons m' ms')
    let ?r = "comma_sep (map (\<lambda>(k, v). json_string k @ CHR '':'' # json_print v) ms) @ CHR ''}'' # rest"
    have v: "pj_value (Suc n') (json_print v @ CHR '','' # ?r) = Some (v, CHR '','' # ?r)"
      by (rule pj_value_flat [OF kv(2)]) (simp add: num_stop_def)
    have ms: "pj_members (Suc n') ?r = Some (ms, rest)"
      by (rule IH) (use prems n(2) Cons in auto)
    have split: "comma_sep (map (\<lambda>(k, v). json_string k @ CHR '':'' # json_print v) (m # ms))
        @ CHR ''}'' # rest
      = quote # k @ quote # CHR '':'' # json_print v @ CHR '','' # ?r"
      using kv by (simp add: m Cons json_string_def)
    show ?thesis
      unfolding split n(1) pj_members.simps(2) [of "Suc n'"]
      using v ms kv by (simp add: skip_ws_keep m del: pj_value.simps pj_members.simps)
  qed
qed

lemma json_single_flat:
  assumes "ms \<noteq> []" "list_all (\<lambda>(k, v). plain k \<and> flat_value v) ms"
  shows "json_single (json_print (JObj ms)) = Some (JObj ms)"
proof -
  let ?body = "comma_sep (map (\<lambda>(k, v). json_string k @ CHR '':'' # json_print v) ms)"
  have len: "length ms \<le> length ?body"
    by (induction ms rule: induct_list012) (auto simp: json_string_def split: prod.splits)
  obtain k v ms' where ms: "ms = (k, v) # ms'" using assms(1) by (cases ms) auto
  obtain bt where bt: "?body = quote # bt"
    by (cases ms') (auto simp: ms json_string_def)
  have "pj_members (Suc (Suc (length ?body))) (?body @ CHR ''}'' # []) = Some (ms, [])"
    by (rule pj_members_flat) (use assms len in auto)
  then have "pj_value (Suc (length (json_print (JObj ms)))) (json_print (JObj ms)) = Some (JObj ms, [])"
    by (simp add: bt skip_ws_keep del: pj_members.simps)
  then show ?thesis
    by (simp add: json_single_def skip_ws_def del: json_print.simps pj_value.simps)
qed

lemma decode_struct_flat:
  assumes "ms \<noteq> []" "list_all (\<lambda>(k, v). plain k \<and> flat_value v) ms"
  shows "decode_struct f z (json_print (JObj ms)) = fold_members f z ms"
  by (simp add: decode_struct_def json_single_flat [OF assms] del: json_print.simps)

lemma flat_j_uint [simp]: "flat_value (j_uint w)"
  by (auto simp: j_uint_def)

lemma read_uint_j_uint [simp]: "read_uint z (j_uint (w :: 'a::len word)) = Some w"
  by (simp add: read_uint_def j_uint_def dec_nat_digits unsigned_less)

lemma read_string_JStr [simp]: "read_string z (JStr s) = Some s"
  by (simp add: read_string_def)

end
