(* ===== verification/Digest.thy ===== *)
theory Digest
  imports Prelude
begin

text \<open>
  Go's \<open>crypto/sha256\<close> and \<open>encoding/hex\<close>, as the module uses them: \<open>sha256_hex s\<close> is
  \<open>hex.EncodeToString(sha256.Sum256([]byte(s)))\<close>. Definition fingerprints, transition
  fingerprints, resolution fingerprints and processor transition identities are all of this form.
\<close>

unbundle bit_operations_syntax

section \<open>SHA-256\<close>

definition rotr32 :: "nat \<Rightarrow> uint32 \<Rightarrow> uint32" where
  "rotr32 n x = drop_bit n x OR push_bit (32 - n) x"

definition sha_ch :: "uint32 \<Rightarrow> uint32 \<Rightarrow> uint32 \<Rightarrow> uint32" where
  "sha_ch x y z = (x AND y) XOR (NOT x AND z)"

definition sha_maj :: "uint32 \<Rightarrow> uint32 \<Rightarrow> uint32 \<Rightarrow> uint32" where
  "sha_maj x y z = (x AND y) XOR (x AND z) XOR (y AND z)"

definition sha_Sigma0 :: "uint32 \<Rightarrow> uint32" where
  "sha_Sigma0 x = rotr32 2 x XOR rotr32 13 x XOR rotr32 22 x"

definition sha_Sigma1 :: "uint32 \<Rightarrow> uint32" where
  "sha_Sigma1 x = rotr32 6 x XOR rotr32 11 x XOR rotr32 25 x"

definition sha_sigma0 :: "uint32 \<Rightarrow> uint32" where
  "sha_sigma0 x = rotr32 7 x XOR rotr32 18 x XOR drop_bit 3 x"

definition sha_sigma1 :: "uint32 \<Rightarrow> uint32" where
  "sha_sigma1 x = rotr32 17 x XOR rotr32 19 x XOR drop_bit 10 x"

text \<open>The round constants, from the cube roots of the first 64 primes, in decimal.\<close>

definition sha_K :: "uint32 list" where
  "sha_K = [1116352408, 1899447441, 3049323471, 3921009573, 961987163, 1508970993,
    2453635748, 2870763221, 3624381080, 310598401, 607225278, 1426881987,
    1925078388, 2162078206, 2614888103, 3248222580, 3835390401, 4022224774,
    264347078, 604807628, 770255983, 1249150122, 1555081692, 1996064986,
    2554220882, 2821834349, 2952996808, 3210313671, 3336571891, 3584528711,
    113926993, 338241895, 666307205, 773529912, 1294757372, 1396182291,
    1695183700, 1986661051, 2177026350, 2456956037, 2730485921, 2820302411,
    3259730800, 3345764771, 3516065817, 3600352804, 4094571909, 275423344,
    430227734, 506948616, 659060556, 883997877, 958139571, 1322822218,
    1537002063, 1747873779, 1955562222, 2024104815, 2227730452, 2361852424,
    2428436474, 2756734187, 3204031479, 3329325298]"

type_synonym sha_state =
  "uint32 \<times> uint32 \<times> uint32 \<times> uint32 \<times> uint32 \<times> uint32 \<times> uint32 \<times> uint32"

definition sha_init :: sha_state where
  "sha_init = (1779033703, 3144134277, 1013904242, 2773480762, 1359893119, 2600822924,
    528734635, 1541459225)"

text \<open>The message schedule, newest word first, and one compression round.\<close>

definition sha_extend :: "uint32 list \<Rightarrow> uint32 list" where
  "sha_extend ws =
     (sha_sigma1 (ws ! 1) + ws ! 6 + sha_sigma0 (ws ! 14) + ws ! 15) # ws"

definition sha_schedule :: "uint32 list \<Rightarrow> uint32 list" where
  "sha_schedule block = rev ((sha_extend ^^ 48) (rev block))"

definition sha_round :: "uint32 \<times> uint32 \<Rightarrow> sha_state \<Rightarrow> sha_state" where
  "sha_round = (\<lambda>(k, w) (a, b, c, d, e, f, g, h).
     let t1 = h + sha_Sigma1 e + sha_ch e f g + k + w;
         t2 = sha_Sigma0 a + sha_maj a b c
     in (t1 + t2, a, b, c, d + t1, e, f, g))"

definition sha_add :: "sha_state \<Rightarrow> sha_state \<Rightarrow> sha_state" where
  "sha_add = (\<lambda>(a, b, c, d, e, f, g, h) (a', b', c', d', e', f', g', h').
     (a + a', b + b', c + c', d + d', e + e', f + f', g + g', h + h'))"

definition sha_block :: "uint32 list \<Rightarrow> sha_state \<Rightarrow> sha_state" where
  "sha_block block s = sha_add s (fold sha_round (zip sha_K (sha_schedule block)) s)"

text \<open>Padding: a one bit, zeros up to 56 modulo 64 bytes, the bit length as 64 bits.\<close>

fun be_bytes :: "nat \<Rightarrow> nat \<Rightarrow> nat list" where
  "be_bytes 0 n = []"
| "be_bytes (Suc k) n = be_bytes k (n div 256) @ [n mod 256]"

definition sha_pad :: "nat list \<Rightarrow> nat list" where
  "sha_pad bs = bs @ [128] @ replicate ((119 - length bs mod 64) mod 64) 0
     @ be_bytes 8 (8 * length bs)"

fun words_of :: "nat list \<Rightarrow> uint32 list" where
  "words_of (a # b # c # d # bs) =
     of_nat (((a * 256 + b) * 256 + c) * 256 + d) # words_of bs"
| "words_of bs = []"

fun sha_blocks :: "nat \<Rightarrow> uint32 list \<Rightarrow> sha_state \<Rightarrow> sha_state" where
  "sha_blocks 0 ws s = s"
| "sha_blocks (Suc k) ws s = sha_blocks k (drop 16 ws) (sha_block (take 16 ws) s)"

definition sha256_state :: "string \<Rightarrow> sha_state" where
  "sha256_state s =
     (let padded = sha_pad (map of_char s)
      in sha_blocks (length padded div 64) (words_of padded) sha_init)"

definition state_words :: "sha_state \<Rightarrow> uint32 list" where
  "state_words = (\<lambda>(a, b, c, d, e, f, g, h). [a, b, c, d, e, f, g, h])"

section \<open>Hexadecimal rendering\<close>

definition hex_digit :: "nat \<Rightarrow> char" where
  "hex_digit n = (if n < 10 then char_of (48 + n) else char_of (87 + n))"

fun hex_nat :: "nat \<Rightarrow> nat \<Rightarrow> string" where
  "hex_nat 0 n = []"
| "hex_nat (Suc k) n = hex_nat k (n div 16) @ [hex_digit (n mod 16)]"

definition sha256_hex :: "string \<Rightarrow> string" where
  "sha256_hex s = concat (map (\<lambda>w. hex_nat 8 (unat w)) (state_words (sha256_state s)))"

lemma hex_char_hex_digit: "n < 16 \<Longrightarrow> hex_char (hex_digit n)"
  by (auto simp: hex_digit_def hex_char_def is_digit_def in_range_def)

lemma length_hex_nat [simp]: "length (hex_nat k n) = k"
  by (induction k arbitrary: n) simp_all

lemma hex_char_hex_nat: "list_all hex_char (hex_nat k n)"
  by (induction k arbitrary: n) (simp_all add: hex_char_hex_digit)

lemma length_concat_const:
  "(\<And>x. x \<in> set xs \<Longrightarrow> length (f x) = k) \<Longrightarrow> length (concat (map f xs)) = k * length xs"
  by (induction xs) simp_all

text \<open>Every digest is a well-formed fingerprint.\<close>

lemma sha256_hex_fingerprint [simp]: "fingerprintPattern (sha256_hex s)"
proof -
  have "length (state_words (sha256_state s)) = 8"
    by (simp add: state_words_def split: prod.split)
  then show ?thesis
    by (auto simp: fingerprintPattern_def sha256_hex_def list_all_iff length_concat_const
        dest: hex_char_hex_nat [THEN list_all_iff [THEN iffD1], rule_format])
qed

lemma sha256_hex_nonempty [simp]: "sha256_hex s \<noteq> []"
  using fingerprintPattern_nonempty [OF sha256_hex_fingerprint] .

end
