(* ===== verification/Workflow_Definition.thy ===== *)
theory Workflow_Definition
  imports Json Digest
begin

text \<open>
  Immutable workflow definitions (definition.go) and the definition identity
  \<open>DefinitionReference\<close> (history.go): the step records, the validator with its three loops, the
  fingerprint of the Go JSON rendering, and what an accepted definition guarantees.
\<close>

section \<open>Data\<close>

definition MaxPayloadBytes :: nat where "MaxPayloadBytes = 16 * 2 ^ 20"
definition MaxFanOut :: nat where "MaxFanOut = 10000"

text \<open>Each enumeration has one further value for every number outside its declared range.\<close>

datatype ExecutionMode = Orchestration | Choreography | ModeInvalid

datatype StepKind =
    StepActivity | StepSignal | StepTimer | StepChild | StepParallel | StepJoin | StepRace
  | StepApproval | StepKindInvalid

record DefinitionReference =
  dr_name :: string
  dr_version :: string
  dr_fingerprint :: string

definition zero_DefinitionReference :: DefinitionReference where
  "zero_DefinitionReference = \<lparr>dr_name = [], dr_version = [], dr_fingerprint = []\<rparr>"

definition reference_valid :: "DefinitionReference \<Rightarrow> bool" where
  "reference_valid reference \<longleftrightarrow> stableName (dr_name reference) \<and>
     stableName (dr_version reference) \<and> fingerprintPattern (dr_fingerprint reference)"

definition NewDefinitionReference :: "string \<Rightarrow> string \<Rightarrow> string \<Rightarrow> DefinitionReference result" where
  "NewDefinitionReference name version fingerprint =
     (let reference = \<lparr>dr_name = name, dr_version = version, dr_fingerprint = fingerprint\<rparr>
      in if \<not> reference_valid reference then Inl ErrInvalidDefinitionReference else Inr reference)"

record RetryPolicy =
  rp_MaxAttempts :: uint32
  rp_InitialDelay :: duration
  rp_MaxDelay :: duration

record CompensationSpec =
  cs_Target :: string
  cs_Timeout :: duration
  cs_ResultLimit :: uint32
  cs_Retry :: RetryPolicy

record StepSpec =
  st_Name :: string
  st_Kind :: StepKind
  st_Target :: string
  st_ChildDefinition :: DefinitionReference
  st_Branches :: "string list"
  st_Timeout :: duration
  st_InputLimit :: uint32
  st_ResultLimit :: uint32
  st_Retry :: RetryPolicy
  st_FanOutLimit :: uint32
  st_Compensation :: "CompensationSpec option"

record DefinitionSpec =
  ds_Name :: string
  ds_Version :: string
  ds_Mode :: ExecutionMode
  ds_Deprecated :: bool
  ds_Steps :: "StepSpec list"

record Definition =
  def_spec :: DefinitionSpec
  def_fingerprint :: string

definition zero_RetryPolicy :: RetryPolicy where
  "zero_RetryPolicy = \<lparr>rp_MaxAttempts = 0, rp_InitialDelay = 0, rp_MaxDelay = 0\<rparr>"

definition zero_StepSpec :: StepSpec where
  "zero_StepSpec = \<lparr>st_Name = [], st_Kind = StepKindInvalid, st_Target = [],
     st_ChildDefinition = zero_DefinitionReference, st_Branches = [], st_Timeout = 0,
     st_InputLimit = 0, st_ResultLimit = 0, st_Retry = zero_RetryPolicy, st_FanOutLimit = 0,
     st_Compensation = None\<rparr>"

definition zero_Definition :: Definition where
  "zero_Definition = \<lparr>def_spec = \<lparr>ds_Name = [], ds_Version = [], ds_Mode = ModeInvalid,
     ds_Deprecated = False, ds_Steps = []\<rparr>, def_fingerprint = []\<rparr>"

abbreviation def_Name :: "Definition \<Rightarrow> string" where
  "def_Name d \<equiv> ds_Name (def_spec d)"

abbreviation def_Version :: "Definition \<Rightarrow> string" where
  "def_Version d \<equiv> ds_Version (def_spec d)"

abbreviation def_Mode :: "Definition \<Rightarrow> ExecutionMode" where
  "def_Mode d \<equiv> ds_Mode (def_spec d)"

section \<open>Validation\<close>

definition validPayloadLimit :: "uint32 \<Rightarrow> bool" where
  "validPayloadLimit limit \<longleftrightarrow> limit > 0 \<and> unat limit \<le> MaxPayloadBytes"

definition validRetry :: "RetryPolicy \<Rightarrow> bool" where
  "validRetry policy \<longleftrightarrow> rp_MaxAttempts policy > 0 \<and> sint (rp_InitialDelay policy) > 0 \<and>
     sint (rp_MaxDelay policy) \<ge> sint (rp_InitialDelay policy)"

fun validBranchNames_loop :: "string set \<Rightarrow> string list \<Rightarrow> bool" where
  "validBranchNames_loop seen [] = True"
| "validBranchNames_loop seen (branch # branches) =
     (if \<not> stableName branch then False
      else if branch \<in> seen then False
      else validBranchNames_loop (insert branch seen) branches)"

definition validBranchNames :: "string list \<Rightarrow> bool" where
  "validBranchNames branches = validBranchNames_loop {} branches"

definition is_control :: "StepKind \<Rightarrow> bool" where
  "is_control k \<longleftrightarrow> k = StepParallel \<or> k = StepJoin \<or> k = StepRace"

definition step_kind_error :: "StepSpec \<Rightarrow> string option" where
  "step_kind_error step = (case st_Kind step of
     StepActivity \<Rightarrow>
       if \<not> stableName (st_Target step) \<or> sint (st_Timeout step) \<le> 0 \<or>
          \<not> validPayloadLimit (st_InputLimit step) \<or> \<not> validPayloadLimit (st_ResultLimit step) \<or>
          \<not> validRetry (st_Retry step)
       then Some ''step.activity'' else None
   | StepChild \<Rightarrow>
       if \<not> stableName (st_Target step) then Some ''step.child''
       else if \<not> reference_valid (st_ChildDefinition step) then Some ''step.child''
       else if dr_name (st_ChildDefinition step) \<noteq> st_Target step \<or> sint (st_Timeout step) \<le> 0 \<or>
          \<not> validPayloadLimit (st_InputLimit step) \<or> \<not> validPayloadLimit (st_ResultLimit step) \<or>
          \<not> validRetry (st_Retry step)
       then Some ''step.child'' else None
   | StepSignal \<Rightarrow>
       if \<not> stableName (st_Target step) \<or> sint (st_Timeout step) \<le> 0 \<or>
          \<not> validPayloadLimit (st_InputLimit step)
       then Some ''step.wait'' else None
   | StepApproval \<Rightarrow>
       if \<not> stableName (st_Target step) \<or> sint (st_Timeout step) \<le> 0 \<or>
          \<not> validPayloadLimit (st_InputLimit step)
       then Some ''step.wait'' else None
   | StepTimer \<Rightarrow> if sint (st_Timeout step) \<le> 0 then Some ''step.timer'' else None
   | StepKindInvalid \<Rightarrow> Some ''step.kind''
   | _ \<Rightarrow>
       if st_FanOutLimit step = 0 \<or> unat (st_FanOutLimit step) > MaxFanOut \<or>
          length (st_Branches step) = 0 \<or> length (st_Branches step) > unat (st_FanOutLimit step) \<or>
          \<not> validBranchNames (st_Branches step)
       then Some ''step.fan_out'' else None)"

definition compensation_error :: "StepSpec \<Rightarrow> bool" where
  "compensation_error step = (case st_Compensation step of None \<Rightarrow> False
   | Some compensation \<Rightarrow>
       st_Kind step \<noteq> StepActivity \<or> \<not> stableName (cs_Target compensation) \<or>
       sint (cs_Timeout compensation) \<le> 0 \<or> \<not> validPayloadLimit (cs_ResultLimit compensation) \<or>
       \<not> validRetry (cs_Retry compensation))"

definition validateStep :: "StepSpec \<Rightarrow> unit result" where
  "validateStep step = (case step_kind_error step of
     Some field \<Rightarrow> Inl (ErrInvalidDefinition field)
   | None \<Rightarrow>
       if \<not> is_control (st_Kind step) \<and> length (st_Branches step) \<noteq> 0
       then Inl (ErrInvalidDefinition ''step.branches'')
       else if st_Kind step \<noteq> StepChild \<and> st_ChildDefinition step \<noteq> zero_DefinitionReference
       then Inl (ErrInvalidDefinition ''step.child_definition'')
       else if compensation_error step
       then Inl (ErrInvalidDefinition ''step.compensation'')
       else Inr ())"

fun validate_steps :: "(string \<rightharpoonup> StepKind) \<Rightarrow> StepSpec list \<Rightarrow> (string \<rightharpoonup> StepKind) result" where
  "validate_steps names [] = Inr names"
| "validate_steps names (step # steps) =
     (if \<not> stableName (st_Name step) then Inl (ErrInvalidDefinition ''step.name'')
      else if has_key names (st_Name step) then Inl (ErrInvalidDefinition ''step.name'')
      else case validateStep step of
          Inl e \<Rightarrow> Inl e
        | Inr _ \<Rightarrow> validate_steps (names(st_Name step \<mapsto> st_Kind step)) steps)"

fun validate_branch_refs :: "(string \<rightharpoonup> StepKind) \<Rightarrow> string \<Rightarrow> string list \<Rightarrow> bool" where
  "validate_branch_refs names stepName [] = True"
| "validate_branch_refs names stepName (branch # branches) =
     (case names branch of
        None \<Rightarrow> False
      | Some kind \<Rightarrow>
          if branch = stepName then False
          else if is_control kind then False
          else validate_branch_refs names stepName branches)"

fun validate_branches :: "(string \<rightharpoonup> StepKind) \<Rightarrow> StepSpec list \<Rightarrow> unit result" where
  "validate_branches names [] = Inr ()"
| "validate_branches names (step # steps) =
     (if \<not> validate_branch_refs names (st_Name step) (st_Branches step)
      then Inl (ErrInvalidDefinition ''step.branch'')
      else validate_branches names steps)"

subsection \<open>Orchestration control flow\<close>

record control_state =
  cf_owners :: "string \<rightharpoonup> string"
  cf_branchCounts :: "string \<rightharpoonup> nat"
  cf_joined :: "string set"

fun claim_branches ::
  "(StepKind \<Rightarrow> bool) \<Rightarrow> string \<Rightarrow> (string \<rightharpoonup> StepKind) \<Rightarrow> string \<Rightarrow> (string \<rightharpoonup> string) \<Rightarrow> string list
   \<Rightarrow> (string \<rightharpoonup> string) result" where
  "claim_branches allowed field kinds stepName owners [] = Inr owners"
| "claim_branches allowed field kinds stepName owners (branch # branches) =
     (if \<not> allowed (lookup_zero StepKindInvalid kinds branch)
      then Inl (ErrInvalidDefinition field)
      else if has_key owners branch then Inl (ErrInvalidDefinition ''step.branch_owner'')
      else claim_branches allowed field kinds stepName (owners(branch \<mapsto> stepName)) branches)"

definition control_join :: "StepSpec \<Rightarrow> control_state \<Rightarrow> control_state result" where
  "control_join step st = (case st_Branches step of
     [] \<Rightarrow> Inl (GoPanic ''index out of range'')
   | first # rest \<Rightarrow>
       (case cf_owners st first of
          None \<Rightarrow> Inl (ErrInvalidDefinition ''step.join'')
        | Some owner \<Rightarrow>
            if lookup_zero 0 (cf_branchCounts st) owner \<noteq> length (st_Branches step)
            then Inl (ErrInvalidDefinition ''step.join'')
            else if owner \<in> cf_joined st then Inl (ErrInvalidDefinition ''step.join'')
            else if \<not> list_all (\<lambda>branch. lookup_zero [] (cf_owners st) branch = owner) rest
            then Inl (ErrInvalidDefinition ''step.join'')
            else Inr (st\<lparr>cf_joined := insert owner (cf_joined st)\<rparr>)))"

definition control_step :: "(string \<rightharpoonup> StepKind) \<Rightarrow> StepSpec \<Rightarrow> control_state \<Rightarrow> control_state result" where
  "control_step kinds step st = (case st_Kind step of
     StepParallel \<Rightarrow>
       (case claim_branches (\<lambda>k. k = StepActivity) ''step.parallel_branch'' kinds (st_Name step)
               (cf_owners st) (st_Branches step) of
          Inl e \<Rightarrow> Inl e
        | Inr owners \<Rightarrow> Inr (st\<lparr>cf_owners := owners,
            cf_branchCounts := (cf_branchCounts st)(st_Name step \<mapsto> length (st_Branches step))\<rparr>))
   | StepRace \<Rightarrow>
       (case claim_branches (\<lambda>k. k = StepSignal \<or> k = StepApproval) ''step.race_branch'' kinds
               (st_Name step) (cf_owners st) (st_Branches step) of
          Inl e \<Rightarrow> Inl e
        | Inr owners \<Rightarrow> Inr (st\<lparr>cf_owners := owners\<rparr>))
   | StepJoin \<Rightarrow> control_join step st
   | _ \<Rightarrow> Inr st)"

fun control_loop :: "(string \<rightharpoonup> StepKind) \<Rightarrow> control_state \<Rightarrow> StepSpec list \<Rightarrow> control_state result" where
  "control_loop kinds st [] = Inr st"
| "control_loop kinds st (step # steps) = (case control_step kinds step st of
     Inl e \<Rightarrow> Inl e | Inr st' \<Rightarrow> control_loop kinds st' steps)"

definition validateOrchestrationControlFlow ::
  "StepSpec list \<Rightarrow> (string \<rightharpoonup> StepKind) \<Rightarrow> unit result" where
  "validateOrchestrationControlFlow steps kinds =
     (case control_loop kinds
             \<lparr>cf_owners = Map.empty, cf_branchCounts = Map.empty, cf_joined = {}\<rparr> steps of
        Inl e \<Rightarrow> Inl e | Inr _ \<Rightarrow> Inr ())"

definition validateDefinition :: "DefinitionSpec \<Rightarrow> unit result" where
  "validateDefinition spec =
     (if \<not> stableName (ds_Name spec) then Inl (ErrInvalidDefinition ''name'')
      else if \<not> stableName (ds_Version spec) then Inl (ErrInvalidDefinition ''version'')
      else if ds_Mode spec \<noteq> Orchestration \<and> ds_Mode spec \<noteq> Choreography
      then Inl (ErrInvalidDefinition ''mode'')
      else if length (ds_Steps spec) = 0 \<or> length (ds_Steps spec) > MaxFanOut
      then Inl (ErrInvalidDefinition ''steps'')
      else case validate_steps Map.empty (ds_Steps spec) of
        Inl e \<Rightarrow> Inl e
      | Inr names \<Rightarrow>
          (case validate_branches names (ds_Steps spec) of
             Inl e \<Rightarrow> Inl e
           | Inr _ \<Rightarrow>
               if ds_Mode spec = Orchestration
               then validateOrchestrationControlFlow (ds_Steps spec) names
               else Inr ()))"

section \<open>Construction and fingerprint\<close>

definition cloneSteps :: "StepSpec list \<Rightarrow> StepSpec list" where
  "cloneSteps steps = map (\<lambda>step. step\<lparr>
     st_Branches := [] @ st_Branches step,
     st_Compensation := (case st_Compensation step of None \<Rightarrow> None | Some c \<Rightarrow> Some c)\<rparr>) steps"

definition cloneDefinitionSpec :: "DefinitionSpec \<Rightarrow> DefinitionSpec" where
  "cloneDefinitionSpec spec = spec\<lparr>ds_Steps := cloneSteps (ds_Steps spec)\<rparr>"

fun mode_code :: "ExecutionMode \<Rightarrow> nat" where
  "mode_code Orchestration = 1" | "mode_code Choreography = 2" | "mode_code ModeInvalid = 0"

fun step_code :: "StepKind \<Rightarrow> nat" where
  "step_code StepActivity = 1" | "step_code StepSignal = 2" | "step_code StepTimer = 3"
| "step_code StepChild = 4" | "step_code StepParallel = 5" | "step_code StepJoin = 6"
| "step_code StepRace = 7" | "step_code StepApproval = 8" | "step_code StepKindInvalid = 0"

text \<open>
  The owned Go JSON representation: exported fields in declaration order.
  \<open>DefinitionReference\<close> has no exported field, so a child pin is rendered as the empty object.
\<close>

definition reference_json :: "DefinitionReference \<Rightarrow> json" where
  "reference_json reference = JObj []"

definition retry_json :: "RetryPolicy \<Rightarrow> json" where
  "retry_json policy = JObj [(''MaxAttempts'', j_uint (rp_MaxAttempts policy)),
     (''InitialDelay'', j_duration (rp_InitialDelay policy)),
     (''MaxDelay'', j_duration (rp_MaxDelay policy))]"

definition compensation_json :: "CompensationSpec \<Rightarrow> json" where
  "compensation_json c = JObj [(''Target'', JStr (cs_Target c)),
     (''Timeout'', j_duration (cs_Timeout c)), (''ResultLimit'', j_uint (cs_ResultLimit c)),
     (''Retry'', retry_json (cs_Retry c))]"

definition branches_json :: "string list \<Rightarrow> json" where
  "branches_json branches = (if branches = [] then JNull else JArr (map JStr branches))"

definition step_json :: "StepSpec \<Rightarrow> json" where
  "step_json step = JObj [(''Name'', JStr (st_Name step)),
     (''Kind'', JNum (dec_nat (step_code (st_Kind step)))), (''Target'', JStr (st_Target step)),
     (''ChildDefinition'', reference_json (st_ChildDefinition step)),
     (''Branches'', branches_json (st_Branches step)),
     (''Timeout'', j_duration (st_Timeout step)), (''InputLimit'', j_uint (st_InputLimit step)),
     (''ResultLimit'', j_uint (st_ResultLimit step)), (''Retry'', retry_json (st_Retry step)),
     (''FanOutLimit'', j_uint (st_FanOutLimit step)),
     (''Compensation'', case st_Compensation step of None \<Rightarrow> JNull
        | Some c \<Rightarrow> compensation_json c)]"

definition definition_json :: "DefinitionSpec \<Rightarrow> json" where
  "definition_json spec = JObj [(''Name'', JStr (ds_Name spec)),
     (''Version'', JStr (ds_Version spec)),
     (''Mode'', JNum (dec_nat (mode_code (ds_Mode spec)))),
     (''Deprecated'', JBool (ds_Deprecated spec)),
     (''Steps'', JArr (map step_json (ds_Steps spec)))]"

definition NewDefinition :: "DefinitionSpec \<Rightarrow> Definition result" where
  "NewDefinition spec =
     (let owned = cloneDefinitionSpec spec
      in case validateDefinition owned of
           Inl e \<Rightarrow> Inl e
         | Inr _ \<Rightarrow> Inr \<lparr>def_spec = owned,
             def_fingerprint = sha256_hex (marshal (Some (definition_json owned)))\<rparr>)"

definition def_Reference :: "Definition \<Rightarrow> DefinitionReference" where
  "def_Reference d = \<lparr>dr_name = def_Name d, dr_version = def_Version d,
     dr_fingerprint = def_fingerprint d\<rparr>"

definition def_Steps :: "Definition \<Rightarrow> StepSpec list" where
  "def_Steps d = cloneSteps (ds_Steps (def_spec d))"

section \<open>Step lookup\<close>

fun find_step :: "StepSpec list \<Rightarrow> string \<Rightarrow> StepKind \<Rightarrow> StepSpec option" where
  "find_step [] name kind = None"
| "find_step (step # steps) name kind =
     (if st_Name step = name \<and> st_Kind step = kind then Some step else find_step steps name kind)"

definition definitionStep :: "Definition \<Rightarrow> string \<Rightarrow> StepKind \<Rightarrow> StepSpec option" where
  "definitionStep d name kind = find_step (ds_Steps (def_spec d)) name kind"

definition definitionActivityStep :: "Definition \<Rightarrow> string \<Rightarrow> StepSpec option" where
  "definitionActivityStep d name = find_step (ds_Steps (def_spec d)) name StepActivity"

section \<open>What the validator accepts\<close>

lemma cloneSteps_id [simp]: "cloneSteps steps = steps"
  by (induction steps) (auto simp: cloneSteps_def split: option.splits)

lemma cloneDefinitionSpec_id [simp]: "cloneDefinitionSpec spec = spec"
  by (simp add: cloneDefinitionSpec_def)

lemma def_Steps_eq [simp]: "def_Steps d = ds_Steps (def_spec d)"
  by (simp add: def_Steps_def)

lemma validBranchNames_loop_iff:
  "validBranchNames_loop seen branches \<longleftrightarrow>
     list_all stableName branches \<and> distinct branches \<and> seen \<inter> set branches = {}"
  by (induction seen branches rule: validBranchNames_loop.induct) auto

lemma validBranchNames_iff:
  "validBranchNames branches \<longleftrightarrow> list_all stableName branches \<and> distinct branches"
  by (simp add: validBranchNames_def validBranchNames_loop_iff)

lemma map_add_step_kinds:
  assumes "st_Name step \<notin> st_Name ` set steps"
  shows "names(st_Name step \<mapsto> st_Kind step) ++ map_of (map (\<lambda>s. (st_Name s, st_Kind s)) steps)
      = names ++ map_of (map (\<lambda>s. (st_Name s, st_Kind s)) (step # steps))"
  using assms by (simp add: map_add_upd_left dom_map_of_conv_image_fst image_image)

lemma validate_steps_Inr:
  "validate_steps names steps = Inr names' \<longleftrightarrow>
     list_all (\<lambda>s. stableName (st_Name s) \<and> validateStep s = Inr ()) steps \<and>
     distinct (map st_Name steps) \<and> (\<forall>s \<in> set steps. names (st_Name s) = None) \<and>
     names' = names ++ map_of (map (\<lambda>s. (st_Name s, st_Kind s)) steps)"
proof (induction steps arbitrary: names)
  case Nil
  then show ?case by auto
next
  case (Cons step steps)
  show ?case
  proof (cases "stableName (st_Name step) \<and> names (st_Name step) = None \<and> validateStep step = Inr ()")
    case True
    have "(\<forall>s \<in> set steps. (names(st_Name step \<mapsto> st_Kind step)) (st_Name s) = None) \<longleftrightarrow>
        st_Name step \<notin> st_Name ` set steps \<and> (\<forall>s \<in> set steps. names (st_Name s) = None)"
      by (auto simp: image_iff)
    then show ?thesis
      using True Cons.IH [of "names(st_Name step \<mapsto> st_Kind step)"] map_add_step_kinds [of step steps names]
      by (cases "st_Name step \<in> st_Name ` set steps") (simp_all del: map_of.simps fun_upd_apply)
  next
    case False
    then show ?thesis by (auto simp: has_key_def split: sum.splits)
  qed
qed

lemma validate_branch_refs_iff:
  "validate_branch_refs names n branches \<longleftrightarrow>
     (\<forall>b \<in> set branches. b \<noteq> n \<and> (\<exists>k. names b = Some k \<and> \<not> is_control k))"
  by (induction names n branches rule: validate_branch_refs.induct) (auto split: option.splits)

lemma validate_branches_Inr:
  "validate_branches names steps = Inr () \<longleftrightarrow>
     list_all (\<lambda>s. validate_branch_refs names (st_Name s) (st_Branches s)) steps"
  by (induction names steps rule: validate_branches.induct) auto

text \<open>The facts an accepted definition carries, whatever its mode.\<close>

definition wf_steps :: "StepSpec list \<Rightarrow> bool" where
  "wf_steps steps \<longleftrightarrow>
     0 < length steps \<and> length steps \<le> MaxFanOut \<and> distinct (map st_Name steps) \<and>
     list_all (\<lambda>s. stableName (st_Name s) \<and> validateStep s = Inr ()) steps \<and>
     (\<forall>s \<in> set steps. \<forall>b \<in> set (st_Branches s).
        b \<noteq> st_Name s \<and> (\<exists>t \<in> set steps. st_Name t = b \<and> \<not> is_control (st_Kind t)))"

lemma map_of_step_kinds:
  "distinct (map st_Name steps) \<Longrightarrow>
   map_of (map (\<lambda>s. (st_Name s, st_Kind s)) steps) b = Some k \<longleftrightarrow>
     (\<exists>t \<in> set steps. st_Name t = b \<and> st_Kind t = k)"
  by (subst map_of_eq_Some_iff) (auto simp: comp_def)

lemma validateDefinition_wf:
  assumes "validateDefinition spec = Inr ()"
  shows "wf_steps (ds_Steps spec)" "stableName (ds_Name spec)" "stableName (ds_Version spec)"
    "ds_Mode spec = Orchestration \<or> ds_Mode spec = Choreography"
proof -
  from assms obtain names where
      basic: "stableName (ds_Name spec)" "stableName (ds_Version spec)"
        "ds_Mode spec = Orchestration \<or> ds_Mode spec = Choreography"
        "0 < length (ds_Steps spec)" "length (ds_Steps spec) \<le> MaxFanOut"
    and names: "validate_steps Map.empty (ds_Steps spec) = Inr names"
    and branches: "validate_branches names (ds_Steps spec) = Inr ()"
    by (auto simp: validateDefinition_def split: if_splits sum.splits)
  from names have n: "names = map_of (map (\<lambda>s. (st_Name s, st_Kind s)) (ds_Steps spec))"
    and d: "distinct (map st_Name (ds_Steps spec))"
    and v: "list_all (\<lambda>s. stableName (st_Name s) \<and> validateStep s = Inr ()) (ds_Steps spec)"
    by (auto simp: validate_steps_Inr)
  from branches show "wf_steps (ds_Steps spec)"
    unfolding wf_steps_def validate_branches_Inr validate_branch_refs_iff list_all_iff n
    using basic d v by (simp add: map_of_step_kinds list_all_iff) blast
  show "stableName (ds_Name spec)" "stableName (ds_Version spec)"
    "ds_Mode spec = Orchestration \<or> ds_Mode spec = Choreography"
    using basic by simp_all
qed

lemma NewDefinition_Inr:
  "NewDefinition spec = Inr d \<longleftrightarrow> validateDefinition spec = Inr () \<and>
     d = \<lparr>def_spec = spec, def_fingerprint = sha256_hex (marshal (Some (definition_json spec)))\<rparr>"
  by (auto simp: NewDefinition_def Let_def split: sum.splits)

lemma NewDefinition_reference_valid: "NewDefinition spec = Inr d \<Longrightarrow> reference_valid (def_Reference d)"
  by (auto simp: NewDefinition_Inr reference_valid_def def_Reference_def dest: validateDefinition_wf)

subsection \<open>Control flow\<close>

lemma claim_branches_Inr:
  "claim_branches allowed field kinds n owners branches = Inr owners' \<Longrightarrow>
     (\<forall>b \<in> set branches. owners b = None \<and> allowed (lookup_zero StepKindInvalid kinds b)) \<and>
     owners' = (\<lambda>b. if b \<in> set branches then Some n else owners b)"
proof (induction branches arbitrary: owners)
  case Nil
  then show ?case by auto
next
  case (Cons b bs)
  from Cons.prems have hd: "allowed (lookup_zero StepKindInvalid kinds b)" "owners b = None"
    and rec: "claim_branches allowed field kinds n (owners(b \<mapsto> n)) bs = Inr owners'"
    by (auto simp: has_key_def split: if_splits)
  have ih: "\<forall>x \<in> set bs. (owners(b \<mapsto> n)) x = None \<and> allowed (lookup_zero StepKindInvalid kinds x)"
      "owners' = (\<lambda>x. if x \<in> set bs then Some n else (owners(b \<mapsto> n)) x)"
    using Cons.IH [OF rec] by blast+
  have "owners x = None" if "x \<in> set bs" for x
    using bspec [OF ih(1) that] by (simp split: if_splits)
  moreover have "owners' = (\<lambda>x. if x \<in> set (b # bs) then Some n else owners x)"
    unfolding ih(2) by (rule ext) simp
  ultimately show ?case
    using hd ih(1) by simp
qed

definition owner_step :: "StepSpec \<Rightarrow> bool" where
  "owner_step s \<longleftrightarrow> st_Kind s = StepParallel \<or> st_Kind s = StepRace"

definition control_inv :: "StepSpec list \<Rightarrow> control_state \<Rightarrow> bool" where
  "control_inv before st \<longleftrightarrow>
     (\<forall>b w. cf_owners st b = Some w \<longleftrightarrow>
        (\<exists>s \<in> set before. owner_step s \<and> b \<in> set (st_Branches s) \<and> st_Name s = w)) \<and>
     (\<forall>w n. cf_branchCounts st w = Some n \<longleftrightarrow>
        (\<exists>s \<in> set before. st_Kind s = StepParallel \<and> st_Name s = w \<and> length (st_Branches s) = n))"

lemma control_inv_skip:
  "control_inv before st \<Longrightarrow> \<not> owner_step s \<Longrightarrow> control_inv (before @ [s]) (st\<lparr>cf_joined := j\<rparr>)"
  by (auto simp: control_inv_def owner_step_def)

lemma control_inv_claim:
  assumes inv: "control_inv before st" and fresh: "st_Name s \<notin> st_Name ` set before"
    and os: "owner_step s"
    and claim: "claim_branches allowed field kinds (st_Name s) (cf_owners st) (st_Branches s) = Inr owners"
  shows "control_inv (before @ [s]) (st\<lparr>cf_owners := owners, cf_branchCounts :=
     if st_Kind s = StepParallel then (cf_branchCounts st)(st_Name s \<mapsto> length (st_Branches s))
     else cf_branchCounts st\<rparr>)"
proof -
  have none: "b \<in> set (st_Branches s) \<Longrightarrow> cf_owners st b = None"
    and ow: "owners = (\<lambda>b. if b \<in> set (st_Branches s) then Some (st_Name s) else cf_owners st b)" for b
    using claim_branches_Inr [OF claim] by auto
  have o1: "cf_owners st b = Some w \<longleftrightarrow>
        (\<exists>t \<in> set before. owner_step t \<and> b \<in> set (st_Branches t) \<and> st_Name t = w)" for b w
    using inv by (simp add: control_inv_def)
  have own: "owners b = Some w \<longleftrightarrow>
        (\<exists>t \<in> set (before @ [s]). owner_step t \<and> b \<in> set (st_Branches t) \<and> st_Name t = w)" for b w
    using none [of b] o1 [of b w] o1 [of b] os unfolding ow
    by (cases "b \<in> set (st_Branches s)") auto
  have cnt: "(if st_Kind s = StepParallel then (cf_branchCounts st)(st_Name s \<mapsto> length (st_Branches s))
     else cf_branchCounts st) w = Some n \<longleftrightarrow>
     (\<exists>t \<in> set (before @ [s]). st_Kind t = StepParallel \<and> st_Name t = w \<and> length (st_Branches t) = n)" for w n
    using inv fresh by (auto simp: control_inv_def) (metis imageI)+
  show ?thesis
    unfolding control_inv_def using own cnt by simp
qed

lemma control_step_inv:
  assumes inv: "control_inv before st" and fresh: "st_Name s \<notin> st_Name ` set before"
    and step: "control_step kinds s st = Inr st'"
  shows "control_inv (before @ [s]) st'"
proof (cases "owner_step s")
  case True
  then show ?thesis
    using step control_inv_claim [OF inv fresh True]
    by (fastforce simp: control_step_def owner_step_def split: sum.splits)
next
  case False
  have "\<exists>j. st' = st\<lparr>cf_joined := j\<rparr>"
  proof (cases "st_Kind s = StepJoin")
    case True
    then show ?thesis
      using step by (auto simp: control_step_def control_join_def split: list.splits option.splits if_splits)
  next
    case other: False
    then have "st' = st"
      using False step by (auto simp: control_step_def owner_step_def split: StepKind.splits)
    then have "st' = st\<lparr>cf_joined := cf_joined st\<rparr>" by simp
    then show ?thesis ..
  qed
  with control_inv_skip [OF inv False] show ?thesis by auto
qed

lemma control_join_parallel:
  assumes inv: "control_inv before st" and dist: "distinct (map st_Name before)"
    and ne: "\<forall>s \<in> set before. st_Name s \<noteq> []" and nd: "distinct (st_Branches j)"
    and ok: "control_join j st = Inr st'"
  shows "\<exists>p \<in> set before. st_Kind p = StepParallel \<and> set (st_Branches j) = set (st_Branches p)
     \<and> length (st_Branches j) = length (st_Branches p)"
proof -
  from ok obtain b bs w where
      br: "st_Branches j = b # bs" and wn: "cf_owners st b = Some w"
    and cnt: "lookup_zero 0 (cf_branchCounts st) w = length (st_Branches j)"
    and rest: "list_all (\<lambda>x. lookup_zero [] (cf_owners st) x = w) bs"
    by (auto simp: control_join_def split: list.splits option.splits if_splits)
  from cnt br have "cf_branchCounts st w = Some (length (st_Branches j))"
    by (auto simp: lookup_zero_def split: option.splits)
  then obtain p where p: "p \<in> set before" "st_Kind p = StepParallel" "st_Name p = w"
      "length (st_Branches p) = length (st_Branches j)"
    using inv by (auto simp: control_inv_def)
  have "inj_on st_Name (set before)" using dist by (simp add: distinct_map)
  then have uniq: "s = p" if "s \<in> set before" "st_Name s = w" for s
    using that p(1,3) by (metis inj_onD)
  have mem: "x \<in> set (st_Branches p)" if "cf_owners st x = Some w" for x
    using that inv uniq unfolding control_inv_def by metis
  have "w \<noteq> []" using p ne by auto
  then have "cf_owners st x = Some w" if "lookup_zero [] (cf_owners st) x = w" for x
    using that by (auto simp: lookup_zero_def split: option.splits)
  then have "\<forall>x \<in> set bs. x \<in> set (st_Branches p)"
    using rest mem unfolding list_all_iff by blast
  then have sub: "set (st_Branches j) \<subseteq> set (st_Branches p)"
    unfolding br using mem [OF wn] by auto
  have "card (set (st_Branches p)) \<le> card (set (st_Branches j))"
    using p(4) nd card_length [of "st_Branches p"] by (simp add: distinct_card)
  then have "set (st_Branches j) = set (st_Branches p)"
    using sub by (simp add: card_seteq)
  with p show ?thesis by auto
qed

lemma control_loop_inv:
  assumes "control_inv before st" "distinct (map st_Name (before @ steps))"
    "control_loop kinds st steps = Inr st'"
  shows "control_inv (before @ steps) st'"
  using assms
proof (induction kinds st steps arbitrary: before rule: control_loop.induct)
  case (1 kinds st)
  then show ?case by simp
next
  case (2 kinds st s steps)
  then obtain st1 where st1: "control_step kinds s st = Inr st1" "control_loop kinds st1 steps = Inr st'"
    by (auto split: sum.splits)
  have "control_inv (before @ [s]) st1"
    by (rule control_step_inv [OF "2.prems"(1) _ st1(1)]) (use "2.prems"(2) in auto)
  then show ?case
    using "2.IH" [OF st1(1), of "before @ [s]"] "2.prems"(2) st1(2) by simp
qed

lemma control_loop_append:
  "control_loop kinds st (xs @ ys) = (case control_loop kinds st xs of
     Inl e \<Rightarrow> Inl e | Inr st' \<Rightarrow> control_loop kinds st' ys)"
  by (induction kinds st xs rule: control_loop.induct) (auto split: sum.splits)

abbreviation control_init :: control_state where
  "control_init \<equiv> \<lparr>cf_owners = Map.empty, cf_branchCounts = Map.empty, cf_joined = {}\<rparr>"

lemma control_inv_init: "control_inv [] control_init"
  by (simp add: control_inv_def)

lemma validateDefinition_control:
  assumes "validateDefinition spec = Inr ()" "ds_Mode spec = Orchestration"
  shows "\<exists>names st. control_loop names control_init (ds_Steps spec) = Inr st"
  using assms
  by (auto simp: validateDefinition_def validateOrchestrationControlFlow_def split: if_splits sum.splits)

lemma validateStep_branches:
  assumes "validateStep s = Inr ()" "is_control (st_Kind s)"
  shows "st_Branches s \<noteq> []" "distinct (st_Branches s)" "list_all stableName (st_Branches s)"
  using assms by (auto simp: validateStep_def step_kind_error_def is_control_def validBranchNames_iff
      split: option.splits if_splits StepKind.splits)

lemma validateStep_leaf:
  "validateStep s = Inr () \<Longrightarrow> \<not> is_control (st_Kind s) \<Longrightarrow> st_Branches s = []"
  by (auto simp: validateStep_def split: option.splits if_splits)

lemma validateStep_activity:
  assumes "validateStep s = Inr ()" "st_Kind s = StepActivity"
  shows "0 < sint (st_Timeout s)" "validRetry (st_Retry s)" "validPayloadLimit (st_InputLimit s)"
    "validPayloadLimit (st_ResultLimit s)"
  using assms by (auto simp: validateStep_def step_kind_error_def not_le split: option.splits if_splits)

lemma validateStep_compensation:
  assumes "validateStep s = Inr ()" "st_Compensation s = Some c"
  shows "0 < sint (cs_Timeout c)" "validRetry (cs_Retry c)" "validPayloadLimit (cs_ResultLimit c)"
    "st_Kind s = StepActivity"
  using assms by (auto simp: validateStep_def compensation_error_def not_le split: option.splits if_splits)

lemma validateStep_child:
  assumes "validateStep s = Inr ()" "st_Kind s = StepChild"
  shows "0 < sint (st_Timeout s)" "validRetry (st_Retry s)" "validPayloadLimit (st_InputLimit s)"
    "validPayloadLimit (st_ResultLimit s)" "reference_valid (st_ChildDefinition s)"
  using assms by (auto simp: validateStep_def step_kind_error_def not_le split: option.splits if_splits)

lemma validateStep_timer:
  assumes "validateStep s = Inr ()" "st_Kind s = StepTimer"
  shows "0 < sint (st_Timeout s)"
  using assms by (auto simp: validateStep_def step_kind_error_def not_le split: option.splits if_splits)

lemma find_step_Some:
  "find_step steps n k = Some s \<Longrightarrow> s \<in> set steps \<and> st_Name s = n \<and> st_Kind s = k"
  by (induction steps n k rule: find_step.induct) (auto split: if_splits)

lemma find_step_None:
  "find_step steps n k = None \<longleftrightarrow> (\<forall>s \<in> set steps. \<not> (st_Name s = n \<and> st_Kind s = k))"
  by (induction steps n k rule: find_step.induct) auto

lemma find_step_unique:
  "distinct (map st_Name steps) \<Longrightarrow> s \<in> set steps \<Longrightarrow> find_step steps (st_Name s) (st_Kind s) = Some s"
  by (induction steps) auto

lemma validateStep_approval:
  assumes "validateStep s = Inr ()" "st_Kind s = StepApproval"
  shows "validPayloadLimit (st_InputLimit s)"
  using assms by (auto simp: validateStep_def step_kind_error_def not_le split: option.splits if_splits)

lemma wf_step_lookup:
  assumes "wf_steps (def_Steps d)" "definitionStep d n k = Some step"
  shows "stableName n" "validateStep step = Inr ()" "st_Kind step = k" "st_Name step = n"
  using assms find_step_Some by (fastforce simp: wf_steps_def definitionStep_def list_all_iff)+

lemma wf_step_unique:
  assumes "wf_steps (def_Steps d)" "definitionStep d n k = Some s" "k' \<noteq> k"
  shows "definitionStep d n k' = None"
proof -
  have inj: "inj_on st_Name (set (ds_Steps (def_spec d)))"
    using assms(1) by (simp add: wf_steps_def distinct_map)
  have s: "s \<in> set (ds_Steps (def_spec d))" "st_Name s = n" "st_Kind s = k"
    using find_step_Some assms(2) by (fastforce simp: definitionStep_def)+
  have "r = s" if "r \<in> set (ds_Steps (def_spec d))" "st_Name r = n" for r
    using inj s that by (metis inj_onD)
  then show ?thesis using s(3) assms(3) by (auto simp: definitionStep_def find_step_None)
qed

subsection \<open>No run-time panic\<close>

lemma claim_branches_no_panic:
  "claim_branches allowed field kinds n owners branches \<noteq> Inl (GoPanic p)"
  by (induction branches arbitrary: owners) auto

lemma control_loop_no_panic:
  "\<forall>s \<in> set steps. st_Kind s = StepJoin \<longrightarrow> st_Branches s \<noteq> [] \<Longrightarrow>
   control_loop kinds st steps \<noteq> Inl (GoPanic p)"
proof (induction kinds st steps rule: control_loop.induct)
  case (1 kinds st)
  then show ?case by simp
next
  case (2 kinds st s steps)
  have "control_step kinds s st \<noteq> Inl (GoPanic p)"
    using "2.prems" claim_branches_no_panic
    by (auto simp: control_step_def control_join_def split: StepKind.splits sum.splits list.splits
        option.splits)
  then show ?case
    using 2 by (auto split: sum.splits)
qed

lemma validateStep_no_panic: "validateStep s \<noteq> Inl (GoPanic p)"
  by (auto simp: validateStep_def split: option.splits)

lemma validate_steps_no_panic: "validate_steps names steps \<noteq> Inl (GoPanic p)"
  using validateStep_no_panic by (induction steps arbitrary: names) (auto split: sum.splits)

lemma validate_branches_no_panic: "validate_branches names steps \<noteq> Inl (GoPanic p)"
  by (induction names steps rule: validate_branches.induct) auto

lemma NewDefinition_no_panic: "NewDefinition spec \<noteq> Inl (GoPanic p)"
proof -
  have joins: "\<forall>s \<in> set (ds_Steps spec). st_Kind s = StepJoin \<longrightarrow> st_Branches s \<noteq> []"
    if "validate_steps Map.empty (ds_Steps spec) = Inr names" for names
    using that validateStep_branches(1) by (auto simp: validate_steps_Inr list_all_iff is_control_def)
  show ?thesis
    using control_loop_no_panic [OF joins] validate_steps_no_panic validate_branches_no_panic
    by (auto simp: NewDefinition_def Let_def validateDefinition_def
        validateOrchestrationControlFlow_def split: sum.splits if_splits)
qed

end
