(* ===== verification/Registry.thy ===== *)
theory Registry
  imports Workflow_Definition
begin

text \<open>
  The immutable definition and migration registry (registry.go) and the pinned-reference check
  \<open>validateReference\<close> (history.go). A registry pointer is an option: \<open>None\<close> is the nil
  registry. A migration callback is opaque code that the module never calls; the model keeps
  only whether it is nil.
\<close>

type_synonym definitionKey = "string \<times> string"
type_synonym migrationKey = "string \<times> string \<times> string"

record Migration =
  mig_Name :: string
  mig_FromVersion :: string
  mig_ToVersion :: string
  mig_Apply :: bool

record Registry =
  reg_definitions :: "definitionKey \<rightharpoonup> Definition"
  reg_migrations :: "migrationKey \<rightharpoonup> Migration"

definition definition_key :: "Definition \<Rightarrow> definitionKey" where
  "definition_key d = (def_Name d, def_Version d)"

definition migration_key :: "Migration \<Rightarrow> migrationKey" where
  "migration_key m = (mig_Name m, mig_FromVersion m, mig_ToVersion m)"

section \<open>Compilation\<close>

fun register_definitions ::
  "(definitionKey \<rightharpoonup> Definition) \<Rightarrow> Definition list \<Rightarrow> (definitionKey \<rightharpoonup> Definition) result" where
  "register_definitions defs [] = Inr defs"
| "register_definitions defs (d # ds) =
     (if def_fingerprint d = [] then Inl (ErrInvalidDefinition ''compiled definition'')
      else if has_key defs (definition_key d) then Inl ErrDuplicateDefinition
      else register_definitions (defs(definition_key d \<mapsto> d)) ds)"

fun check_children :: "(definitionKey \<rightharpoonup> Definition) \<Rightarrow> StepSpec list \<Rightarrow> unit result" where
  "check_children defs [] = Inr ()"
| "check_children defs (step # steps) =
     (if st_Kind step \<noteq> StepChild then check_children defs steps
      else case defs (dr_name (st_ChildDefinition step), dr_version (st_ChildDefinition step)) of
        None \<Rightarrow> Inl ErrDefinitionNotFound
      | Some child \<Rightarrow>
          if def_Reference child \<noteq> st_ChildDefinition step then Inl ErrDefinitionMismatch
          else check_children defs steps)"

fun check_all_children :: "(definitionKey \<rightharpoonup> Definition) \<Rightarrow> Definition list \<Rightarrow> unit result" where
  "check_all_children defs [] = Inr ()"
| "check_all_children defs (d # ds) = (case check_children defs (ds_Steps (def_spec d)) of
     Inl e \<Rightarrow> Inl e | Inr _ \<Rightarrow> check_all_children defs ds)"

fun register_migrations ::
  "(definitionKey \<rightharpoonup> Definition) \<Rightarrow> (migrationKey \<rightharpoonup> Migration) \<Rightarrow> Migration list
   \<Rightarrow> (migrationKey \<rightharpoonup> Migration) result" where
  "register_migrations defs migs [] = Inr migs"
| "register_migrations defs migs (m # ms) =
     (if \<not> mig_Apply m \<or> mig_FromVersion m = mig_ToVersion m then Inl ErrInvalidMigration
      else if \<not> has_key defs (mig_Name m, mig_FromVersion m) then Inl ErrInvalidMigration
      else if \<not> has_key defs (mig_Name m, mig_ToVersion m) then Inl ErrInvalidMigration
      else if has_key migs (migration_key m) then Inl ErrDuplicateMigration
      else register_migrations defs (migs(migration_key m \<mapsto> m)) ms)"

definition CompileRegistry :: "Definition list \<Rightarrow> Migration list \<Rightarrow> Registry result" where
  "CompileRegistry definitions migrations =
     (case register_definitions Map.empty definitions of
        Inl e \<Rightarrow> Inl e
      | Inr defs \<Rightarrow>
          (case check_all_children defs definitions of
             Inl e \<Rightarrow> Inl e
           | Inr _ \<Rightarrow>
               (case register_migrations defs Map.empty migrations of
                  Inl e \<Rightarrow> Inl e
                | Inr migs \<Rightarrow> Inr \<lparr>reg_definitions = defs, reg_migrations = migs\<rparr>)))"

definition CompileDefinitions :: "Definition list \<Rightarrow> Registry result" where
  "CompileDefinitions definitions = CompileRegistry definitions []"

section \<open>Lookup\<close>

definition Resolve :: "Registry option \<Rightarrow> string \<Rightarrow> string \<Rightarrow> Definition result" where
  "Resolve registry name version = (case registry of
     None \<Rightarrow> Inl ErrDefinitionNotFound
   | Some r \<Rightarrow> (case reg_definitions r (name, version) of
       None \<Rightarrow> Inl ErrDefinitionNotFound | Some d \<Rightarrow> Inr d))"

definition FindMigration :: "Registry option \<Rightarrow> string \<Rightarrow> string \<Rightarrow> string \<Rightarrow> Migration result" where
  "FindMigration registry name fromVersion toVersion = (case registry of
     None \<Rightarrow> Inl ErrMigrationNotFound
   | Some r \<Rightarrow> (case reg_migrations r (name, fromVersion, toVersion) of
       None \<Rightarrow> Inl ErrMigrationNotFound | Some m \<Rightarrow> Inr m))"

definition validateReference :: "Registry option \<Rightarrow> DefinitionReference \<Rightarrow> unit result" where
  "validateReference registry reference =
     (case Resolve registry (dr_name reference) (dr_version reference) of
        Inl e \<Rightarrow> Inl e
      | Inr d \<Rightarrow> if def_fingerprint d \<noteq> dr_fingerprint reference then Inl ErrDefinitionMismatch
                 else Inr ())"

text \<open>
  The replay handlers read the definition with the error discarded: a failed lookup yields the
  zero \<open>Definition\<close>.
\<close>

definition resolved :: "Registry option \<Rightarrow> DefinitionReference \<Rightarrow> Definition" where
  "resolved registry reference =
     (case Resolve registry (dr_name reference) (dr_version reference) of
        Inl _ \<Rightarrow> zero_Definition | Inr d \<Rightarrow> d)"

section \<open>What a compiled registry guarantees\<close>

lemma register_definitions_Inr:
  "register_definitions defs ds = Inr defs' \<longleftrightarrow>
     list_all (\<lambda>d. def_fingerprint d \<noteq> []) ds \<and> distinct (map definition_key ds) \<and>
     (\<forall>d \<in> set ds. defs (definition_key d) = None) \<and>
     defs' = defs ++ map_of (map (\<lambda>d. (definition_key d, d)) ds)"
proof (induction ds arbitrary: defs)
  case Nil
  then show ?case by auto
next
  case (Cons d ds)
  show ?case
  proof (cases "def_fingerprint d \<noteq> [] \<and> defs (definition_key d) = None")
    case True
    have fresh: "(\<forall>x \<in> set ds. (defs(definition_key d \<mapsto> d)) (definition_key x) = None) \<longleftrightarrow>
        definition_key d \<notin> definition_key ` set ds \<and> (\<forall>x \<in> set ds. defs (definition_key x) = None)"
      by (auto simp: image_iff)
    have add: "defs(definition_key d \<mapsto> d) ++ map_of (map (\<lambda>d. (definition_key d, d)) ds)
        = defs ++ map_of (map (\<lambda>d. (definition_key d, d)) (d # ds))"
      if "definition_key d \<notin> definition_key ` set ds"
      using that by (simp add: map_add_upd_left dom_map_of_conv_image_fst image_image)
    show ?thesis
      using True Cons.IH [of "defs(definition_key d \<mapsto> d)"] fresh add
      by (cases "definition_key d \<in> definition_key ` set ds") (simp_all del: map_of.simps fun_upd_apply)
  next
    case False
    then show ?thesis by (auto simp: has_key_def)
  qed
qed

lemma check_children_Inr:
  "check_children defs steps = Inr () \<longleftrightarrow>
     (\<forall>s \<in> set steps. st_Kind s = StepChild \<longrightarrow>
        (\<exists>c. defs (dr_name (st_ChildDefinition s), dr_version (st_ChildDefinition s)) = Some c \<and>
             def_Reference c = st_ChildDefinition s))"
  by (induction steps) (auto split: option.splits)

lemma check_all_children_Inr:
  "check_all_children defs ds = Inr () \<longleftrightarrow>
     (\<forall>d \<in> set ds. check_children defs (ds_Steps (def_spec d)) = Inr ())"
  by (induction ds) (auto split: sum.splits)

lemma register_migrations_Inr:
  "register_migrations defs migs ms = Inr migs' \<Longrightarrow>
     (\<forall>k m. migs' k = Some m \<longrightarrow> migs k = Some m \<or>
        (m \<in> set ms \<and> k = migration_key m \<and> mig_FromVersion m \<noteq> mig_ToVersion m \<and> mig_Apply m \<and>
         has_key defs (mig_Name m, mig_FromVersion m) \<and> has_key defs (mig_Name m, mig_ToVersion m)))"
proof (induction ms arbitrary: migs)
  case Nil
  then show ?case by simp
next
  case (Cons m ms)
  from Cons.prems have ok: "mig_Apply m" "mig_FromVersion m \<noteq> mig_ToVersion m"
      "has_key defs (mig_Name m, mig_FromVersion m)" "has_key defs (mig_Name m, mig_ToVersion m)"
    and rec: "register_migrations defs (migs(migration_key m \<mapsto> m)) ms = Inr migs'"
    by (auto split: if_splits)
  show ?case
  proof (intro allI impI)
    fix k x
    assume "migs' k = Some x"
    with Cons.IH [OF rec] have "(migs(migration_key m \<mapsto> m)) k = Some x \<or>
       (x \<in> set ms \<and> k = migration_key x \<and> mig_FromVersion x \<noteq> mig_ToVersion x \<and> mig_Apply x \<and>
         has_key defs (mig_Name x, mig_FromVersion x) \<and> has_key defs (mig_Name x, mig_ToVersion x))"
      by blast
    then show "migs k = Some x \<or> (x \<in> set (m # ms) \<and> k = migration_key x \<and>
        mig_FromVersion x \<noteq> mig_ToVersion x \<and> mig_Apply x \<and>
        has_key defs (mig_Name x, mig_FromVersion x) \<and> has_key defs (mig_Name x, mig_ToVersion x))"
      using ok by (auto split: if_splits)
  qed
qed

text \<open>The invariant of a registry that \<open>CompileRegistry\<close> returned.\<close>

definition registry_ok :: "Registry \<Rightarrow> bool" where
  "registry_ok r \<longleftrightarrow>
     (\<forall>k d. reg_definitions r k = Some d \<longrightarrow> k = definition_key d \<and> def_fingerprint d \<noteq> [] \<and>
        (\<forall>s \<in> set (ds_Steps (def_spec d)). st_Kind s = StepChild \<longrightarrow>
           (\<exists>c. reg_definitions r (dr_name (st_ChildDefinition s), dr_version (st_ChildDefinition s)) = Some c
                \<and> def_Reference c = st_ChildDefinition s))) \<and>
     (\<forall>k m. reg_migrations r k = Some m \<longrightarrow> k = migration_key m \<and>
        mig_FromVersion m \<noteq> mig_ToVersion m \<and>
        has_key (reg_definitions r) (mig_Name m, mig_FromVersion m) \<and>
        has_key (reg_definitions r) (mig_Name m, mig_ToVersion m))"

lemma CompileRegistry_Inr:
  assumes "CompileRegistry ds ms = Inr r"
  shows "reg_definitions r = map_of (map (\<lambda>d. (definition_key d, d)) ds)"
    "distinct (map definition_key ds)" "list_all (\<lambda>d. def_fingerprint d \<noteq> []) ds"
    "check_all_children (reg_definitions r) ds = Inr ()"
    "register_migrations (reg_definitions r) Map.empty ms = Inr (reg_migrations r)"
  using assms by (auto simp: CompileRegistry_def register_definitions_Inr split: sum.splits)

lemma CompileRegistry_lookup:
  assumes "CompileRegistry ds ms = Inr r"
  shows "reg_definitions r k = Some d \<longleftrightarrow> d \<in> set ds \<and> k = definition_key d"
  using CompileRegistry_Inr(1,2) [OF assms]
  by (simp add: map_of_eq_Some_iff comp_def) auto

lemma CompileRegistry_ok:
  assumes "CompileRegistry ds ms = Inr r"
  shows "registry_ok r"
proof -
  note c = CompileRegistry_Inr [OF assms]
  have defs: "k = definition_key d \<and> def_fingerprint d \<noteq> [] \<and>
        (\<forall>s \<in> set (ds_Steps (def_spec d)). st_Kind s = StepChild \<longrightarrow>
           (\<exists>c. reg_definitions r (dr_name (st_ChildDefinition s), dr_version (st_ChildDefinition s)) = Some c
                \<and> def_Reference c = st_ChildDefinition s))"
    if "reg_definitions r k = Some d" for k d
    using that c(3,4) unfolding CompileRegistry_lookup [OF assms]
    by (simp add: list_all_iff check_all_children_Inr check_children_Inr
        CompileRegistry_lookup [OF assms]) blast
  show ?thesis
    unfolding registry_ok_def using defs register_migrations_Inr [OF c(5)] by simp
qed

lemma Resolve_Inr:
  "Resolve registry n v = Inr d \<longleftrightarrow> (\<exists>r. registry = Some r \<and> reg_definitions r (n, v) = Some d)"
  by (auto simp: Resolve_def split: option.splits)

lemma resolved_Resolve: "Resolve registry (dr_name ref) (dr_version ref) = Inr d \<Longrightarrow> resolved registry ref = d"
  by (simp add: resolved_def)

lemma validateReference_Inr:
  "validateReference registry ref = Inr () \<longleftrightarrow>
     (\<exists>d. Resolve registry (dr_name ref) (dr_version ref) = Inr d \<and>
          def_fingerprint d = dr_fingerprint ref)"
  by (auto simp: validateReference_def split: sum.splits)

lemma validateReference_resolved:
  assumes "validateReference registry ref = Inr ()" and "\<And>r. registry = Some r \<Longrightarrow> registry_ok r"
  shows "def_Reference (resolved registry ref) = ref"
proof -
  from assms(1) obtain r d where r: "registry = Some r"
      and d: "reg_definitions r (dr_name ref, dr_version ref) = Some d"
      and fp: "def_fingerprint d = dr_fingerprint ref"
    by (auto simp: validateReference_Inr Resolve_Inr)
  from assms(2) [OF r] d have "(dr_name ref, dr_version ref) = definition_key d"
    by (simp add: registry_ok_def)
  with d fp show ?thesis
    by (cases ref) (simp add: resolved_def Resolve_def r def_Reference_def definition_key_def)
qed

lemma resolved_steps_child:
  assumes "registry_ok r" "s \<in> set (ds_Steps (def_spec (resolved (Some r) ref)))" "st_Kind s = StepChild"
  shows "validateReference (Some r) (st_ChildDefinition s) = Inr ()"
proof -
  obtain d where d: "resolved (Some r) ref = d" "reg_definitions r (dr_name ref, dr_version ref) = Some d"
    using assms(2) by (auto simp: resolved_def Resolve_def zero_Definition_def split: option.splits)
  with assms obtain c where
      c: "reg_definitions r (dr_name (st_ChildDefinition s), dr_version (st_ChildDefinition s)) = Some c"
      "st_ChildDefinition s = def_Reference c"
    unfolding registry_ok_def by metis
  then show ?thesis
    by (simp add: validateReference_Inr Resolve_Inr def_Reference_def)
qed

end
