(* ===== verification/History_Event.thy ===== *)
theory History_Event
  imports Registry
begin

text \<open>
  Durable history records (history.go) with their field validators, which the code keeps beside
  the component each event kind belongs to (activity, wait, race, child, compensation and
  operator events), and the JSON audit document of an operator command (operator.go).
\<close>

section \<open>Event kinds\<close>

datatype EventKind =
    EventInstanceStarted | EventInstancePaused | EventInstanceResumed | EventCancellationRequested
  | EventInstanceCancelled | EventInstanceCompleted | EventInstanceFailed | EventInstanceTerminated
  | EventDefinitionMigrated | EventContinuedAsNew
  | EventActivityScheduled | EventActivityAttemptStarted | EventActivityAttemptSucceeded
  | EventActivityAttemptFailed | EventActivityAttemptUnknown | EventActivityRetryScheduled
  | EventTimerScheduled | EventTimerFired | EventSignalReceived
  | EventCompensationScheduled | EventCompensationAttemptStarted
  | EventCompensationAttemptSucceeded | EventCompensationAttemptFailed
  | EventCompensationAttemptUnknown | EventCompensationRetryScheduled
  | EventCompensationManuallyResolved
  | EventOperatorCommandRecorded | EventRaceWon
  | EventChildScheduled | EventChildCompleted | EventChildFailed | EventChildStartAttempted
  | EventChildStarted | EventChildStartFailed | EventChildStartUnknown
  | EventChildStartRetryScheduled
  | EventKindInvalid

fun kind_code :: "EventKind \<Rightarrow> nat" where
  "kind_code EventInstanceStarted = 1" | "kind_code EventInstancePaused = 2"
| "kind_code EventInstanceResumed = 3" | "kind_code EventCancellationRequested = 4"
| "kind_code EventInstanceCancelled = 5" | "kind_code EventInstanceCompleted = 6"
| "kind_code EventInstanceFailed = 7" | "kind_code EventInstanceTerminated = 8"
| "kind_code EventDefinitionMigrated = 9" | "kind_code EventContinuedAsNew = 10"
| "kind_code EventActivityScheduled = 11" | "kind_code EventActivityAttemptStarted = 12"
| "kind_code EventActivityAttemptSucceeded = 13" | "kind_code EventActivityAttemptFailed = 14"
| "kind_code EventActivityAttemptUnknown = 15" | "kind_code EventActivityRetryScheduled = 16"
| "kind_code EventTimerScheduled = 17" | "kind_code EventTimerFired = 18"
| "kind_code EventSignalReceived = 19" | "kind_code EventCompensationScheduled = 20"
| "kind_code EventCompensationAttemptStarted = 21"
| "kind_code EventCompensationAttemptSucceeded = 22"
| "kind_code EventCompensationAttemptFailed = 23"
| "kind_code EventCompensationAttemptUnknown = 24"
| "kind_code EventCompensationRetryScheduled = 25"
| "kind_code EventCompensationManuallyResolved = 26"
| "kind_code EventOperatorCommandRecorded = 27" | "kind_code EventRaceWon = 28"
| "kind_code EventChildScheduled = 29" | "kind_code EventChildCompleted = 30"
| "kind_code EventChildFailed = 31" | "kind_code EventChildStartAttempted = 32"
| "kind_code EventChildStarted = 33" | "kind_code EventChildStartFailed = 34"
| "kind_code EventChildStartUnknown = 35" | "kind_code EventChildStartRetryScheduled = 36"
| "kind_code EventKindInvalid = 0"

section \<open>Records\<close>

record HistoryEventSpec =
  hs_Sequence :: uint64
  hs_InstanceID :: string
  hs_Kind :: EventKind
  hs_OccurredAt :: gotime
  hs_Definition :: DefinitionReference
  hs_SuccessorID :: string
  hs_StepName :: string
  hs_Attempt :: uint32
  hs_IdempotencyKey :: string
  hs_DueAt :: gotime
  hs_Code :: string
  hs_Retryable :: bool
  hs_Data :: bytes

record HistoryEvent =
  ev_sequence :: uint64
  ev_instanceID :: string
  ev_kind :: EventKind
  ev_occurredAt :: gotime
  ev_definition :: DefinitionReference
  ev_successorID :: string
  ev_stepName :: string
  ev_attempt :: uint32
  ev_idempotencyKey :: string
  ev_dueAt :: gotime
  ev_code :: string
  ev_retryable :: bool
  ev_data :: bytes

text \<open>The zero spec, from which a Go composite literal with some fields starts.\<close>

definition zero_HistoryEventSpec :: HistoryEventSpec where
  "zero_HistoryEventSpec = \<lparr>hs_Sequence = 0, hs_InstanceID = [], hs_Kind = EventKindInvalid,
     hs_OccurredAt = time_zero, hs_Definition = zero_DefinitionReference, hs_SuccessorID = [],
     hs_StepName = [], hs_Attempt = 0, hs_IdempotencyKey = [], hs_DueAt = time_zero, hs_Code = [],
     hs_Retryable = False, hs_Data = None\<rparr>"

definition zero_HistoryEvent :: HistoryEvent where
  "zero_HistoryEvent = \<lparr>ev_sequence = 0, ev_instanceID = [], ev_kind = EventKindInvalid,
     ev_occurredAt = time_zero, ev_definition = zero_DefinitionReference, ev_successorID = [],
     ev_stepName = [], ev_attempt = 0, ev_idempotencyKey = [], ev_dueAt = time_zero, ev_code = [],
     ev_retryable = False, ev_data = None\<rparr>"

section \<open>Operator audit documents\<close>

definition MaxOperatorAuditBytes :: nat where "MaxOperatorAuditBytes = 2 ^ 10"

datatype OperatorAction =
    OperatorPause | OperatorResume | OperatorCancel | OperatorTerminate | OperatorRetryActivity
  | OperatorCompensate | OperatorResolveCompensation | OperatorApprove | OperatorNone

fun action_code :: "OperatorAction \<Rightarrow> nat" where
  "action_code OperatorPause = 1" | "action_code OperatorResume = 2"
| "action_code OperatorCancel = 3" | "action_code OperatorTerminate = 4"
| "action_code OperatorRetryActivity = 5" | "action_code OperatorCompensate = 6"
| "action_code OperatorResolveCompensation = 7" | "action_code OperatorApprove = 8"
| "action_code OperatorNone = 0"

definition action_of_code :: "8 word \<Rightarrow> OperatorAction" where
  "action_of_code w =
     (if w = 1 then OperatorPause else if w = 2 then OperatorResume
      else if w = 3 then OperatorCancel else if w = 4 then OperatorTerminate
      else if w = 5 then OperatorRetryActivity else if w = 6 then OperatorCompensate
      else if w = 7 then OperatorResolveCompensation else if w = 8 then OperatorApprove
      else OperatorNone)"

fun action_String :: "OperatorAction \<Rightarrow> string" where
  "action_String OperatorPause = ''pause''"
| "action_String OperatorResume = ''resume''"
| "action_String OperatorCancel = ''cancel''"
| "action_String OperatorTerminate = ''terminate''"
| "action_String OperatorRetryActivity = ''retry-activity''"
| "action_String OperatorCompensate = ''compensate''"
| "action_String OperatorResolveCompensation = ''resolve-compensation''"
| "action_String OperatorApprove = ''approve''"
| "action_String OperatorNone = []"

record operatorAuditDocument =
  au_Action :: OperatorAction
  au_Actor :: string
  au_Reason :: string

definition zero_audit :: operatorAuditDocument where
  "zero_audit = \<lparr>au_Action = OperatorNone, au_Actor = [], au_Reason = []\<rparr>"

definition audit_json :: "operatorAuditDocument \<Rightarrow> json" where
  "audit_json document = JObj [(''action'', j_uint (of_nat (action_code (au_Action document)) :: 8 word)),
     (''actor'', JStr (au_Actor document)), (''reason'', JStr (au_Reason document))]"

definition audit_data :: "operatorAuditDocument \<Rightarrow> bytes" where
  "audit_data document = Some (marshal (Some (audit_json document)))"

definition audit_member :: "operatorAuditDocument \<Rightarrow> string \<times> json \<Rightarrow> operatorAuditDocument option" where
  "audit_member document m = (case match_field [''action'', ''actor'', ''reason''] (fst m) of
     None \<Rightarrow> None
   | Some field \<Rightarrow>
       if field = ''action'' then
         (case read_uint (of_nat (action_code (au_Action document)) :: 8 word) (snd m) of
            None \<Rightarrow> None | Some w \<Rightarrow> Some (document\<lparr>au_Action := action_of_code w\<rparr>))
       else if field = ''actor'' then
         (case read_string (au_Actor document) (snd m) of
            None \<Rightarrow> None | Some s \<Rightarrow> Some (document\<lparr>au_Actor := s\<rparr>))
       else (case read_string (au_Reason document) (snd m) of
            None \<Rightarrow> None | Some s \<Rightarrow> Some (document\<lparr>au_Reason := s\<rparr>)))"

definition decodeOperatorAudit :: "bytes \<Rightarrow> operatorAuditDocument result" where
  "decodeOperatorAudit data =
     (if blen data = 0 then Inl ErrInvalidOperatorCommand
      else if blen data > MaxOperatorAuditBytes then Inl ErrInvalidOperatorCommand
      else case decode_struct audit_member zero_audit (bstr data) of
        None \<Rightarrow> Inl ErrInvalidOperatorCommand
      | Some document \<Rightarrow>
          if action_String (au_Action document) = [] then Inl ErrInvalidOperatorCommand
          else if \<not> instanceIDPattern (au_Actor document) then Inl ErrInvalidOperatorCommand
          else if \<not> stableName (au_Reason document) then Inl ErrInvalidOperatorCommand
          else Inr document)"

section \<open>Field validators\<close>

definition validActivityEventFields :: "HistoryEventSpec \<Rightarrow> bool" where
  "validActivityEventFields spec =
     (if \<not> stableName (hs_StepName spec) \<or> hs_Definition spec \<noteq> zero_DefinitionReference \<or>
         hs_SuccessorID spec \<noteq> [] then False
      else case hs_Kind spec of
        EventActivityScheduled \<Rightarrow>
          hs_Attempt spec = 0 \<and> hs_IdempotencyKey spec = [] \<and> IsZero (hs_DueAt spec) \<and>
          hs_Code spec = [] \<and> \<not> hs_Retryable spec
      | EventActivityAttemptStarted \<Rightarrow>
          hs_Attempt spec > 0 \<and> instanceIDPattern (hs_IdempotencyKey spec) \<and>
          After (hs_DueAt spec) (hs_OccurredAt spec) \<and> hs_Code spec = [] \<and> \<not> hs_Retryable spec \<and>
          blen (hs_Data spec) = 0
      | EventActivityAttemptSucceeded \<Rightarrow>
          hs_Attempt spec > 0 \<and> hs_IdempotencyKey spec = [] \<and> IsZero (hs_DueAt spec) \<and>
          hs_Code spec = [] \<and> \<not> hs_Retryable spec
      | EventActivityAttemptFailed \<Rightarrow>
          hs_Attempt spec > 0 \<and> hs_IdempotencyKey spec = [] \<and> IsZero (hs_DueAt spec) \<and>
          stableName (hs_Code spec)
      | EventActivityAttemptUnknown \<Rightarrow>
          hs_Attempt spec > 0 \<and> hs_IdempotencyKey spec = [] \<and> IsZero (hs_DueAt spec) \<and>
          stableName (hs_Code spec) \<and> \<not> hs_Retryable spec
      | _ \<Rightarrow>
          hs_Attempt spec > 0 \<and> hs_IdempotencyKey spec = [] \<and>
          After (hs_DueAt spec) (hs_OccurredAt spec) \<and> hs_Code spec = [] \<and> \<not> hs_Retryable spec \<and>
          blen (hs_Data spec) = 0)"

definition validWaitEventFields :: "HistoryEventSpec \<Rightarrow> bool" where
  "validWaitEventFields spec =
     (if \<not> stableName (hs_StepName spec) \<or> hs_Definition spec \<noteq> zero_DefinitionReference \<or>
         hs_SuccessorID spec \<noteq> [] \<or> hs_Attempt spec \<noteq> 0 \<or> hs_Code spec \<noteq> [] \<or> hs_Retryable spec
      then False
      else case hs_Kind spec of
        EventTimerScheduled \<Rightarrow>
          hs_IdempotencyKey spec = [] \<and> After (hs_DueAt spec) (hs_OccurredAt spec) \<and>
          blen (hs_Data spec) = 0
      | EventTimerFired \<Rightarrow>
          hs_IdempotencyKey spec = [] \<and> IsZero (hs_DueAt spec) \<and> blen (hs_Data spec) = 0
      | _ \<Rightarrow> instanceIDPattern (hs_IdempotencyKey spec) \<and> IsZero (hs_DueAt spec))"

definition validRaceEventFields :: "HistoryEventSpec \<Rightarrow> bool" where
  "validRaceEventFields spec \<longleftrightarrow>
     stableName (hs_StepName spec) \<and> stableName (bstr (hs_Data spec)) \<and>
     hs_Definition spec = zero_DefinitionReference \<and> hs_SuccessorID spec = [] \<and>
     hs_Attempt spec = 0 \<and> hs_IdempotencyKey spec = [] \<and> IsZero (hs_DueAt spec) \<and>
     hs_Code spec = [] \<and> \<not> hs_Retryable spec"

definition validChildEventFields :: "HistoryEventSpec \<Rightarrow> bool" where
  "validChildEventFields spec =
     (if \<not> stableName (hs_StepName spec) then False
      else if hs_Kind spec = EventChildScheduled then
        reference_valid (hs_Definition spec) \<and> hs_Attempt spec = 0 \<and> hs_IdempotencyKey spec = [] \<and>
        IsZero (hs_DueAt spec) \<and> hs_Code spec = [] \<and> \<not> hs_Retryable spec
      else if hs_Definition spec \<noteq> zero_DefinitionReference then False
      else case hs_Kind spec of
        EventChildStartAttempted \<Rightarrow>
          hs_Attempt spec > 0 \<and> instanceIDPattern (hs_IdempotencyKey spec) \<and>
          After (hs_DueAt spec) (hs_OccurredAt spec) \<and> hs_Code spec = [] \<and> \<not> hs_Retryable spec \<and>
          blen (hs_Data spec) = 0
      | EventChildStarted \<Rightarrow>
          hs_Attempt spec > 0 \<and> hs_IdempotencyKey spec = [] \<and> IsZero (hs_DueAt spec) \<and>
          hs_Code spec = [] \<and> \<not> hs_Retryable spec \<and> blen (hs_Data spec) = 0
      | EventChildStartFailed \<Rightarrow>
          hs_Attempt spec > 0 \<and> hs_IdempotencyKey spec = [] \<and> IsZero (hs_DueAt spec) \<and>
          stableName (hs_Code spec) \<and> blen (hs_Data spec) = 0
      | EventChildStartUnknown \<Rightarrow>
          hs_Attempt spec > 0 \<and> hs_IdempotencyKey spec = [] \<and> IsZero (hs_DueAt spec) \<and>
          stableName (hs_Code spec) \<and> \<not> hs_Retryable spec \<and> blen (hs_Data spec) = 0
      | EventChildStartRetryScheduled \<Rightarrow>
          hs_Attempt spec > 0 \<and> hs_IdempotencyKey spec = [] \<and>
          After (hs_DueAt spec) (hs_OccurredAt spec) \<and> hs_Code spec = [] \<and> \<not> hs_Retryable spec \<and>
          blen (hs_Data spec) = 0
      | _ \<Rightarrow>
          if hs_Attempt spec \<noteq> 0 \<or> hs_IdempotencyKey spec \<noteq> [] \<or> \<not> IsZero (hs_DueAt spec) \<or>
             hs_Retryable spec then False
          else if hs_Kind spec = EventChildCompleted then hs_Code spec = []
          else stableName (hs_Code spec))"

definition validCompensationEventFields :: "HistoryEventSpec \<Rightarrow> bool" where
  "validCompensationEventFields spec =
     (if \<not> stableName (hs_StepName spec) \<or> hs_Definition spec \<noteq> zero_DefinitionReference \<or>
         hs_SuccessorID spec \<noteq> [] then False
      else case hs_Kind spec of
        EventCompensationScheduled \<Rightarrow>
          hs_Attempt spec = 0 \<and> hs_IdempotencyKey spec = [] \<and> IsZero (hs_DueAt spec) \<and>
          hs_Code spec = [] \<and> \<not> hs_Retryable spec
      | EventCompensationAttemptStarted \<Rightarrow>
          hs_Attempt spec > 0 \<and> instanceIDPattern (hs_IdempotencyKey spec) \<and>
          After (hs_DueAt spec) (hs_OccurredAt spec) \<and> hs_Code spec = [] \<and> \<not> hs_Retryable spec \<and>
          blen (hs_Data spec) = 0
      | EventCompensationAttemptSucceeded \<Rightarrow>
          hs_Attempt spec > 0 \<and> hs_IdempotencyKey spec = [] \<and> IsZero (hs_DueAt spec) \<and>
          hs_Code spec = [] \<and> \<not> hs_Retryable spec
      | EventCompensationAttemptFailed \<Rightarrow>
          hs_Attempt spec > 0 \<and> hs_IdempotencyKey spec = [] \<and> IsZero (hs_DueAt spec) \<and>
          stableName (hs_Code spec)
      | EventCompensationAttemptUnknown \<Rightarrow>
          hs_Attempt spec > 0 \<and> hs_IdempotencyKey spec = [] \<and> IsZero (hs_DueAt spec) \<and>
          stableName (hs_Code spec) \<and> \<not> hs_Retryable spec
      | EventCompensationRetryScheduled \<Rightarrow>
          hs_Attempt spec > 0 \<and> hs_IdempotencyKey spec = [] \<and>
          After (hs_DueAt spec) (hs_OccurredAt spec) \<and> hs_Code spec = [] \<and> \<not> hs_Retryable spec \<and>
          blen (hs_Data spec) = 0
      | _ \<Rightarrow>
          hs_Attempt spec = 0 \<and> hs_IdempotencyKey spec = [] \<and> IsZero (hs_DueAt spec) \<and>
          stableName (hs_Code spec) \<and> \<not> hs_Retryable spec)"

definition validOperatorEventFields :: "HistoryEventSpec \<Rightarrow> bool" where
  "validOperatorEventFields spec =
     (if hs_StepName spec \<noteq> [] then False
      else if hs_Attempt spec \<noteq> 0 then False
      else if \<not> IsZero (hs_DueAt spec) then False
      else if hs_Code spec \<noteq> [] then False
      else if hs_Retryable spec then False
      else if \<not> instanceIDPattern (hs_IdempotencyKey spec) then False
      else case decodeOperatorAudit (hs_Data spec) of Inl _ \<Rightarrow> False | Inr _ \<Rightarrow> True)"

definition kind_between :: "EventKind \<Rightarrow> EventKind \<Rightarrow> EventKind \<Rightarrow> bool" where
  "kind_between lo k hi \<longleftrightarrow> kind_code k \<ge> kind_code lo \<and> kind_code k \<le> kind_code hi"

definition validEventFields :: "HistoryEventSpec \<Rightarrow> bool" where
  "validEventFields spec =
     (if kind_between EventActivityScheduled (hs_Kind spec) EventActivityRetryScheduled
      then validActivityEventFields spec
      else if kind_between EventTimerScheduled (hs_Kind spec) EventSignalReceived
      then validWaitEventFields spec
      else if kind_between EventCompensationScheduled (hs_Kind spec) EventCompensationManuallyResolved
      then validCompensationEventFields spec
      else if hs_Kind spec = EventOperatorCommandRecorded then validOperatorEventFields spec
      else if hs_Kind spec = EventRaceWon then validRaceEventFields spec
      else if kind_between EventChildScheduled (hs_Kind spec) EventChildStartRetryScheduled
      then validChildEventFields spec
      else hs_StepName spec = [] \<and> hs_Attempt spec = 0 \<and> hs_IdempotencyKey spec = [] \<and>
        IsZero (hs_DueAt spec) \<and> hs_Code spec = [] \<and> \<not> hs_Retryable spec)"

definition requiresDefinition :: "EventKind \<Rightarrow> bool" where
  "requiresDefinition k \<longleftrightarrow> k = EventInstanceStarted \<or> k = EventDefinitionMigrated \<or>
     k = EventContinuedAsNew \<or> k = EventChildScheduled"

definition childEvent :: "EventKind \<Rightarrow> bool" where
  "childEvent k \<longleftrightarrow> kind_between EventChildScheduled k EventChildStartRetryScheduled"

definition validHistoryEventSpec :: "HistoryEventSpec \<Rightarrow> bool" where
  "validHistoryEventSpec spec =
     (if hs_Sequence spec = 0 \<or> \<not> instanceIDPattern (hs_InstanceID spec) \<or>
         kind_code (hs_Kind spec) < kind_code EventInstanceStarted \<or>
         kind_code (hs_Kind spec) > kind_code EventChildStartRetryScheduled \<or>
         IsZero (hs_OccurredAt spec) \<or> blen (hs_Data spec) > MaxPayloadBytes
      then False
      else if requiresDefinition (hs_Kind spec) \<and> \<not> reference_valid (hs_Definition spec) then False
      else if \<not> requiresDefinition (hs_Kind spec) \<and> hs_Definition spec \<noteq> zero_DefinitionReference
      then False
      else if (hs_Kind spec = EventContinuedAsNew \<or> childEvent (hs_Kind spec)) \<and>
         \<not> instanceIDPattern (hs_SuccessorID spec) then False
      else if hs_Kind spec \<noteq> EventContinuedAsNew \<and> \<not> childEvent (hs_Kind spec) \<and>
         hs_SuccessorID spec \<noteq> [] then False
      else validEventFields spec)"

section \<open>Construction\<close>

definition NewHistoryEvent :: "HistoryEventSpec \<Rightarrow> HistoryEvent result" where
  "NewHistoryEvent spec =
     (if IsZero (hs_OccurredAt spec) then Inl ErrInvalidHistoryEvent
      else
        let spec = spec\<lparr>hs_OccurredAt := canonicalTime (hs_OccurredAt spec),
                        hs_DueAt := canonicalTime (hs_DueAt spec)\<rparr>
        in if \<not> validHistoryEventSpec spec then Inl ErrInvalidHistoryEvent
           else Inr \<lparr>ev_sequence = hs_Sequence spec, ev_instanceID = hs_InstanceID spec,
             ev_kind = hs_Kind spec, ev_occurredAt = hs_OccurredAt spec,
             ev_definition = hs_Definition spec, ev_successorID = hs_SuccessorID spec,
             ev_stepName = hs_StepName spec, ev_attempt = hs_Attempt spec,
             ev_idempotencyKey = hs_IdempotencyKey spec, ev_dueAt = hs_DueAt spec,
             ev_code = hs_Code spec, ev_retryable = hs_Retryable spec,
             ev_data = cloneBytes (hs_Data spec)\<rparr>)"

definition event_spec :: "HistoryEvent \<Rightarrow> HistoryEventSpec" where
  "event_spec event = \<lparr>hs_Sequence = ev_sequence event, hs_InstanceID = ev_instanceID event,
     hs_Kind = ev_kind event, hs_OccurredAt = ev_occurredAt event,
     hs_Definition = ev_definition event, hs_SuccessorID = ev_successorID event,
     hs_StepName = ev_stepName event, hs_Attempt = ev_attempt event,
     hs_IdempotencyKey = ev_idempotencyKey event, hs_DueAt = ev_dueAt event,
     hs_Code = ev_code event, hs_Retryable = ev_retryable event, hs_Data = ev_data event\<rparr>"

definition historyEventValid :: "HistoryEvent \<Rightarrow> bool" where
  "historyEventValid event = validHistoryEventSpec (event_spec event)"

section \<open>Properties of event construction\<close>

lemmas event_field_defs [valid_simps] =
  validHistoryEventSpec_def validEventFields_def kind_between_def requiresDefinition_def childEvent_def
  validActivityEventFields_def validWaitEventFields_def validRaceEventFields_def
  validChildEventFields_def validCompensationEventFields_def validOperatorEventFields_def

lemma kind_code_bounds: "kind_code k \<le> 36" "kind_code k = 0 \<longleftrightarrow> k = EventKindInvalid"
  by (cases k; simp)+

lemma kind_code_inject [simp]: "kind_code j = kind_code k \<longleftrightarrow> j = k"
  by (cases j; cases k) simp_all

lemma NewHistoryEvent_Inr:
  "NewHistoryEvent spec = Inr e \<longleftrightarrow>
     validHistoryEventSpec (spec\<lparr>hs_OccurredAt := canonicalTime (hs_OccurredAt spec),
       hs_DueAt := canonicalTime (hs_DueAt spec)\<rparr>) \<and>
     event_spec e = spec\<lparr>hs_OccurredAt := canonicalTime (hs_OccurredAt spec),
       hs_DueAt := canonicalTime (hs_DueAt spec)\<rparr>"
proof -
  have "\<not> IsZero (hs_OccurredAt spec)"
    if "validHistoryEventSpec (spec\<lparr>hs_OccurredAt := canonicalTime (hs_OccurredAt spec),
       hs_DueAt := canonicalTime (hs_DueAt spec)\<rparr>)"
    using that by (simp add: validHistoryEventSpec_def split: if_splits)
  then show ?thesis
    by (cases e; cases spec) (auto simp: NewHistoryEvent_def Let_def event_spec_def)
qed

lemma NewHistoryEvent_valid:
  assumes "NewHistoryEvent spec = Inr e"
  shows "historyEventValid e" "canonical (ev_occurredAt e)" "canonical (ev_dueAt e)"
proof -
  from assms have v: "validHistoryEventSpec (spec\<lparr>hs_OccurredAt := canonicalTime (hs_OccurredAt spec),
      hs_DueAt := canonicalTime (hs_DueAt spec)\<rparr>)"
    and e: "event_spec e = spec\<lparr>hs_OccurredAt := canonicalTime (hs_OccurredAt spec),
      hs_DueAt := canonicalTime (hs_DueAt spec)\<rparr>"
    by (simp_all add: NewHistoryEvent_Inr)
  show "historyEventValid e" using v e by (simp add: historyEventValid_def)
  show "canonical (ev_occurredAt e)" "canonical (ev_dueAt e)"
    using arg_cong [OF e, of hs_OccurredAt] arg_cong [OF e, of hs_DueAt]
    by (simp_all add: event_spec_def)
qed

lemma NewHistoryEvent_event_spec:
  assumes "historyEventValid e" "canonical (ev_occurredAt e)" "canonical (ev_dueAt e)"
  shows "NewHistoryEvent (event_spec e) = Inr e"
  using assms unfolding NewHistoryEvent_Inr historyEventValid_def
  by (simp add: event_spec_def canonicalTime_id)

text \<open>An event that \<open>NewHistoryEvent\<close> accepted; every stored event is one.\<close>

definition event_ok :: "HistoryEvent \<Rightarrow> bool" where
  "event_ok e \<longleftrightarrow> historyEventValid e \<and> canonical (ev_occurredAt e) \<and> canonical (ev_dueAt e)"

lemma event_ok_iff: "event_ok e \<longleftrightarrow> (\<exists>spec. NewHistoryEvent spec = Inr e)"
  unfolding event_ok_def using NewHistoryEvent_valid NewHistoryEvent_event_spec by blast

lemma event_ok_basic:
  assumes "event_ok e"
  shows "ev_sequence e \<noteq> 0" "instanceIDPattern (ev_instanceID e)" "\<not> IsZero (ev_occurredAt e)"
    "blen (ev_data e) \<le> MaxPayloadBytes" "ev_kind e \<noteq> EventKindInvalid" "mono (ev_occurredAt e) = None"
  using assms
  by (auto simp: event_ok_def historyEventValid_def validHistoryEventSpec_def event_spec_def
      canonical_def split: if_splits)

lemma event_ok_attempt:
  assumes "event_ok e" and "ev_kind e \<in> {EventActivityAttemptStarted, EventActivityAttemptSucceeded,
    EventActivityAttemptFailed, EventActivityAttemptUnknown, EventActivityRetryScheduled,
    EventCompensationAttemptStarted, EventCompensationAttemptSucceeded, EventCompensationAttemptFailed,
    EventCompensationAttemptUnknown, EventCompensationRetryScheduled,
    EventChildStartAttempted, EventChildStarted, EventChildStartFailed, EventChildStartUnknown,
    EventChildStartRetryScheduled}"
  shows "ev_attempt e > 0"
proof -
  have "validEventFields (event_spec e)"
    using assms(1) by (simp add: event_ok_def historyEventValid_def validHistoryEventSpec_def split: if_splits)
  then show ?thesis
    using assms(2)
    by (elim insertE emptyE) (simp_all add: validEventFields_def kind_between_def event_spec_def
        validActivityEventFields_def validChildEventFields_def validCompensationEventFields_def
        split: if_splits)
qed

section \<open>Audit documents survive the JSON round trip\<close>

lemma action_of_code_code [simp]: "action_of_code (of_nat (action_code a)) = a"
  by (cases a) (simp_all add: action_of_code_def)

lemma unat_action_code [simp]: "unat (of_nat (action_code a) :: 8 word) = action_code a"
  by (cases a) simp_all

lemma action_String_empty [simp]: "action_String a = [] \<longleftrightarrow> a = OperatorNone"
  by (cases a) simp_all

lemma action_code_digit: "action_code a < 10"
  by (cases a) simp_all

lemmas id_char_defs = id_char_def name_char_def is_alnum_def is_digit_def in_range_def

lemma json_chars_audit_keys:
  "json_chars ''action'' = ''action''" "json_chars ''actor'' = ''actor''" "json_chars ''reason'' = ''reason''"
  by (rule json_chars_plain, simp add: id_char_defs)+

lemma audit_fold:
  "fold_members audit_member zero_audit
     [(''action'', j_uint (of_nat (action_code (au_Action document)) :: 8 word)),
      (''actor'', JStr (au_Actor document)), (''reason'', JStr (au_Reason document))] = Some document"
  by (cases document) (simp add: audit_member_def match_field_def zero_audit_def)

lemma audit_data_length:
  assumes "plain (au_Actor document)" "plain (au_Reason document)"
  shows "blen (audit_data document) = 35 + length (au_Actor document) + length (au_Reason document)"
proof -
  have "length (dec_nat (action_code (au_Action document))) = 1"
    using action_code_digit [of "au_Action document"] by (subst dec_nat.simps) simp
  then show ?thesis
    using assms by (simp add: audit_data_def marshal_def audit_json_def json_string_def j_uint_def
        json_chars_audit_keys del: json_chars.simps)
qed

lemma decodeOperatorAudit_audit_data:
  assumes "au_Action document \<noteq> OperatorNone" "instanceIDPattern (au_Actor document)"
    "stableName (au_Reason document)"
  shows "decodeOperatorAudit (audit_data document) = Inr document"
proof -
  have plain: "plain (au_Actor document)" "plain (au_Reason document)"
    using assms by (simp_all add: instanceIDPattern_chars stableName_chars)
  have len: "blen (audit_data document) \<noteq> 0" "blen (audit_data document) \<le> MaxOperatorAuditBytes"
    using audit_data_length [OF plain] instanceIDPattern_length [OF assms(2)] stableName_length [OF assms(3)]
    by (simp_all add: MaxOperatorAuditBytes_def)
  have "decode_struct audit_member zero_audit (bstr (audit_data document)) = Some document"
    unfolding audit_data_def audit_json_def marshal_def using plain
    by (simp add: decode_struct_flat audit_fold id_char_defs del: json_print.simps fold_members.simps)
  then show ?thesis
    using assms len by (simp add: decodeOperatorAudit_def)
qed

lemma decodeOperatorAudit_Inr:
  "decodeOperatorAudit data = Inr document \<Longrightarrow>
     au_Action document \<noteq> OperatorNone \<and> instanceIDPattern (au_Actor document) \<and>
     stableName (au_Reason document) \<and> blen data \<le> MaxOperatorAuditBytes"
  by (auto simp: decodeOperatorAudit_def split: if_splits option.splits)

end
