(* ===== verification/Instance.thy ===== *)
theory Instance
  imports History_Event
begin

text \<open>
  The replayed instance (history.go) with the progress records of its steps
  (activity\_history.go, wait\_history.go, race\_history.go, child\_history.go,
  compensation\_history.go, operator.go), and the retry back-off that replay and the transition
  constructors share. A progress map that the zero \<open>Instance\<close> leaves nil is the empty map:
  the handlers write to it only after \<open>applyStart\<close> has made it.
\<close>

section \<open>Progress records\<close>

datatype InstanceStatus =
    StatusRunning | StatusPaused | StatusCancelling | StatusCompleted | StatusFailed
  | StatusCancelled | StatusTerminated | StatusContinuedAsNew | StatusNone

datatype ActivityProgressStatus =
    ActivityProgressReady | ActivityProgressRunning | ActivityProgressSucceeded
  | ActivityProgressFailed | ActivityProgressUnknown | ActivityProgressRetryWaiting
  | ActivityProgressNone

record ActivityProgress =
  ap_stepName :: string
  ap_status :: ActivityProgressStatus
  ap_attempt :: uint32
  ap_idempotencyKey :: string
  ap_dueAt :: gotime
  ap_input :: bytes
  ap_result :: bytes
  ap_code :: string
  ap_retryable :: bool

definition zero_ActivityProgress :: ActivityProgress where
  "zero_ActivityProgress = \<lparr>ap_stepName = [], ap_status = ActivityProgressNone, ap_attempt = 0,
     ap_idempotencyKey = [], ap_dueAt = time_zero, ap_input = None, ap_result = None,
     ap_code = [], ap_retryable = False\<rparr>"

datatype TimerProgressStatus = TimerWaiting | TimerFired | TimerNone

record TimerProgress =
  tp_stepName :: string
  tp_status :: TimerProgressStatus
  tp_dueAt :: gotime
  tp_firedAt :: gotime

definition zero_TimerProgress :: TimerProgress where
  "zero_TimerProgress = \<lparr>tp_stepName = [], tp_status = TimerNone, tp_dueAt = time_zero,
     tp_firedAt = time_zero\<rparr>"

record SignalProgress =
  sp_stepName :: string
  sp_signalID :: string
  sp_receivedAt :: gotime
  sp_payload :: bytes

record RaceProgress =
  rc_stepName :: string
  rc_winnerStepName :: string
  rc_decidedAt :: gotime

datatype ChildProgressStatus =
    ChildScheduled | ChildSucceeded | ChildFailed | ChildStartRunning | ChildActive
  | ChildStartFailedStatus | ChildStartUnknownStatus | ChildStartRetryWaiting | ChildNone

record ChildProgress =
  cp_stepName :: string
  cp_childID :: string
  cp_definition :: DefinitionReference
  cp_status :: ChildProgressStatus
  cp_input :: bytes
  cp_result :: bytes
  cp_code :: string
  cp_attempt :: uint32
  cp_idempotencyKey :: string
  cp_dueAt :: gotime
  cp_retryable :: bool

definition zero_ChildProgress :: ChildProgress where
  "zero_ChildProgress = \<lparr>cp_stepName = [], cp_childID = [],
     cp_definition = zero_DefinitionReference, cp_status = ChildNone, cp_input = None,
     cp_result = None, cp_code = [], cp_attempt = 0, cp_idempotencyKey = [],
     cp_dueAt = time_zero, cp_retryable = False\<rparr>"

datatype CompensationProgressStatus =
    CompensationReady | CompensationRunning | CompensationSucceeded | CompensationFailed
  | CompensationUnknown | CompensationRetryWaiting | CompensationManuallyResolved
  | CompensationNone

record CompensationProgress =
  kp_stepName :: string
  kp_status :: CompensationProgressStatus
  kp_scheduledSequence :: uint64
  kp_attempt :: uint32
  kp_idempotencyKey :: string
  kp_dueAt :: gotime
  kp_input :: bytes
  kp_result :: bytes
  kp_code :: string
  kp_retryable :: bool

definition zero_CompensationProgress :: CompensationProgress where
  "zero_CompensationProgress = \<lparr>kp_stepName = [], kp_status = CompensationNone,
     kp_scheduledSequence = 0, kp_attempt = 0, kp_idempotencyKey = [], kp_dueAt = time_zero,
     kp_input = None, kp_result = None, kp_code = [], kp_retryable = False\<rparr>"

record OperatorActionRecord =
  oa_commandID :: string
  oa_action :: OperatorAction
  oa_actor :: string
  oa_reason :: string
  oa_occurredAt :: gotime

section \<open>Instances\<close>

record Instance =
  in_id :: string
  in_definition :: DefinitionReference
  in_status :: InstanceStatus
  in_sequence :: uint64
  in_startedAt :: gotime
  in_updatedAt :: gotime
  in_input :: bytes
  in_result :: bytes
  in_successorID :: string
  in_activities :: "string \<rightharpoonup> ActivityProgress"
  in_timers :: "string \<rightharpoonup> TimerProgress"
  in_signals :: "string \<rightharpoonup> SignalProgress"
  in_races :: "string \<rightharpoonup> RaceProgress"
  in_children :: "string \<rightharpoonup> ChildProgress"
  in_compensations :: "string \<rightharpoonup> CompensationProgress"
  in_operatorActions :: "OperatorActionRecord list"
  in_pendingOperator :: OperatorAction

definition zero_Instance :: Instance where
  "zero_Instance = \<lparr>in_id = [], in_definition = zero_DefinitionReference, in_status = StatusNone,
     in_sequence = 0, in_startedAt = time_zero, in_updatedAt = time_zero, in_input = None,
     in_result = None, in_successorID = [], in_activities = Map.empty, in_timers = Map.empty,
     in_signals = Map.empty, in_races = Map.empty, in_children = Map.empty,
     in_compensations = Map.empty, in_operatorActions = [], in_pendingOperator = OperatorNone\<rparr>"

definition terminalStatus :: "InstanceStatus \<Rightarrow> bool" where
  "terminalStatus status \<longleftrightarrow> status = StatusCompleted \<or> status = StatusFailed \<or>
     status = StatusCancelled \<or> status = StatusTerminated \<or> status = StatusContinuedAsNew"

lemma terminalStatus_simps [simp]:
  "\<not> terminalStatus StatusRunning" "\<not> terminalStatus StatusPaused" "\<not> terminalStatus StatusCancelling"
  "terminalStatus StatusCompleted" "terminalStatus StatusFailed" "terminalStatus StatusCancelled"
  "terminalStatus StatusTerminated" "terminalStatus StatusContinuedAsNew" "\<not> terminalStatus StatusNone"
  by (simp_all add: terminalStatus_def)

section \<open>Retry back-off\<close>

fun retry_loop :: "nat \<Rightarrow> RetryPolicy \<Rightarrow> duration \<Rightarrow> duration" where
  "retry_loop 0 policy delay = delay"
| "retry_loop (Suc n) policy delay = retry_loop n policy (min (delay * 2) (rp_MaxDelay policy))"

definition retryDelay :: "RetryPolicy \<Rightarrow> uint32 \<Rightarrow> duration" where
  "retryDelay policy attempt = retry_loop (unat (min (attempt - 1) 63)) policy (rp_InitialDelay policy)"

lemma sint_nonneg_uint:
  assumes "0 \<le> sint (w :: 64 word)"
  shows "uint w = sint w" "uint w < 2 ^ 63"
proof -
  have lt: "sint w < 2 ^ 63"
    using sint_lt [of w] by simp
  have "uint w = sint w mod 2 ^ 64"
    by (simp add: uint_sint take_bit_eq_mod)
  then show "uint w = sint w"
    using assms lt by simp
  then show "uint w < 2 ^ 63"
    using lt by simp
qed

lemma uint_small_sint: "uint (w :: 64 word) < 2 ^ 63 \<Longrightarrow> sint w = uint w"
  using order_trans [of "- (2 ^ 63)" 0 "uint w"]
  by (simp add: sint_uint signed_take_bit_int_eq_self_iff)

text \<open>The doubling step: below the cap the doubled delay fits in 64 bits unsigned.\<close>

lemma retry_step:
  assumes "0 < sint (d :: duration)" "sint d \<le> sint m" "0 < sint m"
  shows "sint (min (d * 2) m) = min (2 * sint d) (sint m)"
proof -
  have ud: "uint d = sint d" "uint d < 2 ^ 63" and um: "uint m = sint m" "uint m < 2 ^ 63"
    using assms sint_nonneg_uint [of d] sint_nonneg_uint [of m] by simp_all
  have double: "uint (d * 2) = 2 * uint d"
    using ud(2) by (simp add: uint_word_ariths)
  have "uint (min (d * 2) m) = min (2 * sint d) (sint m)"
    unfolding min_def word_le_def using double ud um by simp
  moreover have "uint (min (d * 2) m) < 2 ^ 63"
    unfolding min_def word_le_def using double um by simp
  ultimately show ?thesis
    by (simp add: uint_small_sint)
qed

lemma retry_loop_value:
  assumes "0 < sint d" "sint d \<le> sint (rp_MaxDelay policy)"
  shows "sint (retry_loop n policy d) = min (sint d * 2 ^ n) (sint (rp_MaxDelay policy))"
  using assms
proof (induction n arbitrary: d)
  case 0
  then show ?case by simp
next
  case (Suc n)
  let ?m = "rp_MaxDelay policy"
  have step: "sint (min (d * 2) ?m) = min (2 * sint d) (sint ?m)"
    by (rule retry_step) (use Suc.prems in auto)
  have "sint (retry_loop n policy (min (d * 2) ?m)) =
      min (min (2 * sint d) (sint ?m) * 2 ^ n) (sint ?m)"
    using Suc.IH [of "min (d * 2) ?m"] Suc.prems by (simp add: step)
  also have "\<dots> = min (sint d * 2 ^ Suc n) (sint ?m)"
  proof (cases "2 * sint d \<le> sint ?m")
    case True
    then show ?thesis by (simp add: mult.commute mult.left_commute)
  next
    case False
    have grow: "x \<le> x * 2 ^ n" if "0 \<le> x" for x :: int
      using that mult_left_mono [of 1 "2 ^ n" x] by simp
    have "sint ?m \<le> sint ?m * 2 ^ n" "2 * sint d \<le> 2 * sint d * 2 ^ n"
      using Suc.prems by (auto intro!: grow)
    then show ?thesis using False by (simp add: min_def mult.commute mult.left_commute)
  qed
  finally show ?case by simp
qed

lemma validRetry_delays:
  "validRetry policy \<Longrightarrow> 0 < sint (rp_InitialDelay policy) \<and>
     sint (rp_InitialDelay policy) \<le> sint (rp_MaxDelay policy) \<and> 0 < rp_MaxAttempts policy"
  by (simp add: validRetry_def)

lemma retryDelay_value:
  assumes "validRetry policy" "0 < attempt"
  shows "sint (retryDelay policy attempt) =
    min (sint (rp_InitialDelay policy) * 2 ^ (unat attempt - 1)) (sint (rp_MaxDelay policy))"
proof -
  let ?i = "sint (rp_InitialDelay policy)" and ?m = "sint (rp_MaxDelay policy)"
  have i: "0 < ?i" "?i \<le> ?m" and m: "?m < 2 ^ 63"
    using validRetry_delays [OF assms(1)] sint_lt [of "rp_MaxDelay policy"] by simp_all
  have n: "unat (attempt - 1) = unat attempt - 1"
    using assms(2) by (metis unat_minus_one word_neq_0_conv)
  have cnt: "unat (min (attempt - 1) 63) = min (unat attempt - 1) 63"
    by (simp add: min_def word_le_nat_alt n)
  have "min (?i * 2 ^ min (unat attempt - 1) 63) ?m = min (?i * 2 ^ (unat attempt - 1)) ?m"
  proof (cases "unat attempt - 1 \<le> 63")
    case True
    then show ?thesis by simp
  next
    case False
    have big: "(2 :: int) ^ 63 \<le> ?i * 2 ^ k" if "63 \<le> k" for k
    proof -
      have "(1 :: int) * 2 ^ 63 \<le> ?i * 2 ^ k"
        using i that by (intro mult_mono power_increasing) auto
      then show ?thesis by simp
    qed
    have "?m \<le> ?i * 2 ^ 63" "?m \<le> ?i * 2 ^ (unat attempt - 1)"
      using m False big [of 63] big [of "unat attempt - 1"] by linarith+
    then show ?thesis using False by simp
  qed
  then show ?thesis
    using retry_loop_value [OF i, of "min (unat attempt - 1) 63"] by (simp add: retryDelay_def cnt)
qed

lemma retryDelay_bounds:
  assumes "validRetry policy" "0 < attempt"
  shows "0 < sint (retryDelay policy attempt)" "sint (retryDelay policy attempt) \<le> sint (rp_MaxDelay policy)"
proof -
  have "0 < sint (rp_InitialDelay policy) * 2 ^ (unat attempt - 1)"
    using validRetry_delays [OF assms(1)] by simp
  then show "0 < sint (retryDelay policy attempt)"
    "sint (retryDelay policy attempt) \<le> sint (rp_MaxDelay policy)"
    using validRetry_delays [OF assms(1)] by (simp_all add: retryDelay_value [OF assms])
qed

end
