(* ===== verification/Activity_History.thy ===== *)
theory Activity_History
  imports Instance
begin

text \<open>
  Replay of activity events (activity\_history.go): the handler \<open>applyActivity\<close>, the step relation
  of one activity's progress that it implements, and the bounds that relation keeps.
\<close>

section \<open>The handler\<close>

definition activityOutcomeAllowed :: "ActivityProgress \<Rightarrow> HistoryEvent \<Rightarrow> bool" where
  "activityOutcomeAllowed progress event \<longleftrightarrow>
     ap_status progress = ActivityProgressRunning \<and> ev_attempt event = ap_attempt progress"

definition applyActivity :: "Registry option \<Rightarrow> Instance \<Rightarrow> HistoryEvent \<Rightarrow> Instance result" where
  "applyActivity registry inst event =
     (case definitionActivityStep (resolved registry (in_definition inst)) (ev_stepName event) of
        None \<Rightarrow> Inl ErrInvalidTransition
      | Some step \<Rightarrow>
          (let exists = has_key (in_activities inst) (ev_stepName event);
               progress = lookup_zero zero_ActivityProgress (in_activities inst) (ev_stepName event);
               store = (\<lambda>p. inst\<lparr>in_activities := (in_activities inst)(ev_stepName event \<mapsto> p)\<rparr>)
           in case ev_kind event of
             EventActivityScheduled \<Rightarrow>
               if in_status inst \<noteq> StatusRunning \<or> exists \<or>
                  blen (ev_data event) > unat (st_InputLimit step)
               then Inl ErrInvalidTransition
               else Inr (store (zero_ActivityProgress\<lparr>ap_stepName := ev_stepName event,
                      ap_status := ActivityProgressReady, ap_input := cloneBytes (ev_data event)\<rparr>))
           | EventActivityAttemptStarted \<Rightarrow>
               if in_status inst \<noteq> StatusRunning \<or>
                  (ap_status progress \<noteq> ActivityProgressReady \<and>
                   ap_status progress \<noteq> ActivityProgressRetryWaiting) \<or>
                  ev_attempt event \<noteq> ap_attempt progress + 1 \<or>
                  ev_attempt event > rp_MaxAttempts (st_Retry step) \<or>
                  ev_dueAt event \<noteq> canonicalTime (Add (ev_occurredAt event) (st_Timeout step)) \<or>
                  (ap_status progress = ActivityProgressRetryWaiting \<and>
                   Before (ev_occurredAt event) (ap_dueAt progress))
               then Inl ErrInvalidTransition
               else Inr (store (progress\<lparr>ap_status := ActivityProgressRunning,
                      ap_attempt := ev_attempt event, ap_idempotencyKey := ev_idempotencyKey event,
                      ap_dueAt := ev_dueAt event, ap_result := None, ap_code := [],
                      ap_retryable := False\<rparr>))
           | EventActivityAttemptSucceeded \<Rightarrow>
               if \<not> activityOutcomeAllowed progress event \<or>
                  blen (ev_data event) > unat (st_ResultLimit step)
               then Inl ErrInvalidTransition
               else Inr (store (progress\<lparr>ap_status := ActivityProgressSucceeded,
                      ap_dueAt := time_zero, ap_result := cloneBytes (ev_data event),
                      ap_code := [], ap_retryable := False\<rparr>))
           | EventActivityAttemptFailed \<Rightarrow>
               if \<not> activityOutcomeAllowed progress event \<or>
                  blen (ev_data event) > unat (st_ResultLimit step)
               then Inl ErrInvalidTransition
               else Inr (store (progress\<lparr>ap_status := ActivityProgressFailed,
                      ap_dueAt := time_zero, ap_result := cloneBytes (ev_data event),
                      ap_code := ev_code event, ap_retryable := ev_retryable event\<rparr>))
           | EventActivityAttemptUnknown \<Rightarrow>
               if \<not> activityOutcomeAllowed progress event \<or>
                  blen (ev_data event) > unat (st_ResultLimit step)
               then Inl ErrInvalidTransition
               else Inr (store (progress\<lparr>ap_status := ActivityProgressUnknown,
                      ap_dueAt := time_zero, ap_result := cloneBytes (ev_data event),
                      ap_code := ev_code event, ap_retryable := False\<rparr>))
           | EventActivityRetryScheduled \<Rightarrow>
               if in_status inst \<noteq> StatusRunning \<or> ap_status progress \<noteq> ActivityProgressFailed \<or>
                  \<not> ap_retryable progress \<or> ap_attempt progress \<ge> rp_MaxAttempts (st_Retry step) \<or>
                  ev_attempt event \<noteq> ap_attempt progress \<or>
                  ev_dueAt event \<noteq> canonicalTime
                    (Add (ev_occurredAt event) (retryDelay (st_Retry step) (ev_attempt event)))
               then Inl ErrInvalidTransition
               else Inr (store (progress\<lparr>ap_status := ActivityProgressRetryWaiting,
                      ap_dueAt := ev_dueAt event\<rparr>))
           | _ \<Rightarrow> Inr inst))"

section \<open>The progress relation\<close>

text \<open>
  The life of one activity step as a relation on its progress (\<open>None\<close> before it is
  scheduled), independent of the instance that holds it. The handler takes exactly these steps.
\<close>

inductive activity_step ::
  "StepSpec \<Rightarrow> ActivityProgress option \<Rightarrow> HistoryEvent \<Rightarrow> ActivityProgress \<Rightarrow> bool"
  for step :: StepSpec where
  schedule: "ev_kind e = EventActivityScheduled \<Longrightarrow> blen (ev_data e) \<le> unat (st_InputLimit step) \<Longrightarrow>
    activity_step step None e (zero_ActivityProgress\<lparr>ap_stepName := ev_stepName e,
      ap_status := ActivityProgressReady, ap_input := ev_data e\<rparr>)"
| start: "ev_kind e = EventActivityAttemptStarted \<Longrightarrow>
    ap_status p = ActivityProgressReady \<or>
      (ap_status p = ActivityProgressRetryWaiting \<and> \<not> Before (ev_occurredAt e) (ap_dueAt p)) \<Longrightarrow>
    ev_attempt e = ap_attempt p + 1 \<Longrightarrow> ev_attempt e \<le> rp_MaxAttempts (st_Retry step) \<Longrightarrow>
    ev_dueAt e = canonicalTime (Add (ev_occurredAt e) (st_Timeout step)) \<Longrightarrow>
    activity_step step (Some p) e (p\<lparr>ap_status := ActivityProgressRunning, ap_attempt := ev_attempt e,
      ap_idempotencyKey := ev_idempotencyKey e, ap_dueAt := ev_dueAt e, ap_result := None,
      ap_code := [], ap_retryable := False\<rparr>)"
| succeed: "ev_kind e = EventActivityAttemptSucceeded \<Longrightarrow> activityOutcomeAllowed p e \<Longrightarrow>
    blen (ev_data e) \<le> unat (st_ResultLimit step) \<Longrightarrow>
    activity_step step (Some p) e (p\<lparr>ap_status := ActivityProgressSucceeded, ap_dueAt := time_zero,
      ap_result := ev_data e, ap_code := [], ap_retryable := False\<rparr>)"
| fail: "ev_kind e = EventActivityAttemptFailed \<Longrightarrow> activityOutcomeAllowed p e \<Longrightarrow>
    blen (ev_data e) \<le> unat (st_ResultLimit step) \<Longrightarrow>
    activity_step step (Some p) e (p\<lparr>ap_status := ActivityProgressFailed, ap_dueAt := time_zero,
      ap_result := ev_data e, ap_code := ev_code e, ap_retryable := ev_retryable e\<rparr>)"
| unknown: "ev_kind e = EventActivityAttemptUnknown \<Longrightarrow> activityOutcomeAllowed p e \<Longrightarrow>
    blen (ev_data e) \<le> unat (st_ResultLimit step) \<Longrightarrow>
    activity_step step (Some p) e (p\<lparr>ap_status := ActivityProgressUnknown, ap_dueAt := time_zero,
      ap_result := ev_data e, ap_code := ev_code e, ap_retryable := False\<rparr>)"
| retry: "ev_kind e = EventActivityRetryScheduled \<Longrightarrow> ap_status p = ActivityProgressFailed \<Longrightarrow>
    ap_retryable p \<Longrightarrow> ap_attempt p < rp_MaxAttempts (st_Retry step) \<Longrightarrow> ev_attempt e = ap_attempt p \<Longrightarrow>
    ev_dueAt e = canonicalTime (Add (ev_occurredAt e) (retryDelay (st_Retry step) (ev_attempt e))) \<Longrightarrow>
    activity_step step (Some p) e (p\<lparr>ap_status := ActivityProgressRetryWaiting, ap_dueAt := ev_dueAt e\<rparr>)"

inductive_simps activity_step_None: "activity_step step None e p'"
inductive_simps activity_step_Some: "activity_step step (Some p) e p'"

definition activity_kind :: "EventKind \<Rightarrow> bool" where
  "activity_kind k \<longleftrightarrow> kind_between EventActivityScheduled k EventActivityRetryScheduled"

lemma activity_kind_cases:
  "activity_kind k \<longleftrightarrow> k \<in> {EventActivityScheduled, EventActivityAttemptStarted,
     EventActivityAttemptSucceeded, EventActivityAttemptFailed, EventActivityAttemptUnknown,
     EventActivityRetryScheduled}"
  by (cases k) (simp_all add: activity_kind_def kind_between_def)

text \<open>Only outcome events are replayed while the instance is not running.\<close>

definition activity_needs_running :: "EventKind \<Rightarrow> bool" where
  "activity_needs_running k \<longleftrightarrow> k = EventActivityScheduled \<or> k = EventActivityAttemptStarted \<or>
     k = EventActivityRetryScheduled"

lemma lookup_zero_activity:
  "lookup_zero zero_ActivityProgress m k = (case m k of None \<Rightarrow> zero_ActivityProgress | Some p \<Rightarrow> p)"
  by (simp add: lookup_zero_def)

lemma zero_activity_status [simp]: "ap_status zero_ActivityProgress = ActivityProgressNone"
  by (simp add: zero_ActivityProgress_def)

theorem applyActivity_step:
  assumes "applyActivity registry inst e = Inr inst'" "activity_kind (ev_kind e)"
  obtains step p' where
    "definitionActivityStep (resolved registry (in_definition inst)) (ev_stepName e) = Some step"
    "activity_step step (in_activities inst (ev_stepName e)) e p'"
    "inst' = inst\<lparr>in_activities := (in_activities inst)(ev_stepName e \<mapsto> p')\<rparr>"
    "activity_needs_running (ev_kind e) \<Longrightarrow> in_status inst = StatusRunning"
proof -
  from assms(1) obtain step where
      step: "definitionActivityStep (resolved registry (in_definition inst)) (ev_stepName e) = Some step"
    by (auto simp: applyActivity_def split: option.splits)
  have "\<exists>p'. activity_step step (in_activities inst (ev_stepName e)) e p' \<and>
      inst' = inst\<lparr>in_activities := (in_activities inst)(ev_stepName e \<mapsto> p')\<rparr> \<and>
      (activity_needs_running (ev_kind e) \<longrightarrow> in_status inst = StatusRunning)"
    using assms(1) step assms(2) unfolding activity_kind_cases
    by (elim insertE emptyE; cases "in_activities inst (ev_stepName e)";
        simp add: applyActivity_def Let_def lookup_zero_activity activity_needs_running_def
          activityOutcomeAllowed_def activity_step_None activity_step_Some not_less not_le
          split: if_splits; blast?)
  with step that show thesis by blast
qed

lemma applyActivity_exec:
  assumes "definitionActivityStep (resolved registry (in_definition inst)) (ev_stepName e) = Some step"
    "activity_step step (in_activities inst (ev_stepName e)) e p'"
    "activity_needs_running (ev_kind e) \<Longrightarrow> in_status inst = StatusRunning"
  shows "applyActivity registry inst e =
    Inr (inst\<lparr>in_activities := (in_activities inst)(ev_stepName e \<mapsto> p')\<rparr>)"
  using assms(2) assms(1,3)
  by (cases rule: activity_step.cases)
    (auto simp: applyActivity_def Let_def lookup_zero_activity activity_needs_running_def
      activityOutcomeAllowed_def not_less not_le has_key_def)

section \<open>What the relation keeps\<close>

lemma activity_step_final:
  assumes "activity_step step (Some p) e p'"
  shows "ap_status p \<noteq> ActivityProgressSucceeded" "ap_status p \<noteq> ActivityProgressUnknown"
  using assms by (auto simp: activity_step_Some activityOutcomeAllowed_def)

text \<open>Bounds of one progress record under the step's limits.\<close>

definition activity_bounds :: "StepSpec \<Rightarrow> ActivityProgress \<Rightarrow> bool" where
  "activity_bounds step p \<longleftrightarrow>
     ap_attempt p \<le> rp_MaxAttempts (st_Retry step) \<and>
     blen (ap_input p) \<le> unat (st_InputLimit step) \<and> blen (ap_result p) \<le> unat (st_ResultLimit step)"

lemma activity_step_bounds:
  assumes "activity_step step op e p'" "\<And>p. op = Some p \<Longrightarrow> activity_bounds step p"
  shows "activity_bounds step p'"
  using assms by cases (auto simp: activity_bounds_def zero_ActivityProgress_def)

text \<open>The shape of a record, whatever the definition in force.\<close>

definition activity_shape :: "string \<Rightarrow> ActivityProgress \<Rightarrow> bool" where
  "activity_shape n p \<longleftrightarrow> ap_stepName p = n \<and> ap_status p \<noteq> ActivityProgressNone \<and>
     (ap_status p = ActivityProgressReady \<longleftrightarrow> ap_attempt p = 0) \<and>
     (ap_retryable p \<longrightarrow> ap_status p = ActivityProgressFailed \<or> ap_status p = ActivityProgressRetryWaiting) \<and>
     (ap_status p = ActivityProgressRetryWaiting \<longrightarrow> ap_retryable p)"

lemma activity_step_shape:
  assumes "activity_step step op e p'" "event_ok e" "\<And>p. op = Some p \<Longrightarrow> activity_shape (ev_stepName e) p"
  shows "activity_shape (ev_stepName e) p'"
  using assms(1)
proof cases
  case (start p)
  moreover have "ev_attempt e > 0" by (rule event_ok_attempt [OF assms(2)]) (simp add: start)
  ultimately show ?thesis using assms(3) [of p] by (auto simp: activity_shape_def)
qed (use assms(3) in \<open>auto simp: activity_shape_def zero_ActivityProgress_def activityOutcomeAllowed_def\<close>)

lemma activity_step_attempt_mono:
  assumes "activity_step step (Some p) e p'" "event_ok e"
  shows "ap_attempt p' = ap_attempt p \<or>
    (ev_kind e = EventActivityAttemptStarted \<and> unat (ap_attempt p') = Suc (unat (ap_attempt p)))"
proof (cases "ev_kind e = EventActivityAttemptStarted")
  case True
  have "ev_attempt e > 0" by (rule event_ok_attempt [OF assms(2)]) (simp add: True)
  with True assms(1) unat_Suc_word [of "ap_attempt p"] show ?thesis
    by (auto simp: activity_step_Some word_pos_iff)
next
  case False
  with assms(1) show ?thesis by (auto simp: activity_step_Some)
qed

end
