(* ===== verification/Wait_History.thy ===== *)
theory Wait_History
  imports Instance
begin

text \<open>
  Replay of timer and signal events (wait\_history.go) and of race decisions (race\_history.go).
\<close>

section \<open>Timers and signals\<close>

definition signal_step :: "Definition \<Rightarrow> string \<Rightarrow> StepSpec option" where
  "signal_step d name = (case definitionStep d name StepSignal of
     Some step \<Rightarrow> Some step | None \<Rightarrow> definitionStep d name StepApproval)"

definition applyWait :: "Registry option \<Rightarrow> Instance \<Rightarrow> HistoryEvent \<Rightarrow> Instance result" where
  "applyWait registry inst event =
     (if ev_kind event \<noteq> EventTimerScheduled \<and> ev_kind event \<noteq> EventTimerFired \<and>
         ev_kind event \<noteq> EventSignalReceived then Inl ErrInvalidTransition
      else let d = resolved registry (in_definition inst) in
        if ev_kind event = EventSignalReceived then
          (case signal_step d (ev_stepName event) of
             None \<Rightarrow> Inl ErrInvalidTransition
           | Some step \<Rightarrow>
               if (in_status inst \<noteq> StatusRunning \<and> in_status inst \<noteq> StatusPaused) \<or>
                  has_key (in_signals inst) (ev_stepName event) \<or>
                  blen (ev_data event) > unat (st_InputLimit step)
               then Inl ErrInvalidTransition
               else Inr (inst\<lparr>in_signals := (in_signals inst)(ev_stepName event \<mapsto>
                      \<lparr>sp_stepName = ev_stepName event, sp_signalID = ev_idempotencyKey event,
                       sp_receivedAt = ev_occurredAt event,
                       sp_payload = cloneBytes (ev_data event)\<rparr>)\<rparr>))
        else (case definitionStep d (ev_stepName event) StepTimer of
           None \<Rightarrow> Inl ErrInvalidTransition
         | Some step \<Rightarrow>
             (let progress = lookup_zero zero_TimerProgress (in_timers inst) (ev_stepName event);
                  exists = has_key (in_timers inst) (ev_stepName event)
              in if ev_kind event = EventTimerScheduled then
                   if in_status inst \<noteq> StatusRunning \<or> exists \<or>
                      ev_dueAt event \<noteq> canonicalTime (Add (ev_occurredAt event) (st_Timeout step))
                   then Inl ErrInvalidTransition
                   else Inr (inst\<lparr>in_timers := (in_timers inst)(ev_stepName event \<mapsto>
                          zero_TimerProgress\<lparr>tp_stepName := ev_stepName event,
                            tp_status := TimerWaiting, tp_dueAt := ev_dueAt event\<rparr>)\<rparr>)
                 else if in_status inst \<noteq> StatusRunning \<or> \<not> exists \<or>
                      tp_status progress \<noteq> TimerWaiting \<or>
                      Before (ev_occurredAt event) (tp_dueAt progress)
                 then Inl ErrInvalidTransition
                 else Inr (inst\<lparr>in_timers := (in_timers inst)(ev_stepName event \<mapsto>
                        progress\<lparr>tp_status := TimerFired, tp_firedAt := ev_occurredAt event\<rparr>)\<rparr>))))"

section \<open>Races\<close>

fun containsBranch :: "string list \<Rightarrow> string \<Rightarrow> bool" where
  "containsBranch [] candidate = False"
| "containsBranch (branch # branches) candidate =
     (if branch = candidate then True else containsBranch branches candidate)"

lemma containsBranch_iff [simp]: "containsBranch branches c \<longleftrightarrow> c \<in> set branches"
  by (induction branches) auto

definition applyRace :: "Registry option \<Rightarrow> Instance \<Rightarrow> HistoryEvent \<Rightarrow> Instance result" where
  "applyRace registry inst event =
     (let winner = bstr (ev_data event)
      in case definitionStep (resolved registry (in_definition inst)) (ev_stepName event) StepRace of
           None \<Rightarrow> Inl ErrInvalidTransition
         | Some step \<Rightarrow>
             if in_status inst \<noteq> StatusRunning \<or> \<not> has_key (in_signals inst) winner \<or>
                \<not> containsBranch (st_Branches step) winner
             then Inl ErrInvalidTransition
             else if has_key (in_races inst) (ev_stepName event) then Inl ErrInvalidTransition
             else Inr (inst\<lparr>in_races := (in_races inst)(ev_stepName event \<mapsto>
                    \<lparr>rc_stepName = ev_stepName event, rc_winnerStepName = winner,
                     rc_decidedAt = ev_occurredAt event\<rparr>)\<rparr>))"

section \<open>Behaviour\<close>

definition wait_kind :: "EventKind \<Rightarrow> bool" where
  "wait_kind k \<longleftrightarrow> k = EventTimerScheduled \<or> k = EventTimerFired \<or> k = EventSignalReceived"

lemma applyWait_signal:
  assumes "ev_kind e = EventSignalReceived"
  shows "applyWait registry inst e = Inr inst' \<longleftrightarrow>
    (\<exists>step. signal_step (resolved registry (in_definition inst)) (ev_stepName e) = Some step \<and>
       blen (ev_data e) \<le> unat (st_InputLimit step)) \<and>
    (in_status inst = StatusRunning \<or> in_status inst = StatusPaused) \<and>
    in_signals inst (ev_stepName e) = None \<and>
    inst' = inst\<lparr>in_signals := (in_signals inst)(ev_stepName e \<mapsto>
      \<lparr>sp_stepName = ev_stepName e, sp_signalID = ev_idempotencyKey e, sp_receivedAt = ev_occurredAt e,
       sp_payload = ev_data e\<rparr>)\<rparr>"
  using assms by (auto simp: applyWait_def Let_def has_key_def split: option.splits if_splits)

lemma applyWait_schedule:
  assumes "ev_kind e = EventTimerScheduled"
  shows "applyWait registry inst e = Inr inst' \<longleftrightarrow>
    (\<exists>step. definitionStep (resolved registry (in_definition inst)) (ev_stepName e) StepTimer = Some step \<and>
       ev_dueAt e = canonicalTime (Add (ev_occurredAt e) (st_Timeout step))) \<and>
    in_status inst = StatusRunning \<and> in_timers inst (ev_stepName e) = None \<and>
    inst' = inst\<lparr>in_timers := (in_timers inst)(ev_stepName e \<mapsto>
      \<lparr>tp_stepName = ev_stepName e, tp_status = TimerWaiting, tp_dueAt = ev_dueAt e, tp_firedAt = time_zero\<rparr>)\<rparr>"
  using assms by (auto simp: applyWait_def Let_def has_key_def zero_TimerProgress_def
      split: option.splits if_splits)

lemma applyWait_fire:
  assumes "ev_kind e = EventTimerFired"
  shows "applyWait registry inst e = Inr inst' \<longleftrightarrow>
    (\<exists>step p. definitionStep (resolved registry (in_definition inst)) (ev_stepName e) StepTimer = Some step \<and>
       in_timers inst (ev_stepName e) = Some p \<and> tp_status p = TimerWaiting \<and>
       \<not> Before (ev_occurredAt e) (tp_dueAt p) \<and>
       inst' = inst\<lparr>in_timers := (in_timers inst)(ev_stepName e \<mapsto>
         p\<lparr>tp_status := TimerFired, tp_firedAt := ev_occurredAt e\<rparr>)\<rparr>) \<and>
    in_status inst = StatusRunning"
  using assms by (auto simp: applyWait_def Let_def has_key_def split: option.splits if_splits)

lemma applyRace_Inr:
  "applyRace registry inst e = Inr inst' \<longleftrightarrow>
    (\<exists>step. definitionStep (resolved registry (in_definition inst)) (ev_stepName e) StepRace = Some step \<and>
       bstr (ev_data e) \<in> set (st_Branches step)) \<and>
    in_status inst = StatusRunning \<and> in_signals inst (bstr (ev_data e)) \<noteq> None \<and>
    in_races inst (ev_stepName e) = None \<and>
    inst' = inst\<lparr>in_races := (in_races inst)(ev_stepName e \<mapsto>
      \<lparr>rc_stepName = ev_stepName e, rc_winnerStepName = bstr (ev_data e), rc_decidedAt = ev_occurredAt e\<rparr>)\<rparr>"
  by (auto simp: applyRace_def Let_def has_key_def split: option.splits if_splits)

lemmas applyWait_cases = applyWait_signal applyWait_schedule applyWait_fire

text \<open>Which parts of the instance a wait or race event may change.\<close>

lemma applyWait_frame:
  assumes "applyWait registry inst e = Inr inst'"
  obtains t s where "inst' = inst\<lparr>in_timers := t, in_signals := s\<rparr>"
    "wait_kind (ev_kind e)" "\<And>n p. in_signals inst n = Some p \<Longrightarrow> s n = Some p"
proof -
  have k: "wait_kind (ev_kind e)"
    using assms by (auto simp: applyWait_def wait_kind_def split: if_splits)
  then consider "ev_kind e = EventTimerScheduled" | "ev_kind e = EventTimerFired"
    | "ev_kind e = EventSignalReceived" by (auto simp: wait_kind_def)
  then have "\<exists>t s. inst' = inst\<lparr>in_timers := t, in_signals := s\<rparr> \<and>
      (\<forall>n p. in_signals inst n = Some p \<longrightarrow> s n = Some p)"
  proof cases
    case 1
    then obtain t where "inst' = inst\<lparr>in_timers := t\<rparr>" using assms by (auto simp: applyWait_schedule)
    then have "inst' = inst\<lparr>in_timers := t, in_signals := in_signals inst\<rparr>" by simp
    then show ?thesis by blast
  next
    case 2
    then obtain t where "inst' = inst\<lparr>in_timers := t\<rparr>" using assms by (auto simp: applyWait_fire)
    then have "inst' = inst\<lparr>in_timers := t, in_signals := in_signals inst\<rparr>" by simp
    then show ?thesis by blast
  next
    case 3
    then obtain q where q: "inst' = inst\<lparr>in_signals := (in_signals inst)(ev_stepName e \<mapsto> q)\<rparr>"
        and none: "in_signals inst (ev_stepName e) = None"
      using assms by (auto simp: applyWait_signal)
    have "inst' = inst\<lparr>in_timers := in_timers inst, in_signals := (in_signals inst)(ev_stepName e \<mapsto> q)\<rparr>"
      using q by simp
    moreover have "\<forall>n p. in_signals inst n = Some p \<longrightarrow> ((in_signals inst)(ev_stepName e \<mapsto> q)) n = Some p"
      using none by auto
    ultimately show ?thesis by blast
  qed
  with k that show thesis by blast
qed

end
