(* ===== verification/Child_History.thy ===== *)
theory Child_History
  imports Instance
begin

text \<open>
  Replay of child-workflow events (child\_history.go, with \<open>childTerminalOutcomeAllowed\<close> of
  child\_transition.go): the handler and the step relation of one child's progress.
\<close>

section \<open>The handler\<close>

definition childTerminalOutcomeAllowed :: "ChildProgressStatus \<Rightarrow> bool" where
  "childTerminalOutcomeAllowed status \<longleftrightarrow>
     status = ChildScheduled \<or> status = ChildStartRunning \<or> status = ChildActive \<or>
     status = ChildStartUnknownStatus"

definition child_start_allowed :: "ChildProgress \<Rightarrow> HistoryEvent \<Rightarrow> bool" where
  "child_start_allowed progress event = (case cp_status progress of
     ChildScheduled \<Rightarrow> True
   | ChildStartRetryWaiting \<Rightarrow> \<not> Before (ev_occurredAt event) (cp_dueAt progress)
   | _ \<Rightarrow> False)"

definition child_progress :: "StepSpec \<Rightarrow> ChildProgress \<Rightarrow> HistoryEvent \<Rightarrow> ChildProgress result" where
  "child_progress step progress event = (case ev_kind event of
     EventChildStartAttempted \<Rightarrow>
       if \<not> child_start_allowed progress event then Inl ErrInvalidTransition
       else if ev_attempt event \<noteq> cp_attempt progress + 1 \<or>
          ev_attempt event > rp_MaxAttempts (st_Retry step) \<or>
          ev_dueAt event \<noteq> canonicalTime (Add (ev_occurredAt event) (st_Timeout step))
       then Inl ErrInvalidTransition
       else Inr (progress\<lparr>cp_status := ChildStartRunning, cp_attempt := ev_attempt event,
              cp_idempotencyKey := ev_idempotencyKey event, cp_dueAt := ev_dueAt event,
              cp_code := [], cp_retryable := False\<rparr>)
   | EventChildStarted \<Rightarrow>
       if cp_status progress \<noteq> ChildStartRunning \<or> ev_attempt event \<noteq> cp_attempt progress
       then Inl ErrInvalidTransition
       else Inr (progress\<lparr>cp_status := ChildActive, cp_dueAt := time_zero\<rparr>)
   | EventChildStartFailed \<Rightarrow>
       if cp_status progress \<noteq> ChildStartRunning \<or> ev_attempt event \<noteq> cp_attempt progress
       then Inl ErrInvalidTransition
       else Inr (progress\<lparr>cp_status := ChildStartFailedStatus, cp_dueAt := time_zero,
              cp_code := ev_code event, cp_retryable := ev_retryable event\<rparr>)
   | EventChildStartUnknown \<Rightarrow>
       if cp_status progress \<noteq> ChildStartRunning \<or> ev_attempt event \<noteq> cp_attempt progress
       then Inl ErrInvalidTransition
       else Inr (progress\<lparr>cp_status := ChildStartUnknownStatus, cp_dueAt := time_zero,
              cp_code := ev_code event, cp_retryable := False\<rparr>)
   | EventChildStartRetryScheduled \<Rightarrow>
       if cp_status progress \<noteq> ChildStartFailedStatus \<or> \<not> cp_retryable progress \<or>
          cp_attempt progress \<ge> rp_MaxAttempts (st_Retry step) \<or>
          ev_attempt event \<noteq> cp_attempt progress \<or>
          ev_dueAt event \<noteq> canonicalTime
            (Add (ev_occurredAt event) (retryDelay (st_Retry step) (ev_attempt event)))
       then Inl ErrInvalidTransition
       else Inr (progress\<lparr>cp_status := ChildStartRetryWaiting, cp_dueAt := ev_dueAt event\<rparr>)
   | _ \<Rightarrow>
       if \<not> childTerminalOutcomeAllowed (cp_status progress) \<or>
          blen (ev_data event) > unat (st_ResultLimit step)
       then Inl ErrInvalidTransition
       else Inr (progress\<lparr>cp_result := cloneBytes (ev_data event), cp_code := ev_code event,
              cp_status := (if ev_kind event = EventChildCompleted then ChildSucceeded
                            else ChildFailed)\<rparr>))"

definition applyChild :: "Registry option \<Rightarrow> Instance \<Rightarrow> HistoryEvent \<Rightarrow> Instance result" where
  "applyChild registry inst event =
     (let stepo = definitionStep (resolved registry (in_definition inst)) (ev_stepName event) StepChild;
          exists = has_key (in_children inst) (ev_stepName event);
          progress = lookup_zero zero_ChildProgress (in_children inst) (ev_stepName event);
          store = (\<lambda>p. inst\<lparr>in_children := (in_children inst)(ev_stepName event \<mapsto> p)\<rparr>)
      in case stepo of
           None \<Rightarrow> Inl ErrInvalidTransition
         | Some step \<Rightarrow>
             if in_status inst \<noteq> StatusRunning then Inl ErrInvalidTransition
             else if ev_kind event = EventChildScheduled then
               if exists \<or> st_ChildDefinition step \<noteq> ev_definition event \<or>
                  blen (ev_data event) > unat (st_InputLimit step) \<or>
                  validateReference registry (ev_definition event) \<noteq> Inr ()
               then Inl ErrInvalidTransition
               else Inr (store (zero_ChildProgress\<lparr>cp_stepName := ev_stepName event,
                      cp_childID := ev_successorID event, cp_definition := ev_definition event,
                      cp_status := ChildScheduled, cp_input := cloneBytes (ev_data event)\<rparr>))
             else if \<not> exists \<or> cp_childID progress \<noteq> ev_successorID event
             then Inl ErrInvalidTransition
             else (case child_progress step progress event of
                 Inl e \<Rightarrow> Inl e | Inr p \<Rightarrow> Inr (store p)))"

section \<open>Behaviour\<close>

definition child_kind :: "EventKind \<Rightarrow> bool" where
  "child_kind k \<longleftrightarrow> kind_between EventChildScheduled k EventChildStartRetryScheduled"

lemma child_kind_cases:
  "child_kind k \<longleftrightarrow> k \<in> {EventChildScheduled, EventChildCompleted, EventChildFailed,
     EventChildStartAttempted, EventChildStarted, EventChildStartFailed, EventChildStartUnknown,
     EventChildStartRetryScheduled}"
  by (cases k) (simp_all add: child_kind_def kind_between_def)

definition child_step ::
  "Registry option \<Rightarrow> StepSpec \<Rightarrow> ChildProgress option \<Rightarrow> HistoryEvent \<Rightarrow> ChildProgress \<Rightarrow> bool" where
  "child_step registry step op e p' = (case op of
     None \<Rightarrow> ev_kind e = EventChildScheduled \<and> st_ChildDefinition step = ev_definition e \<and>
       blen (ev_data e) \<le> unat (st_InputLimit step) \<and> validateReference registry (ev_definition e) = Inr () \<and>
       p' = zero_ChildProgress\<lparr>cp_stepName := ev_stepName e, cp_childID := ev_successorID e,
              cp_definition := ev_definition e, cp_status := ChildScheduled, cp_input := ev_data e\<rparr>
   | Some p \<Rightarrow> ev_kind e \<noteq> EventChildScheduled \<and> cp_childID p = ev_successorID e \<and>
       child_progress step p e = Inr p')"

lemma applyChild_Inr:
  "applyChild registry inst e = Inr inst' \<longleftrightarrow> in_status inst = StatusRunning \<and>
     (\<exists>step p'. definitionStep (resolved registry (in_definition inst)) (ev_stepName e) StepChild = Some step \<and>
        child_step registry step (in_children inst (ev_stepName e)) e p' \<and>
        inst' = inst\<lparr>in_children := (in_children inst)(ev_stepName e \<mapsto> p')\<rparr>)"
  by (cases "in_children inst (ev_stepName e)")
    (auto simp: applyChild_def Let_def child_step_def has_key_def split: option.splits if_splits sum.splits)

text \<open>A child's identity and pin never change, and a known terminal outcome is final.\<close>

lemma child_progress_frame:
  "child_progress step p e = Inr p' \<Longrightarrow>
     cp_stepName p' = cp_stepName p \<and> cp_childID p' = cp_childID p \<and>
     cp_definition p' = cp_definition p \<and> cp_input p' = cp_input p \<and>
     cp_status p \<noteq> ChildSucceeded \<and> cp_status p \<noteq> ChildFailed"
  by (cases "ev_kind e"; cases "cp_status p")
    (auto simp: child_progress_def child_start_allowed_def childTerminalOutcomeAllowed_def split: if_splits)

definition child_bounds :: "StepSpec \<Rightarrow> ChildProgress \<Rightarrow> bool" where
  "child_bounds step p \<longleftrightarrow> cp_attempt p \<le> rp_MaxAttempts (st_Retry step) \<and>
     blen (cp_input p) \<le> unat (st_InputLimit step) \<and> blen (cp_result p) \<le> unat (st_ResultLimit step) \<and>
     cp_definition p = st_ChildDefinition step"

lemma child_progress_bounds:
  assumes "child_progress step p e = Inr p'" "child_bounds step p"
  shows "child_bounds step p'"
  using assms
  by (cases "ev_kind e") (auto simp: child_progress_def child_bounds_def split: if_splits)

lemma child_step_bounds:
  assumes "child_step registry step op e p'" "\<And>p. op = Some p \<Longrightarrow> child_bounds step p"
  shows "child_bounds step p'"
proof (cases op)
  case None
  with assms(1) show ?thesis by (auto simp: child_step_def child_bounds_def zero_ChildProgress_def)
next
  case (Some p)
  with assms child_progress_bounds show ?thesis by (auto simp: child_step_def)
qed

end
