(* ===== verification/Compensation_History.thy ===== *)
theory Compensation_History
  imports Instance
begin

text \<open>
  Replay of compensation events (compensation\_history.go): the handler and the step relation of
  one compensation's progress.
\<close>

section \<open>The handler\<close>

definition compensation_progress ::
  "CompensationSpec \<Rightarrow> CompensationProgress \<Rightarrow> HistoryEvent \<Rightarrow> CompensationProgress result" where
  "compensation_progress policy progress event = (case ev_kind event of
     EventCompensationAttemptStarted \<Rightarrow>
       if kp_status progress \<noteq> CompensationReady \<and> kp_status progress \<noteq> CompensationRetryWaiting
       then Inl ErrInvalidTransition
       else if ev_attempt event \<noteq> kp_attempt progress + 1 then Inl ErrInvalidTransition
       else if ev_attempt event > rp_MaxAttempts (cs_Retry policy) then Inl ErrInvalidTransition
       else if ev_dueAt event \<noteq> canonicalTime (Add (ev_occurredAt event) (cs_Timeout policy))
       then Inl ErrInvalidTransition
       else if kp_status progress = CompensationRetryWaiting \<and>
               Before (ev_occurredAt event) (kp_dueAt progress) then Inl ErrInvalidTransition
       else Inr (progress\<lparr>kp_status := CompensationRunning, kp_attempt := ev_attempt event,
              kp_idempotencyKey := ev_idempotencyKey event, kp_dueAt := ev_dueAt event,
              kp_result := None, kp_code := [], kp_retryable := False\<rparr>)
   | EventCompensationRetryScheduled \<Rightarrow>
       if kp_status progress \<noteq> CompensationFailed then Inl ErrInvalidTransition
       else if \<not> kp_retryable progress then Inl ErrInvalidTransition
       else if kp_attempt progress \<ge> rp_MaxAttempts (cs_Retry policy) then Inl ErrInvalidTransition
       else if ev_attempt event \<noteq> kp_attempt progress then Inl ErrInvalidTransition
       else if ev_dueAt event \<noteq> canonicalTime
                 (Add (ev_occurredAt event) (retryDelay (cs_Retry policy) (ev_attempt event)))
       then Inl ErrInvalidTransition
       else Inr (progress\<lparr>kp_status := CompensationRetryWaiting, kp_dueAt := ev_dueAt event\<rparr>)
   | EventCompensationManuallyResolved \<Rightarrow>
       if kp_status progress \<noteq> CompensationFailed \<and> kp_status progress \<noteq> CompensationUnknown
       then Inl ErrInvalidTransition
       else if blen (ev_data event) > unat (cs_ResultLimit policy) then Inl ErrInvalidTransition
       else Inr (progress\<lparr>kp_status := CompensationManuallyResolved,
              kp_result := cloneBytes (ev_data event), kp_code := ev_code event,
              kp_retryable := False\<rparr>)
   | _ \<Rightarrow>
       if kp_status progress \<noteq> CompensationRunning then Inl ErrInvalidTransition
       else if ev_attempt event \<noteq> kp_attempt progress then Inl ErrInvalidTransition
       else if blen (ev_data event) > unat (cs_ResultLimit policy) then Inl ErrInvalidTransition
       else Inr (progress\<lparr>kp_dueAt := time_zero, kp_result := cloneBytes (ev_data event),
              kp_code := ev_code event, kp_retryable := ev_retryable event,
              kp_status := (case ev_kind event of
                 EventCompensationAttemptSucceeded \<Rightarrow> CompensationSucceeded
               | EventCompensationAttemptFailed \<Rightarrow> CompensationFailed
               | _ \<Rightarrow> CompensationUnknown)\<rparr>))"

definition compensation_admitted :: "Instance \<Rightarrow> string \<Rightarrow> bool" where
  "compensation_admitted inst name \<longleftrightarrow>
     (in_status inst = StatusRunning \<or> in_status inst = StatusCancelling) \<and>
     \<not> has_key (in_compensations inst) name \<and> has_key (in_activities inst) name \<and>
     ap_status (lookup_zero zero_ActivityProgress (in_activities inst) name) = ActivityProgressSucceeded"

definition applyCompensation :: "Registry option \<Rightarrow> Instance \<Rightarrow> HistoryEvent \<Rightarrow> Instance result" where
  "applyCompensation registry inst event =
     (if kind_code (ev_kind event) < kind_code EventCompensationScheduled
      then Inl ErrInvalidTransition
      else if kind_code (ev_kind event) > kind_code EventCompensationManuallyResolved
      then Inl ErrInvalidTransition
      else case definitionActivityStep (resolved registry (in_definition inst)) (ev_stepName event) of
        None \<Rightarrow> Inl ErrInvalidTransition
      | Some step \<Rightarrow>
          (case st_Compensation step of
             None \<Rightarrow> Inl ErrInvalidTransition
           | Some policy \<Rightarrow>
               (let progress = lookup_zero zero_CompensationProgress (in_compensations inst) (ev_stepName event);
                    exists = has_key (in_compensations inst) (ev_stepName event);
                    store = (\<lambda>p. inst\<lparr>in_compensations := (in_compensations inst)(ev_stepName event \<mapsto> p)\<rparr>)
                in if ev_kind event = EventCompensationScheduled then
                     if \<not> compensation_admitted inst (ev_stepName event) then Inl ErrInvalidTransition
                     else Inr (store (zero_CompensationProgress\<lparr>kp_stepName := ev_stepName event,
                            kp_status := CompensationReady, kp_scheduledSequence := ev_sequence event,
                            kp_input := cloneBytes (ev_data event)\<rparr>))
                   else if \<not> exists then Inl ErrInvalidTransition
                   else (case compensation_progress policy progress event of
                       Inl e \<Rightarrow> Inl e | Inr p \<Rightarrow> Inr (store p)))))"

section \<open>Behaviour\<close>

definition compensation_kind :: "EventKind \<Rightarrow> bool" where
  "compensation_kind k \<longleftrightarrow> kind_between EventCompensationScheduled k EventCompensationManuallyResolved"

lemma compensation_kind_cases:
  "compensation_kind k \<longleftrightarrow> k \<in> {EventCompensationScheduled, EventCompensationAttemptStarted,
     EventCompensationAttemptSucceeded, EventCompensationAttemptFailed, EventCompensationAttemptUnknown,
     EventCompensationRetryScheduled, EventCompensationManuallyResolved}"
  by (cases k) (simp_all add: compensation_kind_def kind_between_def)

definition compensation_step ::
  "CompensationSpec \<Rightarrow> CompensationProgress option \<Rightarrow> HistoryEvent \<Rightarrow> CompensationProgress \<Rightarrow> bool" where
  "compensation_step policy op e p' = (case op of
     None \<Rightarrow> ev_kind e = EventCompensationScheduled \<and>
       p' = zero_CompensationProgress\<lparr>kp_stepName := ev_stepName e, kp_status := CompensationReady,
              kp_scheduledSequence := ev_sequence e, kp_input := ev_data e\<rparr>
   | Some p \<Rightarrow> ev_kind e \<noteq> EventCompensationScheduled \<and> compensation_progress policy p e = Inr p')"

lemma applyCompensation_Inr:
  "applyCompensation registry inst e = Inr inst' \<longleftrightarrow> compensation_kind (ev_kind e) \<and>
     (\<exists>step policy p'.
        definitionActivityStep (resolved registry (in_definition inst)) (ev_stepName e) = Some step \<and>
        st_Compensation step = Some policy \<and>
        (ev_kind e = EventCompensationScheduled \<longrightarrow> compensation_admitted inst (ev_stepName e)) \<and>
        compensation_step policy (in_compensations inst (ev_stepName e)) e p' \<and>
        inst' = inst\<lparr>in_compensations := (in_compensations inst)(ev_stepName e \<mapsto> p')\<rparr>)"
  by (cases "in_compensations inst (ev_stepName e)")
    (auto simp: applyCompensation_def Let_def compensation_step_def has_key_def compensation_kind_def
      kind_between_def compensation_admitted_def not_less split: option.splits if_splits sum.splits)

text \<open>A compensation's identity is fixed, and success and manual resolution are final.\<close>

lemma compensation_progress_frame:
  assumes "compensation_progress policy p e = Inr p'"
  shows "kp_stepName p' = kp_stepName p" "kp_scheduledSequence p' = kp_scheduledSequence p"
    "kp_input p' = kp_input p"
    "kp_status p \<noteq> CompensationSucceeded" "kp_status p \<noteq> CompensationManuallyResolved"
  using assms by (auto simp: compensation_progress_def split: if_splits EventKind.splits)

definition compensation_bounds :: "CompensationSpec \<Rightarrow> CompensationProgress \<Rightarrow> bool" where
  "compensation_bounds policy p \<longleftrightarrow> kp_attempt p \<le> rp_MaxAttempts (cs_Retry policy) \<and>
     blen (kp_result p) \<le> unat (cs_ResultLimit policy)"

lemma compensation_step_bounds:
  assumes "compensation_step policy op e p'" "\<And>p. op = Some p \<Longrightarrow> compensation_bounds policy p"
  shows "compensation_bounds policy p'"
  using assms
  by (auto simp: compensation_step_def compensation_bounds_def compensation_progress_def
      zero_CompensationProgress_def split: option.splits if_splits EventKind.splits)

end
