(* ===== verification/Replay.thy ===== *)
theory Replay
  imports Activity_History Wait_History Child_History Compensation_History
begin

text \<open>
  Deterministic replay of a persisted history (history.go: \<open>apply\<close>, \<open>applyStart\<close>,
  \<open>Replay\<close>; operator.go: \<open>applyOperator\<close>, \<open>operatorEventKind\<close>), the instance lifecycle as a
  step relation, and the invariants that every replayed instance satisfies.
\<close>

section \<open>Operator events\<close>

fun operatorEventKind :: "OperatorAction \<Rightarrow> EventKind" where
  "operatorEventKind OperatorPause = EventInstancePaused"
| "operatorEventKind OperatorResume = EventInstanceResumed"
| "operatorEventKind OperatorCancel = EventCancellationRequested"
| "operatorEventKind OperatorTerminate = EventInstanceTerminated"
| "operatorEventKind OperatorRetryActivity = EventActivityRetryScheduled"
| "operatorEventKind OperatorCompensate = EventCompensationScheduled"
| "operatorEventKind OperatorResolveCompensation = EventCompensationManuallyResolved"
| "operatorEventKind OperatorApprove = EventSignalReceived"
| "operatorEventKind OperatorNone = EventKindInvalid"

definition applyOperator :: "Instance \<Rightarrow> HistoryEvent \<Rightarrow> Instance result" where
  "applyOperator inst event =
     (if in_pendingOperator inst \<noteq> OperatorNone then Inl ErrInvalidTransition
      else case decodeOperatorAudit (ev_data event) of
        Inl _ \<Rightarrow> Inl ErrInvalidTransition
      | Inr document \<Rightarrow> Inr (inst\<lparr>
          in_operatorActions := in_operatorActions inst @
            [\<lparr>oa_commandID = ev_idempotencyKey event, oa_action = au_Action document,
              oa_actor = au_Actor document, oa_reason = au_Reason document,
              oa_occurredAt = ev_occurredAt event\<rparr>],
          in_pendingOperator := au_Action document\<rparr>))"

section \<open>Lifecycle events\<close>

definition applyStart :: "Registry option \<Rightarrow> Instance \<Rightarrow> HistoryEvent \<Rightarrow> Instance result" where
  "applyStart registry inst event =
     (if ev_kind event \<noteq> EventInstanceStarted then Inl ErrInvalidTransition
      else if ev_sequence event \<noteq> 1 then Inl ErrHistoryConflict
      else case validateReference registry (ev_definition event) of
        Inl e \<Rightarrow> Inl e
      | Inr _ \<Rightarrow> Inr (inst\<lparr>in_id := ev_instanceID event, in_definition := ev_definition event,
          in_status := StatusRunning, in_sequence := ev_sequence event,
          in_startedAt := ev_occurredAt event, in_updatedAt := ev_occurredAt event,
          in_input := cloneBytes (ev_data event), in_activities := Map.empty,
          in_timers := Map.empty, in_signals := Map.empty, in_races := Map.empty,
          in_children := Map.empty, in_compensations := Map.empty, in_operatorActions := [],
          in_pendingOperator := OperatorNone\<rparr>))"

definition applyMigration :: "Registry option \<Rightarrow> Instance \<Rightarrow> HistoryEvent \<Rightarrow> Instance result" where
  "applyMigration registry inst event =
     (if in_status inst \<noteq> StatusPaused then Inl ErrInvalidTransition
      else if dr_name (ev_definition event) \<noteq> dr_name (in_definition inst) then Inl ErrInvalidMigration
      else case validateReference registry (ev_definition event) of
        Inl e \<Rightarrow> Inl e
      | Inr _ \<Rightarrow>
          (case FindMigration registry (dr_name (in_definition inst)) (dr_version (in_definition inst))
                  (dr_version (ev_definition event)) of
             Inl e \<Rightarrow> Inl e
           | Inr _ \<Rightarrow> Inr (inst\<lparr>in_definition := ev_definition event,
               in_input := cloneBytes (ev_data event)\<rparr>)))"

text \<open>The \<open>switch\<close> of \<open>apply\<close>: one branch for each group of event kinds.\<close>

definition apply_kind :: "Registry option \<Rightarrow> Instance \<Rightarrow> HistoryEvent \<Rightarrow> Instance result" where
  "apply_kind registry inst event = (case ev_kind event of
     EventInstanceStarted \<Rightarrow> Inl ErrInvalidTransition
   | EventInstancePaused \<Rightarrow>
       if in_status inst \<noteq> StatusRunning then Inl ErrInvalidTransition
       else Inr (inst\<lparr>in_status := StatusPaused\<rparr>)
   | EventInstanceResumed \<Rightarrow>
       if in_status inst \<noteq> StatusPaused then Inl ErrInvalidTransition
       else Inr (inst\<lparr>in_status := StatusRunning\<rparr>)
   | EventCancellationRequested \<Rightarrow>
       if in_status inst \<noteq> StatusRunning \<and> in_status inst \<noteq> StatusPaused
       then Inl ErrInvalidTransition
       else Inr (inst\<lparr>in_status := StatusCancelling\<rparr>)
   | EventInstanceCancelled \<Rightarrow>
       if in_status inst \<noteq> StatusCancelling then Inl ErrInvalidTransition
       else Inr (inst\<lparr>in_status := StatusCancelled, in_result := cloneBytes (ev_data event)\<rparr>)
   | EventInstanceCompleted \<Rightarrow>
       if in_status inst \<noteq> StatusRunning then Inl ErrInvalidTransition
       else Inr (inst\<lparr>in_status := StatusCompleted, in_result := cloneBytes (ev_data event)\<rparr>)
   | EventInstanceFailed \<Rightarrow>
       if in_status inst \<noteq> StatusRunning then Inl ErrInvalidTransition
       else Inr (inst\<lparr>in_status := StatusFailed, in_result := cloneBytes (ev_data event)\<rparr>)
   | EventInstanceTerminated \<Rightarrow>
       Inr (inst\<lparr>in_status := StatusTerminated, in_result := cloneBytes (ev_data event)\<rparr>)
   | EventDefinitionMigrated \<Rightarrow> applyMigration registry inst event
   | EventContinuedAsNew \<Rightarrow>
       if in_status inst \<noteq> StatusRunning then Inl ErrInvalidTransition
       else (case validateReference registry (ev_definition event) of
           Inl e \<Rightarrow> Inl e
         | Inr _ \<Rightarrow> Inr (inst\<lparr>in_status := StatusContinuedAsNew,
             in_successorID := ev_successorID event\<rparr>))
   | EventActivityScheduled \<Rightarrow> applyActivity registry inst event
   | EventActivityAttemptStarted \<Rightarrow> applyActivity registry inst event
   | EventActivityAttemptSucceeded \<Rightarrow> applyActivity registry inst event
   | EventActivityAttemptFailed \<Rightarrow> applyActivity registry inst event
   | EventActivityAttemptUnknown \<Rightarrow> applyActivity registry inst event
   | EventActivityRetryScheduled \<Rightarrow> applyActivity registry inst event
   | EventTimerScheduled \<Rightarrow> applyWait registry inst event
   | EventTimerFired \<Rightarrow> applyWait registry inst event
   | EventSignalReceived \<Rightarrow> applyWait registry inst event
   | EventRaceWon \<Rightarrow> applyRace registry inst event
   | EventChildScheduled \<Rightarrow> applyChild registry inst event
   | EventChildCompleted \<Rightarrow> applyChild registry inst event
   | EventChildFailed \<Rightarrow> applyChild registry inst event
   | EventChildStartAttempted \<Rightarrow> applyChild registry inst event
   | EventChildStarted \<Rightarrow> applyChild registry inst event
   | EventChildStartFailed \<Rightarrow> applyChild registry inst event
   | EventChildStartUnknown \<Rightarrow> applyChild registry inst event
   | EventChildStartRetryScheduled \<Rightarrow> applyChild registry inst event
   | EventCompensationScheduled \<Rightarrow> applyCompensation registry inst event
   | EventCompensationAttemptStarted \<Rightarrow> applyCompensation registry inst event
   | EventCompensationAttemptSucceeded \<Rightarrow> applyCompensation registry inst event
   | EventCompensationAttemptFailed \<Rightarrow> applyCompensation registry inst event
   | EventCompensationAttemptUnknown \<Rightarrow> applyCompensation registry inst event
   | EventCompensationRetryScheduled \<Rightarrow> applyCompensation registry inst event
   | EventCompensationManuallyResolved \<Rightarrow> applyCompensation registry inst event
   | EventOperatorCommandRecorded \<Rightarrow> applyOperator inst event
   | EventKindInvalid \<Rightarrow> Inr inst)"

definition apply_event :: "Registry option \<Rightarrow> Instance \<Rightarrow> HistoryEvent \<Rightarrow> Instance result" where
  "apply_event registry inst event =
     (if in_sequence inst = 0 then applyStart registry inst event
      else if ev_instanceID event \<noteq> in_id inst \<or> ev_sequence event \<noteq> in_sequence inst + 1 \<or>
         Before (ev_occurredAt event) (in_updatedAt inst) then Inl ErrHistoryConflict
      else if terminalStatus (in_status inst) then Inl ErrInvalidTransition
      else
        let completesOperator = in_pendingOperator inst \<noteq> OperatorNone \<and>
              ev_kind event = operatorEventKind (in_pendingOperator inst)
        in if in_pendingOperator inst \<noteq> OperatorNone \<and> \<not> completesOperator
           then Inl ErrInvalidTransition
           else (case apply_kind registry inst event of
               Inl e \<Rightarrow> Inl e
             | Inr inst' \<Rightarrow>
                 let inst'' = inst'\<lparr>in_sequence := ev_sequence event, in_updatedAt := ev_occurredAt event\<rparr>
                 in Inr (if completesOperator then inst''\<lparr>in_pendingOperator := OperatorNone\<rparr>
                         else inst'')))"

fun apply_all :: "Registry option \<Rightarrow> Instance \<Rightarrow> HistoryEvent list \<Rightarrow> Instance result" where
  "apply_all registry inst [] = Inr inst"
| "apply_all registry inst (event # events) = (case apply_event registry inst event of
     Inl e \<Rightarrow> Inl e | Inr inst' \<Rightarrow> apply_all registry inst' events)"

definition Replay :: "Registry option \<Rightarrow> HistoryEvent list \<Rightarrow> Instance result" where
  "Replay registry events =
     (if length events = 0 then Inl ErrEmptyHistory
      else case apply_all registry zero_Instance events of
        Inl e \<Rightarrow> Inl e
      | Inr inst \<Rightarrow> if in_pendingOperator inst \<noteq> OperatorNone then Inl ErrInvalidTransition
                    else Inr inst)"

section \<open>The step relation\<close>

text \<open>
  What one event may do to a live instance, rule by rule, without the order in which the code
  tests its guards.
\<close>

inductive replay_step :: "Registry option \<Rightarrow> Instance \<Rightarrow> HistoryEvent \<Rightarrow> Instance \<Rightarrow> bool"
  for registry :: "Registry option" where
  pause: "ev_kind e = EventInstancePaused \<Longrightarrow> in_status i = StatusRunning \<Longrightarrow>
    replay_step registry i e (i\<lparr>in_status := StatusPaused\<rparr>)"
| resume: "ev_kind e = EventInstanceResumed \<Longrightarrow> in_status i = StatusPaused \<Longrightarrow>
    replay_step registry i e (i\<lparr>in_status := StatusRunning\<rparr>)"
| cancel: "ev_kind e = EventCancellationRequested \<Longrightarrow> in_status i = StatusRunning \<or> in_status i = StatusPaused \<Longrightarrow>
    replay_step registry i e (i\<lparr>in_status := StatusCancelling\<rparr>)"
| cancelled: "ev_kind e = EventInstanceCancelled \<Longrightarrow> in_status i = StatusCancelling \<Longrightarrow>
    replay_step registry i e (i\<lparr>in_status := StatusCancelled, in_result := ev_data e\<rparr>)"
| completed: "ev_kind e = EventInstanceCompleted \<Longrightarrow> in_status i = StatusRunning \<Longrightarrow>
    replay_step registry i e (i\<lparr>in_status := StatusCompleted, in_result := ev_data e\<rparr>)"
| failed: "ev_kind e = EventInstanceFailed \<Longrightarrow> in_status i = StatusRunning \<Longrightarrow>
    replay_step registry i e (i\<lparr>in_status := StatusFailed, in_result := ev_data e\<rparr>)"
| terminated: "ev_kind e = EventInstanceTerminated \<Longrightarrow>
    replay_step registry i e (i\<lparr>in_status := StatusTerminated, in_result := ev_data e\<rparr>)"
| migrated: "ev_kind e = EventDefinitionMigrated \<Longrightarrow> in_status i = StatusPaused \<Longrightarrow>
    dr_name (ev_definition e) = dr_name (in_definition i) \<Longrightarrow>
    validateReference registry (ev_definition e) = Inr () \<Longrightarrow>
    FindMigration registry (dr_name (in_definition i)) (dr_version (in_definition i))
      (dr_version (ev_definition e)) = Inr m \<Longrightarrow>
    replay_step registry i e (i\<lparr>in_definition := ev_definition e, in_input := ev_data e\<rparr>)"
| continued: "ev_kind e = EventContinuedAsNew \<Longrightarrow> in_status i = StatusRunning \<Longrightarrow>
    validateReference registry (ev_definition e) = Inr () \<Longrightarrow>
    replay_step registry i e (i\<lparr>in_status := StatusContinuedAsNew, in_successorID := ev_successorID e\<rparr>)"
| activity: "activity_kind (ev_kind e) \<Longrightarrow>
    definitionActivityStep (resolved registry (in_definition i)) (ev_stepName e) = Some step \<Longrightarrow>
    activity_step step (in_activities i (ev_stepName e)) e p' \<Longrightarrow>
    (activity_needs_running (ev_kind e) \<Longrightarrow> in_status i = StatusRunning) \<Longrightarrow>
    replay_step registry i e (i\<lparr>in_activities := (in_activities i)(ev_stepName e \<mapsto> p')\<rparr>)"
| wait: "applyWait registry i e = Inr i' \<Longrightarrow> replay_step registry i e i'"
| race: "ev_kind e = EventRaceWon \<Longrightarrow> applyRace registry i e = Inr i' \<Longrightarrow> replay_step registry i e i'"
| child: "child_kind (ev_kind e) \<Longrightarrow> in_status i = StatusRunning \<Longrightarrow>
    definitionStep (resolved registry (in_definition i)) (ev_stepName e) StepChild = Some step \<Longrightarrow>
    child_step registry step (in_children i (ev_stepName e)) e c' \<Longrightarrow>
    replay_step registry i e (i\<lparr>in_children := (in_children i)(ev_stepName e \<mapsto> c')\<rparr>)"
| compensation: "compensation_kind (ev_kind e) \<Longrightarrow>
    definitionActivityStep (resolved registry (in_definition i)) (ev_stepName e) = Some step \<Longrightarrow>
    st_Compensation step = Some policy \<Longrightarrow>
    (ev_kind e = EventCompensationScheduled \<Longrightarrow> compensation_admitted i (ev_stepName e)) \<Longrightarrow>
    compensation_step policy (in_compensations i (ev_stepName e)) e k' \<Longrightarrow>
    replay_step registry i e (i\<lparr>in_compensations := (in_compensations i)(ev_stepName e \<mapsto> k')\<rparr>)"
| operator: "ev_kind e = EventOperatorCommandRecorded \<Longrightarrow> in_pendingOperator i = OperatorNone \<Longrightarrow>
    decodeOperatorAudit (ev_data e) = Inr document \<Longrightarrow>
    replay_step registry i e (i\<lparr>in_operatorActions := in_operatorActions i @
        [\<lparr>oa_commandID = ev_idempotencyKey e, oa_action = au_Action document,
          oa_actor = au_Actor document, oa_reason = au_Reason document,
          oa_occurredAt = ev_occurredAt e\<rparr>],
      in_pendingOperator := au_Action document\<rparr>)"

lemma applyActivity_sound:
  "applyActivity registry i e = Inr i' \<Longrightarrow> activity_kind (ev_kind e) \<Longrightarrow> replay_step registry i e i'"
  by (erule applyActivity_step) (auto intro: replay_step.activity)

lemma applyChild_sound:
  "applyChild registry i e = Inr i' \<Longrightarrow> child_kind (ev_kind e) \<Longrightarrow> replay_step registry i e i'"
  by (auto simp: applyChild_Inr intro: replay_step.child)

lemma applyCompensation_sound:
  "applyCompensation registry i e = Inr i' \<Longrightarrow> replay_step registry i e i'"
  unfolding applyCompensation_Inr by (blast intro: replay_step.compensation)

lemma applyMigration_Inr:
  "applyMigration registry i e = Inr i' \<longleftrightarrow> in_status i = StatusPaused \<and>
     dr_name (ev_definition e) = dr_name (in_definition i) \<and>
     validateReference registry (ev_definition e) = Inr () \<and>
     (\<exists>m. FindMigration registry (dr_name (in_definition i)) (dr_version (in_definition i))
        (dr_version (ev_definition e)) = Inr m) \<and>
     i' = i\<lparr>in_definition := ev_definition e, in_input := ev_data e\<rparr>"
  by (auto simp: applyMigration_def split: if_splits sum.splits)

lemma applyOperator_Inr:
  "applyOperator i e = Inr i' \<longleftrightarrow> in_pendingOperator i = OperatorNone \<and>
     (\<exists>document. decodeOperatorAudit (ev_data e) = Inr document \<and>
        i' = i\<lparr>in_operatorActions := in_operatorActions i @
          [\<lparr>oa_commandID = ev_idempotencyKey e, oa_action = au_Action document,
            oa_actor = au_Actor document, oa_reason = au_Reason document,
            oa_occurredAt = ev_occurredAt e\<rparr>],
          in_pendingOperator := au_Action document\<rparr>)"
  by (auto simp: applyOperator_def split: if_splits sum.splits)

lemmas lifecycle_rules = replay_step.pause replay_step.resume replay_step.cancel
  replay_step.cancelled replay_step.completed replay_step.failed replay_step.terminated

theorem apply_kind_sound:
  assumes "apply_kind registry i e = Inr i'" "ev_kind e \<noteq> EventKindInvalid"
  shows "replay_step registry i e i'"
  using assms
  by (cases "ev_kind e")
    (auto simp: apply_kind_def applyMigration_Inr applyOperator_Inr activity_kind_cases child_kind_cases
      intro: lifecycle_rules replay_step.migrated replay_step.continued applyActivity_sound
        replay_step.wait replay_step.race applyChild_sound applyCompensation_sound replay_step.operator
      split: if_splits sum.splits)

lemma apply_kind_activity: "activity_kind (ev_kind e) \<Longrightarrow> apply_kind registry i e = applyActivity registry i e"
  by (auto simp: activity_kind_cases apply_kind_def)

lemma apply_kind_wait: "wait_kind (ev_kind e) \<Longrightarrow> apply_kind registry i e = applyWait registry i e"
  by (auto simp: wait_kind_def apply_kind_def)

lemma apply_kind_child: "child_kind (ev_kind e) \<Longrightarrow> apply_kind registry i e = applyChild registry i e"
  by (auto simp: child_kind_cases apply_kind_def)

lemma apply_kind_compensation:
  "compensation_kind (ev_kind e) \<Longrightarrow> apply_kind registry i e = applyCompensation registry i e"
  by (auto simp: compensation_kind_cases apply_kind_def)

theorem apply_kind_complete:
  assumes "replay_step registry i e i'"
  shows "apply_kind registry i e = Inr i'"
  using assms
proof cases
  case (activity step p')
  then show ?thesis using applyActivity_exec by (simp add: apply_kind_activity)
next
  case wait
  then show ?thesis by (metis applyWait_frame apply_kind_wait)
next
  case (child step c')
  then show ?thesis by (auto simp: apply_kind_child applyChild_Inr)
next
  case (compensation step policy k')
  then show ?thesis by (auto simp: apply_kind_compensation applyCompensation_Inr)
qed (auto simp: apply_kind_def applyMigration_Inr applyOperator_Inr)

section \<open>One event\<close>

definition completes :: "Instance \<Rightarrow> HistoryEvent \<Rightarrow> bool" where
  "completes i e \<longleftrightarrow> in_pendingOperator i \<noteq> OperatorNone \<and> ev_kind e = operatorEventKind (in_pendingOperator i)"

definition finish_event :: "Instance \<Rightarrow> HistoryEvent \<Rightarrow> Instance \<Rightarrow> Instance" where
  "finish_event i e k = k\<lparr>in_sequence := ev_sequence e, in_updatedAt := ev_occurredAt e,
     in_pendingOperator := (if completes i e then OperatorNone else in_pendingOperator k)\<rparr>"

lemma apply_event_Inr:
  assumes "in_sequence i \<noteq> 0"
  shows "apply_event registry i e = Inr i' \<longleftrightarrow>
    ev_instanceID e = in_id i \<and> ev_sequence e = in_sequence i + 1 \<and>
    \<not> Before (ev_occurredAt e) (in_updatedAt i) \<and> \<not> terminalStatus (in_status i) \<and>
    (in_pendingOperator i \<noteq> OperatorNone \<longrightarrow> completes i e) \<and>
    (\<exists>k. apply_kind registry i e = Inr k \<and> i' = finish_event i e k)"
  using assms
  by (auto simp: apply_event_def Let_def completes_def finish_event_def split: sum.splits if_splits)

lemma apply_event_start:
  "apply_event registry zero_Instance e = Inr i \<longleftrightarrow>
     ev_kind e = EventInstanceStarted \<and> ev_sequence e = 1 \<and>
     validateReference registry (ev_definition e) = Inr () \<and>
     i = zero_Instance\<lparr>in_id := ev_instanceID e, in_definition := ev_definition e,
       in_status := StatusRunning, in_sequence := 1, in_startedAt := ev_occurredAt e,
       in_updatedAt := ev_occurredAt e, in_input := ev_data e\<rparr>"
  by (auto simp: apply_event_def applyStart_def zero_Instance_def split: sum.splits if_splits)

end
