(* ===== verification/Replay_Invariants.thy ===== *)
theory Replay_Invariants
  imports Replay
begin

text \<open>
  Reachable instances as rule induction over the history, the interface of a replay invariant
  (a locale, with its consequence for every replayed history proved once), and its
  interpretations: the activity, compensation, child, timer and race invariants.
\<close>

section \<open>Reachability\<close>

inductive reach :: "Registry option \<Rightarrow> HistoryEvent list \<Rightarrow> Instance \<Rightarrow> bool"
  for registry :: "Registry option" where
  first: "apply_event registry zero_Instance e = Inr i \<Longrightarrow> reach registry [e] i"
| snoc: "reach registry es i \<Longrightarrow> apply_event registry i e = Inr i' \<Longrightarrow> reach registry (es @ [e]) i'"

lemma apply_all_append:
  "apply_all registry i (xs @ ys) = (case apply_all registry i xs of
     Inl e \<Rightarrow> Inl e | Inr j \<Rightarrow> apply_all registry j ys)"
  by (induction xs arbitrary: i) (auto split: sum.splits)

lemma reach_apply_all: "reach registry es i \<Longrightarrow> apply_all registry zero_Instance es = Inr i \<and> es \<noteq> []"
  by (induction rule: reach.induct) (auto simp: apply_all_append)

lemma apply_all_reach:
  "es \<noteq> [] \<Longrightarrow> apply_all registry zero_Instance es = Inr i \<Longrightarrow> reach registry es i"
proof (induction es arbitrary: i rule: rev_induct)
  case Nil
  then show ?case by simp
next
  case (snoc e es)
  show ?case
  proof (cases "es = []")
    case True
    with snoc.prems show ?thesis by (auto intro: reach.first split: sum.splits)
  next
    case False
    with snoc show ?thesis by (auto simp: apply_all_append intro: reach.snoc split: sum.splits)
  qed
qed

lemma reach_iff: "reach registry es i \<longleftrightarrow> es \<noteq> [] \<and> apply_all registry zero_Instance es = Inr i"
  using reach_apply_all apply_all_reach by blast

lemma Replay_iff:
  "Replay registry es = Inr i \<longleftrightarrow> reach registry es i \<and> in_pendingOperator i = OperatorNone"
  by (auto simp: Replay_def reach_iff split: sum.splits if_splits)

lemma reach_unique: "reach registry es i \<Longrightarrow> reach registry es j \<Longrightarrow> i = j"
  by (simp add: reach_iff)

lemma replay_step_frame:
  "replay_step registry i e k \<Longrightarrow> in_id k = in_id i \<and> in_sequence k = in_sequence i \<and>
     in_startedAt k = in_startedAt i \<and> in_updatedAt k = in_updatedAt i"
  by (induction rule: replay_step.induct)
    (auto elim!: applyWait_frame simp: applyRace_Inr)

lemma finish_event_simps [simp]:
  "in_sequence (finish_event i e k) = ev_sequence e" "in_updatedAt (finish_event i e k) = ev_occurredAt e"
  "in_id (finish_event i e k) = in_id k" "in_definition (finish_event i e k) = in_definition k"
  "in_status (finish_event i e k) = in_status k" "in_startedAt (finish_event i e k) = in_startedAt k"
  "in_result (finish_event i e k) = in_result k" "in_successorID (finish_event i e k) = in_successorID k"
  "in_activities (finish_event i e k) = in_activities k" "in_timers (finish_event i e k) = in_timers k"
  "in_signals (finish_event i e k) = in_signals k" "in_races (finish_event i e k) = in_races k"
  "in_children (finish_event i e k) = in_children k"
  "in_compensations (finish_event i e k) = in_compensations k"
  "in_operatorActions (finish_event i e k) = in_operatorActions k"
  "in_pendingOperator (finish_event i e k) = (if completes i e then OperatorNone else in_pendingOperator k)"
  by (simp_all add: finish_event_def)

section \<open>Positions and times\<close>

text \<open>
  The history of a reachable instance: one instance, positions from one without gap or
  wrap-around, times that never go back.
\<close>

definition contiguous :: "HistoryEvent list \<Rightarrow> bool" where
  "contiguous es \<longleftrightarrow> (\<forall>k < length es. unat (ev_sequence (es ! k)) = Suc k)"

definition same_instance :: "string \<Rightarrow> HistoryEvent list \<Rightarrow> bool" where
  "same_instance n es \<longleftrightarrow> (\<forall>e \<in> set es. ev_instanceID e = n)"

definition ordered_times :: "HistoryEvent list \<Rightarrow> bool" where
  "ordered_times es \<longleftrightarrow> sorted (map (\<lambda>e. wall (ev_occurredAt e)) es)"

lemma reach_last:
  "reach registry es i \<Longrightarrow> es \<noteq> [] \<and> in_sequence i = ev_sequence (last es) \<and>
     in_updatedAt i = ev_occurredAt (last es)"
proof (induction rule: reach.induct)
  case (first e i)
  then show ?case by (auto simp: apply_event_start)
next
  case (snoc es i e i')
  show ?case
  proof (cases "in_sequence i = 0")
    case True
    with snoc show ?thesis
      by (auto simp: apply_event_def applyStart_def split: if_splits sum.splits)
  next
    case False
    with snoc show ?thesis by (auto simp: apply_event_Inr)
  qed
qed

lemma sorted_last_le: "sorted (xs :: int list) \<Longrightarrow> x \<in> set xs \<Longrightarrow> x \<le> last xs"
  by (induction xs) auto

lemma reach_positions:
  assumes "reach registry es i" "list_all event_ok es"
  shows "contiguous es \<and> unat (in_sequence i) = length es \<and> same_instance (in_id i) es \<and>
     hd es = es ! 0 \<and> ev_kind (es ! 0) = EventInstanceStarted \<and> in_startedAt i = ev_occurredAt (es ! 0) \<and>
     ordered_times es \<and> in_updatedAt i = ev_occurredAt (last es)"
  using assms
proof (induction rule: reach.induct)
  case (first e i)
  then show ?case by (auto simp: apply_event_start contiguous_def same_instance_def ordered_times_def)
next
  case (snoc es i e i')
  then have ih: "contiguous es" "unat (in_sequence i) = length es" "same_instance (in_id i) es"
      "ev_kind (es ! 0) = EventInstanceStarted" "in_startedAt i = ev_occurredAt (es ! 0)"
      "ordered_times es" "in_updatedAt i = ev_occurredAt (last es)" and ok: "event_ok e" "list_all event_ok es"
    by auto
  have ne: "es \<noteq> []" using snoc.hyps(1) by (simp add: reach_iff)
  then have nz: "in_sequence i \<noteq> 0" using ih(2) by auto
  from snoc.hyps(2) obtain k where ev: "ev_instanceID e = in_id i" "ev_sequence e = in_sequence i + 1"
      "\<not> Before (ev_occurredAt e) (in_updatedAt i)" "apply_kind registry i e = Inr k"
      and i': "i' = finish_event i e k"
    by (auto simp: apply_event_Inr [OF nz])
  have k: "in_id k = in_id i" "in_startedAt k = in_startedAt i"
    using apply_kind_sound [OF ev(4) event_ok_basic(5) [OF ok(1)]] replay_step_frame by blast+
  have "in_sequence i + 1 \<noteq> 0" using event_ok_basic(1) [OF ok(1)] ev(2) by simp
  then have seq: "unat (ev_sequence e) = Suc (length es)" using unat_Suc_word [of "in_sequence i"] ih(2) ev(2) by simp
  have "wall (ev_occurredAt (last es)) \<le> wall (ev_occurredAt e)"
    using ev(3) event_ok_basic(6) [OF ok(1)] ih(7) by (simp add: Before_wall not_less)
  moreover have "wall (ev_occurredAt x) \<le> wall (ev_occurredAt (last es))" if "x \<in> set es" for x
    using sorted_last_le [of "map (\<lambda>e. wall (ev_occurredAt e)) es" "wall (ev_occurredAt x)"] ih(6) that ne
    by (simp add: ordered_times_def last_map)
  ultimately have times: "ordered_times (es @ [e])"
    using ih(6) by (force simp: ordered_times_def sorted_append)
  show ?case
    using ih ne ev k seq times i' by (auto simp: contiguous_def same_instance_def nth_append less_Suc_eq hd_conv_nth)
qed

section \<open>The interface of an invariant\<close>

text \<open>
  A stable property of live instances: every step of the step relation keeps it on admitted
  events, and it does not speak of the bookkeeping fields that \<open>apply\<close> sets after the step.
\<close>

locale replay_stable =
  fixes registry :: "Registry option" and admitted :: "HistoryEvent \<Rightarrow> bool" and P :: "Instance \<Rightarrow> bool"
  assumes step_law: "admitted e \<Longrightarrow> event_ok e \<Longrightarrow> P i \<Longrightarrow> \<not> terminalStatus (in_status i) \<Longrightarrow>
      replay_step registry i e k \<Longrightarrow> P k"
    and frame_law: "P k \<Longrightarrow> P (finish_event i e k)"
begin

lemma apply_event_P:
  assumes "apply_event registry i e = Inr j" "in_sequence i \<noteq> 0" "event_ok e" "admitted e" "P i"
  shows "P j \<and> in_sequence j \<noteq> 0"
proof -
  from assms(1) obtain k where k: "apply_kind registry i e = Inr k" "j = finish_event i e k"
      and live: "\<not> terminalStatus (in_status i)"
    by (auto simp: apply_event_Inr [OF assms(2)])
  have "replay_step registry i e k"
    by (rule apply_kind_sound [OF k(1) event_ok_basic(5) [OF assms(3)]])
  from step_law [OF assms(4,3,5) live this] have "P j"
    unfolding k(2) by (rule frame_law)
  with event_ok_basic(1) [OF assms(3)] show ?thesis by (simp add: k(2))
qed

lemma apply_all_P:
  "apply_all registry i es = Inr j \<Longrightarrow> in_sequence i \<noteq> 0 \<Longrightarrow> list_all event_ok es \<Longrightarrow>
   list_all admitted es \<Longrightarrow> P i \<Longrightarrow> P j"
proof (induction es arbitrary: i)
  case Nil
  then show ?case by simp
next
  case (Cons e es)
  then obtain k where k: "apply_event registry i e = Inr k" "apply_all registry k es = Inr j"
    by (auto split: sum.splits)
  have "P k \<and> in_sequence k \<noteq> 0"
    by (rule apply_event_P [OF k(1)]) (use Cons.prems in auto)
  then show ?case using Cons.IH [OF k(2)] Cons.prems by simp
qed

end

text \<open>An invariant also holds of the instance that the start event creates.\<close>

locale replay_invariant = replay_stable +
  assumes start_law: "admitted e \<Longrightarrow> event_ok e \<Longrightarrow> validateReference registry (ev_definition e) = Inr () \<Longrightarrow>
      ev_kind e = EventInstanceStarted \<Longrightarrow>
      P (zero_Instance\<lparr>in_id := ev_instanceID e, in_definition := ev_definition e,
        in_status := StatusRunning, in_sequence := 1, in_startedAt := ev_occurredAt e,
        in_updatedAt := ev_occurredAt e, in_input := ev_data e\<rparr>)"
begin

lemma reach_P: "reach registry es i \<Longrightarrow> list_all event_ok es \<Longrightarrow> list_all admitted es \<Longrightarrow> P i"
proof -
  assume r: "reach registry es i" and ok: "list_all event_ok es" and adm: "list_all admitted es"
  from r obtain e fs j where es: "es = e # fs" and j: "apply_event registry zero_Instance e = Inr j"
      "apply_all registry j fs = Inr i"
    by (cases es) (auto simp: reach_iff split: sum.splits)
  have "P j" "in_sequence j \<noteq> 0"
    using j(1) ok adm start_law [of e] by (auto simp: apply_event_start es)
  then show "P i"
    using apply_all_P [OF j(2)] ok adm by (simp add: es)
qed

lemma Replay_P: "Replay registry es = Inr i \<Longrightarrow> list_all event_ok es \<Longrightarrow> list_all admitted es \<Longrightarrow> P i"
  by (auto simp: Replay_iff intro: reach_P)

end

section \<open>Shape of every progress map\<close>

text \<open>Holds for all histories, migrations included.\<close>

definition progress_shape :: "Instance \<Rightarrow> bool" where
  "progress_shape i \<longleftrightarrow>
     (\<forall>n p. in_activities i n = Some p \<longrightarrow> activity_shape n p) \<and>
     (\<forall>n k. in_compensations i n = Some k \<longrightarrow> kp_stepName k = n \<and>
        (\<exists>p. in_activities i n = Some p \<and> ap_status p = ActivityProgressSucceeded)) \<and>
     (\<forall>n c. in_children i n = Some c \<longrightarrow> cp_stepName c = n) \<and>
     (\<forall>n t. in_timers i n = Some t \<longrightarrow> tp_stepName t = n \<and>
        (tp_status t = TimerFired \<longrightarrow> \<not> Before (tp_firedAt t) (tp_dueAt t))) \<and>
     (\<forall>n s. in_signals i n = Some s \<longrightarrow> sp_stepName s = n) \<and>
     (\<forall>n r. in_races i n = Some r \<longrightarrow> rc_stepName r = n \<and> in_signals i (rc_winnerStepName r) \<noteq> None)"

lemma progress_shape_activity:
  assumes inv: "progress_shape i" and ok: "event_ok e" and st: "activity_step step (in_activities i n) e p'"
    and n: "n = ev_stepName e"
  shows "progress_shape (i\<lparr>in_activities := (in_activities i)(n \<mapsto> p')\<rparr>)"
proof -
  have new: "activity_shape n p'"
    unfolding n by (rule activity_step_shape [OF st ok]) (use inv n in \<open>auto simp: progress_shape_def\<close>)
  have "in_compensations i n = None"
  proof (rule ccontr)
    assume "in_compensations i n \<noteq> None"
    then obtain p where "in_activities i n = Some p" "ap_status p = ActivityProgressSucceeded"
      using inv unfolding progress_shape_def by blast
    with st activity_step_final(1) show False by auto
  qed
  with inv new show ?thesis by (auto simp: progress_shape_def split: if_splits)
qed

lemma progress_shape_wait:
  assumes inv: "progress_shape i" and w: "applyWait registry i e = Inr k"
  shows "progress_shape k"
proof -
  from w have "wait_kind (ev_kind e)" by (rule applyWait_frame)
  then consider "ev_kind e = EventTimerScheduled" | "ev_kind e = EventTimerFired"
    | "ev_kind e = EventSignalReceived" by (auto simp: wait_kind_def)
  then show ?thesis
  proof cases
    case 1
    with w inv show ?thesis by (auto simp: applyWait_schedule progress_shape_def split: if_splits)
  next
    case 2
    with w inv show ?thesis by (auto simp: applyWait_fire progress_shape_def split: if_splits)
  next
    case 3
    with w inv show ?thesis by (auto simp: applyWait_signal progress_shape_def split: if_splits)
  qed
qed

lemma progress_shape_step:
  assumes "event_ok e" "progress_shape i" "replay_step registry i e k"
  shows "progress_shape k"
  using assms(3)
proof cases
  case (activity step p')
  then show ?thesis using progress_shape_activity [OF assms(2,1)] by simp
next
  case wait
  then show ?thesis using progress_shape_wait [OF assms(2)] by simp
next
  case race
  with assms(2) show ?thesis by (auto simp: applyRace_Inr progress_shape_def split: if_splits)
next
  case (child step c')
  with assms(2) show ?thesis
    by (auto simp: progress_shape_def child_step_def zero_ChildProgress_def
        dest!: child_progress_frame split: option.splits if_splits)
next
  case (compensation step policy k')
  then have "kp_stepName k' = ev_stepName e"
    using assms(2) by (auto simp: progress_shape_def compensation_step_def zero_CompensationProgress_def
        dest!: compensation_progress_frame(1) split: option.splits)
  moreover have "\<exists>p. in_activities i (ev_stepName e) = Some p \<and> ap_status p = ActivityProgressSucceeded"
  proof (cases "in_compensations i (ev_stepName e)")
    case None
    then show ?thesis
      using compensation by (auto simp: compensation_step_def compensation_admitted_def has_key_Some)
  next
    case (Some q)
    then show ?thesis using assms(2) by (auto simp: progress_shape_def)
  qed
  ultimately show ?thesis
    using assms(2) compensation(1) by (auto simp: progress_shape_def split: if_splits)
qed (use assms(2) in \<open>auto simp: progress_shape_def\<close>)

interpretation shape: replay_invariant registry "\<lambda>_. True" progress_shape
  for registry
proof
  show "progress_shape k" if "event_ok e" "progress_shape i" "replay_step registry i e k" for e i k
    by (rule progress_shape_step [OF that])
  show "progress_shape (finish_event i e k)" if "progress_shape k" for i e k
    using that by (simp add: progress_shape_def)
  show "progress_shape (zero_Instance\<lparr>in_id := ev_instanceID e, in_definition := ev_definition e,
      in_status := StatusRunning, in_sequence := 1, in_startedAt := ev_occurredAt e,
      in_updatedAt := ev_occurredAt e, in_input := ev_data e\<rparr>)" for e
    by (simp add: progress_shape_def zero_Instance_def)
qed

section \<open>The pinned definition is registered\<close>

definition pinned_ok :: "Registry option \<Rightarrow> Instance \<Rightarrow> bool" where
  "pinned_ok registry i \<longleftrightarrow> validateReference registry (in_definition i) = Inr () \<and>
     reference_valid (in_definition i) \<and> instanceIDPattern (in_id i)"

lemma event_ok_definition: "event_ok e \<Longrightarrow> requiresDefinition (ev_kind e) \<Longrightarrow> reference_valid (ev_definition e)"
  by (auto simp: event_ok_def historyEventValid_def validHistoryEventSpec_def event_spec_def split: if_splits)

lemma replay_step_definition:
  "replay_step registry i e k \<Longrightarrow> in_definition k = in_definition i \<or>
     ev_kind e = EventDefinitionMigrated \<and> in_definition k = ev_definition e \<and>
     validateReference registry (ev_definition e) = Inr ()"
  by (induction rule: replay_step.induct) (auto elim!: applyWait_frame simp: applyRace_Inr)

interpretation pin: replay_invariant registry "\<lambda>_. True" "pinned_ok registry"
  for registry
proof
  show "pinned_ok registry k" if "event_ok e" "pinned_ok registry i" "replay_step registry i e k" for e i k
    using that replay_step_definition [OF that(3)] replay_step_frame [OF that(3)] event_ok_definition [OF that(1)]
    by (auto simp: pinned_ok_def requiresDefinition_def)
qed (auto simp: pinned_ok_def requiresDefinition_def zero_Instance_def intro: event_ok_definition
    event_ok_basic(2))

section \<open>Limits of the pinned definition\<close>

text \<open>
  As long as the definition is not migrated, every record stays within the limits of the step
  it belongs to.
\<close>

definition within_limits :: "Registry option \<Rightarrow> Instance \<Rightarrow> bool" where
  "within_limits registry i \<longleftrightarrow> (let d = resolved registry (in_definition i) in
     (\<forall>n p. in_activities i n = Some p \<longrightarrow>
        (\<exists>step. definitionActivityStep d n = Some step \<and> activity_bounds step p)) \<and>
     (\<forall>n c. in_children i n = Some c \<longrightarrow>
        (\<exists>step. definitionStep d n StepChild = Some step \<and> child_bounds step c)) \<and>
     (\<forall>n k. in_compensations i n = Some k \<longrightarrow>
        (\<exists>step policy. definitionActivityStep d n = Some step \<and> st_Compensation step = Some policy \<and>
           compensation_bounds policy k)) \<and>
     (\<forall>n s. in_signals i n = Some s \<longrightarrow>
        (\<exists>step. signal_step d n = Some step \<and> blen (sp_payload s) \<le> unat (st_InputLimit step))))"

lemma within_limits_wait:
  assumes "within_limits registry i" "applyWait registry i e = Inr k"
  shows "within_limits registry k"
proof -
  from assms(2) have "wait_kind (ev_kind e)" by (rule applyWait_frame)
  then consider "ev_kind e = EventTimerScheduled" | "ev_kind e = EventTimerFired"
    | "ev_kind e = EventSignalReceived" by (auto simp: wait_kind_def)
  then show ?thesis
    using assms by cases (auto simp: applyWait_cases within_limits_def Let_def split: if_splits)
qed

lemma within_limits_step:
  assumes "ev_kind e \<noteq> EventDefinitionMigrated" "within_limits registry i" "replay_step registry i e k"
  shows "within_limits registry k"
  using assms(3)
proof cases
  case (activity step p')
  have "activity_bounds step p'"
    by (rule activity_step_bounds [OF activity(4)])
      (use assms(2) activity(3) in \<open>fastforce simp: within_limits_def Let_def\<close>)
  with assms(2) activity show ?thesis by (auto simp: within_limits_def Let_def split: if_splits)
next
  case wait
  then show ?thesis by (rule within_limits_wait [OF assms(2)])
next
  case race
  with assms(2) show ?thesis by (auto simp: applyRace_Inr within_limits_def Let_def)
next
  case (child step c')
  have "child_bounds step c'"
    by (rule child_step_bounds [OF child(5)])
      (use assms(2) child(4) in \<open>fastforce simp: within_limits_def Let_def\<close>)
  with assms(2) child show ?thesis by (auto simp: within_limits_def Let_def split: if_splits)
next
  case (compensation step policy k')
  have "compensation_bounds policy k'"
    by (rule compensation_step_bounds [OF compensation(6)])
      (use assms(2) compensation(3,4) in \<open>fastforce simp: within_limits_def Let_def\<close>)
  with assms(2) compensation show ?thesis by (auto simp: within_limits_def Let_def split: if_splits)
qed (use assms(1,2) in \<open>auto simp: within_limits_def Let_def\<close>)

interpretation limits: replay_invariant registry "\<lambda>e. ev_kind e \<noteq> EventDefinitionMigrated" "within_limits registry"
  for registry
proof
  show "within_limits registry k"
    if "ev_kind e \<noteq> EventDefinitionMigrated" "within_limits registry i" "replay_step registry i e k" for e i k
    by (rule within_limits_step [OF that])
qed (auto simp: within_limits_def Let_def zero_Instance_def)

end
