(* ===== verification/Lifecycle.thy ===== *)
theory Lifecycle
  imports Replay_Invariants
begin

text \<open>
  The instance lifecycle: the status graph that replay walks, terminal states, the parts of the
  progress that no later event can change, and the pairing of every operator audit record with
  the event that carries it out.
\<close>

section \<open>The status graph\<close>

inductive lifecycle :: "EventKind \<Rightarrow> InstanceStatus \<Rightarrow> InstanceStatus \<Rightarrow> bool" where
  "lifecycle EventInstancePaused StatusRunning StatusPaused"
| "lifecycle EventInstanceResumed StatusPaused StatusRunning"
| "lifecycle EventCancellationRequested StatusRunning StatusCancelling"
| "lifecycle EventCancellationRequested StatusPaused StatusCancelling"
| "lifecycle EventInstanceCancelled StatusCancelling StatusCancelled"
| "lifecycle EventInstanceCompleted StatusRunning StatusCompleted"
| "lifecycle EventInstanceFailed StatusRunning StatusFailed"
| "lifecycle EventContinuedAsNew StatusRunning StatusContinuedAsNew"
| "\<not> terminalStatus s \<Longrightarrow> lifecycle EventInstanceTerminated s StatusTerminated"

text \<open>The kinds that change the status.\<close>

definition lifecycle_kind :: "EventKind \<Rightarrow> bool" where
  "lifecycle_kind k \<longleftrightarrow> k \<in> {EventInstancePaused, EventInstanceResumed, EventCancellationRequested,
     EventInstanceCancelled, EventInstanceCompleted, EventInstanceFailed, EventInstanceTerminated,
     EventContinuedAsNew}"

lemma replay_step_lifecycle:
  "replay_step registry i e k \<Longrightarrow> \<not> terminalStatus (in_status i) \<Longrightarrow>
     (if lifecycle_kind (ev_kind e) then lifecycle (ev_kind e) (in_status i) (in_status k)
      else in_status k = in_status i)"
  by (induction rule: replay_step.induct)
    (auto elim!: applyWait_frame intro: lifecycle.intros
      simp: applyRace_Inr lifecycle_kind_def activity_kind_cases child_kind_cases
        compensation_kind_cases wait_kind_def)

lemma apply_event_lifecycle:
  assumes "apply_event registry i e = Inr j" "in_sequence i \<noteq> 0" "event_ok e"
  shows "if lifecycle_kind (ev_kind e) then lifecycle (ev_kind e) (in_status i) (in_status j)
    else in_status j = in_status i"
proof -
  from assms obtain k where k: "apply_kind registry i e = Inr k" "j = finish_event i e k"
      and live: "\<not> terminalStatus (in_status i)"
    by (auto simp: apply_event_Inr)
  have "replay_step registry i e k"
    by (rule apply_kind_sound [OF k(1) event_ok_basic(5) [OF assms(3)]])
  from replay_step_lifecycle [OF this live] show ?thesis by (simp add: k(2))
qed

lemma reach_live:
  "reach registry es i \<Longrightarrow> list_all event_ok es \<Longrightarrow> in_sequence i \<noteq> 0"
  using reach_positions [of registry es i]
  by (auto simp: reach_iff unat_eq_0 [symmetric] simp del: unat_eq_0)

lemma apply_event_terminal:
  "in_sequence i \<noteq> 0 \<Longrightarrow> terminalStatus (in_status i) \<Longrightarrow> \<exists>err. apply_event registry i e = Inl err"
  by (simp add: apply_event_def)

section \<open>Progress that is settled stays settled\<close>

definition progress_frozen :: "Instance \<Rightarrow> Instance \<Rightarrow> bool" where
  "progress_frozen i j \<longleftrightarrow>
     (\<forall>n p. in_activities i n = Some p \<longrightarrow> (\<exists>q. in_activities j n = Some q \<and> ap_input q = ap_input p \<and>
        (ap_status p = ActivityProgressSucceeded \<or> ap_status p = ActivityProgressUnknown \<longrightarrow> q = p))) \<and>
     (\<forall>n t. in_timers i n = Some t \<longrightarrow> (\<exists>u. in_timers j n = Some u \<and> tp_dueAt u = tp_dueAt t \<and>
        (tp_status t = TimerFired \<longrightarrow> u = t))) \<and>
     (\<forall>n s. in_signals i n = Some s \<longrightarrow> in_signals j n = Some s) \<and>
     (\<forall>n r. in_races i n = Some r \<longrightarrow> in_races j n = Some r) \<and>
     (\<forall>n c. in_children i n = Some c \<longrightarrow> (\<exists>d. in_children j n = Some d \<and> cp_childID d = cp_childID c \<and>
        cp_definition d = cp_definition c \<and> cp_input d = cp_input c \<and>
        (cp_status c = ChildSucceeded \<or> cp_status c = ChildFailed \<longrightarrow> d = c))) \<and>
     (\<forall>n k. in_compensations i n = Some k \<longrightarrow> (\<exists>m. in_compensations j n = Some m \<and>
        kp_scheduledSequence m = kp_scheduledSequence k \<and> kp_input m = kp_input k \<and>
        (kp_status k = CompensationSucceeded \<or> kp_status k = CompensationManuallyResolved \<longrightarrow> m = k))) \<and>
     (\<exists>more. in_operatorActions j = in_operatorActions i @ more)"

lemma progress_frozen_refl: "progress_frozen i i"
  by (simp add: progress_frozen_def)

lemma activity_step_input: "activity_step step (Some p) e q \<Longrightarrow> ap_input q = ap_input p"
  by (auto simp: activity_step_Some)

lemma progress_frozen_activity:
  assumes "progress_frozen i j" "activity_step step (in_activities j n) e p'"
  shows "progress_frozen i (j\<lparr>in_activities := (in_activities j)(n \<mapsto> p')\<rparr>)"
proof -
  have "\<exists>q. ((in_activities j)(n \<mapsto> p')) m = Some q \<and> ap_input q = ap_input p \<and>
      (ap_status p = ActivityProgressSucceeded \<or> ap_status p = ActivityProgressUnknown \<longrightarrow> q = p)"
    if i: "in_activities i m = Some p" for m p
  proof -
    obtain q where q: "in_activities j m = Some q" "ap_input q = ap_input p"
      "ap_status p = ActivityProgressSucceeded \<or> ap_status p = ActivityProgressUnknown \<longrightarrow> q = p"
      using assms(1) i unfolding progress_frozen_def by blast
    show ?thesis
    proof (cases "m = n")
      case True
      with q assms(2) activity_step_final activity_step_input show ?thesis by fastforce
    next
      case False
      with q show ?thesis by auto
    qed
  qed
  with assms(1) show ?thesis by (simp add: progress_frozen_def)
qed

lemma progress_frozen_child:
  assumes "progress_frozen i j" "child_step registry step (in_children j n) e c'"
  shows "progress_frozen i (j\<lparr>in_children := (in_children j)(n \<mapsto> c')\<rparr>)"
proof -
  have "\<exists>d. ((in_children j)(n \<mapsto> c')) m = Some d \<and> cp_childID d = cp_childID c \<and>
        cp_definition d = cp_definition c \<and> cp_input d = cp_input c \<and>
        (cp_status c = ChildSucceeded \<or> cp_status c = ChildFailed \<longrightarrow> d = c)"
    if i: "in_children i m = Some c" for m c
  proof -
    obtain d where d: "in_children j m = Some d" "cp_childID d = cp_childID c"
        "cp_definition d = cp_definition c" "cp_input d = cp_input c"
        "cp_status c = ChildSucceeded \<or> cp_status c = ChildFailed \<longrightarrow> d = c"
      using assms(1) i unfolding progress_frozen_def by blast
    show ?thesis
    proof (cases "m = n")
      case True
      with assms(2) d(1) have "child_progress step d e = Inr c'" by (simp add: child_step_def)
      from child_progress_frame [OF this] d True show ?thesis by auto
    next
      case False
      with d show ?thesis by auto
    qed
  qed
  with assms(1) show ?thesis by (simp add: progress_frozen_def)
qed

lemma progress_frozen_compensation:
  assumes "progress_frozen i j" "compensation_step policy (in_compensations j n) e k'"
  shows "progress_frozen i (j\<lparr>in_compensations := (in_compensations j)(n \<mapsto> k')\<rparr>)"
proof -
  have "\<exists>m. ((in_compensations j)(n \<mapsto> k')) x = Some m \<and>
        kp_scheduledSequence m = kp_scheduledSequence k \<and> kp_input m = kp_input k \<and>
        (kp_status k = CompensationSucceeded \<or> kp_status k = CompensationManuallyResolved \<longrightarrow> m = k)"
    if i: "in_compensations i x = Some k" for x k
  proof -
    obtain m where m: "in_compensations j x = Some m" "kp_scheduledSequence m = kp_scheduledSequence k"
        "kp_input m = kp_input k"
        "kp_status k = CompensationSucceeded \<or> kp_status k = CompensationManuallyResolved \<longrightarrow> m = k"
      using assms(1) i unfolding progress_frozen_def by blast
    show ?thesis
    proof (cases "x = n")
      case True
      with assms(2) m(1) have "compensation_progress policy m e = Inr k'" by (simp add: compensation_step_def)
      from compensation_progress_frame [OF this] m True show ?thesis by auto
    next
      case False
      with m show ?thesis by auto
    qed
  qed
  with assms(1) show ?thesis by (simp add: progress_frozen_def)
qed

lemma progress_frozen_wait:
  assumes "progress_frozen i j" "applyWait registry j e = Inr k"
  shows "progress_frozen i k"
proof -
  from assms(2) have "wait_kind (ev_kind e)" by (rule applyWait_frame)
  then consider "ev_kind e = EventTimerScheduled" | "ev_kind e = EventTimerFired"
    | "ev_kind e = EventSignalReceived" by (auto simp: wait_kind_def)
  then show ?thesis
  proof cases
    case 1
    with assms show ?thesis by (fastforce simp: applyWait_schedule progress_frozen_def)
  next
    case 2
    with assms show ?thesis by (fastforce simp: applyWait_fire progress_frozen_def)
  next
    case 3
    with assms show ?thesis by (fastforce simp: applyWait_signal progress_frozen_def)
  qed
qed

lemma progress_frozen_step:
  assumes "progress_frozen i j" "replay_step registry j e k"
  shows "progress_frozen i k"
  using assms(2)
proof cases
  case (activity step p')
  then show ?thesis using progress_frozen_activity [OF assms(1)] by simp
next
  case wait
  then show ?thesis by (rule progress_frozen_wait [OF assms(1)])
next
  case race
  with assms(1) show ?thesis by (fastforce simp: applyRace_Inr progress_frozen_def)
next
  case (child step c')
  then show ?thesis using progress_frozen_child [OF assms(1)] by simp
next
  case (compensation step policy k')
  then show ?thesis using progress_frozen_compensation [OF assms(1)] by simp
qed (use assms(1) in \<open>auto simp: progress_frozen_def\<close>)

interpretation frozen: replay_stable registry "\<lambda>_. True" "progress_frozen i"
  for registry i
proof
  show "progress_frozen i k" if "progress_frozen i j" "replay_step registry j e k" for e j k
    by (rule progress_frozen_step [OF that])
qed (simp add: progress_frozen_def)

section \<open>Operator audit records\<close>

definition audit_record :: "HistoryEvent \<Rightarrow> OperatorActionRecord option" where
  "audit_record e = (if ev_kind e \<noteq> EventOperatorCommandRecorded then None
     else case decodeOperatorAudit (ev_data e) of Inl _ \<Rightarrow> None
       | Inr document \<Rightarrow> Some \<lparr>oa_commandID = ev_idempotencyKey e, oa_action = au_Action document,
           oa_actor = au_Actor document, oa_reason = au_Reason document, oa_occurredAt = ev_occurredAt e\<rparr>)"

definition audits_paired :: "HistoryEvent list \<Rightarrow> bool" where
  "audits_paired es \<longleftrightarrow> (\<forall>k r. Suc k < length es \<longrightarrow> audit_record (es ! k) = Some r \<longrightarrow>
     ev_kind (es ! Suc k) = operatorEventKind (oa_action r))"

lemma replay_step_operator:
  "replay_step registry i e k \<Longrightarrow>
     (case audit_record e of
        None \<Rightarrow> in_operatorActions k = in_operatorActions i \<and> in_pendingOperator k = in_pendingOperator i
      | Some r \<Rightarrow> in_operatorActions k = in_operatorActions i @ [r] \<and> in_pendingOperator k = oa_action r \<and>
          oa_action r \<noteq> OperatorNone \<and> in_pendingOperator i = OperatorNone)"
  by (induction rule: replay_step.induct)
    (auto elim!: applyWait_frame dest: decodeOperatorAudit_Inr
      simp: applyRace_Inr audit_record_def activity_kind_cases child_kind_cases
        compensation_kind_cases wait_kind_def)

lemma reach_audit:
  assumes "reach registry es i" "list_all event_ok es"
  shows "in_operatorActions i = List.map_filter audit_record es \<and>
    in_pendingOperator i = (case audit_record (last es) of None \<Rightarrow> OperatorNone | Some r \<Rightarrow> oa_action r) \<and>
    audits_paired es"
  using assms
proof (induction rule: reach.induct)
  case (first e i)
  then show ?case unfolding apply_event_start
    by (auto simp: audit_record_def zero_Instance_def audits_paired_def List.map_filter_def)
next
  case (snoc es i e i')
  then have ih: "in_operatorActions i = List.map_filter audit_record es"
      "in_pendingOperator i = (case audit_record (last es) of None \<Rightarrow> OperatorNone | Some r \<Rightarrow> oa_action r)"
      "audits_paired es" and ok: "event_ok e" "list_all event_ok es"
    by auto
  have ne: "es \<noteq> []" using snoc.hyps(1) by (simp add: reach_iff)
  have nz: "in_sequence i \<noteq> 0" using reach_live snoc.hyps(1) ok(2) by blast
  from snoc.hyps(2) obtain k where k: "apply_kind registry i e = Inr k" "i' = finish_event i e k"
      and op: "in_pendingOperator i \<noteq> OperatorNone \<longrightarrow> completes i e"
    by (auto simp: apply_event_Inr [OF nz])
  have rs: "replay_step registry i e k"
    by (rule apply_kind_sound [OF k(1) event_ok_basic(5) [OF ok(1)]])
  note so = replay_step_operator [OF rs]
  have acts: "in_operatorActions i' = List.map_filter audit_record (es @ [e])"
    using so ih(1) by (auto simp: k(2) List.map_filter_def split: option.splits)
  have pend: "in_pendingOperator i' = (case audit_record e of None \<Rightarrow> OperatorNone | Some r \<Rightarrow> oa_action r)"
    using so op by (auto simp: k(2) completes_def split: option.splits)
  have "ev_kind e = operatorEventKind (oa_action r)" if "audit_record (last es) = Some r" for r
  proof -
    have "oa_action r \<noteq> OperatorNone"
      using that by (auto simp: audit_record_def dest: decodeOperatorAudit_Inr split: if_splits sum.splits)
    with that op ih(2) show ?thesis by (simp add: completes_def)
  qed
  then have "audits_paired (es @ [e])"
    using ih(3) ne by (auto simp: audits_paired_def nth_append last_conv_nth less_Suc_eq)
      (metis Suc_pred diff_Suc_1 length_greater_0_conv less_antisym not_less_eq)
  with acts pend show ?case by simp
qed

end
