(* ===== verification/Transition.thy ===== *)
theory Transition
  imports Lifecycle
begin

text \<open>
  Pending work and atomic transition plans (transition.go): construction, the plan validator with
  its two loops and its declarative meaning, and the plan fingerprint of the Go JSON rendering.
  Lengths are natural numbers: their sum over one plan stays far below the 64-bit range.
\<close>

section \<open>Data\<close>

definition MaxTransitionEvents :: nat where "MaxTransitionEvents = 100"
definition MaxTransitionWork :: nat where "MaxTransitionWork = 1000"
definition MaxTransitionBytes :: nat where "MaxTransitionBytes = MaxPayloadBytes"

datatype WorkKind =
    WorkActivity | WorkTimer | WorkChild | WorkPublication | WorkReconciliation | WorkCompensation
  | WorkKindInvalid

fun work_code :: "WorkKind \<Rightarrow> nat" where
  "work_code WorkActivity = 1" | "work_code WorkTimer = 2" | "work_code WorkChild = 3"
| "work_code WorkPublication = 4" | "work_code WorkReconciliation = 5"
| "work_code WorkCompensation = 6" | "work_code WorkKindInvalid = 0"

record PendingWorkSpec =
  ws_ID :: string
  ws_Kind :: WorkKind
  ws_InstanceID :: string
  ws_Sequence :: uint64
  ws_AvailableAt :: gotime
  ws_Deadline :: gotime
  ws_Payload :: bytes
  ws_TenantID :: string
  ws_CorrelationID :: string

record PendingWork =
  pw_id :: string
  pw_kind :: WorkKind
  pw_instanceID :: string
  pw_sequence :: uint64
  pw_availableAt :: gotime
  pw_deadline :: gotime
  pw_payload :: bytes
  pw_tenantID :: string
  pw_correlationID :: string

definition zero_PendingWork :: PendingWork where
  "zero_PendingWork = \<lparr>pw_id = [], pw_kind = WorkKindInvalid, pw_instanceID = [], pw_sequence = 0,
     pw_availableAt = time_zero, pw_deadline = time_zero, pw_payload = None, pw_tenantID = [],
     pw_correlationID = []\<rparr>"

definition optionalMetadataValid :: "string \<Rightarrow> bool" where
  "optionalMetadataValid v \<longleftrightarrow> v = [] \<or> instanceIDPattern v"

definition work_valid :: "PendingWork \<Rightarrow> bool" where
  "work_valid work \<longleftrightarrow> instanceIDPattern (pw_id work) \<and>
     work_code (pw_kind work) \<ge> work_code WorkActivity \<and>
     work_code (pw_kind work) \<le> work_code WorkCompensation \<and>
     instanceIDPattern (pw_instanceID work) \<and> pw_sequence work > 0 \<and>
     \<not> IsZero (pw_availableAt work) \<and> After (pw_deadline work) (pw_availableAt work) \<and>
     blen (pw_payload work) \<le> MaxPayloadBytes \<and> optionalMetadataValid (pw_tenantID work) \<and>
     optionalMetadataValid (pw_correlationID work)"

definition NewPendingWork :: "PendingWorkSpec \<Rightarrow> PendingWork result" where
  "NewPendingWork spec =
     (let work = \<lparr>pw_id = ws_ID spec, pw_kind = ws_Kind spec, pw_instanceID = ws_InstanceID spec,
            pw_sequence = ws_Sequence spec, pw_availableAt = canonicalTime (ws_AvailableAt spec),
            pw_deadline = canonicalTime (ws_Deadline spec), pw_payload = ws_Payload spec,
            pw_tenantID = ws_TenantID spec, pw_correlationID = ws_CorrelationID spec\<rparr>
      in if \<not> work_valid work then Inl ErrInvalidPendingWork
         else Inr (work\<lparr>pw_payload := cloneBytes (pw_payload work)\<rparr>))"

record TransitionSpec =
  ts_ID :: string
  ts_InstanceID :: string
  ts_ExpectedSequence :: uint64
  ts_Definition :: DefinitionReference
  ts_Events :: "HistoryEvent list"
  ts_Work :: "PendingWork list"

record Transition =
  tr_id :: string
  tr_instanceID :: string
  tr_expectedSequence :: uint64
  tr_definition :: DefinitionReference
  tr_events :: "HistoryEvent list"
  tr_work :: "PendingWork list"
  tr_fingerprint :: string

definition zero_Transition :: Transition where
  "zero_Transition = \<lparr>tr_id = [], tr_instanceID = [], tr_expectedSequence = 0,
     tr_definition = zero_DefinitionReference, tr_events = [], tr_work = [], tr_fingerprint = []\<rparr>"

section \<open>Validation\<close>

fun check_events ::
  "string \<Rightarrow> uint64 \<Rightarrow> gotime \<Rightarrow> (uint64 \<rightharpoonup> gotime) \<Rightarrow> nat \<Rightarrow> HistoryEvent list
   \<Rightarrow> ((uint64 \<rightharpoonup> gotime) \<times> nat) option" where
  "check_events n q previousTime eventTimes totalBytes [] = Some (eventTimes, totalBytes)"
| "check_events n q previousTime eventTimes totalBytes (event # events) =
     (if ev_instanceID event \<noteq> n \<or> ev_sequence event \<noteq> q \<or>
         (\<not> IsZero previousTime \<and> Before (ev_occurredAt event) previousTime)
      then None
      else check_events n (q + 1) (ev_occurredAt event)
             (eventTimes(ev_sequence event \<mapsto> ev_occurredAt event))
             (totalBytes + blen (ev_data event)) events)"

fun check_work ::
  "string \<Rightarrow> (uint64 \<rightharpoonup> gotime) \<Rightarrow> string set \<Rightarrow> nat \<Rightarrow> PendingWork list \<Rightarrow> nat option" where
  "check_work n eventTimes workIDs totalBytes [] = Some totalBytes"
| "check_work n eventTimes workIDs totalBytes (work # works) =
     (case eventTimes (pw_sequence work) of
        None \<Rightarrow> None
      | Some eventTime \<Rightarrow>
          if pw_instanceID work \<noteq> n \<or> Before (pw_availableAt work) eventTime then None
          else if pw_id work \<in> workIDs then None
          else check_work n eventTimes (insert (pw_id work) workIDs)
                 (totalBytes + blen (pw_payload work)) works)"

definition first_event_ok :: "Transition \<Rightarrow> bool" where
  "first_event_ok transition = (case tr_events transition of
     [] \<Rightarrow> False
   | first # _ \<Rightarrow>
       if tr_expectedSequence transition = 0
       then ev_kind first = EventInstanceStarted \<and> ev_definition first = tr_definition transition
       else ev_kind first \<noteq> EventInstanceStarted)"

definition transition_valid :: "Transition \<Rightarrow> bool" where
  "transition_valid transition =
     (if \<not> instanceIDPattern (tr_id transition) \<or> \<not> instanceIDPattern (tr_instanceID transition) \<or>
         \<not> reference_valid (tr_definition transition) \<or> tr_expectedSequence transition = - 1 \<or>
         length (tr_events transition) = 0 \<or> length (tr_events transition) > MaxTransitionEvents \<or>
         length (tr_work transition) > MaxTransitionWork
      then False
      else case check_events (tr_instanceID transition) (tr_expectedSequence transition + 1)
                  time_zero Map.empty 0 (tr_events transition) of
        None \<Rightarrow> False
      | Some (eventTimes, totalBytes) \<Rightarrow>
          if \<not> first_event_ok transition then False
          else case check_work (tr_instanceID transition) eventTimes {} totalBytes
                      (tr_work transition) of
            None \<Rightarrow> False
          | Some totalBytes \<Rightarrow> totalBytes \<le> MaxTransitionBytes)"

section \<open>Fingerprint\<close>

definition event_json :: "HistoryEvent \<Rightarrow> json option" where
  "event_json event = j_object [
     (''Sequence'', Some (j_uint (ev_sequence event))),
     (''InstanceID'', Some (JStr (ev_instanceID event))),
     (''Kind'', Some (JNum (dec_nat (kind_code (ev_kind event))))),
     (''OccurredAt'', j_time (ev_occurredAt event)),
     (''DefinitionName'', Some (JStr (dr_name (ev_definition event)))),
     (''DefinitionVersion'', Some (JStr (dr_version (ev_definition event)))),
     (''DefinitionFingerprint'', Some (JStr (dr_fingerprint (ev_definition event)))),
     (''SuccessorID'', Some (JStr (ev_successorID event))),
     (''StepName'', Some (JStr (ev_stepName event))),
     (''Attempt'', Some (j_uint (ev_attempt event))),
     (''IdempotencyKey'', Some (JStr (ev_idempotencyKey event))),
     (''DueAt'', j_time (ev_dueAt event)),
     (''Code'', Some (JStr (ev_code event))),
     (''Retryable'', Some (JBool (ev_retryable event))),
     (''Data'', Some (j_bytes (ev_data event)))]"

definition work_json :: "PendingWork \<Rightarrow> json option" where
  "work_json item = j_object [
     (''ID'', Some (JStr (pw_id item))),
     (''Kind'', Some (JNum (dec_nat (work_code (pw_kind item))))),
     (''InstanceID'', Some (JStr (pw_instanceID item))),
     (''Sequence'', Some (j_uint (pw_sequence item))),
     (''AvailableAt'', j_time (pw_availableAt item)),
     (''Deadline'', j_time (pw_deadline item)),
     (''Payload'', Some (j_bytes (pw_payload item))),
     (''TenantID'', Some (JStr (pw_tenantID item))),
     (''CorrelationID'', Some (JStr (pw_correlationID item)))]"

definition transition_json :: "Transition \<Rightarrow> json option" where
  "transition_json transition = j_object [
     (''ID'', Some (JStr (tr_id transition))),
     (''InstanceID'', Some (JStr (tr_instanceID transition))),
     (''ExpectedSequence'', Some (j_uint (tr_expectedSequence transition))),
     (''DefinitionName'', Some (JStr (dr_name (tr_definition transition)))),
     (''DefinitionVersion'', Some (JStr (dr_version (tr_definition transition)))),
     (''DefinitionFingerprint'', Some (JStr (dr_fingerprint (tr_definition transition)))),
     (''Events'', j_array (map event_json (tr_events transition))),
     (''Work'', j_array (map work_json (tr_work transition)))]"

definition transitionFingerprint :: "Transition \<Rightarrow> string" where
  "transitionFingerprint transition = sha256_hex (marshal (transition_json transition))"

section \<open>Construction\<close>

definition clonePendingWork :: "PendingWork list \<Rightarrow> PendingWork list" where
  "clonePendingWork items = map (\<lambda>work. work\<lparr>pw_payload := cloneBytes (pw_payload work)\<rparr>) items"

definition NewTransition :: "TransitionSpec \<Rightarrow> Transition result" where
  "NewTransition spec =
     (let transition = \<lparr>tr_id = ts_ID spec, tr_instanceID = ts_InstanceID spec,
            tr_expectedSequence = ts_ExpectedSequence spec, tr_definition = ts_Definition spec,
            tr_events = ts_Events spec, tr_work = ts_Work spec, tr_fingerprint = []\<rparr>
      in if \<not> transition_valid transition then Inl ErrInvalidTransitionPlan
         else let transition = transition\<lparr>tr_events := [] @ tr_events transition,
                    tr_work := clonePendingWork (tr_work transition)\<rparr>
              in Inr (transition\<lparr>tr_fingerprint := transitionFingerprint transition\<rparr>))"

definition transition_Valid :: "Transition \<Rightarrow> bool" where
  "transition_Valid transition \<longleftrightarrow> tr_fingerprint transition \<noteq> []"

section \<open>The meaning of a valid plan\<close>

lemma clonePendingWork_id [simp]: "clonePendingWork items = items"
  by (induction items) (simp_all add: clonePendingWork_def)

lemma NewPendingWork_Inr:
  "NewPendingWork spec = Inr w \<longleftrightarrow> work_valid w \<and>
     w = \<lparr>pw_id = ws_ID spec, pw_kind = ws_Kind spec, pw_instanceID = ws_InstanceID spec,
       pw_sequence = ws_Sequence spec, pw_availableAt = canonicalTime (ws_AvailableAt spec),
       pw_deadline = canonicalTime (ws_Deadline spec), pw_payload = ws_Payload spec,
       pw_tenantID = ws_TenantID spec, pw_correlationID = ws_CorrelationID spec\<rparr>"
  by (auto simp: NewPendingWork_def Let_def)

lemma NewTransition_Inr:
  "NewTransition spec = Inr t \<longleftrightarrow>
     transition_valid (t\<lparr>tr_fingerprint := []\<rparr>) \<and> tr_fingerprint t = transitionFingerprint t \<and>
     tr_id t = ts_ID spec \<and> tr_instanceID t = ts_InstanceID spec \<and>
     tr_expectedSequence t = ts_ExpectedSequence spec \<and> tr_definition t = ts_Definition spec \<and>
     tr_events t = ts_Events spec \<and> tr_work t = ts_Work spec"
  by (cases t) (auto simp: NewTransition_def Let_def transitionFingerprint_def transition_json_def)

lemma transition_valid_fingerprint [simp]:
  "transition_valid (t\<lparr>tr_fingerprint := f\<rparr>) = transition_valid t"
  by (auto simp: transition_valid_def first_event_ok_def split: option.splits list.splits)

lemma NewTransition_Valid: "NewTransition spec = Inr t \<Longrightarrow> transition_Valid t"
  by (simp add: NewTransition_Inr transition_Valid_def transitionFingerprint_def)

text \<open>
  Positions increase by one from the expected sequence without wrapping, times do not go back,
  and every work item belongs to one event of the plan.
\<close>

definition plan_events_ok :: "string \<Rightarrow> nat \<Rightarrow> HistoryEvent list \<Rightarrow> bool" where
  "plan_events_ok n q es \<longleftrightarrow> same_instance n es \<and>
     (\<forall>k < length es. unat (ev_sequence (es ! k)) = q + Suc k) \<and> ordered_times es"

definition plan_work_ok :: "string \<Rightarrow> HistoryEvent list \<Rightarrow> PendingWork list \<Rightarrow> bool" where
  "plan_work_ok n es ws \<longleftrightarrow> distinct (map pw_id ws) \<and>
     (\<forall>w \<in> set ws. pw_instanceID w = n \<and>
        (\<exists>e \<in> set es. pw_sequence w = ev_sequence e \<and> \<not> Before (pw_availableAt w) (ev_occurredAt e)))"

definition plan_bytes :: "Transition \<Rightarrow> nat" where
  "plan_bytes t = (\<Sum>e \<leftarrow> tr_events t. blen (ev_data e)) + (\<Sum>w \<leftarrow> tr_work t. blen (pw_payload w))"

lemma check_events_Some:
  assumes "list_all event_ok es" "IsZero prev \<or> mono prev = None"
    "check_events n q prev tm tot es = Some (tm', tot')"
  shows "same_instance n es \<and> ordered_times es \<and>
    (\<not> IsZero prev \<longrightarrow> (\<forall>e \<in> set es. wall prev \<le> wall (ev_occurredAt e))) \<and>
    (\<forall>k < length es. ev_sequence (es ! k) = q + of_nat k) \<and>
    (\<forall>s t. tm' s = Some t \<longrightarrow> tm s = Some t \<or> (\<exists>e \<in> set es. s = ev_sequence e \<and> t = ev_occurredAt e)) \<and>
    tot' = tot + (\<Sum>e \<leftarrow> es. blen (ev_data e))"
  using assms
proof (induction es arbitrary: q prev tm tot)
  case Nil
  then show ?case by (simp add: same_instance_def ordered_times_def)
next
  case (Cons e es)
  let ?tm = "tm(ev_sequence e \<mapsto> ev_occurredAt e)"
  from Cons.prems(3) have hd: "ev_instanceID e = n" "ev_sequence e = q"
      "IsZero prev \<or> \<not> Before (ev_occurredAt e) prev"
    and rec: "check_events n (q + 1) (ev_occurredAt e) ?tm (tot + blen (ev_data e)) es = Some (tm', tot')"
    by (auto split: if_splits)
  have e: "event_ok e" "mono (ev_occurredAt e) = None" "\<not> IsZero (ev_occurredAt e)"
      and ok: "list_all event_ok es"
    using Cons.prems(1) event_ok_basic by auto
  have ih: "same_instance n es" "ordered_times es"
      "\<forall>x \<in> set es. wall (ev_occurredAt e) \<le> wall (ev_occurredAt x)"
      "\<forall>k < length es. ev_sequence (es ! k) = q + 1 + of_nat k"
      "\<forall>s t. tm' s = Some t \<longrightarrow> ?tm s = Some t \<or> (\<exists>x \<in> set es. s = ev_sequence x \<and> t = ev_occurredAt x)"
      "tot' = tot + blen (ev_data e) + (\<Sum>x \<leftarrow> es. blen (ev_data x))"
    using Cons.IH [OF ok disjI2 [OF e(2)] rec] e(3) by blast+
  have prev: "\<not> IsZero prev \<Longrightarrow> wall prev \<le> wall (ev_occurredAt e)"
    using hd(3) e(2) by (auto simp: Before_wall not_less)
  have seqs: "\<forall>k < length (e # es). ev_sequence ((e # es) ! k) = q + of_nat k"
    using ih(4) hd(2) by (auto simp: less_Suc_eq_0_disj)
  have tms: "\<forall>s t. tm' s = Some t \<longrightarrow> tm s = Some t \<or> (\<exists>x \<in> set (e # es). s = ev_sequence x \<and> t = ev_occurredAt x)"
    using ih(5) by (auto split: if_splits)
  show ?case
    using ih prev seqs tms hd(1) by (force simp: same_instance_def ordered_times_def)
qed

lemma check_work_Some:
  "check_work n tm ids tot ws = Some tot' \<Longrightarrow>
     distinct (map pw_id ws) \<and> (\<forall>w \<in> set ws. pw_id w \<notin> ids \<and> pw_instanceID w = n \<and>
       (\<exists>t. tm (pw_sequence w) = Some t \<and> \<not> Before (pw_availableAt w) t)) \<and>
     tot' = tot + (\<Sum>w \<leftarrow> ws. blen (pw_payload w))"
  by (induction ws arbitrary: ids tot) (fastforce split: option.splits if_splits)+

lemma no_wrap_positions:
  assumes pos: "\<forall>k < length es. ev_sequence (es ! k) = q + 1 + of_nat k" and ok: "list_all event_ok es"
  shows "\<forall>k < length es. unat (ev_sequence (es ! k)) = unat q + Suc k"
proof (intro allI impI)
  fix k
  assume "k < length es"
  then show "unat (ev_sequence (es ! k)) = unat q + Suc k"
  proof (induction k)
    case 0
    have "ev_sequence (es ! 0) \<noteq> 0"
      using 0 ok event_ok_basic(1) by (auto simp: list_all_length)
    then have "q + 1 \<noteq> 0" using pos 0 by simp
    then show ?case using pos 0 unat_Suc_word [of q] by simp
  next
    case (Suc k)
    have step: "ev_sequence (es ! Suc k) = ev_sequence (es ! k) + 1"
      using pos Suc.prems by (simp add: algebra_simps)
    have "ev_sequence (es ! Suc k) \<noteq> 0"
      using Suc.prems ok event_ok_basic(1) by (auto simp: list_all_length)
    then show ?case
      using Suc step unat_Suc_word [of "ev_sequence (es ! k)"] by simp
  qed
qed

lemma transition_valid_plan:
  assumes "transition_valid t" "list_all event_ok (tr_events t)"
  shows "instanceIDPattern (tr_id t)" "instanceIDPattern (tr_instanceID t)" "reference_valid (tr_definition t)"
    "1 \<le> length (tr_events t)" "length (tr_events t) \<le> MaxTransitionEvents"
    "length (tr_work t) \<le> MaxTransitionWork" "plan_bytes t \<le> MaxTransitionBytes"
    "plan_events_ok (tr_instanceID t) (unat (tr_expectedSequence t)) (tr_events t)"
    "plan_work_ok (tr_instanceID t) (tr_events t) (tr_work t)"
    "ev_kind (hd (tr_events t)) = EventInstanceStarted \<longleftrightarrow> tr_expectedSequence t = 0"
proof -
  from assms(1) obtain tm tot tot' where
      basic: "instanceIDPattern (tr_id t)" "instanceIDPattern (tr_instanceID t)"
        "reference_valid (tr_definition t)" "tr_events t \<noteq> []"
        "length (tr_events t) \<le> MaxTransitionEvents" "length (tr_work t) \<le> MaxTransitionWork"
    and ev: "check_events (tr_instanceID t) (tr_expectedSequence t + 1) time_zero Map.empty 0 (tr_events t)
        = Some (tm, tot)"
    and first: "first_event_ok t"
    and wk: "check_work (tr_instanceID t) tm {} tot (tr_work t) = Some tot'" "tot' \<le> MaxTransitionBytes"
    by (auto simp: transition_valid_def not_less split: if_splits option.splits)
  show "instanceIDPattern (tr_id t)" "instanceIDPattern (tr_instanceID t)" "reference_valid (tr_definition t)"
    "1 \<le> length (tr_events t)" "length (tr_events t) \<le> MaxTransitionEvents"
    "length (tr_work t) \<le> MaxTransitionWork"
    using basic by (auto simp: Suc_le_eq)
  have e: "same_instance (tr_instanceID t) (tr_events t)" "ordered_times (tr_events t)"
      "\<forall>k < length (tr_events t). ev_sequence (tr_events t ! k) = tr_expectedSequence t + 1 + of_nat k"
      "\<forall>s x. tm s = Some x \<longrightarrow> (\<exists>e \<in> set (tr_events t). s = ev_sequence e \<and> x = ev_occurredAt e)"
      "tot = (\<Sum>e \<leftarrow> tr_events t. blen (ev_data e))"
    using check_events_Some [OF assms(2) _ ev] by simp_all
  have w: "distinct (map pw_id (tr_work t))" "\<forall>w \<in> set (tr_work t). pw_instanceID w = tr_instanceID t \<and>
       (\<exists>x. tm (pw_sequence w) = Some x \<and> \<not> Before (pw_availableAt w) x)"
      "tot' = tot + (\<Sum>w \<leftarrow> tr_work t. blen (pw_payload w))"
    using check_work_Some [OF wk(1)] by simp_all
  show "plan_bytes t \<le> MaxTransitionBytes"
    using wk(2) by (simp add: plan_bytes_def w(3) e(5))
  show "plan_events_ok (tr_instanceID t) (unat (tr_expectedSequence t)) (tr_events t)"
    using e no_wrap_positions [OF e(3) assms(2)] by (simp add: plan_events_ok_def)
  show "plan_work_ok (tr_instanceID t) (tr_events t) (tr_work t)"
    unfolding plan_work_ok_def using w e(4) by blast
  show "ev_kind (hd (tr_events t)) = EventInstanceStarted \<longleftrightarrow> tr_expectedSequence t = 0"
    using first by (auto simp: first_event_ok_def split: list.splits if_splits)
qed

text \<open>A one-event plan of a live instance, which most constructors build.\<close>

lemma transition_valid_single:
  assumes "instanceIDPattern tid" "instanceIDPattern n" "reference_valid d" "q \<noteq> - 1" "q \<noteq> 0"
    "event_ok e" "ev_instanceID e = n" "ev_sequence e = q + 1" "ev_kind e \<noteq> EventInstanceStarted"
    "ws = [] \<or> (\<exists>w. ws = [w] \<and> pw_instanceID w = n \<and> pw_sequence w = q + 1 \<and>
       \<not> Before (pw_availableAt w) (ev_occurredAt e))"
    "blen (ev_data e) + (\<Sum>w \<leftarrow> ws. blen (pw_payload w)) \<le> MaxTransitionBytes"
  shows "transition_valid \<lparr>tr_id = tid, tr_instanceID = n, tr_expectedSequence = q, tr_definition = d,
     tr_events = [e], tr_work = ws, tr_fingerprint = f\<rparr>"
  using assms by (auto simp: transition_valid_def first_event_ok_def MaxTransitionEvents_def MaxTransitionWork_def)

end
