(* ===== verification/Work.thy ===== *)
theory Work
  imports Transition
begin

text \<open>
  Work leases and the requests of the work store (work.go). Each \<open>...Spec\<close> struct of the code has
  the fields of the value it constructs, so one record serves for both; the constructor returns
  it with canonical times or the error.
\<close>

definition MaxWorkClaimItems :: uint32 where "MaxWorkClaimItems = 100"
definition MaxWorkLeaseDuration :: int where "MaxWorkLeaseDuration = 15 * 60 * 1000000000"

record WorkClaimRequest =
  cr_owner :: string
  cr_now :: gotime
  cr_leaseDuration :: duration
  cr_limit :: uint32

type_synonym WorkClaimRequestSpec = WorkClaimRequest

definition claim_Valid :: "WorkClaimRequest \<Rightarrow> bool" where
  "claim_Valid request \<longleftrightarrow> instanceIDPattern (cr_owner request) \<and> \<not> IsZero (cr_now request) \<and>
     sint (cr_leaseDuration request) > 0 \<and> sint (cr_leaseDuration request) \<le> MaxWorkLeaseDuration \<and>
     cr_limit request > 0 \<and> cr_limit request \<le> MaxWorkClaimItems"

definition NewWorkClaimRequest :: "WorkClaimRequestSpec \<Rightarrow> WorkClaimRequest result" where
  "NewWorkClaimRequest spec =
     (let request = spec\<lparr>cr_now := canonicalTime (cr_now spec)\<rparr>
      in if \<not> claim_Valid request then Inl ErrInvalidWorkLease else Inr request)"

record WorkLease =
  wl_work :: PendingWork
  wl_owner :: string
  wl_token :: uint64
  wl_attempt :: uint32
  wl_claimedAt :: gotime
  wl_expiresAt :: gotime

type_synonym WorkLeaseSpec = WorkLease

definition zero_WorkLease :: WorkLease where
  "zero_WorkLease = \<lparr>wl_work = zero_PendingWork, wl_owner = [], wl_token = 0, wl_attempt = 0,
     wl_claimedAt = time_zero, wl_expiresAt = time_zero\<rparr>"

definition lease_Valid :: "WorkLease \<Rightarrow> bool" where
  "lease_Valid lease \<longleftrightarrow> work_valid (wl_work lease) \<and> instanceIDPattern (wl_owner lease) \<and>
     wl_token lease > 0 \<and> wl_attempt lease > 0 \<and> \<not> IsZero (wl_claimedAt lease) \<and>
     After (wl_expiresAt lease) (wl_claimedAt lease) \<and>
     Sub (wl_expiresAt lease) (wl_claimedAt lease) \<le> MaxWorkLeaseDuration \<and>
     \<not> After (wl_expiresAt lease) (pw_deadline (wl_work lease))"

definition NewWorkLease :: "WorkLeaseSpec \<Rightarrow> WorkLease result" where
  "NewWorkLease spec =
     (let lease = spec\<lparr>wl_claimedAt := canonicalTime (wl_claimedAt spec),
            wl_expiresAt := canonicalTime (wl_expiresAt spec),
            wl_work := (wl_work spec)\<lparr>pw_payload := cloneBytes (pw_payload (wl_work spec))\<rparr>\<rparr>
      in if \<not> lease_Valid lease then Inl ErrInvalidWorkLease else Inr lease)"

definition leaseIdentityValid :: "string \<Rightarrow> string \<Rightarrow> uint64 \<Rightarrow> bool" where
  "leaseIdentityValid workID owner token \<longleftrightarrow>
     instanceIDPattern workID \<and> instanceIDPattern owner \<and> token > 0"

record WorkLeaseRenewal =
  rn_workID :: string
  rn_owner :: string
  rn_token :: uint64
  rn_now :: gotime
  rn_extendBy :: duration

type_synonym WorkLeaseRenewalSpec = WorkLeaseRenewal

definition renewal_Valid :: "WorkLeaseRenewal \<Rightarrow> bool" where
  "renewal_Valid renewal \<longleftrightarrow>
     leaseIdentityValid (rn_workID renewal) (rn_owner renewal) (rn_token renewal) \<and>
     \<not> IsZero (rn_now renewal) \<and> sint (rn_extendBy renewal) > 0 \<and>
     sint (rn_extendBy renewal) \<le> MaxWorkLeaseDuration"

definition NewWorkLeaseRenewal :: "WorkLeaseRenewalSpec \<Rightarrow> WorkLeaseRenewal result" where
  "NewWorkLeaseRenewal spec =
     (let renewal = spec\<lparr>rn_now := canonicalTime (rn_now spec)\<rparr>
      in if \<not> renewal_Valid renewal then Inl ErrInvalidWorkLease else Inr renewal)"

record WorkCompletion =
  wc_workID :: string
  wc_owner :: string
  wc_token :: uint64
  wc_completedAt :: gotime

type_synonym WorkCompletionSpec = WorkCompletion

definition completion_Valid :: "WorkCompletion \<Rightarrow> bool" where
  "completion_Valid completion \<longleftrightarrow>
     leaseIdentityValid (wc_workID completion) (wc_owner completion) (wc_token completion) \<and>
     \<not> IsZero (wc_completedAt completion)"

definition NewWorkCompletion :: "WorkCompletionSpec \<Rightarrow> WorkCompletion result" where
  "NewWorkCompletion spec =
     (let completion = spec\<lparr>wc_completedAt := canonicalTime (wc_completedAt spec)\<rparr>
      in if \<not> completion_Valid completion then Inl ErrInvalidWorkLease else Inr completion)"

datatype WorkDisposition = WorkRetry | WorkDeadLetter | WorkDispositionInvalid

record WorkFailure =
  wf_workID :: string
  wf_owner :: string
  wf_token :: uint64
  wf_failedAt :: gotime
  wf_code :: string
  wf_disposition :: WorkDisposition
  wf_retryAt :: gotime

type_synonym WorkFailureSpec = WorkFailure

definition failure_Valid :: "WorkFailure \<Rightarrow> bool" where
  "failure_Valid failure =
     (if \<not> leaseIdentityValid (wf_workID failure) (wf_owner failure) (wf_token failure) \<or>
         IsZero (wf_failedAt failure) \<or> \<not> stableName (wf_code failure) then False
      else case wf_disposition failure of
        WorkRetry \<Rightarrow> After (wf_retryAt failure) (wf_failedAt failure)
      | WorkDeadLetter \<Rightarrow> IsZero (wf_retryAt failure)
      | WorkDispositionInvalid \<Rightarrow> False)"

definition NewWorkFailure :: "WorkFailureSpec \<Rightarrow> WorkFailure result" where
  "NewWorkFailure spec =
     (let failure = spec\<lparr>wf_failedAt := canonicalTime (wf_failedAt spec),
            wf_retryAt := canonicalTime (wf_retryAt spec)\<rparr>
      in if \<not> failure_Valid failure then Inl ErrInvalidWorkLease else Inr failure)"

section \<open>Facts about constructed values\<close>

definition lease_ok :: "WorkLease \<Rightarrow> bool" where
  "lease_ok l \<longleftrightarrow> lease_Valid l \<and> canonical (wl_claimedAt l) \<and> canonical (wl_expiresAt l) \<and>
     canonical (pw_availableAt (wl_work l)) \<and> canonical (pw_deadline (wl_work l))"

lemma NewWorkLease_ok:
  assumes "NewWorkLease spec = Inr l" "canonical (pw_availableAt (wl_work spec))"
    "canonical (pw_deadline (wl_work spec))"
  shows "lease_ok l"
  using assms by (auto simp: NewWorkLease_def Let_def lease_ok_def split: if_splits)

lemma NewPendingWork_canonical:
  "NewPendingWork spec = Inr w \<Longrightarrow> canonical (pw_availableAt w) \<and> canonical (pw_deadline w) \<and> work_valid w"
  by (auto simp: NewPendingWork_Inr)

text \<open>A lease lives inside its work's deadline and for at most fifteen minutes.\<close>

lemma lease_window:
  assumes "lease_ok l"
  shows "wall (wl_claimedAt l) < wall (wl_expiresAt l)"
    "wall (wl_expiresAt l) \<le> wall (pw_deadline (wl_work l))"
    "wall (wl_expiresAt l) - wall (wl_claimedAt l) \<le> MaxWorkLeaseDuration"
  using assms
  by (auto simp: lease_ok_def lease_Valid_def canonical_def After_wall Sub_def saturate64_def
      MaxWorkLeaseDuration_def split: if_splits)

lemma failure_Valid_cases:
  "failure_Valid f \<Longrightarrow> (wf_disposition f = WorkRetry \<and> After (wf_retryAt f) (wf_failedAt f)) \<or>
     (wf_disposition f = WorkDeadLetter \<and> IsZero (wf_retryAt f))"
  by (auto simp: failure_Valid_def split: if_splits WorkDisposition.splits)

end
