(* ===== verification/Effects.thy ===== *)
theory Effects
  imports Prelude "HOL-Library.State_Monad"
begin

text \<open>
  Code that talks to the outside: a computation of the state monad over a world \<open>'w\<close> that the
  borrowed collaborators (store, clock, handlers, contexts) read and change. A Go call that
  returns an error as well yields a \<open>result\<close>. The Hoare triples at the end carry the proofs
  about such code.
\<close>

section \<open>Contexts\<close>

text \<open>
  What the module uses of a \<open>context.Context\<close>: its error, its deadline and the clock, as they are
  when the context is looked at. A context value is the observation itself.
\<close>

record Context =
  cx_err :: "go_error option"
  cx_deadline :: "gotime option"
  cx_now :: gotime

type_synonym 'w ctx = "('w, Context) state"

text \<open>
  \<open>context.WithDeadline\<close>: an earlier deadline of the parent stays; a deadline that has passed
  cancels the new context at once.
\<close>

definition WithDeadline :: "Context \<Rightarrow> gotime \<Rightarrow> Context" where
  "WithDeadline ctx deadline =
     (let keep = (case cx_deadline ctx of None \<Rightarrow> False | Some d \<Rightarrow> Before d deadline);
          child = (if keep then ctx else ctx\<lparr>cx_deadline := Some deadline\<rparr>)
      in if cx_err ctx \<noteq> None \<or> keep \<or> After deadline (cx_now ctx) then child
         else child\<lparr>cx_err := Some ContextDeadlineExceeded\<rparr>)"

lemma WithDeadline_err: "cx_err (WithDeadline c d) = None \<Longrightarrow> cx_err c = None"
  by (auto simp: WithDeadline_def Let_def split: if_splits)

section \<open>Calls that may fail\<close>

text \<open>
  \<open>v, err := m; if err != nil { return h(err) }; f(v)\<close>. The Go code nearly always returns the
  error itself or a sentinel of its own component.
\<close>

definition check :: "('w, 'a result) state \<Rightarrow> (go_error \<Rightarrow> ('w, 'b) state) \<Rightarrow>
    ('a \<Rightarrow> ('w, 'b) state) \<Rightarrow> ('w, 'b) state" where
  "check m h f = do { r \<leftarrow> m; case r of Inl e \<Rightarrow> h e | Inr v \<Rightarrow> f v }"

definition fails :: "go_error \<Rightarrow> ('w, 'a result) state" where
  "fails e = State_Monad.return (Inl e)"

definition gives :: "'a \<Rightarrow> ('w, 'a result) state" where
  "gives v = State_Monad.return (Inr v)"

lemma run_fails [simp]: "run_state (fails e) w = (Inl e, w)"
  by (simp add: fails_def)

lemma run_gives [simp]: "run_state (gives v) w = (Inr v, w)"
  by (simp add: gives_def)

lemma run_check:
  "run_state (check m h f) w = (case run_state m w of
     (Inl e, w') \<Rightarrow> run_state (h e) w' | (Inr v, w') \<Rightarrow> run_state (f v) w')"
  by (auto simp: check_def split: prod.splits sum.splits)

section \<open>Triples\<close>

definition triple :: "('w \<Rightarrow> bool) \<Rightarrow> ('w, 'a) state \<Rightarrow> ('a \<Rightarrow> 'w \<Rightarrow> bool) \<Rightarrow> bool" where
  "triple P m Q \<longleftrightarrow> (\<forall>w a w'. P w \<longrightarrow> run_state m w = (a, w') \<longrightarrow> Q a w')"

lemma tripleI: "(\<And>w a w'. P w \<Longrightarrow> run_state m w = (a, w') \<Longrightarrow> Q a w') \<Longrightarrow> triple P m Q"
  by (simp add: triple_def)

lemma tripleD: "triple P m Q \<Longrightarrow> P w \<Longrightarrow> run_state m w = (a, w') \<Longrightarrow> Q a w'"
  by (simp add: triple_def)

lemma triple_return [simp]: "triple P (State_Monad.return a) Q \<longleftrightarrow> (\<forall>w. P w \<longrightarrow> Q a w)"
  by (simp add: triple_def)

lemma triple_fails [simp]: "triple P (fails e) Q \<longleftrightarrow> (\<forall>w. P w \<longrightarrow> Q (Inl e) w)"
  by (simp add: triple_def)

lemma triple_gives [simp]: "triple P (gives v) Q \<longleftrightarrow> (\<forall>w. P w \<longrightarrow> Q (Inr v) w)"
  by (simp add: triple_def)

lemma triple_bind:
  assumes "triple P m R" "\<And>a. triple (R a) (f a) Q"
  shows "triple P (State_Monad.bind m f) Q"
  using assms by (fastforce simp: triple_def split: prod.splits)

lemma triple_check:
  assumes "triple P m R" "\<And>e. triple (R (Inl e)) (h e) Q" "\<And>v. triple (R (Inr v)) (f v) Q"
  shows "triple P (check m h f) Q"
  unfolding check_def using assms(1)
  by (rule triple_bind) (use assms(2,3) in \<open>auto split: sum.split\<close>)

lemma triple_weaken:
  assumes "triple P m Q" "\<And>w. P' w \<Longrightarrow> P w" "\<And>a w. Q a w \<Longrightarrow> Q' a w"
  shows "triple P' m Q'"
  using assms unfolding triple_def by blast

lemma triple_post: "triple P m Q \<Longrightarrow> (\<And>a w. Q a w \<Longrightarrow> Q' a w) \<Longrightarrow> triple P m Q'"
  by (rule triple_weaken)

lemma triple_pure: "(\<And>w. P w \<Longrightarrow> b) \<Longrightarrow> (b \<Longrightarrow> triple P m Q) \<Longrightarrow> triple P m Q"
  unfolding triple_def by blast

lemma triple_ex: "(\<And>x. triple (P x) m Q) \<Longrightarrow> triple (\<lambda>w. \<exists>x. P x w) m Q"
  unfolding triple_def by blast

lemma triple_conj: "(b \<Longrightarrow> triple P m Q) \<Longrightarrow> triple (\<lambda>w. b \<and> P w) m Q"
  unfolding triple_def by blast

lemma triple_fixed: "(\<And>w. P w \<Longrightarrow> triple (\<lambda>v. v = w) m Q) \<Longrightarrow> triple P m Q"
  by (simp add: triple_def)

end
