(* ===== verification/Activity.thy ===== *)
theory Activity
  imports Work Effects
begin

text \<open>
  Activity requests, outcomes and the compiled activity registry (activity.go). \<open>None\<close> is the nil
  handler and the nil context.
\<close>

record ActivityRequest =
  ar_instanceID :: string
  ar_definition :: DefinitionReference
  ar_stepName :: string
  ar_attempt :: uint32
  ar_maxAttempts :: uint32
  ar_idempotencyKey :: string
  ar_startedAt :: gotime
  ar_deadline :: gotime
  ar_input :: bytes
  ar_inputLimit :: uint32
  ar_resultLimit :: uint32
  ar_tenantID :: string
  ar_correlationID :: string

type_synonym ActivityRequestSpec = ActivityRequest

definition request_valid :: "ActivityRequest \<Rightarrow> bool" where
  "request_valid request \<longleftrightarrow> instanceIDPattern (ar_instanceID request) \<and>
     reference_valid (ar_definition request) \<and> stableName (ar_stepName request) \<and>
     ar_attempt request > 0 \<and> ar_attempt request \<le> ar_maxAttempts request \<and>
     instanceIDPattern (ar_idempotencyKey request) \<and> \<not> IsZero (ar_startedAt request) \<and>
     After (ar_deadline request) (ar_startedAt request) \<and>
     validPayloadLimit (ar_inputLimit request) \<and> validPayloadLimit (ar_resultLimit request) \<and>
     blen (ar_input request) \<le> unat (ar_inputLimit request) \<and>
     optionalMetadataValid (ar_tenantID request) \<and> optionalMetadataValid (ar_correlationID request)"

definition NewActivityRequest :: "ActivityRequestSpec \<Rightarrow> ActivityRequest result" where
  "NewActivityRequest spec =
     (let request = spec\<lparr>ar_startedAt := canonicalTime (ar_startedAt spec),
            ar_deadline := canonicalTime (ar_deadline spec)\<rparr>
      in if \<not> request_valid request then Inl ErrInvalidActivityRequest
         else Inr (request\<lparr>ar_input := cloneBytes (ar_input request)\<rparr>))"

datatype ActivityOutcomeKind = ActivitySucceeded | ActivityFailed | ActivityUnknown | ActivityOutcomeInvalid

record ActivityOutcome =
  ao_kind :: ActivityOutcomeKind
  ao_code :: string
  ao_retryable :: bool
  ao_data :: bytes

type_synonym ActivityOutcomeSpec = ActivityOutcome

definition outcome_valid :: "ActivityOutcome \<Rightarrow> bool" where
  "outcome_valid outcome =
     (if blen (ao_data outcome) > MaxPayloadBytes then False
      else case ao_kind outcome of
        ActivitySucceeded \<Rightarrow> ao_code outcome = [] \<and> \<not> ao_retryable outcome
      | ActivityFailed \<Rightarrow> stableName (ao_code outcome)
      | ActivityUnknown \<Rightarrow> stableName (ao_code outcome) \<and> \<not> ao_retryable outcome
      | ActivityOutcomeInvalid \<Rightarrow> False)"

definition NewActivityOutcome :: "ActivityOutcomeSpec \<Rightarrow> ActivityOutcome result" where
  "NewActivityOutcome spec =
     (if \<not> outcome_valid spec then Inl ErrInvalidActivityOutcome
      else Inr (spec\<lparr>ao_data := cloneBytes (ao_data spec)\<rparr>))"

section \<open>Execution\<close>

text \<open>
  A handler is code of the application, a parameter of the model: any computation over the world
  from the context and the request that returns an outcome (\<open>Inr\<close>) or panics (\<open>Inl\<close>). \<open>Execute\<close> looks at
  the caller's context twice: for its error, and when it derives the attempt's context from it.
\<close>

type_synonym 'w ActivityHandler = "Context \<Rightarrow> ActivityRequest \<Rightarrow> ('w, string + ActivityOutcome) state"

record 'w Activity =
  ac_name :: string
  ac_handler :: "'w ActivityHandler option"

definition NewActivity :: "string \<Rightarrow> 'w ActivityHandler option \<Rightarrow> 'w Activity result" where
  "NewActivity name handler =
     (if \<not> stableName name \<or> Option.is_none handler then Inl ErrInvalidActivity
      else Inr \<lparr>ac_name = name, ac_handler = handler\<rparr>)"

definition Execute ::
  "'w Activity \<Rightarrow> 'w ctx option \<Rightarrow> ActivityRequest \<Rightarrow> ('w, ActivityOutcome result) state" where
  "Execute activity ctx request = (case ac_handler activity of
     None \<Rightarrow> fails ErrInvalidActivity
   | Some handler \<Rightarrow>
       (case ctx of
          None \<Rightarrow> fails ErrInvalidActivityRequest
        | Some observe \<Rightarrow>
            if \<not> request_valid request then fails ErrInvalidActivityRequest
            else do {
              c \<leftarrow> observe;
              case cx_err c of
                Some err \<Rightarrow> fails err
              | None \<Rightarrow> do {
                  d \<leftarrow> observe;
                  let attemptContext = WithDeadline d (ar_deadline request);
                  case cx_err attemptContext of
                    Some err \<Rightarrow> fails err
                  | None \<Rightarrow> do {
                      answer \<leftarrow> handler attemptContext request;
                      case answer of
                        Inl p \<Rightarrow> fails (GoPanic p)
                      | Inr outcome \<Rightarrow>
                          if \<not> outcome_valid outcome \<or>
                             blen (ao_data outcome) > unat (ar_resultLimit request)
                          then fails ErrInvalidActivityOutcome else gives outcome
                    }
                }
            }))"

section \<open>Registry\<close>

type_synonym 'w ActivityRegistry = "string \<rightharpoonup> 'w Activity"

fun compile_activities :: "'w ActivityRegistry \<Rightarrow> 'w Activity list \<Rightarrow> 'w ActivityRegistry result" where
  "compile_activities registry [] = Inr registry"
| "compile_activities registry (activity # activities) =
     (if Option.is_none (ac_handler activity) then Inl ErrInvalidActivity
      else if has_key registry (ac_name activity) then Inl ErrDuplicateActivity
      else compile_activities (registry(ac_name activity \<mapsto> activity)) activities)"

definition CompileActivities :: "'w Activity list \<Rightarrow> 'w ActivityRegistry result" where
  "CompileActivities activities = compile_activities Map.empty activities"

definition ResolveActivity :: "'w ActivityRegistry option \<Rightarrow> string \<Rightarrow> 'w Activity result" where
  "ResolveActivity registry name = (case registry of
     None \<Rightarrow> Inl ErrActivityNotFound
   | Some r \<Rightarrow> (case r name of None \<Rightarrow> Inl ErrActivityNotFound | Some activity \<Rightarrow> Inr activity))"

section \<open>Behaviour\<close>

text \<open>
  The handler is reached only with a valid request, a live context and an open deadline, and what
  it returns is passed on only when it is a valid outcome within the result limit.
\<close>

lemma Execute_Inr:
  "run_state (Execute activity ctx request) w = (Inr outcome, w') \<longleftrightarrow>
     (\<exists>handler observe c d w1 w2. ac_handler activity = Some handler \<and> ctx = Some observe \<and>
        request_valid request \<and> run_state observe w = (c, w1) \<and> cx_err c = None \<and>
        run_state observe w1 = (d, w2) \<and> cx_err (WithDeadline d (ar_deadline request)) = None \<and>
        run_state (handler (WithDeadline d (ar_deadline request)) request) w2 = (Inr outcome, w') \<and>
        outcome_valid outcome \<and> blen (ao_data outcome) \<le> unat (ar_resultLimit request))"
  by (auto simp: Execute_def Let_def split: option.splits if_splits prod.splits sum.splits)

lemma compile_activities_Inr:
  "compile_activities registry as = Inr r \<Longrightarrow>
     distinct (map ac_name as) \<and> (\<forall>a \<in> set as. registry (ac_name a) = None \<and> r (ac_name a) = Some a) \<and>
     (\<forall>n. n \<notin> ac_name ` set as \<longrightarrow> r n = registry n)"
proof (induction as arbitrary: registry)
  case Nil
  then show ?case by simp
next
  case (Cons a as)
  from Cons.prems have a: "registry (ac_name a) = None"
    and rec: "compile_activities (registry(ac_name a \<mapsto> a)) as = Inr r"
    by (auto simp: has_key_def split: if_splits)
  have ih: "distinct (map ac_name as)"
      "\<forall>x \<in> set as. (registry(ac_name a \<mapsto> a)) (ac_name x) = None \<and> r (ac_name x) = Some x"
      "\<forall>n. n \<notin> ac_name ` set as \<longrightarrow> r n = (registry(ac_name a \<mapsto> a)) n"
    using Cons.IH [OF rec] by blast+
  have fresh: "ac_name a \<notin> ac_name ` set as"
  proof
    assume "ac_name a \<in> ac_name ` set as"
    then obtain x where "x \<in> set as" "ac_name x = ac_name a" by auto
    with bspec [OF ih(2)] show False by fastforce
  qed
  have old: "registry (ac_name x) = None \<and> r (ac_name x) = Some x" if "x \<in> set as" for x
    using bspec [OF ih(2) that] by (simp split: if_splits)
  have "r (ac_name a) = Some a" using ih(3) fresh by simp
  moreover have "\<forall>n. n \<notin> ac_name ` set (a # as) \<longrightarrow> r n = registry n" using ih(3) by simp
  ultimately show ?case using ih(1) fresh a old by simp
qed

end
