(* ===== verification/Plan.thy ===== *)
theory Plan
  imports Work
begin

text \<open>
  The interface of a transition constructor: the plan it returns belongs to the instance it was
  given, and the plan's events replay on that instance. The consequence for the stored history,
  that an accepted plan extends a replayable history to a replayable history, is proved once.
\<close>

lemma NewHistoryEvent_fields:
  assumes "NewHistoryEvent spec = Inr e"
  shows "event_ok e" "ev_sequence e = hs_Sequence spec" "ev_instanceID e = hs_InstanceID spec"
    "ev_kind e = hs_Kind spec" "ev_occurredAt e = canonicalTime (hs_OccurredAt spec)"
    "ev_definition e = hs_Definition spec" "ev_successorID e = hs_SuccessorID spec"
    "ev_stepName e = hs_StepName spec" "ev_attempt e = hs_Attempt spec"
    "ev_idempotencyKey e = hs_IdempotencyKey spec" "ev_dueAt e = canonicalTime (hs_DueAt spec)"
    "ev_code e = hs_Code spec" "ev_retryable e = hs_Retryable spec" "ev_data e = hs_Data spec"
proof -
  show "event_ok e" using assms event_ok_iff by blast
  from assms have e: "event_spec e = spec\<lparr>hs_OccurredAt := canonicalTime (hs_OccurredAt spec),
      hs_DueAt := canonicalTime (hs_DueAt spec)\<rparr>"
    by (simp add: NewHistoryEvent_Inr)
  show "ev_sequence e = hs_Sequence spec" "ev_instanceID e = hs_InstanceID spec"
    "ev_kind e = hs_Kind spec" "ev_occurredAt e = canonicalTime (hs_OccurredAt spec)"
    "ev_definition e = hs_Definition spec" "ev_successorID e = hs_SuccessorID spec"
    "ev_stepName e = hs_StepName spec" "ev_attempt e = hs_Attempt spec"
    "ev_idempotencyKey e = hs_IdempotencyKey spec" "ev_dueAt e = canonicalTime (hs_DueAt spec)"
    "ev_code e = hs_Code spec" "ev_retryable e = hs_Retryable spec" "ev_data e = hs_Data spec"
    using e by (cases spec; cases e; simp add: event_spec_def)+
qed

definition plan_for :: "Instance \<Rightarrow> Transition \<Rightarrow> bool" where
  "plan_for i t \<longleftrightarrow> tr_instanceID t = in_id i \<and> tr_expectedSequence t = in_sequence i \<and>
     tr_definition t = in_definition i \<and> transition_valid t \<and>
     tr_fingerprint t = transitionFingerprint t \<and> list_all event_ok (tr_events t) \<and>
     list_all work_valid (tr_work t)"

text \<open>A registry that \<open>CompileRegistry\<close> returned, and an instance replayed from it.\<close>

definition compiled :: "Registry option \<Rightarrow> bool" where
  "compiled registry \<longleftrightarrow> (case registry of None \<Rightarrow> False | Some r \<Rightarrow> registry_ok r)"

definition live :: "Registry option \<Rightarrow> Instance \<Rightarrow> Definition \<Rightarrow> bool" where
  "live registry i d \<longleftrightarrow> compiled registry \<and> resolved registry (in_definition i) = d \<and> in_sequence i \<noteq> 0 \<and>
     in_pendingOperator i = OperatorNone \<and> canonical (in_updatedAt i)"

lemma Replay_live:
  assumes "Replay registry es = Inr i" "list_all event_ok es" "resolved registry (in_definition i) = d"
    "compiled registry"
  shows "live registry i d"
proof -
  have r: "reach registry es i" "in_pendingOperator i = OperatorNone"
    using assms(1) by (simp_all add: Replay_iff)
  have "es \<noteq> []" using r(1) by (simp add: reach_iff)
  then have "event_ok (last es)" using assms(2) by (simp add: list_all_iff)
  then have "canonical (in_updatedAt i)"
    using reach_last [OF r(1)] by (simp add: event_ok_def)
  then show ?thesis using r reach_live [OF r(1) assms(2)] assms(3,4) by (simp add: live_def)
qed

lemma single_event_replay:
  assumes "live registry i d" "event_ok e" "ev_instanceID e = in_id i" "ev_sequence e = in_sequence i + 1"
    "wall (in_updatedAt i) \<le> wall (ev_occurredAt e)" "\<not> terminalStatus (in_status i)"
    "replay_step registry i e k" "ev_kind e \<noteq> EventOperatorCommandRecorded"
  shows "apply_all registry i [e] = Inr (finish_event i e k)"
    "in_pendingOperator (finish_event i e k) = OperatorNone"
proof -
  have i: "in_sequence i \<noteq> 0" "in_pendingOperator i = OperatorNone" "canonical (in_updatedAt i)"
    using assms(1) by (simp_all add: live_def)
  have "apply_event registry i e = Inr (finish_event i e k)"
    using assms i apply_kind_complete [OF assms(7)]
    by (auto simp: apply_event_Inr [OF i(1)] Before_wall canonical_def)
  then show "apply_all registry i [e] = Inr (finish_event i e k)" by simp
  show "in_pendingOperator (finish_event i e k) = OperatorNone"
    using replay_step_operator [OF assms(7)] assms(8) i(2) by (auto simp: audit_record_def)
qed

lemma canonical_before: "canonical u \<Longrightarrow> Before (canonicalTime t) u \<longleftrightarrow> Before t u"
  by (simp add: Before_wall canonical_def)

lemma not_before_wall:
  "canonical u \<Longrightarrow> \<not> Before t u \<Longrightarrow> wall u \<le> wall t"
  by (simp add: Before_wall canonical_def not_less)

lemma single_plan_replays:
  assumes "live registry i d" "NewHistoryEvent spec = Inr e" "hs_InstanceID spec = in_id i"
    "hs_Sequence spec = in_sequence i + 1" "\<not> Before (hs_OccurredAt spec) (in_updatedAt i)"
    "\<not> terminalStatus (in_status i)" "hs_Kind spec \<noteq> EventOperatorCommandRecorded"
    "replay_step registry i e k" "tr_events t = [e]"
  shows "\<exists>j. apply_all registry i (tr_events t) = Inr j \<and> in_pendingOperator j = OperatorNone"
proof -
  note f = NewHistoryEvent_fields [OF assms(2)]
  have "wall (in_updatedAt i) \<le> wall (ev_occurredAt e)"
    using not_before_wall [of "in_updatedAt i"] assms(1,5) by (simp add: f live_def)
  from single_event_replay [OF assms(1) f(1) _ _ this assms(6,8)] f assms show ?thesis
    by (auto simp del: apply_all.simps)
qed

locale plan_constructor =
  fixes construct :: "'s \<Rightarrow> Transition result" and inst :: "'s \<Rightarrow> Instance"
    and defn :: "'s \<Rightarrow> Definition" and admissible :: "'s \<Rightarrow> bool"
  assumes plan_law: "construct s = Inr t \<Longrightarrow> admissible s \<Longrightarrow> plan_for (inst s) t"
    and replay_law: "construct s = Inr t \<Longrightarrow> admissible s \<Longrightarrow> live registry (inst s) (defn s) \<Longrightarrow>
      \<exists>j. apply_all registry (inst s) (tr_events t) = Inr j \<and> in_pendingOperator j = OperatorNone"
begin

lemma extends_history:
  assumes "construct s = Inr t" "admissible s" "Replay registry es = Inr (inst s)" "list_all event_ok es"
    "resolved registry (in_definition (inst s)) = defn s" "compiled registry"
  shows "\<exists>j. Replay registry (es @ tr_events t) = Inr j \<and>
    unat (in_sequence j) = length es + length (tr_events t)"
proof -
  from replay_law [OF assms(1,2) Replay_live [OF assms(3-6)]] obtain j where
      j: "apply_all registry (inst s) (tr_events t) = Inr j" "in_pendingOperator j = OperatorNone"
    by blast
  have base: "apply_all registry zero_Instance es = Inr (inst s)" "es \<noteq> []"
    using assms(3) by (simp_all add: Replay_iff reach_iff)
  have r: "Replay registry (es @ tr_events t) = Inr j"
    using j base by (simp add: Replay_iff reach_iff apply_all_append)
  moreover have "list_all event_ok (es @ tr_events t)"
    using assms(4) plan_law [OF assms(1,2)] by (simp add: plan_for_def)
  ultimately show ?thesis
    using reach_positions [of registry "es @ tr_events t" j] by (auto simp: Replay_iff)
qed

end

lemma plan_for_single:
  assumes "NewTransition \<lparr>ts_ID = n, ts_InstanceID = in_id i, ts_ExpectedSequence = in_sequence i,
     ts_Definition = in_definition i, ts_Events = [e], ts_Work = ws\<rparr> = Inr t" "event_ok e" "list_all work_valid ws"
  shows "plan_for i t" "tr_events t = [e]" "tr_work t = ws" "tr_id t = n"
  using assms by (auto simp: plan_for_def NewTransition_Inr)

end
