(* ===== verification/Activity_Transition.thy ===== *)
theory Activity_Transition
  imports Activity Plan
begin

text \<open>
  Activity transition constructors (activity\_transition.go): the dispatch document, scheduling,
  attempt start, attempt outcome and retry. Every error branch of a constructor returns
  \<open>ErrInvalidActivityTransition\<close>.
\<close>

section \<open>Dispatch documents\<close>

definition MaxActivityDispatchBytes :: nat where "MaxActivityDispatchBytes = 2 ^ 10"

record ActivityDispatch =
  ad_stepName :: string
  ad_attempt :: uint32
  ad_idempotencyKey :: string

definition zero_dispatch :: ActivityDispatch where
  "zero_dispatch = \<lparr>ad_stepName = [], ad_attempt = 0, ad_idempotencyKey = []\<rparr>"

definition dispatch_json :: "ActivityDispatch \<Rightarrow> json" where
  "dispatch_json d = JObj [(''step_name'', JStr (ad_stepName d)), (''attempt'', j_uint (ad_attempt d)),
     (''idempotency_key'', JStr (ad_idempotencyKey d))]"

definition encodeActivityDispatch :: "string \<Rightarrow> uint32 \<Rightarrow> string \<Rightarrow> bytes" where
  "encodeActivityDispatch stepName attempt idempotencyKey =
     Some (marshal (Some (dispatch_json \<lparr>ad_stepName = stepName, ad_attempt = attempt,
       ad_idempotencyKey = idempotencyKey\<rparr>)))"

definition dispatch_member :: "ActivityDispatch \<Rightarrow> string \<times> json \<Rightarrow> ActivityDispatch option" where
  "dispatch_member d m = (case match_field [''step_name'', ''attempt'', ''idempotency_key''] (fst m) of
     None \<Rightarrow> None
   | Some field \<Rightarrow>
       if field = ''step_name'' then
         (case read_string (ad_stepName d) (snd m) of
            None \<Rightarrow> None | Some s \<Rightarrow> Some (d\<lparr>ad_stepName := s\<rparr>))
       else if field = ''attempt'' then
         (case read_uint (ad_attempt d) (snd m) of
            None \<Rightarrow> None | Some w \<Rightarrow> Some (d\<lparr>ad_attempt := w\<rparr>))
       else (case read_string (ad_idempotencyKey d) (snd m) of
            None \<Rightarrow> None | Some s \<Rightarrow> Some (d\<lparr>ad_idempotencyKey := s\<rparr>)))"

definition DecodeActivityDispatch :: "bytes \<Rightarrow> ActivityDispatch result" where
  "DecodeActivityDispatch payload =
     (if blen payload = 0 then Inl ErrInvalidActivityTransition
      else if blen payload > MaxActivityDispatchBytes then Inl ErrInvalidActivityTransition
      else case decode_struct dispatch_member zero_dispatch (bstr payload) of
        None \<Rightarrow> Inl ErrInvalidActivityTransition
      | Some dispatch \<Rightarrow>
          if \<not> stableName (ad_stepName dispatch) then Inl ErrInvalidActivityTransition
          else if ad_attempt dispatch = 0 then Inl ErrInvalidActivityTransition
          else if \<not> instanceIDPattern (ad_idempotencyKey dispatch)
          then Inl ErrInvalidActivityTransition
          else Inr dispatch)"

section \<open>Constructors\<close>

record ActivityScheduleSpec =
  as_TransitionID :: string
  as_WorkID :: string
  as_Instance :: Instance
  as_Definition :: Definition
  as_StepName :: string
  as_Attempt :: uint32
  as_IdempotencyKey :: string
  as_ScheduledAt :: gotime
  as_Deadline :: gotime
  as_Input :: bytes
  as_TenantID :: string
  as_CorrelationID :: string

definition NewActivitySchedule :: "ActivityScheduleSpec \<Rightarrow> Transition result" where
  "NewActivitySchedule spec =
     (let inst = as_Instance spec in
      case definitionActivityStep (as_Definition spec) (as_StepName spec) of
        None \<Rightarrow> Inl ErrInvalidActivityTransition
      | Some step \<Rightarrow>
          if as_Attempt spec \<noteq> 1 \<or> blen (as_Input spec) > unat (st_InputLimit step) \<or>
             \<not> instanceIDPattern (as_IdempotencyKey spec) \<or> in_status inst \<noteq> StatusRunning \<or>
             def_Reference (as_Definition spec) \<noteq> in_definition inst \<or>
             has_key (in_activities inst) (as_StepName spec) \<or>
             Before (as_ScheduledAt spec) (in_updatedAt inst)
          then Inl ErrInvalidActivityTransition
          else
            let payload = encodeActivityDispatch (as_StepName spec) (as_Attempt spec)
                            (as_IdempotencyKey spec)
            in case NewHistoryEvent (zero_HistoryEventSpec\<lparr>hs_Sequence := in_sequence inst + 1,
                      hs_InstanceID := in_id inst, hs_Kind := EventActivityScheduled,
                      hs_OccurredAt := as_ScheduledAt spec, hs_StepName := as_StepName spec,
                      hs_Data := as_Input spec\<rparr>) of
                 Inl _ \<Rightarrow> Inl ErrInvalidActivityTransition
               | Inr event \<Rightarrow>
                   (case NewPendingWork \<lparr>ws_ID = as_WorkID spec, ws_Kind = WorkActivity,
                            ws_InstanceID = in_id inst, ws_Sequence = ev_sequence event,
                            ws_AvailableAt = as_ScheduledAt spec, ws_Deadline = as_Deadline spec,
                            ws_Payload = payload, ws_TenantID = as_TenantID spec,
                            ws_CorrelationID = as_CorrelationID spec\<rparr> of
                      Inl _ \<Rightarrow> Inl ErrInvalidActivityTransition
                    | Inr work \<Rightarrow>
                        (case NewTransition \<lparr>ts_ID = as_TransitionID spec,
                                 ts_InstanceID = in_id inst, ts_ExpectedSequence = in_sequence inst,
                                 ts_Definition = in_definition inst, ts_Events = [event],
                                 ts_Work = [work]\<rparr> of
                           Inl _ \<Rightarrow> Inl ErrInvalidActivityTransition
                         | Inr transition \<Rightarrow> Inr transition)))"

record ActivityAttemptStartSpec =
  ss_TransitionID :: string
  ss_Lease :: WorkLease
  ss_Instance :: Instance
  ss_Definition :: Definition
  ss_StartedAt :: gotime

definition NewActivityAttemptStart :: "ActivityAttemptStartSpec \<Rightarrow> Transition result" where
  "NewActivityAttemptStart spec =
     (let lease = ss_Lease spec; work = wl_work lease; inst = ss_Instance spec in
      if \<not> lease_Valid lease \<or> pw_kind work \<noteq> WorkActivity then Inl ErrInvalidActivityTransition
      else case DecodeActivityDispatch (pw_payload work) of
        Inl _ \<Rightarrow> Inl ErrInvalidActivityTransition
      | Inr dispatch \<Rightarrow>
          if in_sequence inst < pw_sequence work \<or> pw_instanceID work \<noteq> in_id inst
          then Inl ErrInvalidActivityTransition
          else case definitionActivityStep (ss_Definition spec) (ad_stepName dispatch) of
            None \<Rightarrow> Inl ErrInvalidActivityTransition
          | Some step \<Rightarrow>
              if ad_attempt dispatch > rp_MaxAttempts (st_Retry step)
              then Inl ErrInvalidActivityTransition
              else case in_activities inst (ad_stepName dispatch) of
                None \<Rightarrow> Inl ErrInvalidActivityTransition
              | Some progress \<Rightarrow>
                  let startedAt = canonicalTime (ss_StartedAt spec);
                      dueAt = canonicalTime (Add startedAt (st_Timeout step))
                  in if def_Reference (ss_Definition spec) \<noteq> in_definition inst \<or>
                        in_status inst \<noteq> StatusRunning \<or>
                        (ap_status progress \<noteq> ActivityProgressReady \<and>
                         ap_status progress \<noteq> ActivityProgressRetryWaiting) \<or>
                        ad_attempt dispatch \<noteq> ap_attempt progress + 1 \<or>
                        Before startedAt (pw_availableAt work) \<or>
                        \<not> Before startedAt (pw_deadline work) \<or>
                        After dueAt (pw_deadline work) \<or>
                        Before startedAt (wl_claimedAt lease) \<or>
                        \<not> Before startedAt (wl_expiresAt lease) \<or>
                        Before startedAt (in_updatedAt inst) \<or>
                        (ap_status progress = ActivityProgressRetryWaiting \<and>
                         Before startedAt (ap_dueAt progress))
                     then Inl ErrInvalidActivityTransition
                     else case NewHistoryEvent (zero_HistoryEventSpec\<lparr>
                              hs_Sequence := in_sequence inst + 1,
                              hs_InstanceID := pw_instanceID work,
                              hs_Kind := EventActivityAttemptStarted, hs_OccurredAt := startedAt,
                              hs_StepName := ad_stepName dispatch, hs_Attempt := ad_attempt dispatch,
                              hs_IdempotencyKey := ad_idempotencyKey dispatch, hs_DueAt := dueAt\<rparr>) of
                         Inl _ \<Rightarrow> Inl ErrInvalidActivityTransition
                       | Inr event \<Rightarrow>
                           (case NewTransition \<lparr>ts_ID = ss_TransitionID spec,
                                    ts_InstanceID = pw_instanceID work,
                                    ts_ExpectedSequence = in_sequence inst,
                                    ts_Definition = in_definition inst, ts_Events = [event],
                                    ts_Work = []\<rparr> of
                              Inl _ \<Rightarrow> Inl ErrInvalidActivityTransition
                            | Inr transition \<Rightarrow> Inr transition))"

fun activityOutcomeEventKind :: "ActivityOutcomeKind \<Rightarrow> EventKind" where
  "activityOutcomeEventKind ActivitySucceeded = EventActivityAttemptSucceeded"
| "activityOutcomeEventKind ActivityFailed = EventActivityAttemptFailed"
| "activityOutcomeEventKind ActivityUnknown = EventActivityAttemptUnknown"
| "activityOutcomeEventKind ActivityOutcomeInvalid = EventKindInvalid"

record ActivityAttemptOutcomeSpec =
  os_TransitionID :: string
  os_Instance :: Instance
  os_Definition :: Definition
  os_StepName :: string
  os_Attempt :: uint32
  os_OccurredAt :: gotime
  os_Outcome :: ActivityOutcome

definition NewActivityAttemptOutcome :: "ActivityAttemptOutcomeSpec \<Rightarrow> Transition result" where
  "NewActivityAttemptOutcome spec =
     (let inst = os_Instance spec; outcome = os_Outcome spec in
      case definitionActivityStep (os_Definition spec) (os_StepName spec) of
        None \<Rightarrow> Inl ErrInvalidActivityTransition
      | Some step \<Rightarrow>
          (case in_activities inst (os_StepName spec) of
             None \<Rightarrow> Inl ErrInvalidActivityTransition
           | Some progress \<Rightarrow>
               if def_Reference (os_Definition spec) \<noteq> in_definition inst \<or>
                  ap_status progress \<noteq> ActivityProgressRunning \<or>
                  ap_attempt progress \<noteq> os_Attempt spec \<or> \<not> outcome_valid outcome \<or>
                  blen (ao_data outcome) > unat (st_ResultLimit step) \<or>
                  Before (os_OccurredAt spec) (in_updatedAt inst)
               then Inl ErrInvalidActivityTransition
               else case NewHistoryEvent (zero_HistoryEventSpec\<lparr>
                        hs_Sequence := in_sequence inst + 1, hs_InstanceID := in_id inst,
                        hs_Kind := activityOutcomeEventKind (ao_kind outcome),
                        hs_OccurredAt := os_OccurredAt spec, hs_StepName := os_StepName spec,
                        hs_Attempt := os_Attempt spec, hs_Code := ao_code outcome,
                        hs_Retryable := ao_retryable outcome, hs_Data := ao_data outcome\<rparr>) of
                   Inl _ \<Rightarrow> Inl ErrInvalidActivityTransition
                 | Inr event \<Rightarrow>
                     (case NewTransition \<lparr>ts_ID = os_TransitionID spec, ts_InstanceID = in_id inst,
                              ts_ExpectedSequence = in_sequence inst,
                              ts_Definition = in_definition inst, ts_Events = [event],
                              ts_Work = []\<rparr> of
                        Inl _ \<Rightarrow> Inl ErrInvalidActivityTransition
                      | Inr transition \<Rightarrow> Inr transition)))"

record ActivityRetrySpec =
  ay_TransitionID :: string
  ay_WorkID :: string
  ay_Instance :: Instance
  ay_Definition :: Definition
  ay_StepName :: string
  ay_IdempotencyKey :: string
  ay_ScheduledAt :: gotime
  ay_Deadline :: gotime
  ay_TenantID :: string
  ay_CorrelationID :: string

definition NewActivityRetry :: "ActivityRetrySpec \<Rightarrow> Transition result" where
  "NewActivityRetry spec =
     (let inst = ay_Instance spec in
      case definitionActivityStep (ay_Definition spec) (ay_StepName spec) of
        None \<Rightarrow> Inl ErrInvalidActivityTransition
      | Some step \<Rightarrow>
          (case in_activities inst (ay_StepName spec) of
             None \<Rightarrow> Inl ErrInvalidActivityTransition
           | Some progress \<Rightarrow>
               if def_Reference (ay_Definition spec) \<noteq> in_definition inst \<or>
                  ap_status progress \<noteq> ActivityProgressFailed \<or> \<not> ap_retryable progress \<or>
                  ap_attempt progress \<ge> rp_MaxAttempts (st_Retry step) \<or>
                  \<not> instanceIDPattern (ay_IdempotencyKey spec) \<or>
                  Before (ay_ScheduledAt spec) (in_updatedAt inst)
               then Inl ErrInvalidActivityTransition
               else
                 let dueAt = canonicalTime
                       (Add (ay_ScheduledAt spec) (retryDelay (st_Retry step) (ap_attempt progress)))
                 in case NewHistoryEvent (zero_HistoryEventSpec\<lparr>
                          hs_Sequence := in_sequence inst + 1, hs_InstanceID := in_id inst,
                          hs_Kind := EventActivityRetryScheduled,
                          hs_OccurredAt := ay_ScheduledAt spec, hs_StepName := ay_StepName spec,
                          hs_Attempt := ap_attempt progress, hs_DueAt := dueAt\<rparr>) of
                      Inl _ \<Rightarrow> Inl ErrInvalidActivityTransition
                    | Inr event \<Rightarrow>
                        (case NewPendingWork \<lparr>ws_ID = ay_WorkID spec, ws_Kind = WorkActivity,
                                 ws_InstanceID = in_id inst, ws_Sequence = ev_sequence event,
                                 ws_AvailableAt = dueAt, ws_Deadline = ay_Deadline spec,
                                 ws_Payload = encodeActivityDispatch (ay_StepName spec)
                                   (ap_attempt progress + 1) (ay_IdempotencyKey spec),
                                 ws_TenantID = ay_TenantID spec,
                                 ws_CorrelationID = ay_CorrelationID spec\<rparr> of
                           Inl _ \<Rightarrow> Inl ErrInvalidActivityTransition
                         | Inr work \<Rightarrow>
                             (case NewTransition \<lparr>ts_ID = ay_TransitionID spec,
                                      ts_InstanceID = in_id inst,
                                      ts_ExpectedSequence = in_sequence inst,
                                      ts_Definition = in_definition inst, ts_Events = [event],
                                      ts_Work = [work]\<rparr> of
                                Inl _ \<Rightarrow> Inl ErrInvalidActivityTransition
                              | Inr transition \<Rightarrow> Inr transition))))"

section \<open>Dispatch documents survive the JSON round trip\<close>

lemma dispatch_fold:
  "fold_members dispatch_member zero_dispatch
     [(''step_name'', JStr (ad_stepName d)), (''attempt'', j_uint (ad_attempt d)),
      (''idempotency_key'', JStr (ad_idempotencyKey d))] = Some d"
  by (cases d) (simp add: dispatch_member_def match_field_def zero_dispatch_def)

lemma json_chars_dispatch_keys:
  "json_chars ''step_name'' = ''step_name''" "json_chars ''attempt'' = ''attempt''"
  "json_chars ''idempotency_key'' = ''idempotency_key''"
  by (rule json_chars_plain, simp add: id_char_defs)+

lemma dec_nat_length: "n < 10 ^ k \<Longrightarrow> 0 < k \<Longrightarrow> length (dec_nat n) \<le> k"
proof (induction k arbitrary: n)
  case 0
  then show ?case by simp
next
  case (Suc k)
  show ?case
  proof (cases "n < 10")
    case True
    then show ?thesis by (subst dec_nat.simps) simp
  next
    case False
    then have k: "0 < k" using Suc.prems(1) by (cases k) auto
    have "n div 10 < 10 ^ k" using Suc.prems(1) by (simp add: less_mult_imp_div_less mult.commute)
    then have "length (dec_nat (n div 10)) \<le> k" using Suc.IH k by blast
    then show ?thesis using False by (subst dec_nat.simps) simp
  qed
qed

lemma dispatch_length:
  assumes "plain n" "plain key"
  shows "blen (encodeActivityDispatch n a key) \<le> 64 + length n + length key"
proof -
  have "unat a < 2 ^ 32" using unsigned_less [of a] by simp
  then have "length (dec_nat (unat a)) \<le> 10" by (intro dec_nat_length) simp_all
  then show ?thesis
    using assms by (simp add: encodeActivityDispatch_def marshal_def dispatch_json_def json_string_def
        j_uint_def json_chars_dispatch_keys del: json_chars.simps)
qed

lemma DecodeActivityDispatch_encode:
  assumes "stableName n" "a \<noteq> 0" "instanceIDPattern key"
  shows "DecodeActivityDispatch (encodeActivityDispatch n a key) =
    Inr \<lparr>ad_stepName = n, ad_attempt = a, ad_idempotencyKey = key\<rparr>"
proof -
  have plain: "plain n" "plain key"
    using assms by (simp_all add: instanceIDPattern_chars stableName_chars)
  have len: "blen (encodeActivityDispatch n a key) \<le> MaxActivityDispatchBytes"
    using dispatch_length [OF plain, of a] instanceIDPattern_length [OF assms(3)] stableName_length [OF assms(1)]
    by (simp add: MaxActivityDispatchBytes_def)
  have ne: "blen (encodeActivityDispatch n a key) \<noteq> 0"
    by (simp add: encodeActivityDispatch_def marshal_def dispatch_json_def)
  have "decode_struct dispatch_member zero_dispatch (bstr (encodeActivityDispatch n a key)) =
      Some \<lparr>ad_stepName = n, ad_attempt = a, ad_idempotencyKey = key\<rparr>"
    unfolding encodeActivityDispatch_def dispatch_json_def marshal_def
    using plain dispatch_fold [of "\<lparr>ad_stepName = n, ad_attempt = a, ad_idempotencyKey = key\<rparr>"]
    by (simp add: decode_struct_flat id_char_defs del: json_print.simps fold_members.simps)
  then show ?thesis
    using assms len ne by (simp add: DecodeActivityDispatch_def)
qed

section \<open>Accepted plans\<close>

lemma NewActivitySchedule_Inr:
  assumes "NewActivitySchedule spec = Inr t"
  obtains step e w where
    "definitionActivityStep (as_Definition spec) (as_StepName spec) = Some step"
    "as_Attempt spec = 1" "blen (as_Input spec) \<le> unat (st_InputLimit step)"
    "instanceIDPattern (as_IdempotencyKey spec)" "in_status (as_Instance spec) = StatusRunning"
    "def_Reference (as_Definition spec) = in_definition (as_Instance spec)"
    "in_activities (as_Instance spec) (as_StepName spec) = None"
    "\<not> Before (as_ScheduledAt spec) (in_updatedAt (as_Instance spec))"
    "NewHistoryEvent (zero_HistoryEventSpec\<lparr>hs_Sequence := in_sequence (as_Instance spec) + 1,
       hs_InstanceID := in_id (as_Instance spec), hs_Kind := EventActivityScheduled,
       hs_OccurredAt := as_ScheduledAt spec, hs_StepName := as_StepName spec, hs_Data := as_Input spec\<rparr>) = Inr e"
    "NewPendingWork \<lparr>ws_ID = as_WorkID spec, ws_Kind = WorkActivity,
       ws_InstanceID = in_id (as_Instance spec), ws_Sequence = ev_sequence e,
       ws_AvailableAt = as_ScheduledAt spec, ws_Deadline = as_Deadline spec,
       ws_Payload = encodeActivityDispatch (as_StepName spec) 1 (as_IdempotencyKey spec),
       ws_TenantID = as_TenantID spec, ws_CorrelationID = as_CorrelationID spec\<rparr> = Inr w"
    "NewTransition \<lparr>ts_ID = as_TransitionID spec, ts_InstanceID = in_id (as_Instance spec),
       ts_ExpectedSequence = in_sequence (as_Instance spec), ts_Definition = in_definition (as_Instance spec),
       ts_Events = [e], ts_Work = [w]\<rparr> = Inr t"
  using assms by (auto simp: NewActivitySchedule_def Let_def has_key_def not_less
      split: option.splits if_splits sum.splits)

interpretation schedule: plan_constructor NewActivitySchedule as_Instance as_Definition "\<lambda>_. True"
proof
  fix spec t
  assume "NewActivitySchedule spec = Inr t"
  then show "plan_for (as_Instance spec) t"
    by (rule NewActivitySchedule_Inr)
      (auto dest!: NewHistoryEvent_fields(1) NewPendingWork_canonical intro: plan_for_single(1))
next
  fix spec t and registry :: "Registry option"
  assume ok: "NewActivitySchedule spec = Inr t" and lv: "live registry (as_Instance spec) (as_Definition spec)"
  let ?i = "as_Instance spec"
  from ok show "\<exists>j. apply_all registry ?i (tr_events t) = Inr j \<and> in_pendingOperator j = OperatorNone"
  proof (rule NewActivitySchedule_Inr, goal_cases)
    case (1 step e w)
    note f = NewHistoryEvent_fields [OF 1(9)]
    have "\<exists>p'. replay_step registry ?i e (?i\<lparr>in_activities := (in_activities ?i)(ev_stepName e \<mapsto> p')\<rparr>)"
      using 1(1,3,5,7) lv f
      by (intro exI replay_step.activity [where step = step])
        (auto simp: activity_kind_cases live_def activity_step_None)
    then obtain k where rs: "replay_step registry ?i e k" by blast
    show ?thesis
      by (rule single_plan_replays [OF lv 1(9) _ _ _ _ _ rs]) (use 1 in \<open>auto simp: NewTransition_Inr\<close>)
  qed
qed

lemma NewActivityAttemptStart_Inr:
  assumes "NewActivityAttemptStart spec = Inr t"
  obtains dispatch step p e where
    "lease_Valid (ss_Lease spec)" "pw_kind (wl_work (ss_Lease spec)) = WorkActivity"
    "DecodeActivityDispatch (pw_payload (wl_work (ss_Lease spec))) = Inr dispatch"
    "pw_instanceID (wl_work (ss_Lease spec)) = in_id (ss_Instance spec)"
    "definitionActivityStep (ss_Definition spec) (ad_stepName dispatch) = Some step"
    "ad_attempt dispatch \<le> rp_MaxAttempts (st_Retry step)"
    "in_activities (ss_Instance spec) (ad_stepName dispatch) = Some p"
    "def_Reference (ss_Definition spec) = in_definition (ss_Instance spec)"
    "in_status (ss_Instance spec) = StatusRunning"
    "ap_status p = ActivityProgressReady \<or> (ap_status p = ActivityProgressRetryWaiting \<and>
       \<not> Before (canonicalTime (ss_StartedAt spec)) (ap_dueAt p))"
    "ad_attempt dispatch = ap_attempt p + 1"
    "\<not> Before (canonicalTime (ss_StartedAt spec)) (wl_claimedAt (ss_Lease spec))"
    "Before (canonicalTime (ss_StartedAt spec)) (wl_expiresAt (ss_Lease spec))"
    "\<not> After (canonicalTime (Add (canonicalTime (ss_StartedAt spec)) (st_Timeout step)))
       (pw_deadline (wl_work (ss_Lease spec)))"
    "\<not> Before (canonicalTime (ss_StartedAt spec)) (in_updatedAt (ss_Instance spec))"
    "NewHistoryEvent (zero_HistoryEventSpec\<lparr>hs_Sequence := in_sequence (ss_Instance spec) + 1,
       hs_InstanceID := in_id (ss_Instance spec), hs_Kind := EventActivityAttemptStarted,
       hs_OccurredAt := canonicalTime (ss_StartedAt spec), hs_StepName := ad_stepName dispatch,
       hs_Attempt := ad_attempt dispatch, hs_IdempotencyKey := ad_idempotencyKey dispatch,
       hs_DueAt := canonicalTime (Add (canonicalTime (ss_StartedAt spec)) (st_Timeout step))\<rparr>) = Inr e"
    "NewTransition \<lparr>ts_ID = ss_TransitionID spec, ts_InstanceID = in_id (ss_Instance spec),
       ts_ExpectedSequence = in_sequence (ss_Instance spec), ts_Definition = in_definition (ss_Instance spec),
       ts_Events = [e], ts_Work = []\<rparr> = Inr t"
  using assms unfolding NewActivityAttemptStart_def Let_def
  by (simp split: option.splits if_splits sum.splits) (metis (no_types, lifting) not_less)

interpretation start: plan_constructor NewActivityAttemptStart ss_Instance ss_Definition "\<lambda>_. True"
proof
  fix spec t
  assume "NewActivityAttemptStart spec = Inr t"
  then show "plan_for (ss_Instance spec) t"
    by (rule NewActivityAttemptStart_Inr) (auto dest!: NewHistoryEvent_fields(1) intro: plan_for_single(1))
next
  fix spec t and registry :: "Registry option"
  assume ok: "NewActivityAttemptStart spec = Inr t" and lv: "live registry (ss_Instance spec) (ss_Definition spec)"
  let ?i = "ss_Instance spec"
  from ok show "\<exists>j. apply_all registry ?i (tr_events t) = Inr j \<and> in_pendingOperator j = OperatorNone"
  proof (rule NewActivityAttemptStart_Inr, goal_cases)
    case (1 dispatch step p e)
    note f = NewHistoryEvent_fields [OF 1(16)]
    have "\<exists>p'. replay_step registry ?i e (?i\<lparr>in_activities := (in_activities ?i)(ev_stepName e \<mapsto> p')\<rparr>)"
      using 1(5-7,9-11) lv f
      by (intro exI replay_step.activity [where step = step])
        (auto simp: activity_kind_cases live_def activity_step_Some)
    then obtain k where rs: "replay_step registry ?i e k" by blast
    show ?thesis
      by (rule single_plan_replays [OF lv 1(16) _ _ _ _ _ rs]) (use 1 in \<open>auto simp: NewTransition_Inr\<close>)
  qed
qed

lemma NewActivityAttemptOutcome_Inr:
  assumes "NewActivityAttemptOutcome spec = Inr t"
  obtains step p e where
    "definitionActivityStep (os_Definition spec) (os_StepName spec) = Some step"
    "in_activities (os_Instance spec) (os_StepName spec) = Some p"
    "def_Reference (os_Definition spec) = in_definition (os_Instance spec)"
    "ap_status p = ActivityProgressRunning" "ap_attempt p = os_Attempt spec"
    "outcome_valid (os_Outcome spec)" "blen (ao_data (os_Outcome spec)) \<le> unat (st_ResultLimit step)"
    "\<not> Before (os_OccurredAt spec) (in_updatedAt (os_Instance spec))"
    "NewHistoryEvent (zero_HistoryEventSpec\<lparr>hs_Sequence := in_sequence (os_Instance spec) + 1,
       hs_InstanceID := in_id (os_Instance spec),
       hs_Kind := activityOutcomeEventKind (ao_kind (os_Outcome spec)),
       hs_OccurredAt := os_OccurredAt spec, hs_StepName := os_StepName spec, hs_Attempt := os_Attempt spec,
       hs_Code := ao_code (os_Outcome spec), hs_Retryable := ao_retryable (os_Outcome spec),
       hs_Data := ao_data (os_Outcome spec)\<rparr>) = Inr e"
    "NewTransition \<lparr>ts_ID = os_TransitionID spec, ts_InstanceID = in_id (os_Instance spec),
       ts_ExpectedSequence = in_sequence (os_Instance spec), ts_Definition = in_definition (os_Instance spec),
       ts_Events = [e], ts_Work = []\<rparr> = Inr t"
  using assms unfolding NewActivityAttemptOutcome_def Let_def
  by (simp split: option.splits if_splits sum.splits)

lemma outcome_valid_kind:
  "outcome_valid o' \<Longrightarrow> activityOutcomeEventKind (ao_kind o') \<in>
     {EventActivityAttemptSucceeded, EventActivityAttemptFailed, EventActivityAttemptUnknown}"
  by (cases "ao_kind o'") (auto simp: outcome_valid_def split: if_splits)

text \<open>The constructor does not look at the instance status: the plan replays on a live instance.\<close>

interpretation attempt_outcome: plan_constructor NewActivityAttemptOutcome os_Instance os_Definition
  "\<lambda>s. \<not> terminalStatus (in_status (os_Instance s))"
proof
  fix spec t
  assume "NewActivityAttemptOutcome spec = Inr t"
  then show "plan_for (os_Instance spec) t"
    by (rule NewActivityAttemptOutcome_Inr) (auto dest!: NewHistoryEvent_fields(1) intro: plan_for_single(1))
next
  fix spec t and registry :: "Registry option"
  assume ok: "NewActivityAttemptOutcome spec = Inr t" and lv: "live registry (os_Instance spec) (os_Definition spec)"
    and adm: "\<not> terminalStatus (in_status (os_Instance spec))"
  let ?i = "os_Instance spec"
  from ok show "\<exists>j. apply_all registry ?i (tr_events t) = Inr j \<and> in_pendingOperator j = OperatorNone"
  proof (rule NewActivityAttemptOutcome_Inr, goal_cases)
    case (1 step p e)
    note f = NewHistoryEvent_fields [OF 1(9)] and k = outcome_valid_kind [OF 1(6)]
    have "\<exists>p'. activity_step step (in_activities ?i (ev_stepName e)) e p'"
      using k 1(2,4,5,7) f
      by (elim insertE emptyE) (simp_all add: activity_step_Some activityOutcomeAllowed_def)
    then obtain p' where st: "activity_step step (in_activities ?i (ev_stepName e)) e p'" by blast
    have rs: "replay_step registry ?i e (?i\<lparr>in_activities := (in_activities ?i)(ev_stepName e \<mapsto> p')\<rparr>)"
      by (rule replay_step.activity [OF _ _ st])
        (use 1(1) lv f k in \<open>auto simp: activity_kind_cases live_def activity_needs_running_def\<close>)
    show ?thesis
      by (rule single_plan_replays [OF lv 1(9) _ _ _ _ _ rs]) (use 1(8,10) adm k in \<open>auto simp: NewTransition_Inr\<close>)
  qed
qed

lemma NewActivityRetry_Inr:
  assumes "NewActivityRetry spec = Inr t"
  obtains step p e w where
    "definitionActivityStep (ay_Definition spec) (ay_StepName spec) = Some step"
    "in_activities (ay_Instance spec) (ay_StepName spec) = Some p"
    "def_Reference (ay_Definition spec) = in_definition (ay_Instance spec)"
    "ap_status p = ActivityProgressFailed" "ap_retryable p"
    "ap_attempt p < rp_MaxAttempts (st_Retry step)" "instanceIDPattern (ay_IdempotencyKey spec)"
    "\<not> Before (ay_ScheduledAt spec) (in_updatedAt (ay_Instance spec))"
    "NewHistoryEvent (zero_HistoryEventSpec\<lparr>hs_Sequence := in_sequence (ay_Instance spec) + 1,
       hs_InstanceID := in_id (ay_Instance spec), hs_Kind := EventActivityRetryScheduled,
       hs_OccurredAt := ay_ScheduledAt spec, hs_StepName := ay_StepName spec, hs_Attempt := ap_attempt p,
       hs_DueAt := canonicalTime (Add (ay_ScheduledAt spec) (retryDelay (st_Retry step) (ap_attempt p)))\<rparr>) = Inr e"
    "NewPendingWork \<lparr>ws_ID = ay_WorkID spec, ws_Kind = WorkActivity,
       ws_InstanceID = in_id (ay_Instance spec), ws_Sequence = ev_sequence e,
       ws_AvailableAt = canonicalTime (Add (ay_ScheduledAt spec) (retryDelay (st_Retry step) (ap_attempt p))),
       ws_Deadline = ay_Deadline spec,
       ws_Payload = encodeActivityDispatch (ay_StepName spec) (ap_attempt p + 1) (ay_IdempotencyKey spec),
       ws_TenantID = ay_TenantID spec, ws_CorrelationID = ay_CorrelationID spec\<rparr> = Inr w"
    "NewTransition \<lparr>ts_ID = ay_TransitionID spec, ts_InstanceID = in_id (ay_Instance spec),
       ts_ExpectedSequence = in_sequence (ay_Instance spec), ts_Definition = in_definition (ay_Instance spec),
       ts_Events = [e], ts_Work = [w]\<rparr> = Inr t"
  using assms unfolding NewActivityRetry_def Let_def
  by (simp split: option.splits if_splits sum.splits)

text \<open>Neither does the retry constructor: its plan replays only while the instance runs.\<close>

interpretation retry: plan_constructor NewActivityRetry ay_Instance ay_Definition
  "\<lambda>s. in_status (ay_Instance s) = StatusRunning"
proof
  fix spec t
  assume "NewActivityRetry spec = Inr t"
  then show "plan_for (ay_Instance spec) t"
    by (rule NewActivityRetry_Inr)
      (auto dest!: NewHistoryEvent_fields(1) NewPendingWork_canonical intro: plan_for_single(1))
next
  fix spec t and registry :: "Registry option"
  assume ok: "NewActivityRetry spec = Inr t" and lv: "live registry (ay_Instance spec) (ay_Definition spec)"
    and adm: "in_status (ay_Instance spec) = StatusRunning"
  let ?i = "ay_Instance spec"
  from ok show "\<exists>j. apply_all registry ?i (tr_events t) = Inr j \<and> in_pendingOperator j = OperatorNone"
  proof (rule NewActivityRetry_Inr, goal_cases)
    case (1 step p e w)
    note f = NewHistoryEvent_fields [OF 1(9)]
    have "\<exists>p'. replay_step registry ?i e (?i\<lparr>in_activities := (in_activities ?i)(ev_stepName e \<mapsto> p')\<rparr>)"
      using 1(1,2,4-6) lv f adm
      by (intro exI replay_step.activity [where step = step])
        (auto simp: activity_kind_cases live_def activity_step_Some canonicalTime_Add)
    then obtain j where rs: "replay_step registry ?i e j" by blast
    show ?thesis
      by (rule single_plan_replays [OF lv 1(9) _ _ _ _ _ rs]) (use 1(8,11) adm in \<open>auto simp: NewTransition_Inr\<close>)
  qed
qed

end
