(* ===== verification/Child_Transition.thy ===== *)
theory Child_Transition
  imports Activity_Transition
begin

text \<open>
  Child start requests and outcomes (child\_start.go) and child transition constructors
  (child\_transition.go, with \<open>processorTransitionID\<close> of activity\_processor.go). Every error branch
  of a constructor returns \<open>ErrInvalidChildTransition\<close>; where the code discards an error it goes
  on with the zero value.
\<close>

section \<open>Start outcomes and requests\<close>

datatype ChildStartOutcomeKind =
  ChildStarted | ChildStartFailed | ChildStartUnknown | ChildStartOutcomeInvalid

record ChildStartOutcome =
  co_kind :: ChildStartOutcomeKind
  co_code :: string
  co_retryable :: bool

type_synonym ChildStartOutcomeSpec = ChildStartOutcome

definition child_outcome_valid :: "ChildStartOutcome \<Rightarrow> bool" where
  "child_outcome_valid outcome = (case co_kind outcome of
     ChildStarted \<Rightarrow> co_code outcome = [] \<and> \<not> co_retryable outcome
   | ChildStartFailed \<Rightarrow> stableName (co_code outcome)
   | ChildStartUnknown \<Rightarrow> stableName (co_code outcome) \<and> \<not> co_retryable outcome
   | ChildStartOutcomeInvalid \<Rightarrow> False)"

definition NewChildStartOutcome :: "ChildStartOutcomeSpec \<Rightarrow> ChildStartOutcome result" where
  "NewChildStartOutcome spec =
     (if \<not> child_outcome_valid spec then Inl ErrInvalidChildStart else Inr spec)"

record ChildStartRequest =
  cq_parentInstanceID :: string
  cq_parentDefinition :: DefinitionReference
  cq_stepName :: string
  cq_childID :: string
  cq_childDefinition :: DefinitionReference
  cq_attempt :: uint32
  cq_maxAttempts :: uint32
  cq_idempotencyKey :: string
  cq_startedAt :: gotime
  cq_deadline :: gotime
  cq_input :: bytes
  cq_inputLimit :: uint32
  cq_tenantID :: string
  cq_correlationID :: string

type_synonym ChildStartRequestSpec = ChildStartRequest

definition child_request_valid :: "ChildStartRequest \<Rightarrow> bool" where
  "child_request_valid request \<longleftrightarrow> instanceIDPattern (cq_parentInstanceID request) \<and>
     reference_valid (cq_parentDefinition request) \<and> stableName (cq_stepName request) \<and>
     instanceIDPattern (cq_childID request) \<and> reference_valid (cq_childDefinition request) \<and>
     cq_attempt request > 0 \<and> cq_attempt request \<le> cq_maxAttempts request \<and>
     instanceIDPattern (cq_idempotencyKey request) \<and> \<not> IsZero (cq_startedAt request) \<and>
     After (cq_deadline request) (cq_startedAt request) \<and>
     validPayloadLimit (cq_inputLimit request) \<and>
     blen (cq_input request) \<le> unat (cq_inputLimit request) \<and>
     optionalMetadataValid (cq_tenantID request) \<and> optionalMetadataValid (cq_correlationID request)"

definition NewChildStartRequest :: "ChildStartRequestSpec \<Rightarrow> ChildStartRequest result" where
  "NewChildStartRequest spec =
     (let request = spec\<lparr>cq_startedAt := canonicalTime (cq_startedAt spec),
            cq_deadline := canonicalTime (cq_deadline spec)\<rparr>
      in if \<not> child_request_valid request then Inl ErrInvalidChildStart
         else Inr (request\<lparr>cq_input := cloneBytes (cq_input request)\<rparr>))"

section \<open>Dispatch documents\<close>

definition MaxChildDispatchBytes :: nat where "MaxChildDispatchBytes = 2 ^ 10"

record ChildDispatch =
  cd_stepName :: string
  cd_childID :: string
  cd_definition :: DefinitionReference
  cd_attempt :: uint32
  cd_idempotencyKey :: string

definition zero_ChildDispatch :: ChildDispatch where
  "zero_ChildDispatch = \<lparr>cd_stepName = [], cd_childID = [], cd_definition = zero_DefinitionReference,
     cd_attempt = 0, cd_idempotencyKey = []\<rparr>"

definition child_dispatch_json :: "ChildDispatch \<Rightarrow> json" where
  "child_dispatch_json d = JObj [(''step_name'', JStr (cd_stepName d)),
     (''child_id'', JStr (cd_childID d)),
     (''definition_name'', JStr (dr_name (cd_definition d))),
     (''definition_version'', JStr (dr_version (cd_definition d))),
     (''definition_fingerprint'', JStr (dr_fingerprint (cd_definition d))),
     (''attempt'', j_uint (cd_attempt d)), (''idempotency_key'', JStr (cd_idempotencyKey d))]"

definition encodeChildDispatch ::
  "string \<Rightarrow> string \<Rightarrow> DefinitionReference \<Rightarrow> uint32 \<Rightarrow> string \<Rightarrow> bytes" where
  "encodeChildDispatch stepName childID reference attempt idempotencyKey =
     Some (marshal (Some (child_dispatch_json \<lparr>cd_stepName = stepName, cd_childID = childID,
       cd_definition = reference, cd_attempt = attempt, cd_idempotencyKey = idempotencyKey\<rparr>)))"

definition child_dispatch_member :: "ChildDispatch \<Rightarrow> string \<times> json \<Rightarrow> ChildDispatch option" where
  "child_dispatch_member d m =
     (let text = (\<lambda>old set. case read_string old (snd m) of None \<Rightarrow> None | Some s \<Rightarrow> Some (set s));
          ref = cd_definition d
      in case match_field [''step_name'', ''child_id'', ''definition_name'', ''definition_version'',
                ''definition_fingerprint'', ''attempt'', ''idempotency_key''] (fst m) of
        None \<Rightarrow> None
      | Some field \<Rightarrow>
          if field = ''step_name'' then text (cd_stepName d) (\<lambda>s. d\<lparr>cd_stepName := s\<rparr>)
          else if field = ''child_id'' then text (cd_childID d) (\<lambda>s. d\<lparr>cd_childID := s\<rparr>)
          else if field = ''definition_name''
          then text (dr_name ref) (\<lambda>s. d\<lparr>cd_definition := ref\<lparr>dr_name := s\<rparr>\<rparr>)
          else if field = ''definition_version''
          then text (dr_version ref) (\<lambda>s. d\<lparr>cd_definition := ref\<lparr>dr_version := s\<rparr>\<rparr>)
          else if field = ''definition_fingerprint''
          then text (dr_fingerprint ref) (\<lambda>s. d\<lparr>cd_definition := ref\<lparr>dr_fingerprint := s\<rparr>\<rparr>)
          else if field = ''attempt'' then
            (case read_uint (cd_attempt d) (snd m) of
               None \<Rightarrow> None | Some w \<Rightarrow> Some (d\<lparr>cd_attempt := w\<rparr>))
          else text (cd_idempotencyKey d) (\<lambda>s. d\<lparr>cd_idempotencyKey := s\<rparr>))"

definition DecodeChildDispatch :: "bytes \<Rightarrow> ChildDispatch result" where
  "DecodeChildDispatch payload =
     (if blen payload > MaxChildDispatchBytes then Inl ErrInvalidChildTransition
      else case decode_struct child_dispatch_member zero_ChildDispatch (bstr payload) of
        None \<Rightarrow> Inl ErrInvalidChildTransition
      | Some dispatch \<Rightarrow>
          if \<not> reference_valid (cd_definition dispatch) \<or> \<not> stableName (cd_stepName dispatch) \<or>
             \<not> instanceIDPattern (cd_childID dispatch) \<or> cd_attempt dispatch = 0 \<or>
             \<not> instanceIDPattern (cd_idempotencyKey dispatch)
          then Inl ErrInvalidChildTransition else Inr dispatch)"

definition processorTransitionID :: "string \<Rightarrow> string \<Rightarrow> string" where
  "processorTransitionID workID phase =
     ''activity-processor-'' @ phase @ ''-'' @ sha256_hex (workID @ CHR 0x00 # phase)"

section \<open>Constructors\<close>

record ChildScheduleSpec =
  xs_TransitionID :: string
  xs_WorkID :: string
  xs_ChildID :: string
  xs_Instance :: Instance
  xs_Definition :: Definition
  xs_StepName :: string
  xs_ScheduledAt :: gotime
  xs_Deadline :: gotime
  xs_Input :: bytes
  xs_TenantID :: string
  xs_CorrelationID :: string

definition NewChildSchedule :: "ChildScheduleSpec \<Rightarrow> Transition result" where
  "NewChildSchedule spec =
     (let inst = xs_Instance spec in
      case definitionStep (xs_Definition spec) (xs_StepName spec) StepChild of
        None \<Rightarrow> Inl ErrInvalidChildTransition
      | Some step \<Rightarrow>
          if in_status inst \<noteq> StatusRunning \<or>
             def_Reference (xs_Definition spec) \<noteq> in_definition inst \<or>
             blen (xs_Input spec) > unat (st_InputLimit step) \<or>
             \<not> instanceIDPattern (xs_ChildID spec) \<or>
             Before (xs_ScheduledAt spec) (in_updatedAt inst) \<or>
             has_key (in_children inst) (xs_StepName spec)
          then Inl ErrInvalidChildTransition
          else case NewHistoryEvent (zero_HistoryEventSpec\<lparr>hs_Sequence := in_sequence inst + 1,
                   hs_InstanceID := in_id inst, hs_Kind := EventChildScheduled,
                   hs_OccurredAt := xs_ScheduledAt spec, hs_Definition := st_ChildDefinition step,
                   hs_SuccessorID := xs_ChildID spec, hs_StepName := xs_StepName spec,
                   hs_Data := xs_Input spec\<rparr>) of
              Inl _ \<Rightarrow> Inl ErrInvalidChildTransition
            | Inr event \<Rightarrow>
                (case NewPendingWork \<lparr>ws_ID = xs_WorkID spec, ws_Kind = WorkChild,
                         ws_InstanceID = in_id inst, ws_Sequence = ev_sequence event,
                         ws_AvailableAt = xs_ScheduledAt spec, ws_Deadline = xs_Deadline spec,
                         ws_Payload = encodeChildDispatch (xs_StepName spec) (xs_ChildID spec)
                           (st_ChildDefinition step) 1 (xs_ChildID spec),
                         ws_TenantID = xs_TenantID spec, ws_CorrelationID = xs_CorrelationID spec\<rparr> of
                   Inl _ \<Rightarrow> Inl ErrInvalidChildTransition
                 | Inr work \<Rightarrow>
                     (case NewTransition \<lparr>ts_ID = xs_TransitionID spec, ts_InstanceID = in_id inst,
                              ts_ExpectedSequence = in_sequence inst,
                              ts_Definition = in_definition inst, ts_Events = [event],
                              ts_Work = [work]\<rparr> of
                        Inl _ \<Rightarrow> Inl ErrInvalidChildTransition
                      | Inr transition \<Rightarrow> Inr transition)))"

record ChildOutcomeSpec =
  xo_TransitionID :: string
  xo_Instance :: Instance
  xo_Definition :: Definition
  xo_StepName :: string
  xo_ChildID :: string
  xo_CompletedAt :: gotime
  xo_Result :: bytes
  xo_FailureCode :: string

definition NewChildOutcome :: "ChildOutcomeSpec \<Rightarrow> Transition result" where
  "NewChildOutcome spec =
     (let inst = xo_Instance spec in
      case definitionStep (xo_Definition spec) (xo_StepName spec) StepChild of
        None \<Rightarrow> Inl ErrInvalidChildTransition
      | Some step \<Rightarrow>
          (case in_children inst (xo_StepName spec) of
             None \<Rightarrow> Inl ErrInvalidChildTransition
           | Some progress \<Rightarrow>
               if \<not> childTerminalOutcomeAllowed (cp_status progress) \<or>
                  cp_childID progress \<noteq> xo_ChildID spec \<or> in_status inst \<noteq> StatusRunning \<or>
                  def_Reference (xo_Definition spec) \<noteq> in_definition inst \<or>
                  blen (xo_Result spec) > unat (st_ResultLimit step) \<or>
                  Before (xo_CompletedAt spec) (in_updatedAt inst)
               then Inl ErrInvalidChildTransition
               else if xo_FailureCode spec \<noteq> [] \<and> \<not> stableName (xo_FailureCode spec)
               then Inl ErrInvalidChildTransition
               else case NewHistoryEvent (zero_HistoryEventSpec\<lparr>hs_Sequence := in_sequence inst + 1,
                        hs_InstanceID := in_id inst,
                        hs_Kind := (if xo_FailureCode spec \<noteq> [] then EventChildFailed
                                    else EventChildCompleted),
                        hs_OccurredAt := xo_CompletedAt spec, hs_SuccessorID := xo_ChildID spec,
                        hs_StepName := xo_StepName spec, hs_Code := xo_FailureCode spec,
                        hs_Data := xo_Result spec\<rparr>) of
                   Inl _ \<Rightarrow> Inl ErrInvalidChildTransition
                 | Inr event \<Rightarrow>
                     (case NewTransition \<lparr>ts_ID = xo_TransitionID spec, ts_InstanceID = in_id inst,
                              ts_ExpectedSequence = in_sequence inst,
                              ts_Definition = in_definition inst, ts_Events = [event],
                              ts_Work = []\<rparr> of
                        Inl _ \<Rightarrow> Inl ErrInvalidChildTransition
                      | Inr transition \<Rightarrow> Inr transition)))"

record ChildStartAttemptSpec =
  xt_TransitionID :: string
  xt_Lease :: WorkLease
  xt_Instance :: Instance
  xt_Definition :: Definition
  xt_StartedAt :: gotime

definition NewChildStartAttempt :: "ChildStartAttemptSpec \<Rightarrow> Transition result" where
  "NewChildStartAttempt spec =
     (let lease = xt_Lease spec; work = wl_work lease; inst = xt_Instance spec in
      if \<not> lease_Valid lease then Inl ErrInvalidChildTransition
      else
        let dispatch = value_or zero_ChildDispatch (DecodeChildDispatch (pw_payload work));
            step = (case definitionStep (xt_Definition spec) (cd_stepName dispatch) StepChild of
                      None \<Rightarrow> zero_StepSpec | Some s \<Rightarrow> s);
            progress = lookup_zero zero_ChildProgress (in_children inst) (cd_stepName dispatch);
            startedAt = canonicalTime (xt_StartedAt spec);
            dueAt = canonicalTime (Add startedAt (st_Timeout step))
        in if pw_kind work \<noteq> WorkChild \<or> pw_instanceID work \<noteq> in_id inst \<or>
              in_status inst \<noteq> StatusRunning \<or>
              def_Reference (xt_Definition spec) \<noteq> in_definition inst \<or>
              in_sequence inst < pw_sequence work \<or>
              cp_childID progress \<noteq> cd_childID dispatch \<or>
              cp_definition progress \<noteq> cd_definition dispatch \<or>
              (cp_status progress \<noteq> ChildScheduled \<and> cp_status progress \<noteq> ChildStartRetryWaiting) \<or>
              cd_attempt dispatch \<noteq> cp_attempt progress + 1 \<or>
              cd_attempt dispatch > rp_MaxAttempts (st_Retry step) \<or>
              Before startedAt (pw_availableAt work) \<or> After dueAt (pw_deadline work) \<or>
              Before startedAt (wl_claimedAt lease) \<or> \<not> Before startedAt (wl_expiresAt lease) \<or>
              Before startedAt (in_updatedAt inst) \<or>
              (cp_status progress = ChildStartRetryWaiting \<and> Before startedAt (cp_dueAt progress))
           then Inl ErrInvalidChildTransition
           else case NewHistoryEvent (zero_HistoryEventSpec\<lparr>hs_Sequence := in_sequence inst + 1,
                    hs_InstanceID := in_id inst, hs_Kind := EventChildStartAttempted,
                    hs_OccurredAt := startedAt, hs_SuccessorID := cd_childID dispatch,
                    hs_StepName := cd_stepName dispatch, hs_Attempt := cd_attempt dispatch,
                    hs_IdempotencyKey := cd_idempotencyKey dispatch, hs_DueAt := dueAt\<rparr>) of
               Inl _ \<Rightarrow> Inl ErrInvalidChildTransition
             | Inr event \<Rightarrow>
                 (case NewTransition \<lparr>ts_ID = xt_TransitionID spec, ts_InstanceID = in_id inst,
                          ts_ExpectedSequence = in_sequence inst,
                          ts_Definition = in_definition inst, ts_Events = [event], ts_Work = []\<rparr> of
                    Inl _ \<Rightarrow> Inl ErrInvalidChildTransition
                  | Inr transition \<Rightarrow> Inr transition))"

record ChildStartAttemptOutcomeSpec =
  xa_TransitionID :: string
  xa_Instance :: Instance
  xa_Definition :: Definition
  xa_StepName :: string
  xa_ChildID :: string
  xa_Attempt :: uint32
  xa_OccurredAt :: gotime
  xa_Outcome :: ChildStartOutcome

definition childStartEventKind :: "ChildStartOutcomeKind \<Rightarrow> EventKind" where
  "childStartEventKind kind = (case kind of
     ChildStartFailed \<Rightarrow> EventChildStartFailed
   | ChildStartUnknown \<Rightarrow> EventChildStartUnknown
   | _ \<Rightarrow> EventChildStarted)"

definition NewChildStartAttemptOutcome :: "ChildStartAttemptOutcomeSpec \<Rightarrow> Transition result" where
  "NewChildStartAttemptOutcome spec =
     (let inst = xa_Instance spec; outcome = xa_Outcome spec;
          progress = lookup_zero zero_ChildProgress (in_children inst) (xa_StepName spec)
      in if in_status inst \<noteq> StatusRunning \<or>
            def_Reference (xa_Definition spec) \<noteq> in_definition inst \<or>
            cp_status progress \<noteq> ChildStartRunning \<or> cp_childID progress \<noteq> xa_ChildID spec \<or>
            cp_attempt progress \<noteq> xa_Attempt spec \<or> \<not> child_outcome_valid outcome \<or>
            Before (xa_OccurredAt spec) (in_updatedAt inst)
         then Inl ErrInvalidChildTransition
         else case NewHistoryEvent (zero_HistoryEventSpec\<lparr>hs_Sequence := in_sequence inst + 1,
                  hs_InstanceID := in_id inst, hs_Kind := childStartEventKind (co_kind outcome),
                  hs_OccurredAt := xa_OccurredAt spec, hs_SuccessorID := xa_ChildID spec,
                  hs_StepName := xa_StepName spec, hs_Attempt := xa_Attempt spec,
                  hs_Code := co_code outcome, hs_Retryable := co_retryable outcome\<rparr>) of
             Inl _ \<Rightarrow> Inl ErrInvalidChildTransition
           | Inr event \<Rightarrow>
               (case NewTransition \<lparr>ts_ID = xa_TransitionID spec, ts_InstanceID = in_id inst,
                        ts_ExpectedSequence = in_sequence inst,
                        ts_Definition = in_definition inst, ts_Events = [event], ts_Work = []\<rparr> of
                  Inl _ \<Rightarrow> Inl ErrInvalidChildTransition
                | Inr transition \<Rightarrow> Inr transition))"

record ChildStartRetrySpec =
  xy_TransitionID :: string
  xy_WorkID :: string
  xy_Instance :: Instance
  xy_Definition :: Definition
  xy_StepName :: string
  xy_ScheduledAt :: gotime
  xy_Deadline :: gotime
  xy_TenantID :: string
  xy_CorrelationID :: string

definition NewChildStartRetry :: "ChildStartRetrySpec \<Rightarrow> Transition result" where
  "NewChildStartRetry spec =
     (let inst = xy_Instance spec;
          step = (case definitionStep (xy_Definition spec) (xy_StepName spec) StepChild of
                    None \<Rightarrow> zero_StepSpec | Some s \<Rightarrow> s);
          progress = lookup_zero zero_ChildProgress (in_children inst) (xy_StepName spec)
      in if in_status inst \<noteq> StatusRunning \<or>
            def_Reference (xy_Definition spec) \<noteq> in_definition inst \<or>
            cp_status progress \<noteq> ChildStartFailedStatus \<or> \<not> cp_retryable progress \<or>
            cp_attempt progress \<ge> rp_MaxAttempts (st_Retry step) \<or>
            Before (xy_ScheduledAt spec) (in_updatedAt inst)
         then Inl ErrInvalidChildTransition
         else
           let dueAt = canonicalTime
                 (Add (xy_ScheduledAt spec) (retryDelay (st_Retry step) (cp_attempt progress)))
           in case NewHistoryEvent (zero_HistoryEventSpec\<lparr>hs_Sequence := in_sequence inst + 1,
                    hs_InstanceID := in_id inst, hs_Kind := EventChildStartRetryScheduled,
                    hs_OccurredAt := xy_ScheduledAt spec, hs_SuccessorID := cp_childID progress,
                    hs_StepName := xy_StepName spec, hs_Attempt := cp_attempt progress,
                    hs_DueAt := dueAt\<rparr>) of
                Inl _ \<Rightarrow> Inl ErrInvalidChildTransition
              | Inr event \<Rightarrow>
                  (case NewPendingWork \<lparr>ws_ID = xy_WorkID spec, ws_Kind = WorkChild,
                           ws_InstanceID = in_id inst, ws_Sequence = ev_sequence event,
                           ws_AvailableAt = dueAt, ws_Deadline = xy_Deadline spec,
                           ws_Payload = encodeChildDispatch (xy_StepName spec) (cp_childID progress)
                             (cp_definition progress) (cp_attempt progress + 1)
                             (processorTransitionID (xy_WorkID spec) ''child-start-key''),
                           ws_TenantID = xy_TenantID spec,
                           ws_CorrelationID = xy_CorrelationID spec\<rparr> of
                     Inl _ \<Rightarrow> Inl ErrInvalidChildTransition
                   | Inr work \<Rightarrow>
                       (case NewTransition \<lparr>ts_ID = xy_TransitionID spec, ts_InstanceID = in_id inst,
                                ts_ExpectedSequence = in_sequence inst,
                                ts_Definition = in_definition inst, ts_Events = [event],
                                ts_Work = [work]\<rparr> of
                          Inl _ \<Rightarrow> Inl ErrInvalidChildTransition
                        | Inr transition \<Rightarrow> Inr transition)))"

section \<open>Dispatch documents survive the JSON round trip when they fit\<close>

lemma child_dispatch_fold:
  "fold_members child_dispatch_member zero_ChildDispatch
     [(''step_name'', JStr (cd_stepName d)), (''child_id'', JStr (cd_childID d)),
      (''definition_name'', JStr (dr_name (cd_definition d))),
      (''definition_version'', JStr (dr_version (cd_definition d))),
      (''definition_fingerprint'', JStr (dr_fingerprint (cd_definition d))),
      (''attempt'', j_uint (cd_attempt d)), (''idempotency_key'', JStr (cd_idempotencyKey d))] = Some d"
  by (cases d) (simp add: child_dispatch_member_def Let_def match_field_def zero_ChildDispatch_def
      zero_DefinitionReference_def)

lemma json_chars_child_keys:
  "json_chars ''step_name'' = ''step_name''" "json_chars ''child_id'' = ''child_id''"
  "json_chars ''definition_name'' = ''definition_name''"
  "json_chars ''definition_version'' = ''definition_version''"
  "json_chars ''definition_fingerprint'' = ''definition_fingerprint''"
  "json_chars ''attempt'' = ''attempt''" "json_chars ''idempotency_key'' = ''idempotency_key''"
  by (rule json_chars_plain, simp add: id_char_defs)+

definition child_identity_ok :: "ChildDispatch \<Rightarrow> bool" where
  "child_identity_ok d \<longleftrightarrow> stableName (cd_stepName d) \<and> instanceIDPattern (cd_childID d) \<and>
     reference_valid (cd_definition d) \<and> cd_attempt d \<noteq> 0 \<and> instanceIDPattern (cd_idempotencyKey d)"

definition child_payload :: "ChildDispatch \<Rightarrow> bytes" where
  "child_payload d = encodeChildDispatch (cd_stepName d) (cd_childID d) (cd_definition d) (cd_attempt d)
     (cd_idempotencyKey d)"

lemma child_identity_plain:
  assumes "child_identity_ok d"
  shows "plain (cd_stepName d)" "plain (cd_childID d)" "plain (dr_name (cd_definition d))"
    "plain (dr_version (cd_definition d))" "plain (dr_fingerprint (cd_definition d))" "plain (cd_idempotencyKey d)"
  using assms by (auto simp: child_identity_ok_def reference_valid_def instanceIDPattern_chars
      stableName_chars fingerprintPattern_chars)

lemma child_payload_length:
  assumes "child_identity_ok d"
  shows "blen (child_payload d) = 135 + length (cd_stepName d) + length (cd_childID d) +
    length (dr_name (cd_definition d)) + length (dr_version (cd_definition d)) +
    length (dr_fingerprint (cd_definition d)) + length (dec_nat (unat (cd_attempt d))) +
    length (cd_idempotencyKey d)"
  using child_identity_plain [OF assms]
  by (simp add: child_payload_def encodeChildDispatch_def marshal_def child_dispatch_json_def json_string_def
      j_uint_def json_chars_child_keys del: json_chars.simps)

lemma DecodeChildDispatch_payload:
  assumes "child_identity_ok d"
  shows "DecodeChildDispatch (child_payload d) =
    (if blen (child_payload d) > MaxChildDispatchBytes then Inl ErrInvalidChildTransition else Inr d)"
proof -
  have "decode_struct child_dispatch_member zero_ChildDispatch (bstr (child_payload d)) = Some d"
    unfolding child_payload_def encodeChildDispatch_def child_dispatch_json_def marshal_def
    using child_identity_plain [OF assms] child_dispatch_fold [of d]
    by (simp add: decode_struct_flat id_char_defs del: json_print.simps fold_members.simps)
  then show ?thesis
    using assms by (simp add: DecodeChildDispatch_def child_identity_ok_def)
qed

section \<open>Accepted plans\<close>

lemma child_replays:
  assumes "live registry i d" "definitionStep d (ev_stepName e) StepChild = Some step"
    "child_kind (ev_kind e)" "in_status i = StatusRunning"
    "\<exists>c'. child_step registry step (in_children i (ev_stepName e)) e c'"
  shows "\<exists>k. replay_step registry i e k"
  using assms replay_step.child [of e i registry step] by (auto simp: live_def)

lemma lookup_child_status:
  "cp_status (lookup_zero zero_ChildProgress m n) \<noteq> ChildNone \<Longrightarrow>
     m n = Some (lookup_zero zero_ChildProgress m n)"
  by (cases "m n") (simp_all add: zero_ChildProgress_def)

lemma live_child_pin:
  assumes "live registry i d" "definitionStep d n StepChild = Some step"
  shows "validateReference registry (st_ChildDefinition step) = Inr ()"
proof -
  from assms obtain r where r: "registry = Some r" "registry_ok r" "resolved (Some r) (in_definition i) = d"
    by (auto simp: live_def compiled_def split: option.splits)
  have "step \<in> set (ds_Steps (def_spec d))" "st_Kind step = StepChild"
    using assms(2) find_step_Some by (auto simp: definitionStep_def)
  with r resolved_steps_child [of r step "in_definition i"] show ?thesis by simp
qed

lemma NewChildSchedule_Inr:
  assumes "NewChildSchedule spec = Inr t"
  obtains step e w where
    "definitionStep (xs_Definition spec) (xs_StepName spec) StepChild = Some step"
    "in_status (xs_Instance spec) = StatusRunning" "blen (xs_Input spec) \<le> unat (st_InputLimit step)"
    "in_children (xs_Instance spec) (xs_StepName spec) = None"
    "\<not> Before (xs_ScheduledAt spec) (in_updatedAt (xs_Instance spec))"
    "NewHistoryEvent (zero_HistoryEventSpec\<lparr>hs_Sequence := in_sequence (xs_Instance spec) + 1,
       hs_InstanceID := in_id (xs_Instance spec), hs_Kind := EventChildScheduled,
       hs_OccurredAt := xs_ScheduledAt spec, hs_Definition := st_ChildDefinition step,
       hs_SuccessorID := xs_ChildID spec, hs_StepName := xs_StepName spec, hs_Data := xs_Input spec\<rparr>) = Inr e"
    "work_valid w"
    "pw_payload w = encodeChildDispatch (xs_StepName spec) (xs_ChildID spec) (st_ChildDefinition step) 1 (xs_ChildID spec)"
    "NewTransition \<lparr>ts_ID = xs_TransitionID spec, ts_InstanceID = in_id (xs_Instance spec),
       ts_ExpectedSequence = in_sequence (xs_Instance spec), ts_Definition = in_definition (xs_Instance spec),
       ts_Events = [e], ts_Work = [w]\<rparr> = Inr t"
  using assms unfolding NewChildSchedule_def Let_def
  by (auto simp: has_key_def NewPendingWork_Inr split: option.splits if_splits sum.splits)

interpretation child_schedule: plan_constructor NewChildSchedule xs_Instance xs_Definition "\<lambda>_. True"
proof
  fix spec t
  assume "NewChildSchedule spec = Inr t"
  then show "plan_for (xs_Instance spec) t"
    by (rule NewChildSchedule_Inr) (auto dest!: NewHistoryEvent_fields(1) intro: plan_for_single(1))
next
  fix spec t and registry :: "Registry option"
  assume ok: "NewChildSchedule spec = Inr t" and lv: "live registry (xs_Instance spec) (xs_Definition spec)"
  let ?i = "xs_Instance spec"
  from ok show "\<exists>j. apply_all registry ?i (tr_events t) = Inr j \<and> in_pendingOperator j = OperatorNone"
  proof (rule NewChildSchedule_Inr, goal_cases)
    case (1 step e w)
    note f = NewHistoryEvent_fields [OF 1(6)]
    have "\<exists>k. replay_step registry ?i e k"
      by (rule child_replays [OF lv, of e step])
        (use 1(1-4) f live_child_pin [OF lv 1(1)] in \<open>auto simp: child_kind_cases child_step_def\<close>)
    then obtain k where rs: "replay_step registry ?i e k" by blast
    show ?thesis
      by (rule single_plan_replays [OF lv 1(6) _ _ _ _ _ rs])
        (use 1(2,5,9) in \<open>auto simp: NewTransition_Inr\<close>)
  qed
qed

lemma NewChildOutcome_Inr:
  assumes "NewChildOutcome spec = Inr t"
  obtains step p e where
    "definitionStep (xo_Definition spec) (xo_StepName spec) StepChild = Some step"
    "in_children (xo_Instance spec) (xo_StepName spec) = Some p" "in_status (xo_Instance spec) = StatusRunning"
    "childTerminalOutcomeAllowed (cp_status p)" "cp_childID p = xo_ChildID spec"
    "blen (xo_Result spec) \<le> unat (st_ResultLimit step)"
    "\<not> Before (xo_CompletedAt spec) (in_updatedAt (xo_Instance spec))"
    "NewHistoryEvent (zero_HistoryEventSpec\<lparr>hs_Sequence := in_sequence (xo_Instance spec) + 1,
       hs_InstanceID := in_id (xo_Instance spec),
       hs_Kind := (if xo_FailureCode spec \<noteq> [] then EventChildFailed else EventChildCompleted),
       hs_OccurredAt := xo_CompletedAt spec, hs_SuccessorID := xo_ChildID spec,
       hs_StepName := xo_StepName spec, hs_Code := xo_FailureCode spec, hs_Data := xo_Result spec\<rparr>) = Inr e"
    "NewTransition \<lparr>ts_ID = xo_TransitionID spec, ts_InstanceID = in_id (xo_Instance spec),
       ts_ExpectedSequence = in_sequence (xo_Instance spec), ts_Definition = in_definition (xo_Instance spec),
       ts_Events = [e], ts_Work = []\<rparr> = Inr t"
  using assms unfolding NewChildOutcome_def Let_def
  by (simp split: option.splits if_split_asm sum.splits)

interpretation child_outcome: plan_constructor NewChildOutcome xo_Instance xo_Definition "\<lambda>_. True"
proof
  fix spec t
  assume "NewChildOutcome spec = Inr t"
  then show "plan_for (xo_Instance spec) t"
    by (rule NewChildOutcome_Inr) (auto dest!: NewHistoryEvent_fields(1) intro: plan_for_single(1))
next
  fix spec t and registry :: "Registry option"
  assume ok: "NewChildOutcome spec = Inr t" and lv: "live registry (xo_Instance spec) (xo_Definition spec)"
  let ?i = "xo_Instance spec"
  from ok show "\<exists>j. apply_all registry ?i (tr_events t) = Inr j \<and> in_pendingOperator j = OperatorNone"
  proof (rule NewChildOutcome_Inr, goal_cases)
    case (1 step p e)
    note f = NewHistoryEvent_fields [OF 1(8)]
    have "\<exists>k. replay_step registry ?i e k"
      by (rule child_replays [OF lv, of e step])
        (use 1(1-6) f in \<open>auto simp: child_kind_cases child_step_def child_progress_def split: if_splits\<close>)
    then obtain k where rs: "replay_step registry ?i e k" by blast
    show ?thesis
      by (rule single_plan_replays [OF lv 1(8) _ _ _ _ _ rs])
        (use 1(3,7,9) in \<open>auto simp: NewTransition_Inr\<close>)
  qed
qed

lemma NewChildStartAttempt_Inr:
  assumes "NewChildStartAttempt spec = Inr t"
  obtains dispatch step p e where
    "DecodeChildDispatch (pw_payload (wl_work (xt_Lease spec))) = Inr dispatch"
    "definitionStep (xt_Definition spec) (cd_stepName dispatch) StepChild = Some step"
    "in_children (xt_Instance spec) (cd_stepName dispatch) = Some p"
    "in_status (xt_Instance spec) = StatusRunning" "cp_childID p = cd_childID dispatch"
    "cp_status p = ChildScheduled \<or> (cp_status p = ChildStartRetryWaiting \<and>
       \<not> Before (canonicalTime (xt_StartedAt spec)) (cp_dueAt p))"
    "cd_attempt dispatch = cp_attempt p + 1" "cd_attempt dispatch \<le> rp_MaxAttempts (st_Retry step)"
    "\<not> Before (canonicalTime (xt_StartedAt spec)) (in_updatedAt (xt_Instance spec))"
    "NewHistoryEvent (zero_HistoryEventSpec\<lparr>hs_Sequence := in_sequence (xt_Instance spec) + 1,
       hs_InstanceID := in_id (xt_Instance spec), hs_Kind := EventChildStartAttempted,
       hs_OccurredAt := canonicalTime (xt_StartedAt spec), hs_SuccessorID := cd_childID dispatch,
       hs_StepName := cd_stepName dispatch, hs_Attempt := cd_attempt dispatch,
       hs_IdempotencyKey := cd_idempotencyKey dispatch,
       hs_DueAt := canonicalTime (Add (canonicalTime (xt_StartedAt spec)) (st_Timeout step))\<rparr>) = Inr e"
    "NewTransition \<lparr>ts_ID = xt_TransitionID spec, ts_InstanceID = in_id (xt_Instance spec),
       ts_ExpectedSequence = in_sequence (xt_Instance spec), ts_Definition = in_definition (xt_Instance spec),
       ts_Events = [e], ts_Work = []\<rparr> = Inr t"
proof -
  let ?dr = "DecodeChildDispatch (pw_payload (wl_work (xt_Lease spec)))"
  let ?d = "value_or zero_ChildDispatch ?dr"
  let ?s = "definitionStep (xt_Definition spec) (cd_stepName ?d) StepChild"
  let ?p = "lookup_zero zero_ChildProgress (in_children (xt_Instance spec)) (cd_stepName ?d)"
  from assms obtain e where g: "in_status (xt_Instance spec) = StatusRunning" "cp_childID ?p = cd_childID ?d"
      "cp_status ?p = ChildScheduled \<or> (cp_status ?p = ChildStartRetryWaiting \<and>
         \<not> Before (canonicalTime (xt_StartedAt spec)) (cp_dueAt ?p))"
      "cd_attempt ?d = cp_attempt ?p + 1" "\<not> Before (canonicalTime (xt_StartedAt spec)) (in_updatedAt (xt_Instance spec))"
    and mx: "cd_attempt ?d \<le> rp_MaxAttempts (st_Retry (case ?s of None \<Rightarrow> zero_StepSpec | Some s \<Rightarrow> s))"
    and e: "NewHistoryEvent (zero_HistoryEventSpec\<lparr>hs_Sequence := in_sequence (xt_Instance spec) + 1,
       hs_InstanceID := in_id (xt_Instance spec), hs_Kind := EventChildStartAttempted,
       hs_OccurredAt := canonicalTime (xt_StartedAt spec), hs_SuccessorID := cd_childID ?d,
       hs_StepName := cd_stepName ?d, hs_Attempt := cd_attempt ?d,
       hs_IdempotencyKey := cd_idempotencyKey ?d,
       hs_DueAt := canonicalTime (Add (canonicalTime (xt_StartedAt spec))
         (st_Timeout (case ?s of None \<Rightarrow> zero_StepSpec | Some s \<Rightarrow> s)))\<rparr>) = Inr e"
    and t: "NewTransition \<lparr>ts_ID = xt_TransitionID spec, ts_InstanceID = in_id (xt_Instance spec),
       ts_ExpectedSequence = in_sequence (xt_Instance spec), ts_Definition = in_definition (xt_Instance spec),
       ts_Events = [e], ts_Work = []\<rparr> = Inr t"
    unfolding NewChildStartAttempt_def Let_def
    by (simp split: if_split_asm sum.splits) (metis (no_types, lifting) not_less)
  have p: "in_children (xt_Instance spec) (cd_stepName ?d) = Some ?p"
    by (rule lookup_child_status) (use g(3) in auto)
  have pos: "cd_attempt ?d > 0"
    using event_ok_attempt [OF NewHistoryEvent_fields(1) [OF e]] NewHistoryEvent_fields [OF e] by simp
  then obtain d where d: "?dr = Inr d" by (cases ?dr) (auto simp: zero_ChildDispatch_def)
  obtain s where s: "?s = Some s"
    using mx pos by (cases ?s) (auto simp: zero_StepSpec_def zero_RetryPolicy_def)
  show thesis
    using that [of d s ?p e] g p mx e t unfolding d value_or_simps s [unfolded d value_or_simps] option.case by blast
qed

interpretation child_start: plan_constructor NewChildStartAttempt xt_Instance xt_Definition "\<lambda>_. True"
proof
  fix spec t
  assume "NewChildStartAttempt spec = Inr t"
  then show "plan_for (xt_Instance spec) t"
    by (rule NewChildStartAttempt_Inr) (auto dest!: NewHistoryEvent_fields(1) intro: plan_for_single(1))
next
  fix spec t and registry :: "Registry option"
  assume ok: "NewChildStartAttempt spec = Inr t" and lv: "live registry (xt_Instance spec) (xt_Definition spec)"
  let ?i = "xt_Instance spec"
  from ok show "\<exists>j. apply_all registry ?i (tr_events t) = Inr j \<and> in_pendingOperator j = OperatorNone"
  proof (rule NewChildStartAttempt_Inr, goal_cases)
    case (1 dispatch step p e)
    note f = NewHistoryEvent_fields [OF 1(10)]
    have "\<exists>k. replay_step registry ?i e k"
      by (rule child_replays [OF lv, of e step])
        (use 1(2-8) f in \<open>auto simp: child_kind_cases child_step_def child_progress_def child_start_allowed_def\<close>)
    then obtain k where rs: "replay_step registry ?i e k" by blast
    show ?thesis
      by (rule single_plan_replays [OF lv 1(10) _ _ _ _ _ rs])
        (use 1(4,9,11) in \<open>auto simp: NewTransition_Inr\<close>)
  qed
qed

lemma NewChildStartAttemptOutcome_Inr:
  assumes "NewChildStartAttemptOutcome spec = Inr t"
  obtains p e where
    "in_children (xa_Instance spec) (xa_StepName spec) = Some p" "in_status (xa_Instance spec) = StatusRunning"
    "cp_status p = ChildStartRunning" "cp_childID p = xa_ChildID spec" "cp_attempt p = xa_Attempt spec"
    "child_outcome_valid (xa_Outcome spec)"
    "\<not> Before (xa_OccurredAt spec) (in_updatedAt (xa_Instance spec))"
    "NewHistoryEvent (zero_HistoryEventSpec\<lparr>hs_Sequence := in_sequence (xa_Instance spec) + 1,
       hs_InstanceID := in_id (xa_Instance spec), hs_Kind := childStartEventKind (co_kind (xa_Outcome spec)),
       hs_OccurredAt := xa_OccurredAt spec, hs_SuccessorID := xa_ChildID spec,
       hs_StepName := xa_StepName spec, hs_Attempt := xa_Attempt spec,
       hs_Code := co_code (xa_Outcome spec), hs_Retryable := co_retryable (xa_Outcome spec)\<rparr>) = Inr e"
    "NewTransition \<lparr>ts_ID = xa_TransitionID spec, ts_InstanceID = in_id (xa_Instance spec),
       ts_ExpectedSequence = in_sequence (xa_Instance spec), ts_Definition = in_definition (xa_Instance spec),
       ts_Events = [e], ts_Work = []\<rparr> = Inr t"
proof -
  let ?p = "lookup_zero zero_ChildProgress (in_children (xa_Instance spec)) (xa_StepName spec)"
  from assms have st: "cp_status ?p = ChildStartRunning"
    unfolding NewChildStartAttemptOutcome_def Let_def by (simp split: if_split_asm)
  have p: "in_children (xa_Instance spec) (xa_StepName spec) = Some ?p"
    by (rule lookup_child_status) (simp add: st)
  show thesis
    using assms that [OF p] st unfolding NewChildStartAttemptOutcome_def Let_def
    by (simp split: if_split_asm sum.splits)
qed

text \<open>
  The constructor does not look the step up: its plan replays when the pinned definition still
  has the step, as it does unless a migration dropped it.
\<close>

interpretation child_start_outcome: plan_constructor NewChildStartAttemptOutcome xa_Instance xa_Definition
  "\<lambda>s. definitionStep (xa_Definition s) (xa_StepName s) StepChild \<noteq> None"
proof
  fix spec t
  assume "NewChildStartAttemptOutcome spec = Inr t"
  then show "plan_for (xa_Instance spec) t"
    by (rule NewChildStartAttemptOutcome_Inr) (auto dest!: NewHistoryEvent_fields(1) intro: plan_for_single(1))
next
  fix spec t and registry :: "Registry option"
  assume ok: "NewChildStartAttemptOutcome spec = Inr t" and lv: "live registry (xa_Instance spec) (xa_Definition spec)"
    and adm: "definitionStep (xa_Definition spec) (xa_StepName spec) StepChild \<noteq> None"
  let ?i = "xa_Instance spec"
  from adm obtain step where step: "definitionStep (xa_Definition spec) (xa_StepName spec) StepChild = Some step" by blast
  from ok show "\<exists>j. apply_all registry ?i (tr_events t) = Inr j \<and> in_pendingOperator j = OperatorNone"
  proof (rule NewChildStartAttemptOutcome_Inr, goal_cases)
    case (1 p e)
    note f = NewHistoryEvent_fields [OF 1(8)]
    have k: "childStartEventKind (co_kind (xa_Outcome spec)) \<in>
        {EventChildStarted, EventChildStartFailed, EventChildStartUnknown}"
      by (cases "co_kind (xa_Outcome spec)") (simp_all add: childStartEventKind_def)
    have "\<exists>k. replay_step registry ?i e k"
      by (rule child_replays [OF lv, of e step])
        (use step 1(1-5) f k in \<open>auto simp: child_kind_cases child_step_def child_progress_def\<close>)
    then obtain j where rs: "replay_step registry ?i e j" by blast
    show ?thesis
      by (rule single_plan_replays [OF lv 1(8) _ _ _ _ _ rs])
        (use 1(2,7,9) k in \<open>auto simp: NewTransition_Inr\<close>)
  qed
qed

lemma NewChildStartRetry_Inr:
  assumes "NewChildStartRetry spec = Inr t"
  obtains step p e w where
    "definitionStep (xy_Definition spec) (xy_StepName spec) StepChild = Some step"
    "in_children (xy_Instance spec) (xy_StepName spec) = Some p" "in_status (xy_Instance spec) = StatusRunning"
    "cp_status p = ChildStartFailedStatus" "cp_retryable p" "\<not> rp_MaxAttempts (st_Retry step) \<le> cp_attempt p"
    "\<not> Before (xy_ScheduledAt spec) (in_updatedAt (xy_Instance spec))"
    "NewHistoryEvent (zero_HistoryEventSpec\<lparr>hs_Sequence := in_sequence (xy_Instance spec) + 1,
       hs_InstanceID := in_id (xy_Instance spec), hs_Kind := EventChildStartRetryScheduled,
       hs_OccurredAt := xy_ScheduledAt spec, hs_SuccessorID := cp_childID p,
       hs_StepName := xy_StepName spec, hs_Attempt := cp_attempt p,
       hs_DueAt := canonicalTime (Add (xy_ScheduledAt spec) (retryDelay (st_Retry step) (cp_attempt p)))\<rparr>) = Inr e"
    "work_valid w"
    "NewTransition \<lparr>ts_ID = xy_TransitionID spec, ts_InstanceID = in_id (xy_Instance spec),
       ts_ExpectedSequence = in_sequence (xy_Instance spec), ts_Definition = in_definition (xy_Instance spec),
       ts_Events = [e], ts_Work = [w]\<rparr> = Inr t"
proof -
  let ?s = "definitionStep (xy_Definition spec) (xy_StepName spec) StepChild"
  let ?p = "lookup_zero zero_ChildProgress (in_children (xy_Instance spec)) (xy_StepName spec)"
  from assms have st: "cp_status ?p = ChildStartFailedStatus"
      and mx: "\<not> rp_MaxAttempts (st_Retry (case ?s of None \<Rightarrow> zero_StepSpec | Some s \<Rightarrow> s)) \<le> cp_attempt ?p"
    unfolding NewChildStartRetry_def Let_def by (simp_all split: if_split_asm)
  have p: "in_children (xy_Instance spec) (xy_StepName spec) = Some ?p"
    by (rule lookup_child_status) (simp add: st)
  obtain s where s: "?s = Some s"
    using mx by (cases ?s) (auto simp: zero_StepSpec_def zero_RetryPolicy_def)
  show thesis
    using assms that [OF s p] st unfolding NewChildStartRetry_def Let_def
    by (simp add: s split: if_split_asm sum.splits) (use NewPendingWork_canonical in blast)
qed

interpretation child_retry: plan_constructor NewChildStartRetry xy_Instance xy_Definition "\<lambda>_. True"
proof
  fix spec t
  assume "NewChildStartRetry spec = Inr t"
  then show "plan_for (xy_Instance spec) t"
    by (rule NewChildStartRetry_Inr) (auto dest!: NewHistoryEvent_fields(1) intro: plan_for_single(1))
next
  fix spec t and registry :: "Registry option"
  assume ok: "NewChildStartRetry spec = Inr t" and lv: "live registry (xy_Instance spec) (xy_Definition spec)"
  let ?i = "xy_Instance spec"
  from ok show "\<exists>j. apply_all registry ?i (tr_events t) = Inr j \<and> in_pendingOperator j = OperatorNone"
  proof (rule NewChildStartRetry_Inr, goal_cases)
    case (1 step p e w)
    note f = NewHistoryEvent_fields [OF 1(8)]
    have "\<exists>k. replay_step registry ?i e k"
      by (rule child_replays [OF lv, of e step])
        (use 1(1-6) f in \<open>auto simp: child_kind_cases child_step_def child_progress_def canonicalTime_Add\<close>)
    then obtain j where rs: "replay_step registry ?i e j" by blast
    show ?thesis
      by (rule single_plan_replays [OF lv 1(8) _ _ _ _ _ rs])
        (use 1(3,7,10) in \<open>auto simp: NewTransition_Inr\<close>)
  qed
qed

end
