(* ===== verification/Wait_Transition.thy ===== *)
theory Wait_Transition
  imports Plan
begin

text \<open>
  Timer and signal constructors (wait\_transition.go). They take the instance identity and the
  expected sequence instead of the replayed instance and check nothing about its state; the
  optimistic commit and replay decide. Every error branch returns \<open>ErrInvalidWait\<close>.
\<close>

record TimerScheduleSpec =
  ti_TransitionID :: string
  ti_WorkID :: string
  ti_InstanceID :: string
  ti_ExpectedSequence :: uint64
  ti_Definition :: Definition
  ti_StepName :: string
  ti_ScheduledAt :: gotime
  ti_Deadline :: gotime
  ti_TenantID :: string
  ti_CorrelationID :: string

definition NewTimerSchedule :: "TimerScheduleSpec \<Rightarrow> Transition result" where
  "NewTimerSchedule spec =
     (case definitionStep (ti_Definition spec) (ti_StepName spec) StepTimer of
        None \<Rightarrow> Inl ErrInvalidWait
      | Some step \<Rightarrow>
          if IsZero (ti_ScheduledAt spec) then Inl ErrInvalidWait
          else
            let scheduledAt = canonicalTime (ti_ScheduledAt spec);
                dueAt = canonicalTime (Add scheduledAt (st_Timeout step))
            in case NewHistoryEvent (zero_HistoryEventSpec\<lparr>
                     hs_Sequence := ti_ExpectedSequence spec + 1, hs_InstanceID := ti_InstanceID spec,
                     hs_Kind := EventTimerScheduled, hs_OccurredAt := scheduledAt,
                     hs_StepName := ti_StepName spec, hs_DueAt := dueAt\<rparr>) of
                 Inl _ \<Rightarrow> Inl ErrInvalidWait
               | Inr event \<Rightarrow>
                   (case NewPendingWork \<lparr>ws_ID = ti_WorkID spec, ws_Kind = WorkTimer,
                            ws_InstanceID = ti_InstanceID spec, ws_Sequence = ev_sequence event,
                            ws_AvailableAt = dueAt, ws_Deadline = ti_Deadline spec,
                            ws_Payload = Some (ti_StepName spec), ws_TenantID = ti_TenantID spec,
                            ws_CorrelationID = ti_CorrelationID spec\<rparr> of
                      Inl _ \<Rightarrow> Inl ErrInvalidWait
                    | Inr work \<Rightarrow>
                        (case NewTransition \<lparr>ts_ID = ti_TransitionID spec,
                                 ts_InstanceID = ti_InstanceID spec,
                                 ts_ExpectedSequence = ti_ExpectedSequence spec,
                                 ts_Definition = def_Reference (ti_Definition spec),
                                 ts_Events = [event], ts_Work = [work]\<rparr> of
                           Inl _ \<Rightarrow> Inl ErrInvalidWait
                         | Inr transition \<Rightarrow> Inr transition)))"

record TimerFireSpec =
  tf_TransitionID :: string
  tf_Lease :: WorkLease
  tf_ExpectedSequence :: uint64
  tf_Definition :: Definition
  tf_FiredAt :: gotime

definition NewTimerFire :: "TimerFireSpec \<Rightarrow> Transition result" where
  "NewTimerFire spec =
     (let lease = tf_Lease spec; work = wl_work lease; stepName = bstr (pw_payload work);
          firedAt = canonicalTime (tf_FiredAt spec)
      in if \<not> lease_Valid lease \<or> pw_kind work \<noteq> WorkTimer then Inl ErrInvalidWait
         else if definitionStep (tf_Definition spec) stepName StepTimer = None \<or>
                 tf_ExpectedSequence spec < pw_sequence work then Inl ErrInvalidWait
         else if Before firedAt (pw_availableAt work) \<or> \<not> Before firedAt (pw_deadline work)
         then Inl ErrInvalidWait
         else case NewHistoryEvent (zero_HistoryEventSpec\<lparr>
                  hs_Sequence := tf_ExpectedSequence spec + 1, hs_InstanceID := pw_instanceID work,
                  hs_Kind := EventTimerFired, hs_OccurredAt := firedAt, hs_StepName := stepName\<rparr>) of
             Inl _ \<Rightarrow> Inl ErrInvalidWait
           | Inr event \<Rightarrow>
               (case NewTransition \<lparr>ts_ID = tf_TransitionID spec,
                        ts_InstanceID = pw_instanceID work,
                        ts_ExpectedSequence = tf_ExpectedSequence spec,
                        ts_Definition = def_Reference (tf_Definition spec), ts_Events = [event],
                        ts_Work = []\<rparr> of
                  Inl _ \<Rightarrow> Inl ErrInvalidWait
                | Inr transition \<Rightarrow> Inr transition))"

record SignalAcceptanceSpec =
  sg_InstanceID :: string
  sg_ExpectedSequence :: uint64
  sg_Definition :: Definition
  sg_StepName :: string
  sg_SignalID :: string
  sg_ReceivedAt :: gotime
  sg_Payload :: bytes

definition NewSignalAcceptance :: "SignalAcceptanceSpec \<Rightarrow> Transition result" where
  "NewSignalAcceptance spec =
     (case definitionStep (sg_Definition spec) (sg_StepName spec) StepSignal of
        None \<Rightarrow> Inl ErrInvalidWait
      | Some step \<Rightarrow>
          if blen (sg_Payload spec) > unat (st_InputLimit step) then Inl ErrInvalidWait
          else case NewHistoryEvent (zero_HistoryEventSpec\<lparr>
                   hs_Sequence := sg_ExpectedSequence spec + 1, hs_InstanceID := sg_InstanceID spec,
                   hs_Kind := EventSignalReceived, hs_OccurredAt := sg_ReceivedAt spec,
                   hs_StepName := sg_StepName spec, hs_IdempotencyKey := sg_SignalID spec,
                   hs_Data := sg_Payload spec\<rparr>) of
              Inl _ \<Rightarrow> Inl ErrInvalidWait
            | Inr event \<Rightarrow>
                (case NewTransition \<lparr>ts_ID = sg_SignalID spec, ts_InstanceID = sg_InstanceID spec,
                         ts_ExpectedSequence = sg_ExpectedSequence spec,
                         ts_Definition = def_Reference (sg_Definition spec), ts_Events = [event],
                         ts_Work = []\<rparr> of
                   Inl _ \<Rightarrow> Inl ErrInvalidWait
                 | Inr transition \<Rightarrow> Inr transition))"

section \<open>Accepted plans\<close>

text \<open>
  A wait plan is built for one position of one instance. It replays when the instance is there and
  in the state the event needs.
\<close>

definition timer_schedule_ready :: "TimerScheduleSpec \<times> Instance \<Rightarrow> bool" where
  "timer_schedule_ready s = (case s of (spec, i) \<Rightarrow>
     ti_InstanceID spec = in_id i \<and> ti_ExpectedSequence spec = in_sequence i \<and>
     def_Reference (ti_Definition spec) = in_definition i \<and> in_status i = StatusRunning \<and>
     in_timers i (ti_StepName spec) = None \<and> \<not> Before (ti_ScheduledAt spec) (in_updatedAt i))"

lemma NewTimerSchedule_Inr:
  assumes "NewTimerSchedule spec = Inr t"
  obtains step e w where
    "definitionStep (ti_Definition spec) (ti_StepName spec) StepTimer = Some step"
    "NewHistoryEvent (zero_HistoryEventSpec\<lparr>hs_Sequence := ti_ExpectedSequence spec + 1,
       hs_InstanceID := ti_InstanceID spec, hs_Kind := EventTimerScheduled,
       hs_OccurredAt := canonicalTime (ti_ScheduledAt spec), hs_StepName := ti_StepName spec,
       hs_DueAt := canonicalTime (Add (canonicalTime (ti_ScheduledAt spec)) (st_Timeout step))\<rparr>) = Inr e"
    "work_valid w"
    "NewTransition \<lparr>ts_ID = ti_TransitionID spec, ts_InstanceID = ti_InstanceID spec,
       ts_ExpectedSequence = ti_ExpectedSequence spec, ts_Definition = def_Reference (ti_Definition spec),
       ts_Events = [e], ts_Work = [w]\<rparr> = Inr t"
  using assms unfolding NewTimerSchedule_def Let_def
  by (simp split: option.splits if_split_asm sum.splits) (use NewPendingWork_canonical in blast)

interpretation timer_schedule: plan_constructor "\<lambda>s. NewTimerSchedule (fst s)" snd
  "\<lambda>s. ti_Definition (fst s)" timer_schedule_ready
proof
  fix s t
  assume ok: "NewTimerSchedule (fst s) = Inr t" and r: "timer_schedule_ready s"
  from ok show "plan_for (snd s) t"
    by (rule NewTimerSchedule_Inr)
      (use r in \<open>auto simp: timer_schedule_ready_def split: prod.splits dest!: NewHistoryEvent_fields(1)
        intro: plan_for_single(1)\<close>)
next
  fix s t and registry :: "Registry option"
  assume ok: "NewTimerSchedule (fst s) = Inr t" and r: "timer_schedule_ready s"
    and lv: "live registry (snd s) (ti_Definition (fst s))"
  obtain spec i where s: "s = (spec, i)" by (cases s)
  from ok show "\<exists>j. apply_all registry (snd s) (tr_events t) = Inr j \<and> in_pendingOperator j = OperatorNone"
  proof (rule NewTimerSchedule_Inr, goal_cases)
    case (1 step e w)
    note f = NewHistoryEvent_fields [OF 1(2)]
    have "\<exists>k. applyWait registry i e = Inr k"
      using 1(1) r lv f by (simp add: applyWait_schedule s timer_schedule_ready_def live_def)
    then obtain k where rs: "replay_step registry (snd s) e k"
      by (auto simp: s intro: replay_step.wait)
    show ?thesis
      by (rule single_plan_replays [OF lv 1(2) _ _ _ _ _ rs])
        (use 1(4) r lv in \<open>auto simp: NewTransition_Inr s timer_schedule_ready_def live_def canonical_before\<close>)
  qed
qed

definition timer_fire_ready :: "TimerFireSpec \<times> Instance \<Rightarrow> bool" where
  "timer_fire_ready s = (case s of (spec, i) \<Rightarrow>
     pw_instanceID (wl_work (tf_Lease spec)) = in_id i \<and> tf_ExpectedSequence spec = in_sequence i \<and>
     def_Reference (tf_Definition spec) = in_definition i \<and> in_status i = StatusRunning \<and>
     \<not> Before (tf_FiredAt spec) (in_updatedAt i) \<and>
     (\<exists>p. in_timers i (bstr (pw_payload (wl_work (tf_Lease spec)))) = Some p \<and> tp_status p = TimerWaiting \<and>
        tp_dueAt p = pw_availableAt (wl_work (tf_Lease spec))))"

lemma NewTimerFire_Inr:
  assumes "NewTimerFire spec = Inr t"
  obtains step e where
    "definitionStep (tf_Definition spec) (bstr (pw_payload (wl_work (tf_Lease spec)))) StepTimer = Some step"
    "\<not> Before (canonicalTime (tf_FiredAt spec)) (pw_availableAt (wl_work (tf_Lease spec)))"
    "NewHistoryEvent (zero_HistoryEventSpec\<lparr>hs_Sequence := tf_ExpectedSequence spec + 1,
       hs_InstanceID := pw_instanceID (wl_work (tf_Lease spec)), hs_Kind := EventTimerFired,
       hs_OccurredAt := canonicalTime (tf_FiredAt spec),
       hs_StepName := bstr (pw_payload (wl_work (tf_Lease spec)))\<rparr>) = Inr e"
    "NewTransition \<lparr>ts_ID = tf_TransitionID spec, ts_InstanceID = pw_instanceID (wl_work (tf_Lease spec)),
       ts_ExpectedSequence = tf_ExpectedSequence spec, ts_Definition = def_Reference (tf_Definition spec),
       ts_Events = [e], ts_Work = []\<rparr> = Inr t"
  using assms unfolding NewTimerFire_def Let_def
  by (simp split: if_split_asm sum.splits)

interpretation timer_fire: plan_constructor "\<lambda>s. NewTimerFire (fst s)" snd
  "\<lambda>s. tf_Definition (fst s)" timer_fire_ready
proof
  fix s t
  assume ok: "NewTimerFire (fst s) = Inr t" and r: "timer_fire_ready s"
  from ok show "plan_for (snd s) t"
    by (rule NewTimerFire_Inr)
      (use r in \<open>auto simp: timer_fire_ready_def split: prod.splits dest!: NewHistoryEvent_fields(1)
        intro: plan_for_single(1)\<close>)
next
  fix s t and registry :: "Registry option"
  assume ok: "NewTimerFire (fst s) = Inr t" and r: "timer_fire_ready s"
    and lv: "live registry (snd s) (tf_Definition (fst s))"
  obtain spec i where s: "s = (spec, i)" by (cases s)
  from ok show "\<exists>j. apply_all registry (snd s) (tr_events t) = Inr j \<and> in_pendingOperator j = OperatorNone"
  proof (rule NewTimerFire_Inr, goal_cases)
    case (1 step e)
    note f = NewHistoryEvent_fields [OF 1(3)]
    have "\<exists>k. applyWait registry i e = Inr k"
      using 1(1,2) r lv f by (auto simp: applyWait_fire s timer_fire_ready_def live_def)
    then obtain k where rs: "replay_step registry (snd s) e k"
      by (auto simp: s intro: replay_step.wait)
    show ?thesis
      by (rule single_plan_replays [OF lv 1(3) _ _ _ _ _ rs])
        (use 1(4) r lv in \<open>auto simp: NewTransition_Inr s timer_fire_ready_def live_def canonical_before\<close>)
  qed
qed

definition signal_ready :: "SignalAcceptanceSpec \<times> Instance \<Rightarrow> bool" where
  "signal_ready s = (case s of (spec, i) \<Rightarrow>
     sg_InstanceID spec = in_id i \<and> sg_ExpectedSequence spec = in_sequence i \<and>
     def_Reference (sg_Definition spec) = in_definition i \<and>
     (in_status i = StatusRunning \<or> in_status i = StatusPaused) \<and>
     \<not> Before (sg_ReceivedAt spec) (in_updatedAt i) \<and> in_signals i (sg_StepName spec) = None)"

lemma NewSignalAcceptance_Inr:
  assumes "NewSignalAcceptance spec = Inr t"
  obtains step e where
    "definitionStep (sg_Definition spec) (sg_StepName spec) StepSignal = Some step"
    "blen (sg_Payload spec) \<le> unat (st_InputLimit step)"
    "NewHistoryEvent (zero_HistoryEventSpec\<lparr>hs_Sequence := sg_ExpectedSequence spec + 1,
       hs_InstanceID := sg_InstanceID spec, hs_Kind := EventSignalReceived,
       hs_OccurredAt := sg_ReceivedAt spec, hs_StepName := sg_StepName spec,
       hs_IdempotencyKey := sg_SignalID spec, hs_Data := sg_Payload spec\<rparr>) = Inr e"
    "NewTransition \<lparr>ts_ID = sg_SignalID spec, ts_InstanceID = sg_InstanceID spec,
       ts_ExpectedSequence = sg_ExpectedSequence spec, ts_Definition = def_Reference (sg_Definition spec),
       ts_Events = [e], ts_Work = []\<rparr> = Inr t"
  using assms unfolding NewSignalAcceptance_def
  by (simp split: option.splits if_split_asm sum.splits)

interpretation signal: plan_constructor "\<lambda>s. NewSignalAcceptance (fst s)" snd
  "\<lambda>s. sg_Definition (fst s)" signal_ready
proof
  fix s t
  assume ok: "NewSignalAcceptance (fst s) = Inr t" and r: "signal_ready s"
  from ok show "plan_for (snd s) t"
    by (rule NewSignalAcceptance_Inr)
      (use r in \<open>auto simp: signal_ready_def split: prod.splits dest!: NewHistoryEvent_fields(1)
        intro: plan_for_single(1)\<close>)
next
  fix s t and registry :: "Registry option"
  assume ok: "NewSignalAcceptance (fst s) = Inr t" and r: "signal_ready s"
    and lv: "live registry (snd s) (sg_Definition (fst s))"
  obtain spec i where s: "s = (spec, i)" by (cases s)
  from ok show "\<exists>j. apply_all registry (snd s) (tr_events t) = Inr j \<and> in_pendingOperator j = OperatorNone"
  proof (rule NewSignalAcceptance_Inr, goal_cases)
    case (1 step e)
    note f = NewHistoryEvent_fields [OF 1(3)]
    have "\<exists>k. applyWait registry i e = Inr k"
      using 1(1,2) r lv f by (auto simp: applyWait_signal s signal_ready_def live_def signal_step_def)
    then obtain k where rs: "replay_step registry (snd s) e k"
      by (auto simp: s intro: replay_step.wait)
    show ?thesis
      by (rule single_plan_replays [OF lv 1(3) _ _ _ _ _ rs])
        (use 1(4) r lv in \<open>auto simp: NewTransition_Inr s signal_ready_def\<close>)
  qed
qed

end
