(* ===== verification/Compensation_Transition.thy ===== *)
theory Compensation_Transition
  imports Activity_Transition
begin

text \<open>
  Compensation transition constructors (compensation\_transition.go). The dispatch struct and its
  JSON document have the fields and tags of the activity dispatch, so the model shares the record
  and its codec. Every error branch returns \<open>ErrInvalidCompensation\<close>.
\<close>

definition MaxCompensationDispatchBytes :: nat where "MaxCompensationDispatchBytes = 2 ^ 10"

type_synonym CompensationDispatch = ActivityDispatch

definition encodeCompensationDispatch :: "string \<Rightarrow> uint32 \<Rightarrow> string \<Rightarrow> bytes" where
  "encodeCompensationDispatch stepName attempt idempotencyKey =
     Some (marshal (Some (dispatch_json \<lparr>ad_stepName = stepName, ad_attempt = attempt,
       ad_idempotencyKey = idempotencyKey\<rparr>)))"

definition DecodeCompensationDispatch :: "bytes \<Rightarrow> CompensationDispatch result" where
  "DecodeCompensationDispatch payload =
     (if blen payload = 0 then Inl ErrInvalidCompensation
      else if blen payload > MaxCompensationDispatchBytes then Inl ErrInvalidCompensation
      else case decode_struct dispatch_member zero_dispatch (bstr payload) of
        None \<Rightarrow> Inl ErrInvalidCompensation
      | Some dispatch \<Rightarrow>
          if \<not> stableName (ad_stepName dispatch) \<or> ad_attempt dispatch = 0 \<or>
             \<not> instanceIDPattern (ad_idempotencyKey dispatch)
          then Inl ErrInvalidCompensation else Inr dispatch)"

section \<open>Constructors\<close>

record CompensationScheduleSpec =
  ks_TransitionID :: string
  ks_WorkID :: string
  ks_Instance :: Instance
  ks_Definition :: Definition
  ks_StepName :: string
  ks_Attempt :: uint32
  ks_IdempotencyKey :: string
  ks_ScheduledAt :: gotime
  ks_Deadline :: gotime
  ks_Input :: bytes
  ks_TenantID :: string
  ks_CorrelationID :: string

definition compensating :: "InstanceStatus \<Rightarrow> bool" where
  "compensating status \<longleftrightarrow> status = StatusRunning \<or> status = StatusCancelling"

definition NewCompensationSchedule :: "CompensationScheduleSpec \<Rightarrow> Transition result" where
  "NewCompensationSchedule spec =
     (let inst = ks_Instance spec in
      case definitionActivityStep (ks_Definition spec) (ks_StepName spec) of
        None \<Rightarrow> Inl ErrInvalidCompensation
      | Some step \<Rightarrow>
          if st_Compensation step = None \<or> \<not> compensating (in_status inst) \<or>
             def_Reference (ks_Definition spec) \<noteq> in_definition inst \<or>
             \<not> has_key (in_activities inst) (ks_StepName spec) \<or>
             ap_status (lookup_zero zero_ActivityProgress (in_activities inst) (ks_StepName spec))
               \<noteq> ActivityProgressSucceeded \<or>
             has_key (in_compensations inst) (ks_StepName spec) \<or> ks_Attempt spec \<noteq> 1 \<or>
             blen (ks_Input spec) > unat (st_InputLimit step) \<or>
             \<not> instanceIDPattern (ks_IdempotencyKey spec) \<or>
             Before (ks_ScheduledAt spec) (in_updatedAt inst)
          then Inl ErrInvalidCompensation
          else case NewHistoryEvent (zero_HistoryEventSpec\<lparr>hs_Sequence := in_sequence inst + 1,
                   hs_InstanceID := in_id inst, hs_Kind := EventCompensationScheduled,
                   hs_OccurredAt := ks_ScheduledAt spec, hs_StepName := ks_StepName spec,
                   hs_Data := ks_Input spec\<rparr>) of
              Inl _ \<Rightarrow> Inl ErrInvalidCompensation
            | Inr event \<Rightarrow>
                (case NewPendingWork \<lparr>ws_ID = ks_WorkID spec, ws_Kind = WorkCompensation,
                         ws_InstanceID = in_id inst, ws_Sequence = ev_sequence event,
                         ws_AvailableAt = ks_ScheduledAt spec, ws_Deadline = ks_Deadline spec,
                         ws_Payload = encodeCompensationDispatch (ks_StepName spec) (ks_Attempt spec)
                           (ks_IdempotencyKey spec),
                         ws_TenantID = ks_TenantID spec, ws_CorrelationID = ks_CorrelationID spec\<rparr> of
                   Inl _ \<Rightarrow> Inl ErrInvalidCompensation
                 | Inr work \<Rightarrow>
                     (case NewTransition \<lparr>ts_ID = ks_TransitionID spec, ts_InstanceID = in_id inst,
                              ts_ExpectedSequence = in_sequence inst,
                              ts_Definition = in_definition inst, ts_Events = [event],
                              ts_Work = [work]\<rparr> of
                        Inl _ \<Rightarrow> Inl ErrInvalidCompensation
                      | Inr transition \<Rightarrow> Inr transition)))"

record CompensationAttemptStartSpec =
  kt_TransitionID :: string
  kt_Lease :: WorkLease
  kt_Instance :: Instance
  kt_Definition :: Definition
  kt_StartedAt :: gotime

definition NewCompensationAttemptStart :: "CompensationAttemptStartSpec \<Rightarrow> Transition result" where
  "NewCompensationAttemptStart spec =
     (let lease = kt_Lease spec; work = wl_work lease; inst = kt_Instance spec in
      if \<not> lease_Valid lease \<or> pw_kind work \<noteq> WorkCompensation then Inl ErrInvalidCompensation
      else case DecodeCompensationDispatch (pw_payload work) of
        Inl _ \<Rightarrow> Inl ErrInvalidCompensation
      | Inr dispatch \<Rightarrow>
          if in_sequence inst < pw_sequence work \<or> pw_instanceID work \<noteq> in_id inst
          then Inl ErrInvalidCompensation
          else case definitionActivityStep (kt_Definition spec) (ad_stepName dispatch) of
            None \<Rightarrow> Inl ErrInvalidCompensation
          | Some step \<Rightarrow>
              (case st_Compensation step of
                 None \<Rightarrow> Inl ErrInvalidCompensation
               | Some policy \<Rightarrow>
                   (case in_compensations inst (ad_stepName dispatch) of
                      None \<Rightarrow> Inl ErrInvalidCompensation
                    | Some progress \<Rightarrow>
                        let startedAt = canonicalTime (kt_StartedAt spec);
                            dueAt = canonicalTime (Add startedAt (cs_Timeout policy))
                        in if def_Reference (kt_Definition spec) \<noteq> in_definition inst \<or>
                              \<not> compensating (in_status inst) \<or>
                              (kp_status progress \<noteq> CompensationReady \<and>
                               kp_status progress \<noteq> CompensationRetryWaiting) \<or>
                              ad_attempt dispatch \<noteq> kp_attempt progress + 1 \<or>
                              ad_attempt dispatch > rp_MaxAttempts (cs_Retry policy) \<or>
                              Before startedAt (pw_availableAt work) \<or>
                              \<not> Before startedAt (pw_deadline work) \<or>
                              After dueAt (pw_deadline work) \<or>
                              Before startedAt (wl_claimedAt lease) \<or>
                              \<not> Before startedAt (wl_expiresAt lease) \<or>
                              Before startedAt (in_updatedAt inst) \<or>
                              (kp_status progress = CompensationRetryWaiting \<and>
                               Before startedAt (kp_dueAt progress))
                           then Inl ErrInvalidCompensation
                           else case NewHistoryEvent (zero_HistoryEventSpec\<lparr>
                                    hs_Sequence := in_sequence inst + 1,
                                    hs_InstanceID := pw_instanceID work,
                                    hs_Kind := EventCompensationAttemptStarted,
                                    hs_OccurredAt := startedAt, hs_StepName := ad_stepName dispatch,
                                    hs_Attempt := ad_attempt dispatch,
                                    hs_IdempotencyKey := ad_idempotencyKey dispatch,
                                    hs_DueAt := dueAt\<rparr>) of
                               Inl _ \<Rightarrow> Inl ErrInvalidCompensation
                             | Inr event \<Rightarrow>
                                 (case NewTransition \<lparr>ts_ID = kt_TransitionID spec,
                                          ts_InstanceID = pw_instanceID work,
                                          ts_ExpectedSequence = in_sequence inst,
                                          ts_Definition = in_definition inst,
                                          ts_Events = [event], ts_Work = []\<rparr> of
                                    Inl _ \<Rightarrow> Inl ErrInvalidCompensation
                                  | Inr transition \<Rightarrow> Inr transition))))"

fun compensationOutcomeEventKind :: "ActivityOutcomeKind \<Rightarrow> EventKind" where
  "compensationOutcomeEventKind ActivitySucceeded = EventCompensationAttemptSucceeded"
| "compensationOutcomeEventKind ActivityFailed = EventCompensationAttemptFailed"
| "compensationOutcomeEventKind ActivityUnknown = EventCompensationAttemptUnknown"
| "compensationOutcomeEventKind ActivityOutcomeInvalid = EventKindInvalid"

record CompensationAttemptOutcomeSpec =
  ko_TransitionID :: string
  ko_Instance :: Instance
  ko_Definition :: Definition
  ko_StepName :: string
  ko_Attempt :: uint32
  ko_OccurredAt :: gotime
  ko_Outcome :: ActivityOutcome

definition NewCompensationAttemptOutcome :: "CompensationAttemptOutcomeSpec \<Rightarrow> Transition result" where
  "NewCompensationAttemptOutcome spec =
     (let inst = ko_Instance spec; outcome = ko_Outcome spec in
      case definitionActivityStep (ko_Definition spec) (ko_StepName spec) of
        None \<Rightarrow> Inl ErrInvalidCompensation
      | Some step \<Rightarrow>
          (case st_Compensation step of
             None \<Rightarrow> Inl ErrInvalidCompensation
           | Some policy \<Rightarrow>
               (case in_compensations inst (ko_StepName spec) of
                  None \<Rightarrow> Inl ErrInvalidCompensation
                | Some progress \<Rightarrow>
                    if def_Reference (ko_Definition spec) \<noteq> in_definition inst \<or>
                       kp_status progress \<noteq> CompensationRunning \<or>
                       kp_attempt progress \<noteq> ko_Attempt spec \<or> \<not> outcome_valid outcome \<or>
                       blen (ao_data outcome) > unat (cs_ResultLimit policy) \<or>
                       Before (ko_OccurredAt spec) (in_updatedAt inst)
                    then Inl ErrInvalidCompensation
                    else case NewHistoryEvent (zero_HistoryEventSpec\<lparr>
                             hs_Sequence := in_sequence inst + 1, hs_InstanceID := in_id inst,
                             hs_Kind := compensationOutcomeEventKind (ao_kind outcome),
                             hs_OccurredAt := ko_OccurredAt spec, hs_StepName := ko_StepName spec,
                             hs_Attempt := ko_Attempt spec, hs_Code := ao_code outcome,
                             hs_Retryable := ao_retryable outcome, hs_Data := ao_data outcome\<rparr>) of
                        Inl _ \<Rightarrow> Inl ErrInvalidCompensation
                      | Inr event \<Rightarrow>
                          (case NewTransition \<lparr>ts_ID = ko_TransitionID spec,
                                   ts_InstanceID = in_id inst,
                                   ts_ExpectedSequence = in_sequence inst,
                                   ts_Definition = in_definition inst, ts_Events = [event],
                                   ts_Work = []\<rparr> of
                             Inl _ \<Rightarrow> Inl ErrInvalidCompensation
                           | Inr transition \<Rightarrow> Inr transition))))"

record CompensationRetrySpec =
  ky_TransitionID :: string
  ky_WorkID :: string
  ky_Instance :: Instance
  ky_Definition :: Definition
  ky_StepName :: string
  ky_IdempotencyKey :: string
  ky_ScheduledAt :: gotime
  ky_Deadline :: gotime
  ky_TenantID :: string
  ky_CorrelationID :: string

definition NewCompensationRetry :: "CompensationRetrySpec \<Rightarrow> Transition result" where
  "NewCompensationRetry spec =
     (let inst = ky_Instance spec in
      case definitionActivityStep (ky_Definition spec) (ky_StepName spec) of
        None \<Rightarrow> Inl ErrInvalidCompensation
      | Some step \<Rightarrow>
          (case st_Compensation step of
             None \<Rightarrow> Inl ErrInvalidCompensation
           | Some policy \<Rightarrow>
               (case in_compensations inst (ky_StepName spec) of
                  None \<Rightarrow> Inl ErrInvalidCompensation
                | Some progress \<Rightarrow>
                    if def_Reference (ky_Definition spec) \<noteq> in_definition inst \<or>
                       \<not> compensating (in_status inst) \<or>
                       kp_status progress \<noteq> CompensationFailed \<or> \<not> kp_retryable progress \<or>
                       kp_attempt progress \<ge> rp_MaxAttempts (cs_Retry policy) \<or>
                       \<not> instanceIDPattern (ky_IdempotencyKey spec) \<or>
                       Before (ky_ScheduledAt spec) (in_updatedAt inst)
                    then Inl ErrInvalidCompensation
                    else
                      let dueAt = canonicalTime (Add (ky_ScheduledAt spec)
                            (retryDelay (cs_Retry policy) (kp_attempt progress)))
                      in case NewHistoryEvent (zero_HistoryEventSpec\<lparr>
                               hs_Sequence := in_sequence inst + 1, hs_InstanceID := in_id inst,
                               hs_Kind := EventCompensationRetryScheduled,
                               hs_OccurredAt := ky_ScheduledAt spec, hs_StepName := ky_StepName spec,
                               hs_Attempt := kp_attempt progress, hs_DueAt := dueAt\<rparr>) of
                           Inl _ \<Rightarrow> Inl ErrInvalidCompensation
                         | Inr event \<Rightarrow>
                             (case NewPendingWork \<lparr>ws_ID = ky_WorkID spec,
                                      ws_Kind = WorkCompensation, ws_InstanceID = in_id inst,
                                      ws_Sequence = ev_sequence event, ws_AvailableAt = dueAt,
                                      ws_Deadline = ky_Deadline spec,
                                      ws_Payload = encodeCompensationDispatch (ky_StepName spec)
                                        (kp_attempt progress + 1) (ky_IdempotencyKey spec),
                                      ws_TenantID = ky_TenantID spec,
                                      ws_CorrelationID = ky_CorrelationID spec\<rparr> of
                                Inl _ \<Rightarrow> Inl ErrInvalidCompensation
                              | Inr work \<Rightarrow>
                                  (case NewTransition \<lparr>ts_ID = ky_TransitionID spec,
                                           ts_InstanceID = in_id inst,
                                           ts_ExpectedSequence = in_sequence inst,
                                           ts_Definition = in_definition inst,
                                           ts_Events = [event], ts_Work = [work]\<rparr> of
                                     Inl _ \<Rightarrow> Inl ErrInvalidCompensation
                                   | Inr transition \<Rightarrow> Inr transition)))))"

section \<open>Accepted plans\<close>

lemma DecodeCompensationDispatch_encode:
  assumes "stableName n" "a \<noteq> 0" "instanceIDPattern key"
  shows "DecodeCompensationDispatch (encodeCompensationDispatch n a key) =
    Inr \<lparr>ad_stepName = n, ad_attempt = a, ad_idempotencyKey = key\<rparr>"
proof -
  have same: "encodeCompensationDispatch n a key = encodeActivityDispatch n a key"
    by (simp add: encodeCompensationDispatch_def encodeActivityDispatch_def)
  show ?thesis
    using DecodeActivityDispatch_encode [OF assms]
    by (auto simp: same DecodeActivityDispatch_def DecodeCompensationDispatch_def
        MaxActivityDispatchBytes_def MaxCompensationDispatchBytes_def split: if_splits option.splits)
qed

lemma compensating_live: "compensating s \<Longrightarrow> \<not> terminalStatus s"
  by (auto simp: compensating_def)

text \<open>A compensation event replays on an instance whose definition has the policy.\<close>

lemma compensation_replays:
  assumes "live registry i d" "definitionActivityStep d (ev_stepName e) = Some step"
    "st_Compensation step = Some policy" "compensation_kind (ev_kind e)"
    "ev_kind e = EventCompensationScheduled \<Longrightarrow> compensation_admitted i (ev_stepName e)"
    "\<exists>k'. compensation_step policy (in_compensations i (ev_stepName e)) e k'"
  shows "\<exists>k. replay_step registry i e k"
  using assms replay_step.compensation [of e registry i step policy] by (auto simp: live_def)

lemma NewCompensationSchedule_Inr:
  assumes "NewCompensationSchedule spec = Inr t"
  obtains step policy p e w where
    "definitionActivityStep (ks_Definition spec) (ks_StepName spec) = Some step"
    "st_Compensation step = Some policy" "compensating (in_status (ks_Instance spec))"
    "in_activities (ks_Instance spec) (ks_StepName spec) = Some p" "ap_status p = ActivityProgressSucceeded"
    "in_compensations (ks_Instance spec) (ks_StepName spec) = None"
    "\<not> Before (ks_ScheduledAt spec) (in_updatedAt (ks_Instance spec))"
    "NewHistoryEvent (zero_HistoryEventSpec\<lparr>hs_Sequence := in_sequence (ks_Instance spec) + 1,
       hs_InstanceID := in_id (ks_Instance spec), hs_Kind := EventCompensationScheduled,
       hs_OccurredAt := ks_ScheduledAt spec, hs_StepName := ks_StepName spec, hs_Data := ks_Input spec\<rparr>) = Inr e"
    "work_valid w"
    "NewTransition \<lparr>ts_ID = ks_TransitionID spec, ts_InstanceID = in_id (ks_Instance spec),
       ts_ExpectedSequence = in_sequence (ks_Instance spec), ts_Definition = in_definition (ks_Instance spec),
       ts_Events = [e], ts_Work = [w]\<rparr> = Inr t"
  using assms unfolding NewCompensationSchedule_def Let_def
  by (auto simp: has_key_def dest!: NewPendingWork_canonical split: option.splits if_splits sum.splits)

interpretation comp_schedule: plan_constructor NewCompensationSchedule ks_Instance ks_Definition "\<lambda>_. True"
proof
  fix spec t
  assume "NewCompensationSchedule spec = Inr t"
  then show "plan_for (ks_Instance spec) t"
    by (rule NewCompensationSchedule_Inr) (auto dest!: NewHistoryEvent_fields(1) intro: plan_for_single(1))
next
  fix spec t and registry :: "Registry option"
  assume ok: "NewCompensationSchedule spec = Inr t" and lv: "live registry (ks_Instance spec) (ks_Definition spec)"
  let ?i = "ks_Instance spec"
  from ok show "\<exists>j. apply_all registry ?i (tr_events t) = Inr j \<and> in_pendingOperator j = OperatorNone"
  proof (rule NewCompensationSchedule_Inr, goal_cases)
    case (1 step policy p e w)
    note f = NewHistoryEvent_fields [OF 1(8)]
    have "\<exists>k. replay_step registry ?i e k"
      by (rule compensation_replays [OF lv _ 1(2)])
        (use 1(1,3-6) f in \<open>auto simp: compensation_kind_cases compensation_admitted_def compensating_def
          compensation_step_def has_key_def\<close>)
    then obtain k where rs: "replay_step registry ?i e k" by blast
    show ?thesis
      by (rule single_plan_replays [OF lv 1(8) _ _ _ _ _ rs])
        (use 1(3,7,10) in \<open>auto simp: NewTransition_Inr compensating_live\<close>)
  qed
qed

lemma NewCompensationAttemptStart_Inr:
  assumes "NewCompensationAttemptStart spec = Inr t"
  obtains dispatch step policy p e where
    "DecodeCompensationDispatch (pw_payload (wl_work (kt_Lease spec))) = Inr dispatch"
    "definitionActivityStep (kt_Definition spec) (ad_stepName dispatch) = Some step"
    "st_Compensation step = Some policy" "compensating (in_status (kt_Instance spec))"
    "in_compensations (kt_Instance spec) (ad_stepName dispatch) = Some p"
    "kp_status p = CompensationReady \<or> (kp_status p = CompensationRetryWaiting \<and>
       \<not> Before (canonicalTime (kt_StartedAt spec)) (kp_dueAt p))"
    "ad_attempt dispatch = kp_attempt p + 1" "ad_attempt dispatch \<le> rp_MaxAttempts (cs_Retry policy)"
    "\<not> Before (canonicalTime (kt_StartedAt spec)) (in_updatedAt (kt_Instance spec))"
    "NewHistoryEvent (zero_HistoryEventSpec\<lparr>hs_Sequence := in_sequence (kt_Instance spec) + 1,
       hs_InstanceID := in_id (kt_Instance spec), hs_Kind := EventCompensationAttemptStarted,
       hs_OccurredAt := canonicalTime (kt_StartedAt spec), hs_StepName := ad_stepName dispatch,
       hs_Attempt := ad_attempt dispatch, hs_IdempotencyKey := ad_idempotencyKey dispatch,
       hs_DueAt := canonicalTime (Add (canonicalTime (kt_StartedAt spec)) (cs_Timeout policy))\<rparr>) = Inr e"
    "NewTransition \<lparr>ts_ID = kt_TransitionID spec, ts_InstanceID = in_id (kt_Instance spec),
       ts_ExpectedSequence = in_sequence (kt_Instance spec), ts_Definition = in_definition (kt_Instance spec),
       ts_Events = [e], ts_Work = []\<rparr> = Inr t"
  using assms unfolding NewCompensationAttemptStart_def Let_def
  by (simp split: option.splits if_splits sum.splits) (metis (no_types, lifting) not_less)

lemma NewCompensationAttemptOutcome_Inr:
  assumes "NewCompensationAttemptOutcome spec = Inr t"
  obtains step policy p e where
    "definitionActivityStep (ko_Definition spec) (ko_StepName spec) = Some step"
    "st_Compensation step = Some policy" "in_compensations (ko_Instance spec) (ko_StepName spec) = Some p"
    "kp_status p = CompensationRunning" "kp_attempt p = ko_Attempt spec" "outcome_valid (ko_Outcome spec)"
    "blen (ao_data (ko_Outcome spec)) \<le> unat (cs_ResultLimit policy)"
    "\<not> Before (ko_OccurredAt spec) (in_updatedAt (ko_Instance spec))"
    "NewHistoryEvent (zero_HistoryEventSpec\<lparr>hs_Sequence := in_sequence (ko_Instance spec) + 1,
       hs_InstanceID := in_id (ko_Instance spec),
       hs_Kind := compensationOutcomeEventKind (ao_kind (ko_Outcome spec)),
       hs_OccurredAt := ko_OccurredAt spec, hs_StepName := ko_StepName spec, hs_Attempt := ko_Attempt spec,
       hs_Code := ao_code (ko_Outcome spec), hs_Retryable := ao_retryable (ko_Outcome spec),
       hs_Data := ao_data (ko_Outcome spec)\<rparr>) = Inr e"
    "NewTransition \<lparr>ts_ID = ko_TransitionID spec, ts_InstanceID = in_id (ko_Instance spec),
       ts_ExpectedSequence = in_sequence (ko_Instance spec), ts_Definition = in_definition (ko_Instance spec),
       ts_Events = [e], ts_Work = []\<rparr> = Inr t"
  using assms unfolding NewCompensationAttemptOutcome_def Let_def
  by (simp split: option.splits if_splits sum.splits)

lemma NewCompensationRetry_Inr:
  assumes "NewCompensationRetry spec = Inr t"
  obtains step policy p e w where
    "definitionActivityStep (ky_Definition spec) (ky_StepName spec) = Some step"
    "st_Compensation step = Some policy" "compensating (in_status (ky_Instance spec))"
    "in_compensations (ky_Instance spec) (ky_StepName spec) = Some p"
    "kp_status p = CompensationFailed" "kp_retryable p" "\<not> rp_MaxAttempts (cs_Retry policy) \<le> kp_attempt p"
    "\<not> Before (ky_ScheduledAt spec) (in_updatedAt (ky_Instance spec))"
    "NewHistoryEvent (zero_HistoryEventSpec\<lparr>hs_Sequence := in_sequence (ky_Instance spec) + 1,
       hs_InstanceID := in_id (ky_Instance spec), hs_Kind := EventCompensationRetryScheduled,
       hs_OccurredAt := ky_ScheduledAt spec, hs_StepName := ky_StepName spec, hs_Attempt := kp_attempt p,
       hs_DueAt := canonicalTime (Add (ky_ScheduledAt spec) (retryDelay (cs_Retry policy) (kp_attempt p)))\<rparr>) = Inr e"
    "work_valid w"
    "NewTransition \<lparr>ts_ID = ky_TransitionID spec, ts_InstanceID = in_id (ky_Instance spec),
       ts_ExpectedSequence = in_sequence (ky_Instance spec), ts_Definition = in_definition (ky_Instance spec),
       ts_Events = [e], ts_Work = [w]\<rparr> = Inr t"
  using assms unfolding NewCompensationRetry_def Let_def
  by (simp split: option.splits if_splits sum.splits) (use NewPendingWork_canonical in blast)

interpretation comp_start: plan_constructor NewCompensationAttemptStart kt_Instance kt_Definition "\<lambda>_. True"
proof
  fix spec t
  assume "NewCompensationAttemptStart spec = Inr t"
  then show "plan_for (kt_Instance spec) t"
    by (rule NewCompensationAttemptStart_Inr) (auto dest!: NewHistoryEvent_fields(1) intro: plan_for_single(1))
next
  fix spec t and registry :: "Registry option"
  assume ok: "NewCompensationAttemptStart spec = Inr t" and lv: "live registry (kt_Instance spec) (kt_Definition spec)"
  let ?i = "kt_Instance spec"
  from ok show "\<exists>j. apply_all registry ?i (tr_events t) = Inr j \<and> in_pendingOperator j = OperatorNone"
  proof (rule NewCompensationAttemptStart_Inr, goal_cases)
    case (1 dispatch step policy p e)
    note f = NewHistoryEvent_fields [OF 1(10)]
    have "\<exists>k. replay_step registry ?i e k"
      by (rule compensation_replays [OF lv _ 1(3)])
        (use 1(2,5-8) f in \<open>auto simp: compensation_kind_cases compensation_step_def compensation_progress_def\<close>)
    then obtain k where rs: "replay_step registry ?i e k" by blast
    show ?thesis
      by (rule single_plan_replays [OF lv 1(10) _ _ _ _ _ rs])
        (use 1(4,9,11) in \<open>auto simp: NewTransition_Inr compensating_live\<close>)
  qed
qed

interpretation comp_outcome: plan_constructor NewCompensationAttemptOutcome ko_Instance ko_Definition
  "\<lambda>s. \<not> terminalStatus (in_status (ko_Instance s))"
proof
  fix spec t
  assume "NewCompensationAttemptOutcome spec = Inr t"
  then show "plan_for (ko_Instance spec) t"
    by (rule NewCompensationAttemptOutcome_Inr) (auto dest!: NewHistoryEvent_fields(1) intro: plan_for_single(1))
next
  fix spec t and registry :: "Registry option"
  assume ok: "NewCompensationAttemptOutcome spec = Inr t" and lv: "live registry (ko_Instance spec) (ko_Definition spec)"
    and adm: "\<not> terminalStatus (in_status (ko_Instance spec))"
  let ?i = "ko_Instance spec"
  from ok show "\<exists>j. apply_all registry ?i (tr_events t) = Inr j \<and> in_pendingOperator j = OperatorNone"
  proof (rule NewCompensationAttemptOutcome_Inr, goal_cases)
    case (1 step policy p e)
    note f = NewHistoryEvent_fields [OF 1(9)]
    have k: "compensationOutcomeEventKind (ao_kind (ko_Outcome spec)) \<in> {EventCompensationAttemptSucceeded,
        EventCompensationAttemptFailed, EventCompensationAttemptUnknown}"
      using outcome_valid_kind [OF 1(6)] by (cases "ao_kind (ko_Outcome spec)") auto
    have "\<exists>k. replay_step registry ?i e k"
      by (rule compensation_replays [OF lv _ 1(2)])
        (use 1(1,3-5,7) f k in \<open>auto simp: compensation_kind_cases compensation_step_def compensation_progress_def\<close>)
    then obtain j where rs: "replay_step registry ?i e j" by blast
    show ?thesis
      by (rule single_plan_replays [OF lv 1(9) _ _ _ _ _ rs])
        (use 1(8,10) adm k in \<open>auto simp: NewTransition_Inr\<close>)
  qed
qed

interpretation comp_retry: plan_constructor NewCompensationRetry ky_Instance ky_Definition "\<lambda>_. True"
proof
  fix spec t
  assume "NewCompensationRetry spec = Inr t"
  then show "plan_for (ky_Instance spec) t"
    by (rule NewCompensationRetry_Inr) (auto dest!: NewHistoryEvent_fields(1) intro: plan_for_single(1))
next
  fix spec t and registry :: "Registry option"
  assume ok: "NewCompensationRetry spec = Inr t" and lv: "live registry (ky_Instance spec) (ky_Definition spec)"
  let ?i = "ky_Instance spec"
  from ok show "\<exists>j. apply_all registry ?i (tr_events t) = Inr j \<and> in_pendingOperator j = OperatorNone"
  proof (rule NewCompensationRetry_Inr, goal_cases)
    case (1 step policy p e w)
    note f = NewHistoryEvent_fields [OF 1(9)]
    have "\<exists>k. replay_step registry ?i e k"
      by (rule compensation_replays [OF lv _ 1(2)])
        (use 1(1,4-7) f in \<open>auto simp: compensation_kind_cases compensation_step_def
          compensation_progress_def canonicalTime_Add\<close>)
    then obtain k where rs: "replay_step registry ?i e k" by blast
    show ?thesis
      by (rule single_plan_replays [OF lv 1(9) _ _ _ _ _ rs])
        (use 1(3,8,11) in \<open>auto simp: NewTransition_Inr compensating_live\<close>)
  qed
qed

end
