(* ===== verification/Operator_Command.thy ===== *)
theory Operator_Command
  imports Activity_Transition Compensation_Transition
begin

text \<open>
  Audited operator commands (operator.go, operator\_work.go): lifecycle interventions, activity
  retry, compensation, manual compensation resolution and approval. Each records an audit event
  and then the event it authorises, in one transition. Where the code discards the error of
  \<open>NewHistoryEvent\<close> or \<open>NewTransition\<close> it goes on with the zero value, and so does the model.
\<close>

section \<open>Lifecycle commands\<close>

definition validOperatorLifecycleState :: "InstanceStatus \<Rightarrow> OperatorAction \<Rightarrow> bool" where
  "validOperatorLifecycleState status action = (case action of
     OperatorPause \<Rightarrow> status = StatusRunning
   | OperatorResume \<Rightarrow> status = StatusPaused
   | OperatorCancel \<Rightarrow> status = StatusRunning \<or> status = StatusPaused
   | OperatorTerminate \<Rightarrow>
       status = StatusRunning \<or> status = StatusPaused \<or> status = StatusCancelling
   | _ \<Rightarrow> False)"

record OperatorLifecycleCommandSpec =
  ol_CommandID :: string
  ol_Instance :: Instance
  ol_Action :: OperatorAction
  ol_Actor :: string
  ol_Reason :: string
  ol_OccurredAt :: gotime

definition audit_event_spec :: "Instance \<Rightarrow> string \<Rightarrow> gotime \<Rightarrow> bytes \<Rightarrow> HistoryEventSpec" where
  "audit_event_spec inst commandID occurredAt auditData =
     zero_HistoryEventSpec\<lparr>hs_Sequence := in_sequence inst + 1, hs_InstanceID := in_id inst,
       hs_Kind := EventOperatorCommandRecorded, hs_OccurredAt := occurredAt,
       hs_IdempotencyKey := commandID, hs_Data := auditData\<rparr>"

definition NewOperatorLifecycleCommand :: "OperatorLifecycleCommandSpec \<Rightarrow> Transition result" where
  "NewOperatorLifecycleCommand spec =
     (let inst = ol_Instance spec in
      if \<not> validOperatorLifecycleState (in_status inst) (ol_Action spec)
      then Inl ErrInvalidOperatorCommand
      else if \<not> instanceIDPattern (ol_CommandID spec) then Inl ErrInvalidOperatorCommand
      else if IsZero (ol_OccurredAt spec) \<or> Before (ol_OccurredAt spec) (in_updatedAt inst)
      then Inl ErrInvalidOperatorCommand
      else if in_sequence inst > - 1 - 2 then Inl ErrInvalidOperatorCommand
      else if \<not> instanceIDPattern (in_id inst) \<or> \<not> reference_valid (in_definition inst)
      then Inl ErrInvalidOperatorCommand
      else
        let auditData = audit_data \<lparr>au_Action = ol_Action spec, au_Actor = ol_Actor spec,
              au_Reason = ol_Reason spec\<rparr>
        in case decodeOperatorAudit auditData of
             Inl _ \<Rightarrow> Inl ErrInvalidOperatorCommand
           | Inr _ \<Rightarrow>
               let occurredAt = canonicalTime (ol_OccurredAt spec);
                   audit = value_or zero_HistoryEvent (NewHistoryEvent
                     (audit_event_spec inst (ol_CommandID spec) occurredAt auditData));
                   action = value_or zero_HistoryEvent (NewHistoryEvent
                     (zero_HistoryEventSpec\<lparr>hs_Sequence := in_sequence inst + 2,
                       hs_InstanceID := in_id inst, hs_Kind := operatorEventKind (ol_Action spec),
                       hs_OccurredAt := occurredAt\<rparr>))
               in Inr (value_or zero_Transition (NewTransition \<lparr>ts_ID = ol_CommandID spec,
                    ts_InstanceID = in_id inst, ts_ExpectedSequence = in_sequence inst,
                    ts_Definition = in_definition inst, ts_Events = [audit, action],
                    ts_Work = []\<rparr>)))"

section \<open>Work commands\<close>

definition newOperatorWorkAudit ::
  "string \<Rightarrow> Instance \<Rightarrow> OperatorAction \<Rightarrow> string \<Rightarrow> string \<Rightarrow> gotime \<Rightarrow> (HistoryEvent \<times> Instance) result" where
  "newOperatorWorkAudit commandID inst action actor reason occurredAt =
     (if \<not> instanceIDPattern commandID then Inl ErrInvalidOperatorCommand
      else if IsZero occurredAt \<or> Before occurredAt (in_updatedAt inst)
      then Inl ErrInvalidOperatorCommand
      else if in_sequence inst > - 1 - 2 then Inl ErrInvalidOperatorCommand
      else if \<not> instanceIDPattern (in_id inst) \<or> \<not> reference_valid (in_definition inst)
      then Inl ErrInvalidOperatorCommand
      else
        let auditData = audit_data \<lparr>au_Action = action, au_Actor = actor, au_Reason = reason\<rparr>
        in case decodeOperatorAudit auditData of
             Inl _ \<Rightarrow> Inl ErrInvalidOperatorCommand
           | Inr _ \<Rightarrow>
               let occurredAt = canonicalTime occurredAt;
                   audit = value_or zero_HistoryEvent (NewHistoryEvent
                     (audit_event_spec inst commandID occurredAt auditData))
               in Inr (audit, inst\<lparr>in_sequence := in_sequence inst + 1, in_updatedAt := occurredAt\<rparr>))"

definition newOperatorWorkTransition ::
  "string \<Rightarrow> Instance \<Rightarrow> HistoryEvent \<Rightarrow> Transition \<Rightarrow> Transition result" where
  "newOperatorWorkTransition commandID inst audit action =
     (case NewTransition \<lparr>ts_ID = commandID, ts_InstanceID = in_id inst,
             ts_ExpectedSequence = in_sequence inst, ts_Definition = in_definition inst,
             ts_Events = audit # tr_events action, ts_Work = tr_work action\<rparr> of
        Inl _ \<Rightarrow> Inl ErrInvalidOperatorCommand
      | Inr transition \<Rightarrow> Inr transition)"

record OperatorActivityRetrySpec =
  oar_CommandID :: string
  oar_WorkID :: string
  oar_Instance :: Instance
  oar_Definition :: Definition
  oar_StepName :: string
  oar_IdempotencyKey :: string
  oar_Actor :: string
  oar_Reason :: string
  oar_OccurredAt :: gotime
  oar_Deadline :: gotime
  oar_TenantID :: string
  oar_CorrelationID :: string

definition NewOperatorActivityRetry :: "OperatorActivityRetrySpec \<Rightarrow> Transition result" where
  "NewOperatorActivityRetry spec =
     (case newOperatorWorkAudit (oar_CommandID spec) (oar_Instance spec) OperatorRetryActivity
             (oar_Actor spec) (oar_Reason spec) (oar_OccurredAt spec) of
        Inl _ \<Rightarrow> Inl ErrInvalidOperatorCommand
      | Inr (audit, commandInstance) \<Rightarrow>
          (case NewActivityRetry \<lparr>ay_TransitionID = oar_CommandID spec, ay_WorkID = oar_WorkID spec,
                   ay_Instance = commandInstance, ay_Definition = oar_Definition spec,
                   ay_StepName = oar_StepName spec, ay_IdempotencyKey = oar_IdempotencyKey spec,
                   ay_ScheduledAt = oar_OccurredAt spec, ay_Deadline = oar_Deadline spec,
                   ay_TenantID = oar_TenantID spec, ay_CorrelationID = oar_CorrelationID spec\<rparr> of
             Inl _ \<Rightarrow> Inl ErrInvalidOperatorCommand
           | Inr retry \<Rightarrow> newOperatorWorkTransition (oar_CommandID spec) (oar_Instance spec) audit retry))"

record OperatorCompensationSpec =
  oc_CommandID :: string
  oc_WorkID :: string
  oc_Instance :: Instance
  oc_Definition :: Definition
  oc_StepName :: string
  oc_Attempt :: uint32
  oc_IdempotencyKey :: string
  oc_Actor :: string
  oc_Reason :: string
  oc_OccurredAt :: gotime
  oc_Deadline :: gotime
  oc_Input :: bytes
  oc_TenantID :: string
  oc_CorrelationID :: string

definition NewOperatorCompensation :: "OperatorCompensationSpec \<Rightarrow> Transition result" where
  "NewOperatorCompensation spec =
     (case newOperatorWorkAudit (oc_CommandID spec) (oc_Instance spec) OperatorCompensate
             (oc_Actor spec) (oc_Reason spec) (oc_OccurredAt spec) of
        Inl _ \<Rightarrow> Inl ErrInvalidOperatorCommand
      | Inr (audit, commandInstance) \<Rightarrow>
          (case NewCompensationSchedule \<lparr>ks_TransitionID = oc_CommandID spec,
                   ks_WorkID = oc_WorkID spec, ks_Instance = commandInstance,
                   ks_Definition = oc_Definition spec, ks_StepName = oc_StepName spec,
                   ks_Attempt = oc_Attempt spec, ks_IdempotencyKey = oc_IdempotencyKey spec,
                   ks_ScheduledAt = oc_OccurredAt spec, ks_Deadline = oc_Deadline spec,
                   ks_Input = oc_Input spec, ks_TenantID = oc_TenantID spec,
                   ks_CorrelationID = oc_CorrelationID spec\<rparr> of
             Inl _ \<Rightarrow> Inl ErrInvalidOperatorCommand
           | Inr compensation \<Rightarrow>
               newOperatorWorkTransition (oc_CommandID spec) (oc_Instance spec) audit compensation))"

record OperatorCompensationResolutionSpec =
  ov_CommandID :: string
  ov_Instance :: Instance
  ov_Definition :: Definition
  ov_StepName :: string
  ov_Actor :: string
  ov_Reason :: string
  ov_Code :: string
  ov_Evidence :: bytes
  ov_OccurredAt :: gotime

definition command_transition :: "string \<Rightarrow> Instance \<Rightarrow> HistoryEvent \<Rightarrow> Transition" where
  "command_transition commandID commandInstance event = value_or zero_Transition
     (NewTransition \<lparr>ts_ID = commandID, ts_InstanceID = in_id commandInstance,
        ts_ExpectedSequence = in_sequence commandInstance,
        ts_Definition = in_definition commandInstance, ts_Events = [event], ts_Work = []\<rparr>)"

definition NewOperatorCompensationResolution :: "OperatorCompensationResolutionSpec \<Rightarrow> Transition result" where
  "NewOperatorCompensationResolution spec =
     (let inst = ov_Instance spec in
      case newOperatorWorkAudit (ov_CommandID spec) inst OperatorResolveCompensation
             (ov_Actor spec) (ov_Reason spec) (ov_OccurredAt spec) of
        Inl _ \<Rightarrow> Inl ErrInvalidOperatorCommand
      | Inr (audit, commandInstance) \<Rightarrow>
          if def_Reference (ov_Definition spec) \<noteq> in_definition inst
          then Inl ErrInvalidOperatorCommand
          else case definitionActivityStep (ov_Definition spec) (ov_StepName spec) of
            None \<Rightarrow> Inl ErrInvalidOperatorCommand
          | Some step \<Rightarrow>
              (case st_Compensation step of
                 None \<Rightarrow> Inl ErrInvalidOperatorCommand
               | Some policy \<Rightarrow>
                   (case in_compensations inst (ov_StepName spec) of
                      None \<Rightarrow> Inl ErrInvalidOperatorCommand
                    | Some progress \<Rightarrow>
                        if kp_status progress \<noteq> CompensationFailed \<and>
                           kp_status progress \<noteq> CompensationUnknown
                        then Inl ErrInvalidOperatorCommand
                        else if \<not> stableName (ov_Code spec) \<or>
                           blen (ov_Evidence spec) > unat (cs_ResultLimit policy)
                        then Inl ErrInvalidOperatorCommand
                        else
                          let resolvedEvent = value_or zero_HistoryEvent (NewHistoryEvent
                                (zero_HistoryEventSpec\<lparr>hs_Sequence := in_sequence commandInstance + 1,
                                  hs_InstanceID := in_id commandInstance,
                                  hs_Kind := EventCompensationManuallyResolved,
                                  hs_OccurredAt := ov_OccurredAt spec,
                                  hs_StepName := ov_StepName spec, hs_Code := ov_Code spec,
                                  hs_Data := ov_Evidence spec\<rparr>))
                          in newOperatorWorkTransition (ov_CommandID spec) inst audit
                               (command_transition (ov_CommandID spec) commandInstance resolvedEvent))))"

record OperatorApprovalSpec =
  op_CommandID :: string
  op_Instance :: Instance
  op_Definition :: Definition
  op_StepName :: string
  op_Actor :: string
  op_Reason :: string
  op_OccurredAt :: gotime
  op_Payload :: bytes

definition NewOperatorApproval :: "OperatorApprovalSpec \<Rightarrow> Transition result" where
  "NewOperatorApproval spec =
     (let inst = op_Instance spec in
      case newOperatorWorkAudit (op_CommandID spec) inst OperatorApprove
             (op_Actor spec) (op_Reason spec) (op_OccurredAt spec) of
        Inl _ \<Rightarrow> Inl ErrInvalidOperatorCommand
      | Inr (audit, commandInstance) \<Rightarrow>
          if def_Reference (op_Definition spec) \<noteq> in_definition inst
          then Inl ErrInvalidOperatorCommand
          else case definitionStep (op_Definition spec) (op_StepName spec) StepApproval of
            None \<Rightarrow> Inl ErrInvalidOperatorCommand
          | Some step \<Rightarrow>
              if blen (op_Payload spec) > unat (st_InputLimit step)
              then Inl ErrInvalidOperatorCommand
              else
                let accepted = value_or zero_HistoryEvent (NewHistoryEvent
                      (zero_HistoryEventSpec\<lparr>hs_Sequence := in_sequence commandInstance + 1,
                        hs_InstanceID := in_id commandInstance, hs_Kind := EventSignalReceived,
                        hs_OccurredAt := op_OccurredAt spec, hs_StepName := op_StepName spec,
                        hs_IdempotencyKey := op_CommandID spec, hs_Data := op_Payload spec\<rparr>))
                in newOperatorWorkTransition (op_CommandID spec) inst audit
                     (command_transition (op_CommandID spec) commandInstance accepted))"

section \<open>An audited pair of events\<close>

text \<open>The instance between the audit event and the event it authorises.\<close>

definition audited :: "Instance \<Rightarrow> HistoryEvent \<Rightarrow> operatorAuditDocument \<Rightarrow> Instance" where
  "audited i a document = i\<lparr>in_operatorActions := in_operatorActions i @
       [\<lparr>oa_commandID = ev_idempotencyKey a, oa_action = au_Action document,
         oa_actor = au_Actor document, oa_reason = au_Reason document, oa_occurredAt = ev_occurredAt a\<rparr>],
     in_pendingOperator := au_Action document, in_sequence := ev_sequence a, in_updatedAt := ev_occurredAt a\<rparr>"

lemma audited_simps [simp]:
  "in_id (audited i a d) = in_id i" "in_definition (audited i a d) = in_definition i"
  "in_status (audited i a d) = in_status i" "in_activities (audited i a d) = in_activities i"
  "in_compensations (audited i a d) = in_compensations i" "in_signals (audited i a d) = in_signals i"
  "in_sequence (audited i a d) = ev_sequence a" "in_updatedAt (audited i a d) = ev_occurredAt a"
  "in_pendingOperator (audited i a d) = au_Action d"
  by (simp_all add: audited_def)

lemma audited_pair_replays:
  assumes lv: "live registry i d" and a: "NewHistoryEvent aspec = Inr a" and e: "event_ok e"
    and aspec: "hs_InstanceID aspec = in_id i" "hs_Sequence aspec = in_sequence i + 1"
      "\<not> Before (hs_OccurredAt aspec) (in_updatedAt i)" "hs_Kind aspec = EventOperatorCommandRecorded"
    and st: "\<not> terminalStatus (in_status i)" and doc: "decodeOperatorAudit (hs_Data aspec) = Inr document"
    and ev: "ev_instanceID e = in_id i" "ev_sequence e = in_sequence i + 2"
      "ev_kind e = operatorEventKind (au_Action document)" "wall (ev_occurredAt e) = wall (ev_occurredAt a)"
    and rs: "replay_step registry (audited i a document) e k"
  shows "\<exists>j. apply_all registry i [a, e] = Inr j \<and> in_pendingOperator j = OperatorNone"
proof -
  note f = NewHistoryEvent_fields [OF a]
  have i: "in_sequence i \<noteq> 0" "in_pendingOperator i = OperatorNone" "canonical (in_updatedAt i)"
    using lv by (simp_all add: live_def)
  have act: "au_Action document \<noteq> OperatorNone" using decodeOperatorAudit_Inr [OF doc] by simp
  have step1: "apply_event registry i a = Inr (audited i a document)"
  proof -
    have "replay_step registry i a (i\<lparr>in_operatorActions := in_operatorActions i @
         [\<lparr>oa_commandID = ev_idempotencyKey a, oa_action = au_Action document,
           oa_actor = au_Actor document, oa_reason = au_Reason document, oa_occurredAt = ev_occurredAt a\<rparr>],
       in_pendingOperator := au_Action document\<rparr>)"
      by (rule replay_step.operator) (use f aspec doc i in auto)
    from apply_kind_complete [OF this] show ?thesis
      using f aspec st i by (simp add: apply_event_Inr [OF i(1)] finish_event_def audited_def completes_def
          canonical_def Before_wall)
  qed
  have nz: "ev_sequence a \<noteq> 0" using event_ok_basic(1) [OF f(1)] .
  have seq: "ev_sequence e = ev_sequence a + 1" using ev(2) f(2) aspec(2) by simp
  have "mono (ev_occurredAt e) = None" using event_ok_basic(6) [OF e] .
  then have "apply_event registry (audited i a document) e = Inr (finish_event (audited i a document) e k)"
    using apply_kind_complete [OF rs] ev st seq act nz
    by (simp add: apply_event_Inr completes_def Before_wall)
  moreover have "in_pendingOperator (finish_event (audited i a document) e k) = OperatorNone"
    using ev(3) act by (simp add: completes_def)
  ultimately show ?thesis using step1 by simp
qed

section \<open>Accepted commands\<close>

lemma room_for_two:
  assumes "\<not> (q :: uint64) > - 1 - 2"
  shows "q \<noteq> - 1" "q + 1 \<noteq> 0" "q + 2 \<noteq> 0"
proof -
  have ne: "q \<noteq> - 1" "q \<noteq> - 2" using assms by auto
  then show "q \<noteq> - 1" by simp
  show "q + 1 \<noteq> 0" "q + 2 \<noteq> 0"
    using ne by (simp_all add: eq_neg_iff_add_eq_0)
qed

lemma audit_event_exists:
  assumes "\<not> in_sequence i > - 1 - 2" "instanceIDPattern (in_id i)" "instanceIDPattern c" "\<not> IsZero t"
    "decodeOperatorAudit data = Inr document"
  shows "\<exists>a. NewHistoryEvent (audit_event_spec i c t data) = Inr a"
proof -
  have "blen data \<le> MaxPayloadBytes"
    using decodeOperatorAudit_Inr [OF assms(5)] by (simp add: MaxOperatorAuditBytes_def MaxPayloadBytes_def)
  then have "validHistoryEventSpec ((audit_event_spec i c t data)
      \<lparr>hs_OccurredAt := canonicalTime t, hs_DueAt := canonicalTime time_zero\<rparr>)"
    using assms room_for_two(2) [OF assms(1)]
    by (simp add: audit_event_spec_def validHistoryEventSpec_def requiresDefinition_def childEvent_def
        kind_between_def validEventFields_def validOperatorEventFields_def zero_HistoryEventSpec_def)
  then show ?thesis
    using assms(4) by (simp add: NewHistoryEvent_def Let_def audit_event_spec_def zero_HistoryEventSpec_def)
qed

lemma newOperatorWorkAudit_Inr:
  assumes "newOperatorWorkAudit c i action actor reason t = Inr (a, ci)"
    "action \<noteq> OperatorNone" "instanceIDPattern actor" "stableName reason"
  shows "NewHistoryEvent (audit_event_spec i c (canonicalTime t)
      (audit_data \<lparr>au_Action = action, au_Actor = actor, au_Reason = reason\<rparr>)) = Inr a"
    "ci = i\<lparr>in_sequence := in_sequence i + 1, in_updatedAt := canonicalTime t\<rparr>"
    "\<not> Before t (in_updatedAt i)" "\<not> in_sequence i > - 1 - 2"
    "instanceIDPattern c" "instanceIDPattern (in_id i)" "reference_valid (in_definition i)"
    "decodeOperatorAudit (audit_data \<lparr>au_Action = action, au_Actor = actor, au_Reason = reason\<rparr>) =
       Inr \<lparr>au_Action = action, au_Actor = actor, au_Reason = reason\<rparr>"
proof -
  let ?d = "\<lparr>au_Action = action, au_Actor = actor, au_Reason = reason\<rparr>"
  show dec: "decodeOperatorAudit (audit_data ?d) = Inr ?d"
    by (rule decodeOperatorAudit_audit_data) (use assms in simp_all)
  from assms(1) have g: "instanceIDPattern c" "\<not> IsZero t" "\<not> Before t (in_updatedAt i)"
      "\<not> in_sequence i > - 1 - 2" "instanceIDPattern (in_id i)" "reference_valid (in_definition i)"
    and a: "a = value_or zero_HistoryEvent (NewHistoryEvent (audit_event_spec i c (canonicalTime t) (audit_data ?d)))"
    and ci: "ci = i\<lparr>in_sequence := in_sequence i + 1, in_updatedAt := canonicalTime t\<rparr>"
    unfolding newOperatorWorkAudit_def Let_def by (simp_all add: dec split: if_split_asm)
  obtain b where "NewHistoryEvent (audit_event_spec i c (canonicalTime t) (audit_data ?d)) = Inr b"
    using audit_event_exists [OF g(4,5,1) _ dec, of "canonicalTime t"] g(2) by auto
  then show "NewHistoryEvent (audit_event_spec i c (canonicalTime t) (audit_data ?d)) = Inr a"
    using a by simp
  show "ci = i\<lparr>in_sequence := in_sequence i + 1, in_updatedAt := canonicalTime t\<rparr>" by (rule ci)
  show "\<not> Before t (in_updatedAt i)" "\<not> in_sequence i > - 1 - 2"
    "instanceIDPattern c" "instanceIDPattern (in_id i)" "reference_valid (in_definition i)"
    using g by simp_all
qed

lemma newOperatorWorkTransition_Inr:
  assumes "newOperatorWorkTransition c i a action = Inr t" "event_ok a" "list_all event_ok (tr_events action)"
    "list_all work_valid (tr_work action)"
  shows "plan_for i t" "tr_events t = a # tr_events action"
  using assms by (auto simp: newOperatorWorkTransition_def plan_for_def NewTransition_Inr split: sum.splits)

text \<open>The audit identity that makes the JSON document readable.\<close>

definition operator_identity :: "string \<Rightarrow> string \<Rightarrow> bool" where
  "operator_identity actor reason \<longleftrightarrow> instanceIDPattern actor \<and> stableName reason"

lemma audit_spec_simps [simp]:
  "hs_InstanceID (audit_event_spec i c t data) = in_id i"
  "hs_Sequence (audit_event_spec i c t data) = in_sequence i + 1"
  "hs_OccurredAt (audit_event_spec i c t data) = t"
  "hs_Kind (audit_event_spec i c t data) = EventOperatorCommandRecorded"
  "hs_Data (audit_event_spec i c t data) = data"
  by (simp_all add: audit_event_spec_def)

interpretation op_retry: plan_constructor NewOperatorActivityRetry oar_Instance oar_Definition
  "\<lambda>s. operator_identity (oar_Actor s) (oar_Reason s) \<and> in_status (oar_Instance s) = StatusRunning"
proof -
  have main: "plan_for (oar_Instance s) t \<and> (live registry (oar_Instance s) (oar_Definition s) \<longrightarrow>
      (\<exists>j. apply_all registry (oar_Instance s) (tr_events t) = Inr j \<and> in_pendingOperator j = OperatorNone))"
    if ok: "NewOperatorActivityRetry s = Inr t" and
      adm: "operator_identity (oar_Actor s) (oar_Reason s) \<and> in_status (oar_Instance s) = StatusRunning"
    for s t registry
  proof -
    let ?i = "oar_Instance s"
    let ?doc = "\<lparr>au_Action = OperatorRetryActivity, au_Actor = oar_Actor s, au_Reason = oar_Reason s\<rparr>"
    from ok obtain a ci r where
        aud: "newOperatorWorkAudit (oar_CommandID s) ?i OperatorRetryActivity (oar_Actor s) (oar_Reason s)
          (oar_OccurredAt s) = Inr (a, ci)"
      and r: "NewActivityRetry \<lparr>ay_TransitionID = oar_CommandID s, ay_WorkID = oar_WorkID s,
          ay_Instance = ci, ay_Definition = oar_Definition s, ay_StepName = oar_StepName s,
          ay_IdempotencyKey = oar_IdempotencyKey s, ay_ScheduledAt = oar_OccurredAt s,
          ay_Deadline = oar_Deadline s, ay_TenantID = oar_TenantID s,
          ay_CorrelationID = oar_CorrelationID s\<rparr> = Inr r"
      and t: "newOperatorWorkTransition (oar_CommandID s) ?i a r = Inr t"
      unfolding NewOperatorActivityRetry_def by (auto split: sum.splits prod.splits)
    note A = newOperatorWorkAudit_Inr [OF aud]
    have id: "instanceIDPattern (oar_Actor s)" "stableName (oar_Reason s)"
      using adm by (simp_all add: operator_identity_def)
    note A = A [OF _ id, simplified]
    note fa = NewHistoryEvent_fields [OF A(1)]
    have pr: "plan_for ci r" using retry.plan_law [OF r] adm A(2) by simp
    note T = newOperatorWorkTransition_Inr [OF t fa(1)]
    have plan: "plan_for ?i t" "tr_events t = a # tr_events r"
      using T pr by (simp_all add: plan_for_def)
    have replays: "\<exists>j. apply_all registry ?i (tr_events t) = Inr j \<and> in_pendingOperator j = OperatorNone"
      if lv: "live registry ?i (oar_Definition s)"
      using r
    proof (rule NewActivityRetry_Inr, goal_cases)
      case (1 step p e w)
      note f = NewHistoryEvent_fields [OF 1(9)]
      have st: "activity_step step (in_activities ?i (ev_stepName e)) e
          (p\<lparr>ap_status := ActivityProgressRetryWaiting, ap_dueAt := ev_dueAt e\<rparr>)"
        using 1(2,4-6) f A(2) by (simp add: activity_step_Some canonicalTime_Add)
      have rs: "replay_step registry (audited ?i a ?doc) e
          ((audited ?i a ?doc)\<lparr>in_activities := (in_activities (audited ?i a ?doc))(ev_stepName e \<mapsto>
             p\<lparr>ap_status := ActivityProgressRetryWaiting, ap_dueAt := ev_dueAt e\<rparr>)\<rparr>)"
        by (rule replay_step.activity [where step = step])
          (use 1(1) st f lv adm in \<open>auto simp: activity_kind_cases live_def\<close>)
      have "\<exists>j. apply_all registry ?i [a, e] = Inr j \<and> in_pendingOperator j = OperatorNone"
        by (rule audited_pair_replays [OF lv A(1) f(1) _ _ _ _ _ _ _ _ _ _ rs])
          (use A(2,3,8) f fa adm lv in \<open>auto simp: canonical_before live_def\<close>)
      then show ?thesis using plan(2) 1(11) by (simp add: NewTransition_Inr del: apply_all.simps)
    qed
    with plan show ?thesis by blast
  qed
  show "plan_constructor NewOperatorActivityRetry oar_Instance oar_Definition
     (\<lambda>s. operator_identity (oar_Actor s) (oar_Reason s) \<and> in_status (oar_Instance s) = StatusRunning)"
    by unfold_locales (use main in blast)+
qed

text \<open>What an accepted audit gives, and the shape of every audited command.\<close>

definition audit_document :: "OperatorAction \<Rightarrow> string \<Rightarrow> string \<Rightarrow> operatorAuditDocument" where
  "audit_document action actor reason = \<lparr>au_Action = action, au_Actor = actor, au_Reason = reason\<rparr>"

lemma lifecycle_event_exists:
  assumes "\<not> in_sequence i > - 1 - 2" "instanceIDPattern (in_id i)" "\<not> IsZero t"
    "k \<in> {EventInstancePaused, EventInstanceResumed, EventCancellationRequested, EventInstanceTerminated}"
  shows "\<exists>e. NewHistoryEvent (zero_HistoryEventSpec\<lparr>hs_Sequence := in_sequence i + 2, hs_InstanceID := in_id i,
    hs_Kind := k, hs_OccurredAt := t\<rparr>) = Inr e"
proof -
  have "validHistoryEventSpec (zero_HistoryEventSpec\<lparr>hs_Sequence := in_sequence i + 2, hs_InstanceID := in_id i,
      hs_Kind := k, hs_OccurredAt := canonicalTime t, hs_DueAt := canonicalTime time_zero\<rparr>)"
    using assms room_for_two(3) [OF assms(1)]
    by (auto simp: validHistoryEventSpec_def requiresDefinition_def childEvent_def
        kind_between_def validEventFields_def zero_HistoryEventSpec_def)
  then show ?thesis
    using assms(3) by (simp add: NewHistoryEvent_def Let_def zero_HistoryEventSpec_def)
qed

lemma audited_transition_valid:
  assumes "instanceIDPattern c" "instanceIDPattern (in_id i)" "reference_valid (in_definition i)"
    "\<not> in_sequence i > - 1 - 2" "in_sequence i \<noteq> 0" "event_ok a" "event_ok e"
    "ev_instanceID a = in_id i" "ev_instanceID e = in_id i" "ev_sequence a = in_sequence i + 1"
    "ev_sequence e = in_sequence i + 2" "ev_occurredAt e = ev_occurredAt a" "ev_kind a \<noteq> EventInstanceStarted"
    "blen (ev_data a) + blen (ev_data e) \<le> MaxTransitionBytes"
  shows "\<exists>t. NewTransition \<lparr>ts_ID = c, ts_InstanceID = in_id i, ts_ExpectedSequence = in_sequence i,
     ts_Definition = in_definition i, ts_Events = [a, e], ts_Work = []\<rparr> = Inr t"
  using assms room_for_two(1) [OF assms(4)] event_ok_basic(6) [OF assms(6)]
  by (simp add: NewTransition_def Let_def transition_valid_def first_event_ok_def MaxTransitionEvents_def
      MaxTransitionWork_def Before_wall)

definition lifecycle_ready :: "OperatorLifecycleCommandSpec \<times> Definition \<Rightarrow> bool" where
  "lifecycle_ready s \<longleftrightarrow> operator_identity (ol_Actor (fst s)) (ol_Reason (fst s)) \<and>
     in_sequence (ol_Instance (fst s)) \<noteq> 0"

lemma lifecycle_state:
  assumes "validOperatorLifecycleState status action"
  shows "action \<noteq> OperatorNone" "\<not> terminalStatus status"
    "operatorEventKind action \<in> {EventInstancePaused, EventInstanceResumed, EventCancellationRequested, EventInstanceTerminated}"
    "ev_kind e = operatorEventKind action \<Longrightarrow> in_status i = status \<Longrightarrow> \<exists>k. replay_step registry i e k"
  using assms
  by (auto simp: validOperatorLifecycleState_def split: OperatorAction.splits
      intro: replay_step.pause replay_step.resume replay_step.cancel replay_step.terminated)

lemma NewOperatorLifecycleCommand_Inr:
  assumes "NewOperatorLifecycleCommand s = Inr t" "operator_identity (ol_Actor s) (ol_Reason s)"
    "in_sequence (ol_Instance s) \<noteq> 0"
  obtains a e where
    "validOperatorLifecycleState (in_status (ol_Instance s)) (ol_Action s)"
    "NewHistoryEvent (audit_event_spec (ol_Instance s) (ol_CommandID s) (canonicalTime (ol_OccurredAt s))
      (audit_data (audit_document (ol_Action s) (ol_Actor s) (ol_Reason s)))) = Inr a"
    "decodeOperatorAudit (audit_data (audit_document (ol_Action s) (ol_Actor s) (ol_Reason s))) =
       Inr (audit_document (ol_Action s) (ol_Actor s) (ol_Reason s))"
    "NewHistoryEvent (zero_HistoryEventSpec\<lparr>hs_Sequence := in_sequence (ol_Instance s) + 2,
       hs_InstanceID := in_id (ol_Instance s), hs_Kind := operatorEventKind (ol_Action s),
       hs_OccurredAt := canonicalTime (ol_OccurredAt s)\<rparr>) = Inr e"
    "\<not> Before (ol_OccurredAt s) (in_updatedAt (ol_Instance s))"
    "NewTransition \<lparr>ts_ID = ol_CommandID s, ts_InstanceID = in_id (ol_Instance s),
       ts_ExpectedSequence = in_sequence (ol_Instance s), ts_Definition = in_definition (ol_Instance s),
       ts_Events = [a, e], ts_Work = []\<rparr> = Inr t"
proof -
  let ?i = "ol_Instance s" and ?d = "audit_document (ol_Action s) (ol_Actor s) (ol_Reason s)"
    and ?at = "canonicalTime (ol_OccurredAt s)"
  from assms(1) have g: "validOperatorLifecycleState (in_status ?i) (ol_Action s)" "instanceIDPattern (ol_CommandID s)"
      "\<not> IsZero (ol_OccurredAt s)" "\<not> Before (ol_OccurredAt s) (in_updatedAt ?i)" "\<not> in_sequence ?i > - 1 - 2"
      "instanceIDPattern (in_id ?i)" "reference_valid (in_definition ?i)"
    by (auto simp: NewOperatorLifecycleCommand_def Let_def split: if_splits)
  have dec: "decodeOperatorAudit (audit_data ?d) = Inr ?d"
    by (rule decodeOperatorAudit_audit_data)
      (use assms(2) lifecycle_state(1) [OF g(1)] in \<open>simp_all add: audit_document_def operator_identity_def\<close>)
  obtain a where a: "NewHistoryEvent (audit_event_spec ?i (ol_CommandID s) ?at (audit_data ?d)) = Inr a"
    using audit_event_exists [OF g(5,6,2) _ dec, of ?at] g(3) by auto
  obtain e where e: "NewHistoryEvent (zero_HistoryEventSpec\<lparr>hs_Sequence := in_sequence ?i + 2,
       hs_InstanceID := in_id ?i, hs_Kind := operatorEventKind (ol_Action s), hs_OccurredAt := ?at\<rparr>) = Inr e"
    using lifecycle_event_exists [OF g(5,6) _ lifecycle_state(3) [OF g(1)], of ?at] g(3) by auto
  note fa = NewHistoryEvent_fields [OF a] and fe = NewHistoryEvent_fields [OF e]
  have "\<exists>x. NewTransition \<lparr>ts_ID = ol_CommandID s, ts_InstanceID = in_id ?i, ts_ExpectedSequence = in_sequence ?i,
      ts_Definition = in_definition ?i, ts_Events = [a, e], ts_Work = []\<rparr> = Inr x"
    by (rule audited_transition_valid)
      (use g assms(3) fa fe decodeOperatorAudit_Inr [OF dec] in
        \<open>simp_all add: zero_HistoryEventSpec_def MaxOperatorAuditBytes_def MaxTransitionBytes_def MaxPayloadBytes_def\<close>)
  then have "NewTransition \<lparr>ts_ID = ol_CommandID s, ts_InstanceID = in_id ?i, ts_ExpectedSequence = in_sequence ?i,
      ts_Definition = in_definition ?i, ts_Events = [a, e], ts_Work = []\<rparr> = Inr t"
    using assms(1) g a e dec by (auto simp: NewOperatorLifecycleCommand_def Let_def audit_document_def)
  then show thesis using that g a e dec by blast
qed

interpretation op_lifecycle: plan_constructor "\<lambda>s. NewOperatorLifecycleCommand (fst s)" "\<lambda>s. ol_Instance (fst s)" snd
  lifecycle_ready
proof
  fix s t
  assume ok: "NewOperatorLifecycleCommand (fst s) = Inr t" and r: "lifecycle_ready s"
  show "plan_for (ol_Instance (fst s)) t"
    using ok
    by (rule NewOperatorLifecycleCommand_Inr)
      (use r in \<open>auto simp: lifecycle_ready_def plan_for_def NewTransition_Inr dest!: NewHistoryEvent_fields(1)\<close>)
next
  fix s t and registry :: "Registry option"
  assume ok: "NewOperatorLifecycleCommand (fst s) = Inr t" and r: "lifecycle_ready s"
    and lv: "live registry (ol_Instance (fst s)) (snd s)"
  let ?c = "fst s" let ?i = "ol_Instance ?c"
  have id: "operator_identity (ol_Actor ?c) (ol_Reason ?c)" "in_sequence ?i \<noteq> 0"
    using r by (simp_all add: lifecycle_ready_def)
  from ok id show "\<exists>j. apply_all registry ?i (tr_events t) = Inr j \<and> in_pendingOperator j = OperatorNone"
  proof (rule NewOperatorLifecycleCommand_Inr, goal_cases)
    case (1 a e)
    note fa = NewHistoryEvent_fields [OF 1(2)] and fe = NewHistoryEvent_fields [OF 1(4)]
    obtain k where rs: "replay_step registry (audited ?i a (audit_document (ol_Action ?c) (ol_Actor ?c) (ol_Reason ?c))) e k"
      using lifecycle_state(4) [OF 1(1), of e "audited ?i a (audit_document (ol_Action ?c) (ol_Actor ?c) (ol_Reason ?c))"]
        fe by auto
    have "\<exists>j. apply_all registry ?i [a, e] = Inr j \<and> in_pendingOperator j = OperatorNone"
      by (rule audited_pair_replays [OF lv 1(2) fe(1) _ _ _ _ _ _ _ _ _ _ rs])
        (use 1 fa fe lv lifecycle_state(2) [OF 1(1)] in \<open>auto simp: canonical_before live_def audit_document_def\<close>)
    then show ?thesis using 1(6) by (simp add: NewTransition_Inr del: apply_all.simps)
  qed
qed

interpretation op_compensation: plan_constructor NewOperatorCompensation oc_Instance oc_Definition
  "\<lambda>s. operator_identity (oc_Actor s) (oc_Reason s)"
proof -
  have main: "plan_for (oc_Instance s) t \<and> (live registry (oc_Instance s) (oc_Definition s) \<longrightarrow>
      (\<exists>j. apply_all registry (oc_Instance s) (tr_events t) = Inr j \<and> in_pendingOperator j = OperatorNone))"
    if ok: "NewOperatorCompensation s = Inr t" and adm: "operator_identity (oc_Actor s) (oc_Reason s)"
    for s t registry
  proof -
    let ?i = "oc_Instance s"
    let ?doc = "\<lparr>au_Action = OperatorCompensate, au_Actor = oc_Actor s, au_Reason = oc_Reason s\<rparr>"
    from ok obtain a ci r where
        aud: "newOperatorWorkAudit (oc_CommandID s) ?i OperatorCompensate (oc_Actor s) (oc_Reason s)
          (oc_OccurredAt s) = Inr (a, ci)"
      and r: "NewCompensationSchedule \<lparr>ks_TransitionID = oc_CommandID s, ks_WorkID = oc_WorkID s,
          ks_Instance = ci, ks_Definition = oc_Definition s, ks_StepName = oc_StepName s,
          ks_Attempt = oc_Attempt s, ks_IdempotencyKey = oc_IdempotencyKey s, ks_ScheduledAt = oc_OccurredAt s,
          ks_Deadline = oc_Deadline s, ks_Input = oc_Input s, ks_TenantID = oc_TenantID s,
          ks_CorrelationID = oc_CorrelationID s\<rparr> = Inr r"
      and t: "newOperatorWorkTransition (oc_CommandID s) ?i a r = Inr t"
      unfolding NewOperatorCompensation_def by (auto split: sum.splits prod.splits)
    have id: "instanceIDPattern (oc_Actor s)" "stableName (oc_Reason s)"
      using adm by (simp_all add: operator_identity_def)
    note A = newOperatorWorkAudit_Inr [OF aud _ id, simplified]
    note fa = NewHistoryEvent_fields [OF A(1)]
    have pr: "plan_for ci r" using comp_schedule.plan_law [OF r] by simp
    have plan: "plan_for ?i t" "tr_events t = a # tr_events r"
      using newOperatorWorkTransition_Inr [OF t fa(1)] pr by (simp_all add: plan_for_def)
    have replays: "\<exists>j. apply_all registry ?i (tr_events t) = Inr j \<and> in_pendingOperator j = OperatorNone"
      if lv: "live registry ?i (oc_Definition s)"
      using r
    proof (rule NewCompensationSchedule_Inr, goal_cases)
      case (1 step policy p e w)
      note f = NewHistoryEvent_fields [OF 1(8)]
      have "compensation_admitted (audited ?i a ?doc) (ev_stepName e)"
        using 1(3-6) f A(2) by (simp add: compensation_admitted_def compensating_def has_key_def)
      moreover have "\<exists>k'. compensation_step policy (in_compensations (audited ?i a ?doc) (ev_stepName e)) e k'"
        using 1(6) f A(2) by (simp add: compensation_step_def)
      ultimately obtain k where rs: "replay_step registry (audited ?i a ?doc) e k"
        using replay_step.compensation [of e registry "audited ?i a ?doc" step policy] 1(1,2) f lv
        by (auto simp: live_def compensation_kind_cases)
      have "\<exists>j. apply_all registry ?i [a, e] = Inr j \<and> in_pendingOperator j = OperatorNone"
        by (rule audited_pair_replays [OF lv A(1) f(1) _ _ _ _ _ _ _ _ _ _ rs])
          (use 1(3) A(2,3,8) f fa lv compensating_live in \<open>auto simp: canonical_before live_def\<close>)
      then show ?thesis using plan(2) 1(10) by (simp add: NewTransition_Inr del: apply_all.simps)
    qed
    with plan show ?thesis by blast
  qed
  show "plan_constructor NewOperatorCompensation oc_Instance oc_Definition
     (\<lambda>s. operator_identity (oc_Actor s) (oc_Reason s))"
    by unfold_locales (use main in blast)+
qed

lemma command_transition_single:
  assumes "instanceIDPattern c" "instanceIDPattern (in_id ci)" "reference_valid (in_definition ci)"
    "in_sequence ci \<noteq> - 1" "in_sequence ci \<noteq> 0" "event_ok e" "ev_instanceID e = in_id ci"
    "ev_sequence e = in_sequence ci + 1" "ev_kind e \<noteq> EventInstanceStarted"
  shows "tr_events (command_transition c ci e) = [e]" "tr_work (command_transition c ci e) = []"
proof -
  have "blen (ev_data e) \<le> MaxTransitionBytes"
    using event_ok_basic(4) [OF assms(6)] by (simp add: MaxTransitionBytes_def MaxPayloadBytes_def)
  then have "transition_valid \<lparr>tr_id = c, tr_instanceID = in_id ci, tr_expectedSequence = in_sequence ci,
      tr_definition = in_definition ci, tr_events = [e], tr_work = [], tr_fingerprint = []\<rparr>"
    using transition_valid_single [OF assms(1-9), of "[]"] by simp
  then show "tr_events (command_transition c ci e) = [e]" "tr_work (command_transition c ci e) = []"
    by (simp_all add: command_transition_def NewTransition_def Let_def)
qed

text \<open>
  The commands that build their own event share one argument: the audit event and the event are
  committed together, and the pair replays when the step relation has a step for the event.
\<close>

lemma audited_command_plan:
  assumes aud: "newOperatorWorkAudit c i action actor reason t0 = Inr (a, ci)" "action \<noteq> OperatorNone"
      "operator_identity actor reason"
    and ev: "NewHistoryEvent spec = Inr e" "hs_Sequence spec = in_sequence ci + 1" "hs_InstanceID spec = in_id ci"
      "hs_Kind spec = operatorEventKind action" "hs_OccurredAt spec = t0"
    and t: "newOperatorWorkTransition c i a (command_transition c ci e) = Inr t"
  shows "plan_for i t"
    "live registry i d \<Longrightarrow> \<not> terminalStatus (in_status i) \<Longrightarrow>
      \<exists>k. replay_step registry (audited i a \<lparr>au_Action = action, au_Actor = actor, au_Reason = reason\<rparr>) e k \<Longrightarrow>
      \<exists>j. apply_all registry i (tr_events t) = Inr j \<and> in_pendingOperator j = OperatorNone"
proof -
  have id: "instanceIDPattern actor" "stableName reason" using aud(3) by (simp_all add: operator_identity_def)
  note A = newOperatorWorkAudit_Inr [OF aud(1,2) id]
  note fa = NewHistoryEvent_fields [OF A(1)] and fe = NewHistoryEvent_fields [OF ev(1)]
  have ci: "in_id ci = in_id i" "in_definition ci = in_definition i" "in_sequence ci = in_sequence i + 1"
    using A(2) by simp_all
  have "in_sequence ci \<noteq> - 1"
  proof
    assume "in_sequence ci = - 1"
    then have "in_sequence i + 2 = 0" unfolding ci(3) by (simp add: eq_neg_iff_add_eq_0 add.commute)
    with room_for_two(3) [OF A(4)] show False by simp
  qed
  moreover have "operatorEventKind action \<noteq> EventInstanceStarted" by (cases action) simp_all
  ultimately have c: "tr_events (command_transition c ci e) = [e]" "tr_work (command_transition c ci e) = []"
    using command_transition_single [of c ci e] A fe ev ci room_for_two(2) [OF A(4)] by simp_all
  have plan: "plan_for i t" "tr_events t = [a, e]"
    using newOperatorWorkTransition_Inr [OF t fa(1)] c fe(1) by simp_all
  then show "plan_for i t" by simp
  assume lv: "live registry i d" and st: "\<not> terminalStatus (in_status i)"
    and "\<exists>k. replay_step registry (audited i a \<lparr>au_Action = action, au_Actor = actor, au_Reason = reason\<rparr>) e k"
  then obtain k where rs: "replay_step registry (audited i a \<lparr>au_Action = action, au_Actor = actor, au_Reason = reason\<rparr>) e k"
    by blast
  have "\<exists>j. apply_all registry i [a, e] = Inr j \<and> in_pendingOperator j = OperatorNone"
    by (rule audited_pair_replays [OF lv A(1) fe(1) _ _ _ _ _ _ _ _ _ _ rs])
      (use A(3,8) fa fe ev ci st lv in \<open>auto simp: canonical_before live_def\<close>)
  then show "\<exists>j. apply_all registry i (tr_events t) = Inr j \<and> in_pendingOperator j = OperatorNone"
    using plan(2) by (simp del: apply_all.simps)
qed

lemma resolution_event_exists:
  assumes "q + 1 \<noteq> 0" "instanceIDPattern n" "\<not> IsZero t" "stableName stepName" "stableName code"
    "blen evidence \<le> MaxPayloadBytes"
  shows "\<exists>e. NewHistoryEvent (zero_HistoryEventSpec\<lparr>hs_Sequence := q + 1, hs_InstanceID := n,
    hs_Kind := EventCompensationManuallyResolved, hs_OccurredAt := t, hs_StepName := stepName, hs_Code := code,
    hs_Data := evidence\<rparr>) = Inr e"
proof -
  have "validHistoryEventSpec (zero_HistoryEventSpec\<lparr>hs_Sequence := q + 1, hs_InstanceID := n,
      hs_Kind := EventCompensationManuallyResolved, hs_OccurredAt := canonicalTime t, hs_StepName := stepName,
      hs_Code := code, hs_Data := evidence, hs_DueAt := canonicalTime time_zero\<rparr>)"
    using assms
    by (simp add: validHistoryEventSpec_def requiresDefinition_def childEvent_def kind_between_def
        validEventFields_def validCompensationEventFields_def zero_HistoryEventSpec_def)
  then show ?thesis using assms(3) by (simp add: NewHistoryEvent_def Let_def zero_HistoryEventSpec_def)
qed

lemma approval_event_exists:
  assumes "q + 1 \<noteq> 0" "instanceIDPattern n" "\<not> IsZero t" "stableName stepName" "instanceIDPattern key"
    "blen payload \<le> MaxPayloadBytes"
  shows "\<exists>e. NewHistoryEvent (zero_HistoryEventSpec\<lparr>hs_Sequence := q + 1, hs_InstanceID := n,
    hs_Kind := EventSignalReceived, hs_OccurredAt := t, hs_StepName := stepName, hs_IdempotencyKey := key,
    hs_Data := payload\<rparr>) = Inr e"
proof -
  have "validHistoryEventSpec (zero_HistoryEventSpec\<lparr>hs_Sequence := q + 1, hs_InstanceID := n,
      hs_Kind := EventSignalReceived, hs_OccurredAt := canonicalTime t, hs_StepName := stepName,
      hs_IdempotencyKey := key, hs_Data := payload, hs_DueAt := canonicalTime time_zero\<rparr>)"
    using assms
    by (simp add: validHistoryEventSpec_def requiresDefinition_def childEvent_def kind_between_def
        validEventFields_def validWaitEventFields_def zero_HistoryEventSpec_def)
  then show ?thesis using assms(3) by (simp add: NewHistoryEvent_def Let_def zero_HistoryEventSpec_def)
qed

lemma audit_accepted_zero:
  "newOperatorWorkAudit c i action actor reason t = Inr x \<Longrightarrow> \<not> IsZero t"
  by (auto simp: newOperatorWorkAudit_def split: if_splits)

lemma NewOperatorCompensationResolution_Inr:
  assumes ok: "NewOperatorCompensationResolution s = Inr t" and id: "operator_identity (ov_Actor s) (ov_Reason s)"
    and wf: "wf_steps (def_Steps (ov_Definition s))"
  obtains a ci step policy p e where
    "newOperatorWorkAudit (ov_CommandID s) (ov_Instance s) OperatorResolveCompensation (ov_Actor s) (ov_Reason s)
       (ov_OccurredAt s) = Inr (a, ci)"
    "definitionActivityStep (ov_Definition s) (ov_StepName s) = Some step" "st_Compensation step = Some policy"
    "in_compensations (ov_Instance s) (ov_StepName s) = Some p"
    "kp_status p = CompensationFailed \<or> kp_status p = CompensationUnknown"
    "blen (ov_Evidence s) \<le> unat (cs_ResultLimit policy)"
    "NewHistoryEvent (zero_HistoryEventSpec\<lparr>hs_Sequence := in_sequence ci + 1, hs_InstanceID := in_id ci,
       hs_Kind := EventCompensationManuallyResolved, hs_OccurredAt := ov_OccurredAt s,
       hs_StepName := ov_StepName s, hs_Code := ov_Code s, hs_Data := ov_Evidence s\<rparr>) = Inr e"
    "newOperatorWorkTransition (ov_CommandID s) (ov_Instance s) a (command_transition (ov_CommandID s) ci e) = Inr t"
proof -
  let ?i = "ov_Instance s"
  from ok obtain a ci step policy p where
      aud: "newOperatorWorkAudit (ov_CommandID s) ?i OperatorResolveCompensation (ov_Actor s) (ov_Reason s)
        (ov_OccurredAt s) = Inr (a, ci)"
    and g: "definitionActivityStep (ov_Definition s) (ov_StepName s) = Some step" "st_Compensation step = Some policy"
      "in_compensations ?i (ov_StepName s) = Some p"
      "kp_status p = CompensationFailed \<or> kp_status p = CompensationUnknown"
      "stableName (ov_Code s)" "blen (ov_Evidence s) \<le> unat (cs_ResultLimit policy)"
    and t: "newOperatorWorkTransition (ov_CommandID s) ?i a (command_transition (ov_CommandID s) ci
      (value_or zero_HistoryEvent (NewHistoryEvent (zero_HistoryEventSpec\<lparr>hs_Sequence := in_sequence ci + 1,
        hs_InstanceID := in_id ci, hs_Kind := EventCompensationManuallyResolved, hs_OccurredAt := ov_OccurredAt s,
        hs_StepName := ov_StepName s, hs_Code := ov_Code s, hs_Data := ov_Evidence s\<rparr>)))) = Inr t"
    unfolding NewOperatorCompensationResolution_def Let_def
    by (auto simp: not_less split: sum.splits prod.splits option.splits if_splits)
  have ids: "instanceIDPattern (ov_Actor s)" "stableName (ov_Reason s)" using id by (simp_all add: operator_identity_def)
  have "OperatorResolveCompensation \<noteq> OperatorNone" by simp
  note A = newOperatorWorkAudit_Inr [OF aud this ids]
  have st: "stableName (ov_StepName s)" "validateStep step = Inr ()"
    using wf_step_lookup [OF wf, of "ov_StepName s" StepActivity step] g(1)
    by (simp_all add: definitionActivityStep_def definitionStep_def)
  have "blen (ov_Evidence s) \<le> MaxPayloadBytes"
    using validateStep_compensation(3) [OF st(2) g(2)] g(6) by (simp add: validPayloadLimit_def)
  then obtain e where e: "NewHistoryEvent (zero_HistoryEventSpec\<lparr>hs_Sequence := in_sequence ci + 1, hs_InstanceID := in_id ci,
       hs_Kind := EventCompensationManuallyResolved, hs_OccurredAt := ov_OccurredAt s,
       hs_StepName := ov_StepName s, hs_Code := ov_Code s, hs_Data := ov_Evidence s\<rparr>) = Inr e"
    using resolution_event_exists [of "in_sequence ci" "in_id ci" "ov_OccurredAt s" "ov_StepName s" "ov_Code s"
        "ov_Evidence s"] A room_for_two(3) [OF A(4)] st(1) g(5) audit_accepted_zero [OF aud]
    by (auto simp: add.assoc)
  with t show thesis using that aud g by simp
qed

definition resolution_ready :: "OperatorCompensationResolutionSpec \<Rightarrow> bool" where
  "resolution_ready s \<longleftrightarrow> operator_identity (ov_Actor s) (ov_Reason s) \<and>
     wf_steps (def_Steps (ov_Definition s)) \<and> \<not> terminalStatus (in_status (ov_Instance s))"

interpretation op_resolution: plan_constructor NewOperatorCompensationResolution ov_Instance ov_Definition resolution_ready
proof
  fix s t
  assume ok: "NewOperatorCompensationResolution s = Inr t" and r: "resolution_ready s"
  have adm: "operator_identity (ov_Actor s) (ov_Reason s)" "wf_steps (def_Steps (ov_Definition s))"
    "\<not> terminalStatus (in_status (ov_Instance s))"
    using r by (simp_all add: resolution_ready_def)
  from ok adm(1,2) show "plan_for (ov_Instance s) t"
  proof (rule NewOperatorCompensationResolution_Inr, goal_cases)
    case (1 a ci step policy p e)
    show ?thesis by (rule audited_command_plan(1) [OF 1(1) _ adm(1) 1(7) _ _ _ _ 1(8)]) simp_all
  qed
  fix registry :: "Registry option"
  assume lv: "live registry (ov_Instance s) (ov_Definition s)"
  from ok adm(1,2) show "\<exists>j. apply_all registry (ov_Instance s) (tr_events t) = Inr j \<and> in_pendingOperator j = OperatorNone"
  proof (rule NewOperatorCompensationResolution_Inr, goal_cases)
    case (1 a ci step policy p e)
    note f = NewHistoryEvent_fields [OF 1(7)]
    let ?x = "audited (ov_Instance s) a \<lparr>au_Action = OperatorResolveCompensation, au_Actor = ov_Actor s, au_Reason = ov_Reason s\<rparr>"
    have "\<exists>k'. compensation_step policy (in_compensations ?x (ev_stepName e)) e k'"
      using 1(4-6) f by (auto simp: compensation_step_def compensation_progress_def)
    then have "\<exists>k. replay_step registry ?x e k"
      using replay_step.compensation [of e registry ?x step policy] 1(2,3) f lv
      by (auto simp: live_def compensation_kind_cases)
    then show ?thesis
      by (intro audited_command_plan(2) [OF 1(1) _ adm(1) 1(7) _ _ _ _ 1(8) lv adm(3)]) simp_all
  qed
qed

lemma NewOperatorApproval_Inr:
  assumes ok: "NewOperatorApproval s = Inr t" and id: "operator_identity (op_Actor s) (op_Reason s)"
    and wf: "wf_steps (def_Steps (op_Definition s))"
  obtains a ci step e where
    "newOperatorWorkAudit (op_CommandID s) (op_Instance s) OperatorApprove (op_Actor s) (op_Reason s)
       (op_OccurredAt s) = Inr (a, ci)"
    "definitionStep (op_Definition s) (op_StepName s) StepApproval = Some step"
    "blen (op_Payload s) \<le> unat (st_InputLimit step)"
    "NewHistoryEvent (zero_HistoryEventSpec\<lparr>hs_Sequence := in_sequence ci + 1, hs_InstanceID := in_id ci,
       hs_Kind := EventSignalReceived, hs_OccurredAt := op_OccurredAt s, hs_StepName := op_StepName s,
       hs_IdempotencyKey := op_CommandID s, hs_Data := op_Payload s\<rparr>) = Inr e"
    "newOperatorWorkTransition (op_CommandID s) (op_Instance s) a (command_transition (op_CommandID s) ci e) = Inr t"
proof -
  let ?i = "op_Instance s"
  from ok obtain a ci step where
      aud: "newOperatorWorkAudit (op_CommandID s) ?i OperatorApprove (op_Actor s) (op_Reason s)
        (op_OccurredAt s) = Inr (a, ci)"
    and g: "definitionStep (op_Definition s) (op_StepName s) StepApproval = Some step"
      "blen (op_Payload s) \<le> unat (st_InputLimit step)"
    and t: "newOperatorWorkTransition (op_CommandID s) ?i a (command_transition (op_CommandID s) ci
      (value_or zero_HistoryEvent (NewHistoryEvent (zero_HistoryEventSpec\<lparr>hs_Sequence := in_sequence ci + 1,
        hs_InstanceID := in_id ci, hs_Kind := EventSignalReceived, hs_OccurredAt := op_OccurredAt s,
        hs_StepName := op_StepName s, hs_IdempotencyKey := op_CommandID s, hs_Data := op_Payload s\<rparr>)))) = Inr t"
    unfolding NewOperatorApproval_def Let_def
    by (auto simp: not_less split: sum.splits prod.splits option.splits if_splits)
  have ids: "instanceIDPattern (op_Actor s)" "stableName (op_Reason s)" using id by (simp_all add: operator_identity_def)
  have "OperatorApprove \<noteq> OperatorNone" by simp
  note A = newOperatorWorkAudit_Inr [OF aud this ids]
  note st = wf_step_lookup [OF wf g(1)]
  have "blen (op_Payload s) \<le> MaxPayloadBytes"
    using validateStep_approval [OF st(2,3)] g(2) by (simp add: validPayloadLimit_def)
  then obtain e where "NewHistoryEvent (zero_HistoryEventSpec\<lparr>hs_Sequence := in_sequence ci + 1, hs_InstanceID := in_id ci,
       hs_Kind := EventSignalReceived, hs_OccurredAt := op_OccurredAt s, hs_StepName := op_StepName s,
       hs_IdempotencyKey := op_CommandID s, hs_Data := op_Payload s\<rparr>) = Inr e"
    using approval_event_exists [of "in_sequence ci" "in_id ci" "op_OccurredAt s" "op_StepName s" "op_CommandID s"
        "op_Payload s"] A room_for_two(3) [OF A(4)] st(1) audit_accepted_zero [OF aud]
    by (auto simp: add.assoc)
  with t show thesis using that aud g by simp
qed

definition approval_ready :: "OperatorApprovalSpec \<Rightarrow> bool" where
  "approval_ready s \<longleftrightarrow> operator_identity (op_Actor s) (op_Reason s) \<and>
     wf_steps (def_Steps (op_Definition s)) \<and>
     (in_status (op_Instance s) = StatusRunning \<or> in_status (op_Instance s) = StatusPaused) \<and>
     in_signals (op_Instance s) (op_StepName s) = None"

interpretation op_approval: plan_constructor NewOperatorApproval op_Instance op_Definition approval_ready
proof
  fix s t
  assume ok: "NewOperatorApproval s = Inr t" and r: "approval_ready s"
  have adm: "operator_identity (op_Actor s) (op_Reason s)" "wf_steps (def_Steps (op_Definition s))"
    "\<not> terminalStatus (in_status (op_Instance s))"
    using r by (auto simp: approval_ready_def)
  from ok adm(1,2) show "plan_for (op_Instance s) t"
  proof (rule NewOperatorApproval_Inr, goal_cases)
    case (1 a ci step e)
    show ?thesis by (rule audited_command_plan(1) [OF 1(1) _ adm(1) 1(4) _ _ _ _ 1(5)]) simp_all
  qed
  fix registry :: "Registry option"
  assume lv: "live registry (op_Instance s) (op_Definition s)"
  from ok adm(1,2) show "\<exists>j. apply_all registry (op_Instance s) (tr_events t) = Inr j \<and> in_pendingOperator j = OperatorNone"
  proof (rule NewOperatorApproval_Inr, goal_cases)
    case (1 a ci step e)
    note f = NewHistoryEvent_fields [OF 1(4)]
    let ?x = "audited (op_Instance s) a \<lparr>au_Action = OperatorApprove, au_Actor = op_Actor s, au_Reason = op_Reason s\<rparr>"
    have "definitionStep (op_Definition s) (op_StepName s) StepSignal = None"
      by (rule wf_step_unique [OF adm(2) 1(2)]) simp
    then have "\<exists>k. applyWait registry ?x e = Inr k"
      using 1(2,3) f lv r
      by (auto simp: applyWait_signal approval_ready_def live_def signal_step_def)
    then have "\<exists>k. replay_step registry ?x e k" by (auto intro: replay_step.wait)
    then show ?thesis
      by (intro audited_command_plan(2) [OF 1(1) _ adm(1) 1(4) _ _ _ _ 1(5) lv adm(3)]) simp_all
  qed
qed

end
