(* ===== verification/Example.thy ===== *)
theory Example
  imports Child_Transition Wait_Transition Operator_Command Activity
begin

text \<open>
  A concrete order workflow for the witnesses: two definitions, the registry compiled from them,
  and a history with activity, compensation, timer, signal, race, child and operator events.
\<close>

definition ex_child_ref :: DefinitionReference where
  "ex_child_ref = \<lparr>dr_name = ''parcel'', dr_version = ''v1'', dr_fingerprint = replicate 64 CHR ''b''\<rparr>"

definition ex_ref :: DefinitionReference where
  "ex_ref = \<lparr>dr_name = ''order'', dr_version = ''v1'', dr_fingerprint = replicate 64 CHR ''a''\<rparr>"

definition ex_retry :: RetryPolicy where
  "ex_retry = \<lparr>rp_MaxAttempts = 3, rp_InitialDelay = 10, rp_MaxDelay = 15\<rparr>"

definition ex_compensation :: CompensationSpec where
  "ex_compensation = \<lparr>cs_Target = ''refund'', cs_Timeout = 50, cs_ResultLimit = 8, cs_Retry = ex_retry\<rparr>"

definition ex_charge :: StepSpec where
  "ex_charge = zero_StepSpec\<lparr>st_Name := ''charge'', st_Kind := StepActivity, st_Target := ''pay'',
     st_Timeout := 100, st_InputLimit := 8, st_ResultLimit := 8, st_Retry := ex_retry,
     st_Compensation := Some ex_compensation\<rparr>"

definition ex_cool :: StepSpec where
  "ex_cool = zero_StepSpec\<lparr>st_Name := ''cool'', st_Kind := StepTimer, st_Timeout := 20\<rparr>"

definition ex_paid :: StepSpec where
  "ex_paid = zero_StepSpec\<lparr>st_Name := ''paid'', st_Kind := StepSignal, st_Target := ''bank'',
     st_Timeout := 100, st_InputLimit := 8\<rparr>"

definition ex_check :: StepSpec where
  "ex_check = zero_StepSpec\<lparr>st_Name := ''check'', st_Kind := StepApproval, st_Target := ''desk'',
     st_Timeout := 100, st_InputLimit := 8\<rparr>"

definition ex_first :: StepSpec where
  "ex_first = zero_StepSpec\<lparr>st_Name := ''first'', st_Kind := StepRace, st_Branches := [''paid'', ''check''],
     st_FanOutLimit := 2\<rparr>"

definition ex_ship :: StepSpec where
  "ex_ship = zero_StepSpec\<lparr>st_Name := ''ship'', st_Kind := StepChild, st_Target := ''parcel'',
     st_ChildDefinition := ex_child_ref, st_Timeout := 100, st_InputLimit := 8, st_ResultLimit := 8,
     st_Retry := ex_retry\<rparr>"

definition ex_spec :: DefinitionSpec where
  "ex_spec = \<lparr>ds_Name = ''order'', ds_Version = ''v1'', ds_Mode = Orchestration, ds_Deprecated = False,
     ds_Steps = [ex_charge, ex_cool, ex_paid, ex_check, ex_first, ex_ship]\<rparr>"

definition ex_definition :: Definition where
  "ex_definition = \<lparr>def_spec = ex_spec, def_fingerprint = replicate 64 CHR ''a''\<rparr>"

definition ex_child_definition :: Definition where
  "ex_child_definition = \<lparr>def_spec = \<lparr>ds_Name = ''parcel'', ds_Version = ''v1'', ds_Mode = Orchestration,
     ds_Deprecated = False, ds_Steps = [ex_charge]\<rparr>, def_fingerprint = replicate 64 CHR ''b''\<rparr>"

definition ex_registry :: "Registry option" where
  "ex_registry = Some \<lparr>reg_definitions = [(''order'', ''v1'') \<mapsto> ex_definition,
     (''parcel'', ''v1'') \<mapsto> ex_child_definition], reg_migrations = Map.empty\<rparr>"

definition ex_event :: "uint64 \<Rightarrow> EventKind \<Rightarrow> int \<Rightarrow> HistoryEvent" where
  "ex_event n k t = zero_HistoryEvent\<lparr>ev_sequence := n, ev_instanceID := ''order-1'', ev_kind := k,
     ev_occurredAt := utc t\<rparr>"

definition ex_started :: HistoryEvent where
  "ex_started = (ex_event 1 EventInstanceStarted 1000)\<lparr>ev_definition := ex_ref, ev_data := Some ''in''\<rparr>"

definition ex_scheduled :: HistoryEvent where
  "ex_scheduled = (ex_event 2 EventActivityScheduled 1010)\<lparr>ev_stepName := ''charge'', ev_data := Some ''9''\<rparr>"

definition ex_attempt :: HistoryEvent where
  "ex_attempt = (ex_event 3 EventActivityAttemptStarted 1020)\<lparr>ev_stepName := ''charge'', ev_attempt := 1,
     ev_idempotencyKey := ''key-1'', ev_dueAt := utc 1120\<rparr>"

definition ex_succeeded :: HistoryEvent where
  "ex_succeeded = (ex_event 4 EventActivityAttemptSucceeded 1030)\<lparr>ev_stepName := ''charge'', ev_attempt := 1,
     ev_data := Some ''ok''\<rparr>"

definition ex_failed :: HistoryEvent where
  "ex_failed = (ex_event 4 EventActivityAttemptFailed 1030)\<lparr>ev_stepName := ''charge'', ev_attempt := 1,
     ev_code := ''declined'', ev_retryable := True\<rparr>"

definition ex_undo :: HistoryEvent where
  "ex_undo = (ex_event 5 EventCompensationScheduled 1040)\<lparr>ev_stepName := ''charge''\<rparr>"

definition ex_undo_attempt :: HistoryEvent where
  "ex_undo_attempt = (ex_event 6 EventCompensationAttemptStarted 1050)\<lparr>ev_stepName := ''charge'', ev_attempt := 1,
     ev_idempotencyKey := ''key-2'', ev_dueAt := utc 1100\<rparr>"

definition ex_undo_failed :: HistoryEvent where
  "ex_undo_failed = (ex_event 7 EventCompensationAttemptFailed 1060)\<lparr>ev_stepName := ''charge'', ev_attempt := 1,
     ev_code := ''offline'', ev_retryable := True\<rparr>"

definition ex_child :: HistoryEvent where
  "ex_child = (ex_event 2 EventChildScheduled 1010)\<lparr>ev_stepName := ''ship'', ev_definition := ex_child_ref,
     ev_successorID := ''parcel-1'', ev_data := Some ''box''\<rparr>"

definition ex_child_attempt :: HistoryEvent where
  "ex_child_attempt = (ex_event 3 EventChildStartAttempted 1020)\<lparr>ev_stepName := ''ship'',
     ev_successorID := ''parcel-1'', ev_attempt := 1, ev_idempotencyKey := ''parcel-1'', ev_dueAt := utc 1120\<rparr>"

definition ex_child_failed :: HistoryEvent where
  "ex_child_failed = (ex_event 4 EventChildStartFailed 1030)\<lparr>ev_stepName := ''ship'',
     ev_successorID := ''parcel-1'', ev_attempt := 1, ev_code := ''offline'', ev_retryable := True\<rparr>"

definition ex_timer :: HistoryEvent where
  "ex_timer = (ex_event 2 EventTimerScheduled 1010)\<lparr>ev_stepName := ''cool'', ev_dueAt := utc 1030\<rparr>"

section \<open>The replayed instances\<close>

definition ex_i1 :: Instance where
  "ex_i1 = zero_Instance\<lparr>in_id := ''order-1'', in_definition := ex_ref, in_status := StatusRunning,
     in_sequence := 1, in_startedAt := utc 1000, in_updatedAt := utc 1000, in_input := Some ''in''\<rparr>"

definition ex_charged :: ActivityProgress where
  "ex_charged = zero_ActivityProgress\<lparr>ap_stepName := ''charge'', ap_input := Some ''9''\<rparr>"

definition ex_i2 :: Instance where
  "ex_i2 = ex_i1\<lparr>in_sequence := 2, in_updatedAt := utc 1010,
     in_activities := [''charge'' \<mapsto> ex_charged\<lparr>ap_status := ActivityProgressReady\<rparr>]\<rparr>"

definition ex_i3 :: Instance where
  "ex_i3 = ex_i1\<lparr>in_sequence := 3, in_updatedAt := utc 1020,
     in_activities := [''charge'' \<mapsto> ex_charged\<lparr>ap_status := ActivityProgressRunning, ap_attempt := 1,
       ap_idempotencyKey := ''key-1'', ap_dueAt := utc 1120\<rparr>]\<rparr>"

definition ex_i4 :: Instance where
  "ex_i4 = ex_i1\<lparr>in_sequence := 4, in_updatedAt := utc 1030,
     in_activities := [''charge'' \<mapsto> ex_charged\<lparr>ap_status := ActivityProgressSucceeded, ap_attempt := 1,
       ap_idempotencyKey := ''key-1'', ap_result := Some ''ok''\<rparr>]\<rparr>"

definition ex_if :: Instance where
  "ex_if = ex_i1\<lparr>in_sequence := 4, in_updatedAt := utc 1030,
     in_activities := [''charge'' \<mapsto> ex_charged\<lparr>ap_status := ActivityProgressFailed, ap_attempt := 1,
       ap_idempotencyKey := ''key-1'', ap_code := ''declined'', ap_retryable := True\<rparr>]\<rparr>"

definition ex_undone :: CompensationProgress where
  "ex_undone = zero_CompensationProgress\<lparr>kp_stepName := ''charge'', kp_scheduledSequence := 5\<rparr>"

definition ex_i5 :: Instance where
  "ex_i5 = ex_i4\<lparr>in_sequence := 5, in_updatedAt := utc 1040,
     in_compensations := [''charge'' \<mapsto> ex_undone\<lparr>kp_status := CompensationReady\<rparr>]\<rparr>"

definition ex_i6 :: Instance where
  "ex_i6 = ex_i4\<lparr>in_sequence := 6, in_updatedAt := utc 1050,
     in_compensations := [''charge'' \<mapsto> ex_undone\<lparr>kp_status := CompensationRunning, kp_attempt := 1,
       kp_idempotencyKey := ''key-2'', kp_dueAt := utc 1100\<rparr>]\<rparr>"

definition ex_i7 :: Instance where
  "ex_i7 = ex_i4\<lparr>in_sequence := 7, in_updatedAt := utc 1060,
     in_compensations := [''charge'' \<mapsto> ex_undone\<lparr>kp_status := CompensationFailed, kp_attempt := 1,
       kp_idempotencyKey := ''key-2'', kp_code := ''offline'', kp_retryable := True\<rparr>]\<rparr>"

definition ex_parcel :: ChildProgress where
  "ex_parcel = zero_ChildProgress\<lparr>cp_stepName := ''ship'', cp_childID := ''parcel-1'',
     cp_definition := ex_child_ref, cp_input := Some ''box''\<rparr>"

definition ex_c2 :: Instance where
  "ex_c2 = ex_i1\<lparr>in_sequence := 2, in_updatedAt := utc 1010,
     in_children := [''ship'' \<mapsto> ex_parcel\<lparr>cp_status := ChildScheduled\<rparr>]\<rparr>"

definition ex_c3 :: Instance where
  "ex_c3 = ex_i1\<lparr>in_sequence := 3, in_updatedAt := utc 1020,
     in_children := [''ship'' \<mapsto> ex_parcel\<lparr>cp_status := ChildStartRunning, cp_attempt := 1,
       cp_idempotencyKey := ''parcel-1'', cp_dueAt := utc 1120\<rparr>]\<rparr>"

definition ex_c4 :: Instance where
  "ex_c4 = ex_i1\<lparr>in_sequence := 4, in_updatedAt := utc 1030,
     in_children := [''ship'' \<mapsto> ex_parcel\<lparr>cp_status := ChildStartFailedStatus, cp_attempt := 1,
       cp_idempotencyKey := ''parcel-1'', cp_code := ''offline'', cp_retryable := True\<rparr>]\<rparr>"

definition ex_t2 :: Instance where
  "ex_t2 = ex_i1\<lparr>in_sequence := 2, in_updatedAt := utc 1010,
     in_timers := [''cool'' \<mapsto> zero_TimerProgress\<lparr>tp_stepName := ''cool'', tp_status := TimerWaiting,
       tp_dueAt := utc 1030\<rparr>]\<rparr>"

section \<open>Evaluation\<close>

lemmas ex_steps = ex_charge_def ex_cool_def ex_paid_def ex_check_def ex_first_def ex_ship_def
  ex_retry_def ex_compensation_def
lemmas ex_definitions = ex_definition_def ex_child_definition_def ex_spec_def ex_registry_def ex_ref_def
  ex_child_ref_def
lemmas ex_events = ex_event_def ex_started_def ex_scheduled_def ex_attempt_def ex_succeeded_def ex_failed_def
  ex_undo_def ex_undo_attempt_def ex_undo_failed_def ex_child_def ex_child_attempt_def ex_child_failed_def
  ex_timer_def
lemmas ex_instances = ex_i1_def ex_i2_def ex_i3_def ex_i4_def ex_if_def ex_i5_def ex_i6_def ex_i7_def ex_c2_def
  ex_c3_def ex_c4_def ex_t2_def ex_charged_def ex_undone_def ex_parcel_def
lemmas zero_values = zero_StepSpec_def zero_HistoryEvent_def zero_Instance_def zero_DefinitionReference_def
  zero_ActivityProgress_def zero_CompensationProgress_def zero_ChildProgress_def zero_TimerProgress_def
  zero_RetryPolicy_def zero_HistoryEventSpec_def time_zero_def
lemmas replay_eval = Replay_def apply_event_def applyStart_def apply_kind_def applyActivity_def
  applyCompensation_def compensation_progress_def compensation_admitted_def applyChild_def child_progress_def
  child_start_allowed_def childTerminalOutcomeAllowed_def applyWait_def validateReference_def
  Resolve_def resolved_def Let_def Before_def terminalStatus_def definitionActivityStep_def definitionStep_def
  has_key_def lookup_zero_def activityOutcomeAllowed_def canonicalTime_Add utc_def def_Reference_def
lemmas pattern_eval = stableName_def instanceIDPattern_def fingerprintPattern_def name_char_def id_char_def
  hex_char_def is_alnum_def is_digit_def in_range_def
lemmas event_eval = event_ok_def historyEventValid_def validHistoryEventSpec_def event_spec_def canonical_def
  requiresDefinition_def childEvent_def kind_between_def validEventFields_def validActivityEventFields_def
  validCompensationEventFields_def validChildEventFields_def validWaitEventFields_def
  IsZero_def After_def reference_valid_def MaxPayloadBytes_def utc_def

lemma list_all_replicate [simp]: "list_all P (replicate n x) \<longleftrightarrow> n = 0 \<or> P x"
  by (induction n) auto

lemma ex_events_ok:
  "event_ok ex_started" "event_ok ex_scheduled" "event_ok ex_attempt" "event_ok ex_succeeded" "event_ok ex_failed"
  "event_ok ex_undo" "event_ok ex_undo_attempt" "event_ok ex_undo_failed" "event_ok ex_child"
  "event_ok ex_child_attempt" "event_ok ex_child_failed" "event_ok ex_timer"
  by (simp_all add: event_eval pattern_eval zero_values ex_definitions ex_events)

lemmas ex_eval = replay_eval zero_values ex_definitions ex_steps ex_events ex_instances

lemma ex_apply1: "apply_event ex_registry zero_Instance ex_started = Inr ex_i1"
  by (simp add: ex_eval)
lemma ex_apply2: "apply_event ex_registry ex_i1 ex_scheduled = Inr ex_i2"
  by (simp add: ex_eval)
lemma ex_apply3: "apply_event ex_registry ex_i2 ex_attempt = Inr ex_i3"
  by (simp add: ex_eval)
lemma ex_apply4: "apply_event ex_registry ex_i3 ex_succeeded = Inr ex_i4"
  by (simp add: ex_eval)
lemma ex_applyf: "apply_event ex_registry ex_i3 ex_failed = Inr ex_if"
  by (simp add: ex_eval)
lemma ex_apply5: "apply_event ex_registry ex_i4 ex_undo = Inr ex_i5"
  by (simp add: ex_eval)
lemma ex_apply6: "apply_event ex_registry ex_i5 ex_undo_attempt = Inr ex_i6"
  by (simp add: ex_eval)
lemma ex_apply7: "apply_event ex_registry ex_i6 ex_undo_failed = Inr ex_i7"
  by (simp add: ex_eval)
lemma ex_applyc2: "apply_event ex_registry ex_i1 ex_child = Inr ex_c2"
  by (simp add: ex_eval)
lemma ex_applyc3: "apply_event ex_registry ex_c2 ex_child_attempt = Inr ex_c3"
  by (simp add: ex_eval)
lemma ex_applyc4: "apply_event ex_registry ex_c3 ex_child_failed = Inr ex_c4"
  by (simp add: ex_eval)
lemma ex_applyt2: "apply_event ex_registry ex_i1 ex_timer = Inr ex_t2"
  by (simp add: ex_eval)

lemmas ex_apply = ex_apply1 ex_apply2 ex_apply3 ex_apply4 ex_applyf ex_apply5 ex_apply6 ex_apply7 ex_applyc2
  ex_applyc3 ex_applyc4 ex_applyt2

lemma ex_idle:
  "in_pendingOperator ex_i1 = OperatorNone" "in_pendingOperator ex_i2 = OperatorNone"
  "in_pendingOperator ex_i3 = OperatorNone" "in_pendingOperator ex_i4 = OperatorNone"
  "in_pendingOperator ex_if = OperatorNone" "in_pendingOperator ex_i5 = OperatorNone"
  "in_pendingOperator ex_i6 = OperatorNone" "in_pendingOperator ex_i7 = OperatorNone"
  "in_pendingOperator ex_c2 = OperatorNone" "in_pendingOperator ex_c3 = OperatorNone"
  "in_pendingOperator ex_c4 = OperatorNone" "in_pendingOperator ex_t2 = OperatorNone"
  by (simp_all add: ex_instances zero_Instance_def)

lemmas ex_replay = Replay_def ex_apply ex_idle

lemma ex_compiles: "CompileRegistry [ex_definition, ex_child_definition] [] = Inr (the ex_registry)"
  by (simp add: CompileRegistry_def definition_key_def ex_definitions ex_steps zero_values has_key_def def_Reference_def)

lemma ex_compiled: "compiled ex_registry"
  using CompileRegistry_ok [OF ex_compiles] by (simp add: compiled_def ex_registry_def)

lemma ex_resolved: "resolved ex_registry ex_ref = ex_definition"
  by (simp add: resolved_def Resolve_def ex_registry_def ex_ref_def)

lemma ex_pinned:
  "in_definition ex_i1 = ex_ref" "in_definition ex_i2 = ex_ref" "in_definition ex_i3 = ex_ref"
  "in_definition ex_i4 = ex_ref" "in_definition ex_if = ex_ref" "in_definition ex_i5 = ex_ref"
  "in_definition ex_i6 = ex_ref" "in_definition ex_i7 = ex_ref" "in_definition ex_c2 = ex_ref"
  "in_definition ex_c3 = ex_ref" "in_definition ex_c4 = ex_ref" "in_definition ex_t2 = ex_ref"
  by (simp_all add: ex_instances)

section \<open>Accepted plans\<close>

definition ex_schedule :: ActivityScheduleSpec where
  "ex_schedule = \<lparr>as_TransitionID = ''t-2'', as_WorkID = ''w-2'', as_Instance = ex_i1,
     as_Definition = ex_definition, as_StepName = ''charge'', as_Attempt = 1, as_IdempotencyKey = ''key-1'',
     as_ScheduledAt = utc 1010, as_Deadline = utc 5000, as_Input = Some ''9'', as_TenantID = [],
     as_CorrelationID = []\<rparr>"

lemmas plan_eval = NewHistoryEvent_def NewPendingWork_def NewTransition_def transition_valid_def work_valid_def
  first_event_ok_def optionalMetadataValid_def MaxTransitionEvents_def MaxTransitionWork_def
  MaxTransitionBytes_def canonicalTime_utc

lemma ex_dispatch:
  "blen (encodeActivityDispatch ''charge'' a ''key-1'') \<le> 75"
  "blen (encodeCompensationDispatch ''charge'' a ''key-2'') \<le> 75"
  using dispatch_length [of "''charge''" "''key-1''" a] dispatch_length [of "''charge''" "''key-2''" a]
  by (simp_all add: pattern_eval encodeCompensationDispatch_def encodeActivityDispatch_def)

lemma ex_decode:
  "DecodeActivityDispatch (encodeActivityDispatch ''charge'' 1 ''key-1'') =
     Inr \<lparr>ad_stepName = ''charge'', ad_attempt = 1, ad_idempotencyKey = ''key-1''\<rparr>"
  "DecodeCompensationDispatch (encodeCompensationDispatch ''charge'' 1 ''key-2'') =
     Inr \<lparr>ad_stepName = ''charge'', ad_attempt = 1, ad_idempotencyKey = ''key-2''\<rparr>"
  by (rule DecodeActivityDispatch_encode DecodeCompensationDispatch_encode, simp_all add: pattern_eval)+

definition ex_lease :: "WorkKind \<Rightarrow> uint64 \<Rightarrow> int \<Rightarrow> bytes \<Rightarrow> WorkLease" where
  "ex_lease k n t payload = \<lparr>wl_work = \<lparr>pw_id = ''w-1'', pw_kind = k, pw_instanceID = ''order-1'',
       pw_sequence = n, pw_availableAt = utc t, pw_deadline = utc 5000, pw_payload = payload,
       pw_tenantID = [], pw_correlationID = []\<rparr>, wl_owner = ''worker-1'', wl_token = 1, wl_attempt = 1,
     wl_claimedAt = utc t, wl_expiresAt = utc 2000\<rparr>"

lemmas lease_eval = ex_lease_def lease_Valid_def Sub_def saturate64_def MaxWorkLeaseDuration_def

definition ex_start :: ActivityAttemptStartSpec where
  "ex_start = \<lparr>ss_TransitionID = ''t-3'',
     ss_Lease = ex_lease WorkActivity 2 1010 (encodeActivityDispatch ''charge'' 1 ''key-1''),
     ss_Instance = ex_i2, ss_Definition = ex_definition, ss_StartedAt = utc 1020\<rparr>"

definition ex_outcome :: ActivityAttemptOutcomeSpec where
  "ex_outcome = \<lparr>os_TransitionID = ''t-4'', os_Instance = ex_i3, os_Definition = ex_definition,
     os_StepName = ''charge'', os_Attempt = 1, os_OccurredAt = utc 1030,
     os_Outcome = \<lparr>ao_kind = ActivitySucceeded, ao_code = [], ao_retryable = False, ao_data = Some ''ok''\<rparr>\<rparr>"

definition ex_retry_plan :: ActivityRetrySpec where
  "ex_retry_plan = \<lparr>ay_TransitionID = ''t-5'', ay_WorkID = ''w-5'', ay_Instance = ex_if,
     ay_Definition = ex_definition, ay_StepName = ''charge'', ay_IdempotencyKey = ''key-1'',
     ay_ScheduledAt = utc 1040, ay_Deadline = utc 5000, ay_TenantID = [], ay_CorrelationID = []\<rparr>"

definition ex_comp_schedule :: CompensationScheduleSpec where
  "ex_comp_schedule = \<lparr>ks_TransitionID = ''t-5'', ks_WorkID = ''w-5'', ks_Instance = ex_i4,
     ks_Definition = ex_definition, ks_StepName = ''charge'', ks_Attempt = 1, ks_IdempotencyKey = ''key-2'',
     ks_ScheduledAt = utc 1040, ks_Deadline = utc 5000, ks_Input = None, ks_TenantID = [],
     ks_CorrelationID = []\<rparr>"

definition ex_comp_start :: CompensationAttemptStartSpec where
  "ex_comp_start = \<lparr>kt_TransitionID = ''t-6'',
     kt_Lease = ex_lease WorkCompensation 5 1040 (encodeCompensationDispatch ''charge'' 1 ''key-2''),
     kt_Instance = ex_i5, kt_Definition = ex_definition, kt_StartedAt = utc 1050\<rparr>"

definition ex_comp_outcome :: CompensationAttemptOutcomeSpec where
  "ex_comp_outcome = \<lparr>ko_TransitionID = ''t-7'', ko_Instance = ex_i6, ko_Definition = ex_definition,
     ko_StepName = ''charge'', ko_Attempt = 1, ko_OccurredAt = utc 1060,
     ko_Outcome = \<lparr>ao_kind = ActivityFailed, ao_code = ''offline'', ao_retryable = True, ao_data = None\<rparr>\<rparr>"

definition ex_comp_retry :: CompensationRetrySpec where
  "ex_comp_retry = \<lparr>ky_TransitionID = ''t-8'', ky_WorkID = ''w-8'', ky_Instance = ex_i7,
     ky_Definition = ex_definition, ky_StepName = ''charge'', ky_IdempotencyKey = ''key-2'',
     ky_ScheduledAt = utc 1070, ky_Deadline = utc 5000, ky_TenantID = [], ky_CorrelationID = []\<rparr>"

lemmas accept_eval = plan_eval event_eval pattern_eval lease_eval ex_eval

lemma ex_schedule_accepted: "\<exists>t. NewActivitySchedule ex_schedule = Inr t"
  using ex_dispatch(1) [of 1] by (simp add: NewActivitySchedule_def ex_schedule_def accept_eval)

lemma ex_start_accepted: "\<exists>t. NewActivityAttemptStart ex_start = Inr t"
  using ex_dispatch(1) [of 1]
  by (simp add: NewActivityAttemptStart_def ex_start_def accept_eval ex_decode)

lemma ex_outcome_accepted: "\<exists>t. NewActivityAttemptOutcome ex_outcome = Inr t"
  by (simp add: NewActivityAttemptOutcome_def ex_outcome_def outcome_valid_def accept_eval)

lemma ex_retry_accepted: "\<exists>t. NewActivityRetry ex_retry_plan = Inr t"
  using ex_dispatch(1) [of 2]
  by (simp add: NewActivityRetry_def ex_retry_plan_def retryDelay_def accept_eval) (simp add: word_le_def)

lemma ex_comp_schedule_accepted: "\<exists>t. NewCompensationSchedule ex_comp_schedule = Inr t"
  using ex_dispatch(2) [of 1]
  by (simp add: NewCompensationSchedule_def ex_comp_schedule_def compensating_def accept_eval)

lemma ex_comp_start_accepted: "\<exists>t. NewCompensationAttemptStart ex_comp_start = Inr t"
  using ex_dispatch(2) [of 1]
  by (simp add: NewCompensationAttemptStart_def ex_comp_start_def compensating_def accept_eval ex_decode)

lemma ex_comp_outcome_accepted: "\<exists>t. NewCompensationAttemptOutcome ex_comp_outcome = Inr t"
  by (simp add: NewCompensationAttemptOutcome_def ex_comp_outcome_def outcome_valid_def accept_eval)

lemma ex_comp_retry_accepted: "\<exists>t. NewCompensationRetry ex_comp_retry = Inr t"
  using ex_dispatch(2) [of 2]
  by (simp add: NewCompensationRetry_def ex_comp_retry_def retryDelay_def compensating_def accept_eval)
    (simp add: word_le_def)

definition ex_dispatched :: "uint32 \<Rightarrow> string \<Rightarrow> ChildDispatch" where
  "ex_dispatched a key = \<lparr>cd_stepName = ''ship'', cd_childID = ''parcel-1'', cd_definition = ex_child_ref,
     cd_attempt = a, cd_idempotencyKey = key\<rparr>"

definition ex_payload :: "uint32 \<Rightarrow> string \<Rightarrow> bytes" where
  "ex_payload a key = encodeChildDispatch ''ship'' ''parcel-1'' ex_child_ref a key"

definition ex_child_schedule :: ChildScheduleSpec where
  "ex_child_schedule = \<lparr>xs_TransitionID = ''t-2'', xs_WorkID = ''w-2'', xs_ChildID = ''parcel-1'',
     xs_Instance = ex_i1, xs_Definition = ex_definition, xs_StepName = ''ship'', xs_ScheduledAt = utc 1010,
     xs_Deadline = utc 5000, xs_Input = Some ''box'', xs_TenantID = [], xs_CorrelationID = []\<rparr>"

definition ex_child_start :: ChildStartAttemptSpec where
  "ex_child_start = \<lparr>xt_TransitionID = ''t-3'', xt_Lease = ex_lease WorkChild 2 1010 (ex_payload 1 ''parcel-1''),
     xt_Instance = ex_c2, xt_Definition = ex_definition, xt_StartedAt = utc 1020\<rparr>"

definition ex_child_start_outcome :: ChildStartAttemptOutcomeSpec where
  "ex_child_start_outcome = \<lparr>xa_TransitionID = ''t-4'', xa_Instance = ex_c3, xa_Definition = ex_definition,
     xa_StepName = ''ship'', xa_ChildID = ''parcel-1'', xa_Attempt = 1, xa_OccurredAt = utc 1030,
     xa_Outcome = \<lparr>co_kind = ChildStartFailed, co_code = ''offline'', co_retryable = True\<rparr>\<rparr>"

definition ex_child_retry :: ChildStartRetrySpec where
  "ex_child_retry = \<lparr>xy_TransitionID = ''t-5'', xy_WorkID = ''w-5'', xy_Instance = ex_c4,
     xy_Definition = ex_definition, xy_StepName = ''ship'', xy_ScheduledAt = utc 1040, xy_Deadline = utc 5000,
     xy_TenantID = [], xy_CorrelationID = []\<rparr>"

definition ex_child_outcome :: ChildOutcomeSpec where
  "ex_child_outcome = \<lparr>xo_TransitionID = ''t-3'', xo_Instance = ex_c2, xo_Definition = ex_definition,
     xo_StepName = ''ship'', xo_ChildID = ''parcel-1'', xo_CompletedAt = utc 1020, xo_Result = Some ''sent'',
     xo_FailureCode = []\<rparr>"

definition ex_timer_schedule :: TimerScheduleSpec where
  "ex_timer_schedule = \<lparr>ti_TransitionID = ''t-2'', ti_WorkID = ''w-2'', ti_InstanceID = ''order-1'',
     ti_ExpectedSequence = 1, ti_Definition = ex_definition, ti_StepName = ''cool'',
     ti_ScheduledAt = utc 1010, ti_Deadline = utc 5000, ti_TenantID = [], ti_CorrelationID = []\<rparr>"

definition ex_timer_fire :: TimerFireSpec where
  "ex_timer_fire = \<lparr>tf_TransitionID = ''t-3'', tf_Lease = ex_lease WorkTimer 2 1030 (Some ''cool''),
     tf_ExpectedSequence = 2, tf_Definition = ex_definition, tf_FiredAt = utc 1040\<rparr>"

definition ex_signal :: SignalAcceptanceSpec where
  "ex_signal = \<lparr>sg_InstanceID = ''order-1'', sg_ExpectedSequence = 1, sg_Definition = ex_definition,
     sg_StepName = ''paid'', sg_SignalID = ''s-2'', sg_ReceivedAt = utc 1010, sg_Payload = Some ''yes''\<rparr>"

definition ex_op_retry :: OperatorActivityRetrySpec where
  "ex_op_retry = \<lparr>oar_CommandID = ''cmd-5'', oar_WorkID = ''w-5'', oar_Instance = ex_if,
     oar_Definition = ex_definition, oar_StepName = ''charge'', oar_IdempotencyKey = ''key-1'',
     oar_Actor = ''alice'', oar_Reason = ''outage'', oar_OccurredAt = utc 1040, oar_Deadline = utc 5000,
     oar_TenantID = [], oar_CorrelationID = []\<rparr>"

lemma ex_timer_schedule_accepted: "\<exists>t. NewTimerSchedule ex_timer_schedule = Inr t"
  by (simp add: NewTimerSchedule_def ex_timer_schedule_def accept_eval)

lemma ex_timer_fire_accepted: "\<exists>t. NewTimerFire ex_timer_fire = Inr t"
  by (simp add: NewTimerFire_def ex_timer_fire_def accept_eval)

lemma ex_signal_accepted: "\<exists>t. NewSignalAcceptance ex_signal = Inr t"
  by (simp add: NewSignalAcceptance_def ex_signal_def accept_eval)

lemma ex_child_outcome_accepted: "\<exists>t. NewChildOutcome ex_child_outcome = Inr t"
  by (simp add: NewChildOutcome_def ex_child_outcome_def accept_eval)

lemma ex_child_start_outcome_accepted: "\<exists>t. NewChildStartAttemptOutcome ex_child_start_outcome = Inr t"
  by (simp add: NewChildStartAttemptOutcome_def ex_child_start_outcome_def child_outcome_valid_def
      childStartEventKind_def accept_eval)

lemma ex_payload_eq: "child_payload (ex_dispatched a key) = ex_payload a key"
  by (simp add: child_payload_def ex_dispatched_def ex_payload_def)

lemma ex_dispatched_ok: "a \<noteq> 0 \<Longrightarrow> instanceIDPattern key \<Longrightarrow> child_identity_ok (ex_dispatched a key)"
  by (simp add: child_identity_ok_def ex_dispatched_def ex_child_ref_def reference_valid_def)
    (simp add: pattern_eval)

lemma ex_payload_length:
  assumes "a \<noteq> 0" "instanceIDPattern key"
  shows "blen (ex_payload a key) \<le> 500"
proof -
  have "unat a < 2 ^ 32" using unsigned_less [of a] by simp
  then have "length (dec_nat (unat a)) \<le> 10" by (intro dec_nat_length) simp_all
  then show ?thesis
    using child_payload_length [OF ex_dispatched_ok [OF assms]] instanceIDPattern_length [OF assms(2)]
    by (simp add: ex_payload_eq) (simp add: ex_dispatched_def ex_child_ref_def)
qed

lemma ex_payload_decode:
  "a \<noteq> 0 \<Longrightarrow> instanceIDPattern key \<Longrightarrow> DecodeChildDispatch (ex_payload a key) = Inr (ex_dispatched a key)"
  using DecodeChildDispatch_payload [OF ex_dispatched_ok, of a key] ex_payload_length [of a key]
  by (simp add: ex_payload_eq MaxChildDispatchBytes_def)

lemma ex_key: "instanceIDPattern ''parcel-1''" "instanceIDPattern (processorTransitionID w ''child-start-key'')"
proof -
  show "instanceIDPattern ''parcel-1''" by (simp add: pattern_eval)
  show "instanceIDPattern (processorTransitionID w ''child-start-key'')"
    using fingerprintPattern_chars [OF sha256_hex_fingerprint] sha256_hex_fingerprint [unfolded fingerprintPattern_def]
    by (simp add: processorTransitionID_def instanceIDPattern_def) (simp add: pattern_eval)
qed

lemma ex_child_schedule_accepted: "\<exists>t. NewChildSchedule ex_child_schedule = Inr t"
  using ex_payload_length [OF one_neq_zero ex_key(1), unfolded ex_payload_def ex_child_ref_def]
  by (simp add: NewChildSchedule_def ex_child_schedule_def accept_eval)

lemma ex_child_retry_accepted: "\<exists>t. NewChildStartRetry ex_child_retry = Inr t"
  using ex_payload_length [of 2, OF _ ex_key(2) [of "''w-5''"], unfolded ex_payload_def ex_child_ref_def]
  by (simp add: NewChildStartRetry_def ex_child_retry_def retryDelay_def accept_eval) (simp add: word_le_def)

lemma ex_child_start_accepted: "\<exists>t. NewChildStartAttempt ex_child_start = Inr t"
  using ex_payload_length [of 1, OF _ ex_key(1)] ex_payload_decode [of 1, OF _ ex_key(1)]
  by (simp add: NewChildStartAttempt_def ex_child_start_def accept_eval ex_dispatched_def)

lemma ex_operator: "operator_identity ''alice'' ''outage''"
  by (simp add: operator_identity_def pattern_eval)

lemma ex_op_retry_accepted: "\<exists>t. NewOperatorActivityRetry ex_op_retry = Inr t"
proof -
  let ?d = "\<lparr>au_Action = OperatorRetryActivity, au_Actor = ''alice'', au_Reason = ''outage''\<rparr>"
  have dec: "decodeOperatorAudit (audit_data ?d) = Inr ?d"
    by (rule decodeOperatorAudit_audit_data) (simp_all add: pattern_eval)
  have len: "blen (audit_data ?d) = 46"
    by (subst audit_data_length) (simp_all add: pattern_eval)
  show ?thesis
    using dec len ex_dispatch(1) [of 2]
    by (simp add: NewOperatorActivityRetry_def newOperatorWorkAudit_def ex_op_retry_def NewActivityRetry_def
       newOperatorWorkTransition_def audit_event_spec_def validOperatorEventFields_def retryDelay_def
       value_or_def accept_eval) (simp add: word_le_def)
qed

end
