(* ===== verification/Definition_Properties.thy ===== *)
theory Definition_Properties
  imports Example
begin

text \<open>
  Properties of workflow definitions and of the registry compiled from them, with their witnesses.
\<close>

section \<open>Definitions\<close>

lemma orchestration_names:
  assumes "validateDefinition spec = Inr ()" "ds_Mode spec = Orchestration"
  shows "\<exists>e. control_loop (map_of (map (\<lambda>s. (st_Name s, st_Kind s)) (ds_Steps spec))) control_init
    (ds_Steps spec) = Inr e"
  using assms
  by (auto simp: validateDefinition_def validateOrchestrationControlFlow_def validate_steps_Inr
      split: if_splits sum.splits)

lemma orchestration_loop:
  assumes "NewDefinition spec = Inr d" "ds_Mode spec = Orchestration" "ds_Steps spec = before @ s # after"
  shows "\<exists>st st'. control_inv before st \<and>
     control_step (map_of (map (\<lambda>s. (st_Name s, st_Kind s)) (ds_Steps spec))) s st = Inr st' \<and>
     wf_steps (ds_Steps spec) \<and> distinct (map st_Name before) \<and> (\<forall>x \<in> set before. st_Name x \<noteq> []) \<and>
     validateStep s = Inr ()"
proof -
  let ?n = "map_of (map (\<lambda>s. (st_Name s, st_Kind s)) (ds_Steps spec))"
  have v: "validateDefinition spec = Inr ()" using assms(1) by (simp add: NewDefinition_Inr)
  have wf: "wf_steps (ds_Steps spec)" by (rule validateDefinition_wf(1) [OF v])
  obtain e where loop: "control_loop ?n control_init (before @ s # after) = Inr e"
    using orchestration_names [OF v assms(2)] assms(3) by metis
  then obtain st where st: "control_loop ?n control_init before = Inr st"
    by (auto simp: control_loop_append split: sum.splits)
  with loop obtain st' where st': "control_step ?n s st = Inr st'"
    by (auto simp: control_loop_append split: sum.splits)
  have dist: "distinct (map st_Name before)" using wf assms(3) by (simp add: wf_steps_def)
  have "control_inv ([] @ before) st"
    by (rule control_loop_inv [OF control_inv_init _ st]) (use dist in simp)
  moreover have "\<forall>x \<in> set (ds_Steps spec). st_Name x \<noteq> [] \<and> validateStep x = Inr ()"
    using wf stableName_nonempty by (auto simp: wf_steps_def list_all_iff)
  ultimately show ?thesis using st' dist wf assms(3) by auto
qed

text \<open>
  C28: An accepted definition is well formed: it has between one and \<open>MaxFanOut\<close> steps with distinct
  stable names, every step passed \<open>validateStep\<close>, every branch names another leaf step of the same
  definition, and the reference derived from it (with its SHA-256 fingerprint) is valid.
\<close>

theorem accepted_definition_wf:
  assumes "NewDefinition spec = Inr d"
  shows "def_spec d = spec \<and> wf_steps (def_Steps d) \<and> reference_valid (def_Reference d) \<and>
    (\<forall>s \<in> set (def_Steps d). definitionStep d (st_Name s) (st_Kind s) = Some s)"
proof -
  have d: "def_spec d = spec" and v: "validateDefinition spec = Inr ()"
    using assms by (auto simp: NewDefinition_Inr)
  have wf: "wf_steps (ds_Steps spec)" by (rule validateDefinition_wf(1) [OF v])
  then have "distinct (map st_Name (ds_Steps spec))" by (simp add: wf_steps_def)
  then show ?thesis
    using d wf NewDefinition_reference_valid [OF assms]
    by (auto simp: definitionStep_def intro: find_step_unique)
qed

lemmas definition_eval = validateDefinition_def validateStep_def step_kind_error_def compensation_error_def
  validPayloadLimit_def validRetry_def validBranchNames_def is_control_def MaxPayloadBytes_def MaxFanOut_def
  validateOrchestrationControlFlow_def control_step_def control_join_def has_key_def lookup_zero_def
  reference_valid_def pattern_eval

lemma ex_valid: "validateDefinition ex_spec = Inr ()"
  by (simp add: definition_eval ex_spec_def ex_steps ex_child_ref_def zero_values)

lemma ex_accepted: "\<exists>d. NewDefinition ex_spec = Inr d"
  by (simp add: NewDefinition_Inr ex_valid)

theorem accepted_definition_wf_witness:
  "\<exists>d. NewDefinition ex_spec = Inr d \<and> wf_steps (def_Steps d) \<and> reference_valid (def_Reference d)"
  using ex_accepted accepted_definition_wf [of ex_spec] by blast

text \<open>
  C29: In an accepted orchestration every join follows a parallel step whose branches are exactly the
  branches of the join.
\<close>

theorem joins_match_parallels:
  assumes "NewDefinition spec = Inr d" "ds_Mode spec = Orchestration" "ds_Steps spec = before @ j # after"
    "st_Kind j = StepJoin"
  shows "\<exists>p \<in> set before. st_Kind p = StepParallel \<and> set (st_Branches j) = set (st_Branches p) \<and>
    length (st_Branches j) = length (st_Branches p)"
proof -
  from orchestration_loop [OF assms(1-3)] obtain st st' where
      l: "control_inv before st" "control_step (map_of (map (\<lambda>s. (st_Name s, st_Kind s)) (ds_Steps spec))) j st = Inr st'" "distinct (map st_Name before)"
        "\<forall>x \<in> set before. st_Name x \<noteq> []" "validateStep j = Inr ()"
    by blast
  have "distinct (st_Branches j)" using validateStep_branches(2) [OF l(5)] assms(4) by (simp add: is_control_def)
  then show ?thesis
    by (rule control_join_parallel [OF l(1,3,4)]) (use l(2) assms(4) in \<open>simp add: control_step_def\<close>)
qed

definition ex_fork :: DefinitionSpec where
  "ex_fork = \<lparr>ds_Name = ''fork'', ds_Version = ''v1'', ds_Mode = Orchestration, ds_Deprecated = False,
     ds_Steps = [ex_charge, ex_charge\<lparr>st_Name := ''label''\<rparr>,
       zero_StepSpec\<lparr>st_Name := ''both'', st_Kind := StepParallel, st_Branches := [''charge'', ''label''],
         st_FanOutLimit := 2\<rparr>,
       zero_StepSpec\<lparr>st_Name := ''done'', st_Kind := StepJoin, st_Branches := [''label'', ''charge''],
         st_FanOutLimit := 2\<rparr>]\<rparr>"

lemma ex_fork_accepted: "\<exists>d. NewDefinition ex_fork = Inr d"
  by (simp add: NewDefinition_Inr) (simp add: definition_eval ex_fork_def ex_steps zero_values)

theorem joins_match_parallels_witness:
  "\<exists>d p. NewDefinition ex_fork = Inr d \<and> p \<in> set (butlast (ds_Steps ex_fork)) \<and> st_Kind p = StepParallel \<and>
     set (st_Branches p) = {''label'', ''charge''}"
proof -
  obtain d where d: "NewDefinition ex_fork = Inr d" using ex_fork_accepted by blast
  have s: "ds_Steps ex_fork = butlast (ds_Steps ex_fork) @ last (ds_Steps ex_fork) # []"
    "ds_Mode ex_fork = Orchestration" "st_Kind (last (ds_Steps ex_fork)) = StepJoin"
    "set (st_Branches (last (ds_Steps ex_fork))) = {''label'', ''charge''}"
    by (simp_all add: ex_fork_def zero_values)
  from joins_match_parallels [OF d s(2) s(1) s(3)] show ?thesis using d s(4) by auto
qed

text \<open>
  In an accepted orchestration no step is a branch of two parallel or race steps, every branch of
  a parallel step is an activity, and every branch of a race is a signal or an approval.
\<close>

theorem branches_owned_once:
  assumes "NewDefinition spec = Inr d" "ds_Mode spec = Orchestration" "ds_Steps spec = before @ s # after"
    "owner_step s" "b \<in> set (st_Branches s)"
  shows "(\<forall>r \<in> set before. owner_step r \<longrightarrow> b \<notin> set (st_Branches r)) \<and>
    (\<exists>t \<in> set (ds_Steps spec). st_Name t = b \<and>
       (if st_Kind s = StepParallel then st_Kind t = StepActivity
        else st_Kind t = StepSignal \<or> st_Kind t = StepApproval))"
proof -
  from orchestration_loop [OF assms(1-3)] obtain st st' where
      l: "control_inv before st" "control_step (map_of (map (\<lambda>s. (st_Name s, st_Kind s)) (ds_Steps spec))) s st = Inr st'"
        "wf_steps (ds_Steps spec)"
    by blast
  let ?n = "map_of (map (\<lambda>s. (st_Name s, st_Kind s)) (ds_Steps spec))"
  define allowed where "allowed = (if st_Kind s = StepParallel then (\<lambda>k. k = StepActivity)
    else (\<lambda>k. k = StepSignal \<or> k = StepApproval))"
  have "\<exists>field owners. claim_branches allowed field ?n (st_Name s) (cf_owners st) (st_Branches s) = Inr owners"
    using l(2) assms(4) by (auto simp: control_step_def owner_step_def allowed_def split: sum.splits)
  then have c: "cf_owners st b = None" "allowed (lookup_zero StepKindInvalid ?n b)"
    using claim_branches_Inr assms(5) by blast+
  have "\<forall>r \<in> set before. owner_step r \<longrightarrow> b \<notin> set (st_Branches r)"
    using l(1) c(1) unfolding control_inv_def by (metis option.distinct(1))
  moreover obtain k where k: "?n b = Some k" "allowed k"
    using c(2) by (cases "?n b") (auto simp: allowed_def split: if_splits)
  then obtain t where "t \<in> set (ds_Steps spec)" "st_Name t = b" "st_Kind t = k"
    using l(3) map_of_step_kinds [of "ds_Steps spec" b k] by (auto simp: wf_steps_def)
  ultimately show ?thesis using k(2) by (auto simp: allowed_def)
qed

theorem branches_owned_once_witness:
  "\<exists>d t. NewDefinition ex_spec = Inr d \<and> t \<in> set (ds_Steps ex_spec) \<and> st_Name t = ''paid'' \<and>
     (st_Kind t = StepSignal \<or> st_Kind t = StepApproval)"
proof -
  obtain d where d: "NewDefinition ex_spec = Inr d" using ex_accepted by blast
  have s: "ds_Steps ex_spec = [ex_charge, ex_cool, ex_paid, ex_check] @ ex_first # [ex_ship]"
    "ds_Mode ex_spec = Orchestration" "owner_step ex_first" "''paid'' \<in> set (st_Branches ex_first)"
    "st_Kind ex_first = StepRace"
    by (simp_all add: ex_spec_def ex_first_def owner_step_def)
  from branches_owned_once [OF d s(2) s(1) s(3,4)] show ?thesis using d s(5) by auto
qed

text \<open>
  Definition validation never reaches Go's index-out-of-range panic: the join case reads the first
  branch only of steps that have one.
\<close>

theorem definition_never_panics: "NewDefinition spec \<noteq> Inl (GoPanic p)"
  by (rule NewDefinition_no_panic)

text \<open>
  C35: The fingerprint that pins a definition does not cover the child references of its steps: two
  specifications that differ only in \<open>ChildDefinition\<close> have the same JSON rendering (the reference
  type has no exported field), hence the same fingerprint. A child step can be repinned to another
  child version without changing the parent's identity.
\<close>

theorem fingerprint_ignores_child_pins:
  assumes "NewDefinition spec = Inr d" "NewDefinition spec' = Inr d'"
    "spec' = spec\<lparr>ds_Steps := map (\<lambda>s. s\<lparr>st_ChildDefinition := pin s\<rparr>) (ds_Steps spec)\<rparr>"
  shows "def_Reference d' = def_Reference d"
proof -
  have "definition_json spec' = definition_json spec"
    using assms(3) by (simp add: definition_json_def step_json_def reference_json_def)
  then show ?thesis using assms by (auto simp: NewDefinition_Inr def_Reference_def)
qed

definition ex_repin :: "string \<Rightarrow> StepSpec \<Rightarrow> DefinitionReference" where
  "ex_repin v s = (if st_Kind s = StepChild then ex_child_ref\<lparr>dr_version := v\<rparr> else st_ChildDefinition s)"

definition ex_repinned :: DefinitionSpec where
  "ex_repinned = ex_spec\<lparr>ds_Steps := map (\<lambda>s. s\<lparr>st_ChildDefinition := ex_repin ''v2'' s\<rparr>) (ds_Steps ex_spec)\<rparr>"

theorem fingerprint_ignores_child_pins_witness:
  "\<exists>d d'. NewDefinition ex_spec = Inr d \<and> NewDefinition ex_repinned = Inr d' \<and>
     ds_Steps ex_repinned \<noteq> ds_Steps ex_spec \<and> def_Reference d' = def_Reference d"
proof -
  have "validateDefinition ex_repinned = Inr ()"
    by (simp add: definition_eval ex_repinned_def ex_repin_def ex_spec_def ex_steps ex_child_ref_def zero_values)
  then obtain d d' where d: "NewDefinition ex_spec = Inr d" "NewDefinition ex_repinned = Inr d'"
    using ex_accepted by (auto simp: NewDefinition_Inr)
  have "ds_Steps ex_repinned \<noteq> ds_Steps ex_spec"
    by (simp add: ex_repinned_def ex_repin_def ex_spec_def ex_steps ex_child_ref_def zero_values)
  with d fingerprint_ignores_child_pins [OF d ex_repinned_def] show ?thesis by blast
qed

section \<open>Registries\<close>

text \<open>
  C30: A compiled registry loses nothing and is closed: it resolves a name and version to a definition
  exactly when that definition was given; keys are unique; every child step of a registered definition is pinned to a registered definition with that very
  reference; and every migration edge joins two different registered versions of one name.
\<close>

theorem compiled_registry_closed:
  assumes "CompileRegistry ds ms = Inr r"
  shows "(\<forall>n v d. Resolve (Some r) n v = Inr d \<longleftrightarrow> d \<in> set ds \<and> def_Name d = n \<and> def_Version d = v) \<and>
    distinct (map definition_key ds) \<and>
    (\<forall>d \<in> set ds. \<forall>s \<in> set (def_Steps d). st_Kind s = StepChild \<longrightarrow>
       (\<exists>c \<in> set ds. def_Reference c = st_ChildDefinition s)) \<and>
    (\<forall>n v w m. FindMigration (Some r) n v w = Inr m \<longrightarrow> m \<in> set ms \<and> v \<noteq> w \<and>
       (\<exists>a \<in> set ds. definition_key a = (n, v)) \<and> (\<exists>b \<in> set ds. definition_key b = (n, w)))"
proof (intro conjI)
  note look = CompileRegistry_lookup [OF assms]
  show "\<forall>n v d. Resolve (Some r) n v = Inr d \<longleftrightarrow> d \<in> set ds \<and> def_Name d = n \<and> def_Version d = v"
    by (auto simp: Resolve_Inr look definition_key_def)
  show "distinct (map definition_key ds)" by (rule CompileRegistry_Inr(2) [OF assms])
  have "\<exists>c \<in> set ds. def_Reference c = st_ChildDefinition s"
    if "d \<in> set ds" "s \<in> set (def_Steps d)" "st_Kind s = StepChild" for d s
  proof -
    have "reg_definitions r (definition_key d) = Some d" using that(1) by (simp add: look)
    then show ?thesis
      using CompileRegistry_ok [OF assms] that(2,3) look unfolding registry_ok_def by (metis def_Steps_eq)
  qed
  then show "\<forall>d \<in> set ds. \<forall>s \<in> set (def_Steps d). st_Kind s = StepChild \<longrightarrow>
      (\<exists>c \<in> set ds. def_Reference c = st_ChildDefinition s)" by blast
  show "\<forall>n v w m. FindMigration (Some r) n v w = Inr m \<longrightarrow> m \<in> set ms \<and> v \<noteq> w \<and>
      (\<exists>a \<in> set ds. definition_key a = (n, v)) \<and> (\<exists>b \<in> set ds. definition_key b = (n, w))"
    using register_migrations_Inr [OF CompileRegistry_Inr(5) [OF assms]] look
    by (fastforce simp: FindMigration_def migration_key_def has_key_def split: option.splits)
qed

theorem compiled_registry_closed_witness:
  "\<exists>r. CompileRegistry [ex_definition, ex_child_definition] [] = Inr r \<and>
     Resolve (Some r) ''parcel'' ''v1'' = Inr ex_child_definition"
  using ex_compiles compiled_registry_closed [OF ex_compiles] by (auto simp: ex_child_definition_def)

end
