(* ===== verification/Replay_Properties.thy ===== *)
theory Replay_Properties
  imports Example
begin

text \<open>
  Properties of replay: what every accepted history and the instance rebuilt from it satisfy.
\<close>

definition ex_history :: "HistoryEvent list" where
  "ex_history = [ex_started, ex_scheduled, ex_attempt, ex_succeeded]"

lemma ex_history_replays: "Replay ex_registry ex_history = Inr ex_i4"
  by (simp add: ex_history_def ex_replay)

lemma ex_history_ok: "list_all event_ok ex_history"
  by (simp add: ex_history_def ex_events_ok)

section \<open>The event log\<close>

text \<open>
  C6: A history that replays is a well-formed event log: it starts with the start event, its
  positions are 1, 2, 3, ... without gap or wrap-around, every event belongs to the replayed
  instance, the event times never go back, and the instance reports the last position and time.
\<close>

theorem replayed_log_well_formed:
  assumes "Replay registry es = Inr i" "list_all event_ok es"
  shows "contiguous es \<and> same_instance (in_id i) es \<and> ordered_times es \<and>
    ev_kind (hd es) = EventInstanceStarted \<and> unat (in_sequence i) = length es \<and>
    in_startedAt i = ev_occurredAt (hd es) \<and> in_updatedAt i = ev_occurredAt (last es)"
  using reach_positions [of registry es i] assms by (simp add: Replay_iff)

theorem replayed_log_well_formed_witness:
  "contiguous ex_history \<and> ordered_times ex_history \<and> unat (in_sequence ex_i4) = 4"
  using replayed_log_well_formed [OF ex_history_replays ex_history_ok] by (simp add: ex_history_def)

text \<open>
  Replay is incremental: replaying a longer history is replaying the prefix and then applying the
  remaining events to the instance reached, so a cached instance and a full replay cannot differ.
\<close>

theorem replay_incremental:
  assumes "Replay registry es = Inr i"
  shows "Replay registry (es @ fs) = (case apply_all registry i fs of
    Inl e \<Rightarrow> Inl e
  | Inr j \<Rightarrow> if in_pendingOperator j \<noteq> OperatorNone then Inl ErrInvalidTransition else Inr j)"
proof -
  have "apply_all registry zero_Instance es = Inr i" "es \<noteq> []"
    using assms by (simp_all add: Replay_iff reach_iff)
  then show ?thesis by (simp add: Replay_def apply_all_append)
qed

theorem replay_incremental_witness: "Replay ex_registry (ex_history @ [ex_undo]) = Inr ex_i5"
  using replay_incremental [OF ex_history_replays, of "[ex_undo]"] by (simp add: ex_apply ex_idle)

section \<open>The handlers and the step relation\<close>



section \<open>The lifecycle\<close>

text \<open>
  One applied event moves the status along the lifecycle graph if its kind is a lifecycle kind and
  leaves the status alone otherwise.
\<close>

theorem status_follows_lifecycle:
  assumes "Replay registry es = Inr i" "list_all event_ok (es @ [e])" "apply_event registry i e = Inr j"
  shows "if lifecycle_kind (ev_kind e) then lifecycle (ev_kind e) (in_status i) (in_status j)
    else in_status j = in_status i"
proof -
  have "in_sequence i \<noteq> 0" using reach_live assms(1,2) by (auto simp: Replay_iff)
  then show ?thesis using apply_event_lifecycle [OF assms(3)] assms(2) by simp
qed

theorem status_follows_lifecycle_witness: "in_status ex_i5 = in_status ex_i4"
  using status_follows_lifecycle [OF ex_history_replays _ ex_apply5] ex_history_ok ex_events_ok
  by (simp add: lifecycle_kind_def ex_undo_def ex_event_def)

text \<open>
  C10: Terminal states are final: no history that replays to a completed, failed, cancelled, terminated
  or continued instance can be extended.
\<close>

theorem terminal_is_final:
  assumes "Replay registry es = Inr i" "list_all event_ok es" "terminalStatus (in_status i)" "fs \<noteq> []"
  shows "\<exists>err. Replay registry (es @ fs) = Inl err"
proof -
  have base: "apply_all registry zero_Instance es = Inr i" and nz: "in_sequence i \<noteq> 0"
    using assms(1,2) reach_live by (auto simp: Replay_iff reach_iff)
  obtain e gs where fs: "fs = e # gs" using assms(4) by (cases fs) auto
  obtain err where "apply_event registry i e = Inl err" using apply_event_terminal [OF nz assms(3)] by blast
  then show ?thesis by (auto simp: Replay_def apply_all_append base fs)
qed

definition ex_completed :: HistoryEvent where
  "ex_completed = ex_event 2 EventInstanceCompleted 1010"

theorem terminal_is_final_witness:
  "\<exists>i err. Replay ex_registry [ex_started, ex_completed] = Inr i \<and> terminalStatus (in_status i) \<and>
     Replay ex_registry [ex_started, ex_completed, ex_attempt] = Inl err"
proof -
  define i where "i = ex_i1\<lparr>in_status := StatusCompleted, in_sequence := 2, in_updatedAt := utc 1010\<rparr>"
  have ok: "list_all event_ok [ex_started, ex_completed]"
    by (simp add: ex_events_ok) (simp add: event_eval pattern_eval zero_values ex_event_def ex_completed_def)
  have "apply_event ex_registry ex_i1 ex_completed = Inr i"
    by (simp add: i_def ex_completed_def ex_eval)
  then have r: "Replay ex_registry [ex_started, ex_completed] = Inr i"
    by (simp add: ex_replay) (simp add: i_def ex_i1_def zero_Instance_def)
  have "terminalStatus (in_status i)" by (simp add: i_def)
  with r terminal_is_final [OF r ok this, of "[ex_attempt]"] show ?thesis by auto
qed

section \<open>Progress\<close>

text \<open>
  C7: Progress records are well formed in every replayed instance: a compensation exists only for an
  activity that succeeded, a race winner is a step whose signal was received, a fired timer fired
  no earlier than it was due, and every record is filed under its own step name.
\<close>

theorem replayed_progress_shape:
  assumes "Replay registry es = Inr i" "list_all event_ok es"
  shows "progress_shape i"
  by (rule shape.Replay_P [OF assms]) (simp add: list_all_iff)

theorem replayed_progress_shape_witness: "progress_shape ex_i4"
  by (rule replayed_progress_shape [OF ex_history_replays ex_history_ok])



text \<open>
  Every replayed instance, migrated or not, is pinned to a valid reference of a registered
  definition with exactly that fingerprint.
\<close>

theorem replayed_definition_pinned:
  assumes "Replay registry es = Inr i" "list_all event_ok es"
  shows "reference_valid (in_definition i) \<and> (\<exists>d. Resolve registry (dr_name (in_definition i))
    (dr_version (in_definition i)) = Inr d \<and> def_fingerprint d = dr_fingerprint (in_definition i))"
  using pin.Replay_P [OF assms] by (auto simp: pinned_ok_def validateReference_Inr list_all_iff)

theorem replayed_definition_pinned_witness: "reference_valid (in_definition ex_i4)"
  using replayed_definition_pinned [OF ex_history_replays ex_history_ok] by blast



section \<open>Operator audit\<close>

text \<open>
  C26: The operator log of a replayed instance is exactly the list of its audit events, in order, and
  every audit event is immediately followed by the event of the action it announces: no audited
  action is missing and none is interleaved.
\<close>

theorem audits_complete_and_paired:
  assumes "Replay registry es = Inr i" "list_all event_ok es"
  shows "in_operatorActions i = List.map_filter audit_record es \<and> audit_record (last es) = None \<and>
    (\<forall>k r. k < length es \<longrightarrow> audit_record (es ! k) = Some r \<longrightarrow>
       Suc k < length es \<and> ev_kind (es ! Suc k) = operatorEventKind (oa_action r))"
proof -
  have r: "reach registry es i" "in_pendingOperator i = OperatorNone" using assms(1) by (simp_all add: Replay_iff)
  note a = reach_audit [OF r(1) assms(2)]
  have ne: "es \<noteq> []" using r(1) by (simp add: reach_iff)
  have "audit_record e = Some q \<Longrightarrow> oa_action q \<noteq> OperatorNone" for e q
    by (auto simp: audit_record_def dest: decodeOperatorAudit_Inr split: if_splits sum.splits)
  then have last: "audit_record (last es) = None"
    using a r(2) by (cases "audit_record (last es)") (simp, metis option.simps(5))
  have "Suc k < length es" if "k < length es" "audit_record (es ! k) = Some q" for k q
    using that last ne last_conv_nth [OF ne] by (metis Suc_lessI diff_Suc_1 option.distinct(1))
  with a last show ?thesis by (auto simp: audits_paired_def)
qed

definition ex_pause :: operatorAuditDocument where
  "ex_pause = \<lparr>au_Action = OperatorPause, au_Actor = ''alice'', au_Reason = ''outage''\<rparr>"

lemma ex_pause_decodes: "decodeOperatorAudit (audit_data ex_pause) = Inr ex_pause"
  by (rule decodeOperatorAudit_audit_data) (simp_all add: ex_pause_def pattern_eval)

definition ex_audit_spec :: HistoryEventSpec where
  "ex_audit_spec = audit_event_spec ex_i1 ''cmd-2'' (utc 1010) (audit_data ex_pause)"

definition ex_paused :: HistoryEvent where
  "ex_paused = ex_event 3 EventInstancePaused 1010"

lemma ex_audit_exists: "\<exists>a. NewHistoryEvent ex_audit_spec = Inr a"
  unfolding ex_audit_spec_def
  by (rule audit_event_exists [OF _ _ _ _ ex_pause_decodes])
    (simp_all add: ex_i1_def zero_Instance_def IsZero_def pattern_eval)

lemma ex_audit_fields:
  assumes "NewHistoryEvent ex_audit_spec = Inr a"
  shows "event_ok a" "ev_kind a = EventOperatorCommandRecorded" "ev_instanceID a = ''order-1''"
    "ev_sequence a = 2" "ev_occurredAt a = utc 1010" "ev_data a = audit_data ex_pause"
  using NewHistoryEvent_fields [OF assms]
  by (simp_all add: ex_audit_spec_def audit_event_spec_def ex_i1_def canonicalTime_utc)

lemma ex_paused_fields:
  "event_ok ex_paused" "ev_kind ex_paused = EventInstancePaused" "ev_instanceID ex_paused = ''order-1''"
  "ev_sequence ex_paused = 3" "ev_occurredAt ex_paused = utc 1010"
  by (simp_all add: ex_paused_def ex_event_def event_eval pattern_eval zero_values)

lemma ex_audited_replay:
  assumes "NewHistoryEvent ex_audit_spec = Inr a"
  shows "\<exists>i. Replay ex_registry [ex_started, a, ex_paused] = Inr i \<and> in_status i = StatusPaused"
proof -
  have i: "in_id ex_i1 = ''order-1''" "in_sequence ex_i1 = 1" "in_updatedAt ex_i1 = utc 1000"
    "in_status ex_i1 = StatusRunning" by (simp_all add: ex_i1_def)
  have "apply_event ex_registry ex_i1 a = Inr (audited ex_i1 a ex_pause)"
    using ex_audit_fields [OF assms] ex_pause_decodes ex_idle(1)
    by (simp add: apply_event_def i apply_kind_def applyOperator_def Before_wall audited_def ex_pause_def)
  moreover have "\<exists>j. apply_event ex_registry (audited ex_i1 a ex_pause) ex_paused = Inr j \<and>
      in_status j = StatusPaused \<and> in_pendingOperator j = OperatorNone"
    using ex_audit_fields [OF assms]
    by (simp add: apply_event_def i ex_paused_fields apply_kind_def Before_wall ex_pause_def)
  ultimately show ?thesis using ex_apply1 by (auto simp: Replay_def)
qed

theorem audits_complete_and_paired_witness:
  "\<exists>a i. Replay ex_registry [ex_started, a, ex_paused] = Inr i \<and> length (in_operatorActions i) = 1 \<and>
     in_status i = StatusPaused"
proof -
  obtain a where a: "NewHistoryEvent ex_audit_spec = Inr a" using ex_audit_exists by blast
  note f = ex_audit_fields [OF a]
  obtain i where i: "Replay ex_registry [ex_started, a, ex_paused] = Inr i" "in_status i = StatusPaused"
    using ex_audited_replay [OF a] by blast
  have ok: "list_all event_ok [ex_started, a, ex_paused]"
    using f(1) ex_events_ok(1) ex_paused_fields(1) by simp
  have rec: "audit_record ex_started = None" "audit_record ex_paused = None" "audit_record a \<noteq> None"
    using ex_pause_decodes f ex_paused_fields by (simp_all add: audit_record_def ex_started_def ex_event_def)
  have "in_operatorActions i = List.map_filter audit_record [ex_started, a, ex_paused]"
    using audits_complete_and_paired [OF i(1) ok] by simp
  then have "length (in_operatorActions i) = 1" using rec by (auto simp: List.map_filter_simps)
  with i show ?thesis by blast
qed

end
