(* ===== verification/Codec_Properties.thy ===== *)
theory Codec_Properties
  imports Example
begin

text \<open>
  Properties of the values that are written and read back: history events, operator audit documents,
  dispatch documents, transition plans, leases, activity outcomes and retry delays.
\<close>

section \<open>Events and documents\<close>

text \<open>
  Event construction is a normal form: the stored event carries the given fields with both times
  in UTC without a monotonic reading, it passes the validity check that a store applies when it
  reads it back, and rebuilding it from its own fields gives the same event.
\<close>

theorem history_event_round_trip:
  assumes "NewHistoryEvent spec = Inr e"
  shows "event_spec e = spec\<lparr>hs_OccurredAt := canonicalTime (hs_OccurredAt spec),
      hs_DueAt := canonicalTime (hs_DueAt spec)\<rparr> \<and>
    historyEventValid e \<and> NewHistoryEvent (event_spec e) = Inr e"
proof (intro conjI)
  show "event_spec e = spec\<lparr>hs_OccurredAt := canonicalTime (hs_OccurredAt spec),
      hs_DueAt := canonicalTime (hs_DueAt spec)\<rparr>" using assms by (simp add: NewHistoryEvent_Inr)
  note v = NewHistoryEvent_valid [OF assms]
  show "historyEventValid e" "NewHistoryEvent (event_spec e) = Inr e"
    using v NewHistoryEvent_event_spec [OF v] by simp_all
qed

theorem history_event_round_trip_witness: "NewHistoryEvent (event_spec ex_attempt) = Inr ex_attempt"
proof -
  obtain spec where "NewHistoryEvent spec = Inr ex_attempt" using ex_events_ok(3) event_ok_iff by blast
  then show ?thesis by (rule history_event_round_trip [THEN conjunct2, THEN conjunct2])
qed

text \<open>
  C33: Every audit document that replay can read back is written so that it can: encoding a document
  with a known action, a stable actor and a stable reason and decoding the JSON gives the document,
  and whatever decodes has these properties.
\<close>

theorem audit_document_round_trip:
  "(au_Action document \<noteq> OperatorNone \<and> instanceIDPattern (au_Actor document) \<and> stableName (au_Reason document)
     \<longleftrightarrow> decodeOperatorAudit (audit_data document) = Inr document)"
  using decodeOperatorAudit_audit_data [of document] decodeOperatorAudit_Inr [of "audit_data document" document]
  by blast

text \<open>
  Activity and compensation dispatch documents survive the JSON round trip for every admissible
  step name, attempt and idempotency key; in particular they always fit the decoder's size limit.
\<close>

theorem dispatch_round_trip:
  assumes "stableName n" "a \<noteq> 0" "instanceIDPattern key"
  shows "DecodeActivityDispatch (encodeActivityDispatch n a key) =
      Inr \<lparr>ad_stepName = n, ad_attempt = a, ad_idempotencyKey = key\<rparr> \<and>
    DecodeCompensationDispatch (encodeCompensationDispatch n a key) =
      Inr \<lparr>ad_stepName = n, ad_attempt = a, ad_idempotencyKey = key\<rparr>"
  using DecodeActivityDispatch_encode [OF assms] DecodeCompensationDispatch_encode [OF assms] by blast

theorem dispatch_round_trip_witness:
  "DecodeActivityDispatch (encodeActivityDispatch ''charge'' 7 ''key-1'') =
     Inr \<lparr>ad_stepName = ''charge'', ad_attempt = 7, ad_idempotencyKey = ''key-1''\<rparr>"
  using dispatch_round_trip [of "''charge''" 7 "''key-1''"] by (simp add: pattern_eval)

text \<open>
  A child dispatch document survives the round trip exactly when it fits in
  \<open>MaxChildDispatchBytes\<close>; its size is 135 bytes plus the lengths of its fields.
\<close>

theorem child_dispatch_round_trip:
  assumes "child_identity_ok d"
  shows "(DecodeChildDispatch (child_payload d) = Inr d \<longleftrightarrow> blen (child_payload d) \<le> MaxChildDispatchBytes) \<and>
    blen (child_payload d) = 135 + length (cd_stepName d) + length (cd_childID d) +
      length (dr_name (cd_definition d)) + length (dr_version (cd_definition d)) +
      length (dr_fingerprint (cd_definition d)) + length (dec_nat (unat (cd_attempt d))) +
      length (cd_idempotencyKey d)"
  using DecodeChildDispatch_payload [OF assms] child_payload_length [OF assms] by (auto split: if_splits)

theorem child_dispatch_round_trip_witness:
  "DecodeChildDispatch (child_payload (ex_dispatched 1 ''parcel-1'')) = Inr (ex_dispatched 1 ''parcel-1'')"
  using child_dispatch_round_trip [OF ex_dispatched_ok [OF one_neq_zero ex_key(1)]]
    ex_payload_length [OF one_neq_zero ex_key(1)]
  by (simp add: ex_payload_eq MaxChildDispatchBytes_def)











section \<open>Plans, leases, attempts\<close>

text \<open>
  C32: Every transition plan is bounded and consistent: at most the declared number of events and work
  items and payload bytes, positions that follow the expected sequence without gap or wrap-around,
  one instance, times that do not go back, distinct work identifiers, and every work item attached
  to an event of the plan and available no earlier than it; it starts an instance exactly when
  it expects an empty history.
\<close>

theorem transition_plan_bounded:
  assumes "NewTransition spec = Inr t" "list_all event_ok (ts_Events spec)"
  shows "1 \<le> length (tr_events t) \<and> length (tr_events t) \<le> MaxTransitionEvents \<and>
    length (tr_work t) \<le> MaxTransitionWork \<and> plan_bytes t \<le> MaxTransitionBytes \<and>
    plan_events_ok (tr_instanceID t) (unat (tr_expectedSequence t)) (tr_events t) \<and>
    plan_work_ok (tr_instanceID t) (tr_events t) (tr_work t) \<and>
    (ev_kind (hd (tr_events t)) = EventInstanceStarted \<longleftrightarrow> tr_expectedSequence t = 0) \<and>
    tr_fingerprint t = transitionFingerprint t"
proof -
  have v: "transition_valid t" and e: "list_all event_ok (tr_events t)" "tr_fingerprint t = transitionFingerprint t"
    using assms by (simp_all add: NewTransition_Inr)
  show ?thesis using transition_valid_plan [OF v e(1)] e(2) by simp
qed

definition ex_transition :: TransitionSpec where
  "ex_transition = \<lparr>ts_ID = ''t-1'', ts_InstanceID = ''order-1'', ts_ExpectedSequence = 0,
     ts_Definition = ex_ref, ts_Events = [ex_started, ex_scheduled], ts_Work = []\<rparr>"

theorem transition_plan_bounded_witness:
  "\<exists>t. NewTransition ex_transition = Inr t \<and> plan_events_ok ''order-1'' 0 (tr_events t)"
proof -
  have ok: "list_all event_ok (ts_Events ex_transition)" by (simp add: ex_transition_def ex_events_ok)
  obtain t where t: "NewTransition ex_transition = Inr t" "tr_instanceID t = ''order-1''" "tr_expectedSequence t = 0"
    by (simp add: ex_transition_def plan_eval ex_events ex_ref_def zero_values Before_def IsZero_def
        reference_valid_def pattern_eval utc_def Let_def MaxPayloadBytes_def)
  with transition_plan_bounded [OF t(1) ok] show ?thesis by auto
qed

text \<open>
  A work lease never outlives its work: it is open for a positive time, for at most
  \<open>MaxWorkLeaseDuration\<close> (fifteen minutes), and expires no later than the deadline of the work.
\<close>

theorem lease_within_deadline:
  assumes "NewPendingWork work = Inr w" "NewWorkLease spec = Inr l" "wl_work spec = w"
  shows "wl_work l = w \<and> wall (wl_claimedAt l) < wall (wl_expiresAt l) \<and>
    wall (wl_expiresAt l) \<le> wall (pw_deadline w) \<and>
    wall (wl_expiresAt l) - wall (wl_claimedAt l) \<le> MaxWorkLeaseDuration"
proof -
  have ok: "lease_ok l" using NewWorkLease_ok [OF assms(2)] NewPendingWork_canonical [OF assms(1)] assms(3) by simp
  have "wl_work l = w" using assms(2,3) by (auto simp: NewWorkLease_def Let_def split: if_splits)
  with lease_window [OF ok] show ?thesis by simp
qed

definition ex_work :: PendingWorkSpec where
  "ex_work = \<lparr>ws_ID = ''w-1'', ws_Kind = WorkTimer, ws_InstanceID = ''order-1'', ws_Sequence = 2,
     ws_AvailableAt = utc 1010, ws_Deadline = utc 5000, ws_Payload = Some ''cool'', ws_TenantID = [],
     ws_CorrelationID = []\<rparr>"

theorem lease_within_deadline_witness:
  "\<exists>l. NewWorkLease (ex_lease WorkTimer 2 1010 (Some ''cool'')) = Inr l \<and> wall (wl_expiresAt l) \<le> 5000"
proof -
  let ?s = "ex_lease WorkTimer 2 1010 (Some ''cool'')"
  have w: "NewPendingWork ex_work = Inr (wl_work ?s)"
    by (simp add: ex_work_def lease_eval NewPendingWork_def Let_def work_valid_def optionalMetadataValid_def
        IsZero_def After_def MaxPayloadBytes_def pattern_eval canonicalTime_utc utc_def)
  obtain l where l: "NewWorkLease ?s = Inr l"
    by (simp add: lease_eval NewWorkLease_def Let_def work_valid_def optionalMetadataValid_def
        IsZero_def After_def MaxPayloadBytes_def pattern_eval canonicalTime_utc utc_def)
  from lease_within_deadline [OF w l refl] show ?thesis using l by (auto simp: ex_lease_def)
qed

text \<open>
  \<open>Execute\<close> passes on a handler's outcome exactly when the request is valid, neither the caller's
  context nor the deadline has expired, and the outcome is valid and within the result limit; in every
  other case the caller gets an error and no outcome. The handler runs once, with the derived context,
  in the world left by the two looks at the caller's context.
\<close>

theorem execute_contract:
  assumes "ac_handler activity = Some handler" "run_state observe w = (c, w1)" "run_state observe w1 = (d, w2)"
  shows "run_state (Execute activity (Some observe) request) w = (Inr outcome, w') \<longleftrightarrow>
    request_valid request \<and> cx_err c = None \<and> cx_err (WithDeadline d (ar_deadline request)) = None \<and>
    run_state (handler (WithDeadline d (ar_deadline request)) request) w2 = (Inr outcome, w') \<and>
    outcome_valid outcome \<and> blen (ao_data outcome) \<le> unat (ar_resultLimit request)"
  using assms by (auto simp: Execute_Inr)

definition ex_request :: ActivityRequest where
  "ex_request = \<lparr>ar_instanceID = ''order-1'', ar_definition = ex_ref, ar_stepName = ''charge'', ar_attempt = 1,
     ar_maxAttempts = 3, ar_idempotencyKey = ''key-1'', ar_startedAt = utc 1020, ar_deadline = utc 1120,
     ar_input = Some ''9'', ar_inputLimit = 8, ar_resultLimit = 8, ar_tenantID = [], ar_correlationID = []\<rparr>"

definition ex_activity :: "nat Activity" where
  "ex_activity = \<lparr>ac_name = ''pay'', ac_handler = Some (\<lambda>c r. State (\<lambda>calls. (Inr \<lparr>ao_kind = ActivitySucceeded,
     ao_code = [], ao_retryable = False, ao_data = ar_input r\<rparr>, Suc calls)))\<rparr>"

definition ex_context :: "nat ctx" where
  "ex_context = State_Monad.return \<lparr>cx_err = None, cx_deadline = None, cx_now = utc 1021\<rparr>"

theorem execute_contract_witness:
  "run_state (Execute ex_activity (Some ex_context) ex_request) 0 =
     (Inr \<lparr>ao_kind = ActivitySucceeded, ao_code = [], ao_retryable = False, ao_data = Some ''9''\<rparr>, 1)"
proof -
  let ?c = "\<lparr>cx_err = None, cx_deadline = None, cx_now = utc 1021\<rparr>"
  have observe: "run_state ex_context w = (?c, w)" for w by (simp add: ex_context_def)
  have handler: "ac_handler ex_activity = Some (\<lambda>c r. State (\<lambda>calls. (Inr \<lparr>ao_kind = ActivitySucceeded, ao_code = [],
      ao_retryable = False, ao_data = ar_input r\<rparr>, Suc calls)))"
    by (simp add: ex_activity_def)
  from execute_contract [OF handler observe [of 0] observe [of 0], of ex_request] show ?thesis
    by (simp add: ex_request_def WithDeadline_def outcome_valid_def After_def)
      (simp add: request_valid_def optionalMetadataValid_def After_def IsZero_def reference_valid_def
        MaxPayloadBytes_def validPayloadLimit_def ex_ref_def pattern_eval utc_def)
qed

text \<open>
  C31: The retry delay is exact exponential back-off with a cap: for a validated policy, attempt \<open>n\<close>
  waits \<open>InitialDelay * 2 ^ (n - 1)\<close> capped at \<open>MaxDelay\<close>, for every 32-bit attempt number: the
  doubling in 64 bits never overflows before the cap and the loop bound of 63 loses nothing.
\<close>

theorem retry_delay_exact:
  assumes "validRetry policy" "0 < attempt"
  shows "sint (retryDelay policy attempt) =
    min (sint (rp_InitialDelay policy) * 2 ^ (unat attempt - 1)) (sint (rp_MaxDelay policy))"
  by (rule retryDelay_value [OF assms])

theorem retry_delay_exact_witness: "sint (retryDelay ex_retry 2) = 15"
proof -
  have "validRetry ex_retry" by (simp add: validRetry_def ex_retry_def)
  from retry_delay_exact [OF this, of 2] show ?thesis by (simp add: ex_retry_def)
qed

end
