(* ===== verification/Orchestration.thy ===== *)
theory Orchestration
  imports Activity_Transition Child_Transition Wait_Transition
begin

text \<open>
  Orchestration decisions (orchestration.go): from the replayed progress of an instance, the first
  incomplete step of its definition decides what is persisted next. A step function returns
  \<open>Inr None\<close> when its step is done (the code's \<open>true\<close>), \<open>Inr (Some decision)\<close> when the decision
  stands, and \<open>Inl\<close> of the error.
\<close>

section \<open>Decisions\<close>

datatype OrchestrationDecisionKind =
    OrchestrationScheduled | OrchestrationWaiting | OrchestrationCompleted
  | OrchestrationFailed | OrchestrationRecorded

record OrchestrationBranchSpec =
  ob_StepName :: string
  ob_WorkID :: string
  ob_IdempotencyKey :: string
  ob_Input :: bytes

record OrchestrationDecisionSpec =
  oz_TransitionID :: string
  oz_WorkID :: string
  oz_Instance :: Instance
  oz_Definition :: Definition
  oz_DecidedAt :: gotime
  oz_Deadline :: gotime
  oz_IdempotencyKey :: string
  oz_Input :: bytes
  oz_Result :: bytes
  oz_TenantID :: string
  oz_CorrelationID :: string
  oz_ChildID :: string
  oz_Branches :: "OrchestrationBranchSpec list"

record OrchestrationDecision =
  od_kind :: OrchestrationDecisionKind
  od_stepName :: string
  od_transition :: Transition

definition orchestrationWait :: "string \<Rightarrow> OrchestrationDecision" where
  "orchestrationWait stepName =
     \<lparr>od_kind = OrchestrationWaiting, od_stepName = stepName, od_transition = zero_Transition\<rparr>"

definition orchestrationTerminal ::
  "OrchestrationDecisionSpec \<Rightarrow> OrchestrationDecisionKind \<Rightarrow> string \<Rightarrow> OrchestrationDecision result" where
  "orchestrationTerminal spec kind stepName =
     (let inst = oz_Instance spec;
          eventKind = (if kind = OrchestrationFailed then EventInstanceFailed else EventInstanceCompleted)
      in case NewHistoryEvent (zero_HistoryEventSpec\<lparr>hs_Sequence := in_sequence inst + 1,
                hs_InstanceID := in_id inst, hs_Kind := eventKind,
                hs_OccurredAt := oz_DecidedAt spec, hs_Data := oz_Result spec\<rparr>) of
           Inl _ \<Rightarrow> Inl ErrInvalidOrchestration
         | Inr event \<Rightarrow>
             (case NewTransition \<lparr>ts_ID = oz_TransitionID spec, ts_InstanceID = in_id inst,
                      ts_ExpectedSequence = in_sequence inst, ts_Definition = in_definition inst,
                      ts_Events = [event], ts_Work = []\<rparr> of
                Inl _ \<Rightarrow> Inl ErrInvalidOrchestration
              | Inr transition \<Rightarrow>
                  Inr \<lparr>od_kind = kind, od_stepName = stepName, od_transition = transition\<rparr>))"

text \<open>\<open>decision, err := orchestrationTerminal(...); return decision, false, err\<close>\<close>

definition failed_decision :: "OrchestrationDecisionSpec \<Rightarrow> string \<Rightarrow> OrchestrationDecision option result" where
  "failed_decision spec stepName = (case orchestrationTerminal spec OrchestrationFailed stepName of
     Inl e \<Rightarrow> Inl e | Inr decision \<Rightarrow> Inr (Some decision))"

definition scheduled_decision :: "string \<Rightarrow> Transition result \<Rightarrow> OrchestrationDecision option result" where
  "scheduled_decision stepName plan = (case plan of
     Inl _ \<Rightarrow> Inl ErrInvalidOrchestration
   | Inr transition \<Rightarrow> Inr (Some
       \<lparr>od_kind = OrchestrationScheduled, od_stepName = stepName, od_transition = transition\<rparr>))"

section \<open>Steps\<close>

definition decideChildStep ::
  "OrchestrationDecisionSpec \<Rightarrow> StepSpec \<Rightarrow> OrchestrationDecision option result" where
  "decideChildStep spec step = (case in_children (oz_Instance spec) (st_Name step) of
     None \<Rightarrow> scheduled_decision (st_Name step) (NewChildSchedule
       \<lparr>xs_TransitionID = oz_TransitionID spec, xs_WorkID = oz_WorkID spec, xs_ChildID = oz_ChildID spec,
        xs_Instance = oz_Instance spec, xs_Definition = oz_Definition spec, xs_StepName = st_Name step,
        xs_ScheduledAt = oz_DecidedAt spec, xs_Deadline = oz_Deadline spec, xs_Input = oz_Input spec,
        xs_TenantID = oz_TenantID spec, xs_CorrelationID = oz_CorrelationID spec\<rparr>)
   | Some progress \<Rightarrow> (case cp_status progress of
       ChildScheduled \<Rightarrow> Inr (Some (orchestrationWait (st_Name step)))
     | ChildStartRunning \<Rightarrow> Inr (Some (orchestrationWait (st_Name step)))
     | ChildActive \<Rightarrow> Inr (Some (orchestrationWait (st_Name step)))
     | ChildStartUnknownStatus \<Rightarrow> Inr (Some (orchestrationWait (st_Name step)))
     | ChildStartRetryWaiting \<Rightarrow> Inr (Some (orchestrationWait (st_Name step)))
     | ChildStartFailedStatus \<Rightarrow>
         if cp_retryable progress \<and> cp_attempt progress < rp_MaxAttempts (st_Retry step)
         then Inr (Some (orchestrationWait (st_Name step)))
         else failed_decision spec (st_Name step)
     | ChildSucceeded \<Rightarrow> Inr None
     | ChildFailed \<Rightarrow> failed_decision spec (st_Name step)
     | _ \<Rightarrow> Inl ErrInvalidOrchestration))"

text \<open>The winner of a race: the earliest received signal, the first branch among equals.\<close>

fun race_winner :: "Instance \<Rightarrow> string \<Rightarrow> gotime \<Rightarrow> string list \<Rightarrow> string" where
  "race_winner inst winner winnerAt [] = winner"
| "race_winner inst winner winnerAt (branchName # branches) =
     (case in_signals inst branchName of
        Some progress \<Rightarrow>
          if IsZero winnerAt \<or> Before (sp_receivedAt progress) winnerAt
          then race_winner inst branchName (sp_receivedAt progress) branches
          else race_winner inst winner winnerAt branches
      | None \<Rightarrow> race_winner inst winner winnerAt branches)"

definition decideRaceStep ::
  "OrchestrationDecisionSpec \<Rightarrow> StepSpec \<Rightarrow> OrchestrationDecision option result" where
  "decideRaceStep spec step =
     (let inst = oz_Instance spec
      in if has_key (in_races inst) (st_Name step) then Inr None
         else let winner = race_winner inst [] time_zero (st_Branches step)
           in if winner = [] then Inr (Some (orchestrationWait (st_Name step)))
              else case NewHistoryEvent (zero_HistoryEventSpec\<lparr>hs_Sequence := in_sequence inst + 1,
                       hs_InstanceID := in_id inst, hs_Kind := EventRaceWon,
                       hs_OccurredAt := oz_DecidedAt spec, hs_StepName := st_Name step,
                       hs_Data := Some winner\<rparr>) of
                  Inl _ \<Rightarrow> Inl ErrInvalidOrchestration
                | Inr event \<Rightarrow>
                    (case NewTransition \<lparr>ts_ID = oz_TransitionID spec, ts_InstanceID = in_id inst,
                             ts_ExpectedSequence = in_sequence inst, ts_Definition = in_definition inst,
                             ts_Events = [event], ts_Work = []\<rparr> of
                       Inl _ \<Rightarrow> Inl ErrInvalidOrchestration
                     | Inr transition \<Rightarrow> Inr (Some \<lparr>od_kind = OrchestrationRecorded,
                         od_stepName = st_Name step, od_transition = transition\<rparr>)))"

subsection \<open>Parallel admission\<close>

text \<open>
  The map of branch specifications by step name; a repeated name is an error, so the size of the
  map is the number of specifications.
\<close>

fun branch_specs :: "(string \<rightharpoonup> OrchestrationBranchSpec) \<Rightarrow> OrchestrationBranchSpec list \<Rightarrow>
    (string \<rightharpoonup> OrchestrationBranchSpec) result" where
  "branch_specs branches [] = Inr branches"
| "branch_specs branches (branch # specs) =
     (if has_key branches (ob_StepName branch) then Inl ErrInvalidOrchestration
      else branch_specs (branches(ob_StepName branch \<mapsto> branch)) specs)"

definition parallel_branch :: "OrchestrationDecisionSpec \<Rightarrow> (string \<rightharpoonup> OrchestrationBranchSpec) \<Rightarrow> nat \<Rightarrow>
    string \<Rightarrow> (HistoryEvent \<times> PendingWork) result" where
  "parallel_branch spec branches index branchName =
     (let inst = oz_Instance spec
      in case branches branchName of
           None \<Rightarrow> Inl ErrInvalidOrchestration
         | Some branchSpec \<Rightarrow>
             (case definitionActivityStep (oz_Definition spec) branchName of
                None \<Rightarrow> Inl ErrInvalidOrchestration
              | Some branchStep \<Rightarrow>
                  if \<not> instanceIDPattern (ob_IdempotencyKey branchSpec) \<or>
                     blen (ob_Input branchSpec) > unat (st_InputLimit branchStep)
                  then Inl ErrInvalidOrchestration
                  else case NewHistoryEvent (zero_HistoryEventSpec\<lparr>
                           hs_Sequence := in_sequence inst + of_nat index + 1, hs_InstanceID := in_id inst,
                           hs_Kind := EventActivityScheduled, hs_OccurredAt := oz_DecidedAt spec,
                           hs_StepName := branchName, hs_Data := ob_Input branchSpec\<rparr>) of
                      Inl _ \<Rightarrow> Inl ErrInvalidOrchestration
                    | Inr event \<Rightarrow>
                        (case NewPendingWork \<lparr>ws_ID = ob_WorkID branchSpec, ws_Kind = WorkActivity,
                                 ws_InstanceID = in_id inst, ws_Sequence = ev_sequence event,
                                 ws_AvailableAt = oz_DecidedAt spec, ws_Deadline = oz_Deadline spec,
                                 ws_Payload = encodeActivityDispatch branchName 1 (ob_IdempotencyKey branchSpec),
                                 ws_TenantID = oz_TenantID spec,
                                 ws_CorrelationID = oz_CorrelationID spec\<rparr> of
                           Inl _ \<Rightarrow> Inl ErrInvalidOrchestration
                         | Inr work \<Rightarrow> Inr (event, work))))"

fun parallel_loop :: "OrchestrationDecisionSpec \<Rightarrow> (string \<rightharpoonup> OrchestrationBranchSpec) \<Rightarrow> nat \<Rightarrow>
    string list \<Rightarrow> (HistoryEvent list \<times> PendingWork list) result" where
  "parallel_loop spec branches index [] = Inr ([], [])"
| "parallel_loop spec branches index (branchName # names) =
     (case parallel_branch spec branches index branchName of
        Inl e \<Rightarrow> Inl e
      | Inr (event, work) \<Rightarrow>
          (case parallel_loop spec branches (Suc index) names of
             Inl e \<Rightarrow> Inl e
           | Inr (events, workItems) \<Rightarrow> Inr (event # events, work # workItems)))"

definition newParallelActivitySchedule :: "OrchestrationDecisionSpec \<Rightarrow> StepSpec \<Rightarrow> Transition result" where
  "newParallelActivitySchedule spec control = (case branch_specs Map.empty (oz_Branches spec) of
     Inl e \<Rightarrow> Inl e
   | Inr branches \<Rightarrow>
       if length (oz_Branches spec) \<noteq> length (st_Branches control) then Inl ErrInvalidOrchestration
       else case parallel_loop spec branches 0 (st_Branches control) of
         Inl e \<Rightarrow> Inl e
       | Inr (events, workItems) \<Rightarrow>
           (case NewTransition \<lparr>ts_ID = oz_TransitionID spec, ts_InstanceID = in_id (oz_Instance spec),
                    ts_ExpectedSequence = in_sequence (oz_Instance spec),
                    ts_Definition = in_definition (oz_Instance spec),
                    ts_Events = events, ts_Work = workItems\<rparr> of
              Inl _ \<Rightarrow> Inl ErrInvalidOrchestration
            | Inr transition \<Rightarrow> Inr transition))"

text \<open>
  The loop over the branches: \<open>Inl\<close> of the value it returns at once, or the number of branches
  that have not been scheduled.
\<close>

fun parallel_scan :: "OrchestrationDecisionSpec \<Rightarrow> StepSpec \<Rightarrow> nat \<Rightarrow> string list \<Rightarrow>
    OrchestrationDecision option result + nat" where
  "parallel_scan spec step missing [] = Inr missing"
| "parallel_scan spec step missing (branchName # names) =
     (case in_activities (oz_Instance spec) branchName of
        None \<Rightarrow> parallel_scan spec step (Suc missing) names
      | Some progress \<Rightarrow> (case ap_status progress of
          ActivityProgressSucceeded \<Rightarrow> parallel_scan spec step missing names
        | ActivityProgressFailed \<Rightarrow>
            let branch = (case definitionActivityStep (oz_Definition spec) branchName of
                  None \<Rightarrow> zero_StepSpec | Some s \<Rightarrow> s)
            in if ap_retryable progress \<and> ap_attempt progress < rp_MaxAttempts (st_Retry branch)
               then Inl (Inr (Some (orchestrationWait (st_Name step))))
               else Inl (failed_decision spec branchName)
        | ActivityProgressReady \<Rightarrow> Inl (Inr (Some (orchestrationWait (st_Name step))))
        | ActivityProgressRunning \<Rightarrow> Inl (Inr (Some (orchestrationWait (st_Name step))))
        | ActivityProgressUnknown \<Rightarrow> Inl (Inr (Some (orchestrationWait (st_Name step))))
        | ActivityProgressRetryWaiting \<Rightarrow> Inl (Inr (Some (orchestrationWait (st_Name step))))
        | _ \<Rightarrow> Inl (Inl ErrInvalidOrchestration)))"

definition decideParallelStep ::
  "OrchestrationDecisionSpec \<Rightarrow> StepSpec \<Rightarrow> OrchestrationDecision option result" where
  "decideParallelStep spec step = (case parallel_scan spec step 0 (st_Branches step) of
     Inl answer \<Rightarrow> answer
   | Inr missing \<Rightarrow>
       if missing = 0 then Inr None
       else if missing \<noteq> length (st_Branches step) then Inl ErrInvalidOrchestration
       else scheduled_decision (st_Name step) (newParallelActivitySchedule spec step))"

fun decide_join :: "Instance \<Rightarrow> string \<Rightarrow> string list \<Rightarrow> OrchestrationDecision option result" where
  "decide_join inst stepName [] = Inr None"
| "decide_join inst stepName (branchName # names) =
     (if ap_status (lookup_zero zero_ActivityProgress (in_activities inst) branchName) \<noteq> ActivityProgressSucceeded
      then Inr (Some (orchestrationWait stepName))
      else decide_join inst stepName names)"

definition decideJoinStep ::
  "OrchestrationDecisionSpec \<Rightarrow> StepSpec \<Rightarrow> OrchestrationDecision option result" where
  "decideJoinStep spec step = decide_join (oz_Instance spec) (st_Name step) (st_Branches step)"

subsection \<open>Activities and timers\<close>

definition decideActivityStep ::
  "OrchestrationDecisionSpec \<Rightarrow> StepSpec \<Rightarrow> OrchestrationDecision option result" where
  "decideActivityStep spec step = (case in_activities (oz_Instance spec) (st_Name step) of
     None \<Rightarrow> scheduled_decision (st_Name step) (NewActivitySchedule
       \<lparr>as_TransitionID = oz_TransitionID spec, as_WorkID = oz_WorkID spec, as_Instance = oz_Instance spec,
        as_Definition = oz_Definition spec, as_StepName = st_Name step, as_Attempt = 1,
        as_IdempotencyKey = oz_IdempotencyKey spec, as_ScheduledAt = oz_DecidedAt spec,
        as_Deadline = oz_Deadline spec, as_Input = oz_Input spec, as_TenantID = oz_TenantID spec,
        as_CorrelationID = oz_CorrelationID spec\<rparr>)
   | Some progress \<Rightarrow> (case ap_status progress of
       ActivityProgressSucceeded \<Rightarrow> Inr None
     | ActivityProgressFailed \<Rightarrow>
         if ap_retryable progress \<and> ap_attempt progress < rp_MaxAttempts (st_Retry step)
         then Inr (Some (orchestrationWait (st_Name step)))
         else failed_decision spec (st_Name step)
     | ActivityProgressReady \<Rightarrow> Inr (Some (orchestrationWait (st_Name step)))
     | ActivityProgressRunning \<Rightarrow> Inr (Some (orchestrationWait (st_Name step)))
     | ActivityProgressUnknown \<Rightarrow> Inr (Some (orchestrationWait (st_Name step)))
     | ActivityProgressRetryWaiting \<Rightarrow> Inr (Some (orchestrationWait (st_Name step)))
     | _ \<Rightarrow> Inl ErrInvalidOrchestration))"

definition decideTimerStep ::
  "OrchestrationDecisionSpec \<Rightarrow> StepSpec \<Rightarrow> OrchestrationDecision option result" where
  "decideTimerStep spec step = (case in_timers (oz_Instance spec) (st_Name step) of
     None \<Rightarrow> scheduled_decision (st_Name step) (NewTimerSchedule
       \<lparr>ti_TransitionID = oz_TransitionID spec, ti_WorkID = oz_WorkID spec,
        ti_InstanceID = in_id (oz_Instance spec), ti_ExpectedSequence = in_sequence (oz_Instance spec),
        ti_Definition = oz_Definition spec, ti_StepName = st_Name step, ti_ScheduledAt = oz_DecidedAt spec,
        ti_Deadline = oz_Deadline spec, ti_TenantID = oz_TenantID spec,
        ti_CorrelationID = oz_CorrelationID spec\<rparr>)
   | Some progress \<Rightarrow>
       if tp_status progress = TimerFired then Inr None
       else if tp_status progress = TimerWaiting then Inr (Some (orchestrationWait (st_Name step)))
       else Inl ErrInvalidOrchestration)"

section \<open>The decision\<close>

definition orchestrationBranchMembers :: "StepSpec list \<Rightarrow> string set" where
  "orchestrationBranchMembers steps =
     set (concat (map st_Branches (filter (\<lambda>s. st_Kind s = StepParallel \<or> st_Kind s = StepRace) steps)))"

definition orchestrationBranchLeaf :: "StepKind \<Rightarrow> bool" where
  "orchestrationBranchLeaf kind = (case kind of
     StepParallel \<Rightarrow> False | StepJoin \<Rightarrow> False | StepRace \<Rightarrow> False | _ \<Rightarrow> True)"

definition decide_step ::
  "OrchestrationDecisionSpec \<Rightarrow> StepSpec \<Rightarrow> OrchestrationDecision option result" where
  "decide_step spec step = (case st_Kind step of
     StepActivity \<Rightarrow> decideActivityStep spec step
   | StepTimer \<Rightarrow> decideTimerStep spec step
   | StepSignal \<Rightarrow>
       if has_key (in_signals (oz_Instance spec)) (st_Name step) then Inr None
       else Inr (Some (orchestrationWait (st_Name step)))
   | StepApproval \<Rightarrow>
       if has_key (in_signals (oz_Instance spec)) (st_Name step) then Inr None
       else Inr (Some (orchestrationWait (st_Name step)))
   | StepParallel \<Rightarrow> decideParallelStep spec step
   | StepJoin \<Rightarrow> decideJoinStep spec step
   | StepRace \<Rightarrow> decideRaceStep spec step
   | StepChild \<Rightarrow> decideChildStep spec step
   | _ \<Rightarrow> Inl ErrInvalidOrchestration)"

fun decide_loop :: "OrchestrationDecisionSpec \<Rightarrow> string set \<Rightarrow> StepSpec list \<Rightarrow> OrchestrationDecision result" where
  "decide_loop spec members [] = orchestrationTerminal spec OrchestrationCompleted []"
| "decide_loop spec members (step # steps) =
     (if st_Name step \<in> members \<and> orchestrationBranchLeaf (st_Kind step)
      then decide_loop spec members steps
      else case decide_step spec step of
        Inl e \<Rightarrow> Inl e
      | Inr (Some decision) \<Rightarrow> Inr decision
      | Inr None \<Rightarrow> decide_loop spec members steps)"

definition NewOrchestrationDecision :: "OrchestrationDecisionSpec \<Rightarrow> OrchestrationDecision result" where
  "NewOrchestrationDecision spec =
     (if def_Mode (oz_Definition spec) \<noteq> Orchestration \<or>
         def_Reference (oz_Definition spec) \<noteq> in_definition (oz_Instance spec) \<or>
         in_status (oz_Instance spec) \<noteq> StatusRunning
      then Inl ErrInvalidOrchestration
      else let steps = def_Steps (oz_Definition spec)
        in decide_loop spec (orchestrationBranchMembers steps) steps)"

section \<open>When an instance completes\<close>

definition activity_succeeded :: "Instance \<Rightarrow> string \<Rightarrow> bool" where
  "activity_succeeded i n \<longleftrightarrow> (\<exists>p. in_activities i n = Some p \<and> ap_status p = ActivityProgressSucceeded)"

definition step_done :: "Instance \<Rightarrow> StepSpec \<Rightarrow> bool" where
  "step_done i step \<longleftrightarrow> (case st_Kind step of
     StepActivity \<Rightarrow> activity_succeeded i (st_Name step)
   | StepTimer \<Rightarrow> (\<exists>p. in_timers i (st_Name step) = Some p \<and> tp_status p = TimerFired)
   | StepSignal \<Rightarrow> in_signals i (st_Name step) \<noteq> None
   | StepApproval \<Rightarrow> in_signals i (st_Name step) \<noteq> None
   | StepParallel \<Rightarrow> list_all (activity_succeeded i) (st_Branches step)
   | StepJoin \<Rightarrow> list_all (activity_succeeded i) (st_Branches step)
   | StepRace \<Rightarrow> in_races i (st_Name step) \<noteq> None
   | StepChild \<Rightarrow> (\<exists>p. in_children i (st_Name step) = Some p \<and> cp_status p = ChildSucceeded)
   | StepKindInvalid \<Rightarrow> False)"

lemma failed_decision_kind:
  "failed_decision spec n \<noteq> Inr None"
  "failed_decision spec n = Inr (Some d) \<Longrightarrow> od_kind d = OrchestrationFailed"
  by (auto simp: failed_decision_def orchestrationTerminal_def Let_def split: sum.splits)

lemma scheduled_decision_kind:
  "scheduled_decision n plan \<noteq> Inr None"
  "scheduled_decision n plan = Inr (Some d) \<Longrightarrow> od_kind d = OrchestrationScheduled \<and> plan = Inr (od_transition d)"
  by (auto simp: scheduled_decision_def split: sum.splits)

lemma parallel_scan_Inr:
  "parallel_scan spec step missing names = Inr m \<Longrightarrow> m = missing +
     length (filter (\<lambda>n. in_activities (oz_Instance spec) n = None) names) \<and>
     (\<forall>n \<in> set names. in_activities (oz_Instance spec) n = None \<or> activity_succeeded (oz_Instance spec) n)"
proof (induction names arbitrary: missing)
  case Nil
  then show ?case by simp
next
  case (Cons a names)
  show ?case
  proof (cases "in_activities (oz_Instance spec) a")
    case None
    then have "parallel_scan spec step (Suc missing) names = Inr m" using Cons.prems by simp
    from Cons.IH [OF this] None show ?thesis by simp
  next
    case (Some p)
    then have "ap_status p = ActivityProgressSucceeded" "parallel_scan spec step missing names = Inr m"
      using Cons.prems by (auto simp: Let_def split: ActivityProgressStatus.splits if_splits)
    with Cons.IH [OF this(2)] Some show ?thesis by (auto simp: activity_succeeded_def)
  qed
qed

lemma parallel_scan_succeeded:
  "list_all (activity_succeeded (oz_Instance spec)) names \<Longrightarrow> parallel_scan spec step missing names = Inr missing"
  by (induction names) (auto simp: activity_succeeded_def)

lemma parallel_scan_Inl:
  "parallel_scan spec step missing names = Inl r \<Longrightarrow> r \<noteq> Inr None \<and>
     (\<forall>d. r = Inr (Some d) \<longrightarrow> od_kind d = OrchestrationWaiting \<or> od_kind d = OrchestrationFailed)"
  by (induction names arbitrary: missing)
    (auto simp: orchestrationWait_def failed_decision_kind Let_def
      split: option.splits ActivityProgressStatus.splits if_splits)

lemma decideParallelStep_done:
  "decideParallelStep spec step = Inr None \<longleftrightarrow> list_all (activity_succeeded (oz_Instance spec)) (st_Branches step)"
proof
  assume "decideParallelStep spec step = Inr None"
  then have "parallel_scan spec step 0 (st_Branches step) = Inr 0"
    by (auto simp: decideParallelStep_def scheduled_decision_kind split: sum.splits if_splits
        dest: parallel_scan_Inl)
  from parallel_scan_Inr [OF this] show "list_all (activity_succeeded (oz_Instance spec)) (st_Branches step)"
    by (fastforce simp: list_all_iff filter_empty_conv)
next
  assume "list_all (activity_succeeded (oz_Instance spec)) (st_Branches step)"
  then show "decideParallelStep spec step = Inr None"
    by (simp add: decideParallelStep_def parallel_scan_succeeded)
qed

lemma decide_join_done: "decide_join i n names = Inr None \<longleftrightarrow> list_all (activity_succeeded i) names"
  by (induction names)
    (auto simp: activity_succeeded_def lookup_zero_def zero_ActivityProgress_def split: option.splits)

lemma decide_step_done: "decide_step spec step = Inr None \<longleftrightarrow> step_done (oz_Instance spec) step"
proof (cases "st_Kind step")
  case StepParallel
  then show ?thesis by (simp add: decide_step_def step_done_def decideParallelStep_done)
next
  case StepJoin
  then show ?thesis by (simp add: decide_step_def step_done_def decideJoinStep_def decide_join_done)
qed (auto simp: decide_step_def step_done_def decideActivityStep_def decideTimerStep_def decideChildStep_def
    decideRaceStep_def Let_def has_key_def activity_succeeded_def scheduled_decision_kind failed_decision_kind
    split: option.splits ActivityProgressStatus.splits TimerProgressStatus.splits ChildProgressStatus.splits
      sum.splits if_splits)

lemma decide_join_kind:
  "decide_join i n names = Inr (Some d) \<Longrightarrow> od_kind d = OrchestrationWaiting"
  by (induction names) (auto simp: orchestrationWait_def split: if_splits)

lemma decide_step_kind: "decide_step spec step = Inr (Some d) \<Longrightarrow> od_kind d \<noteq> OrchestrationCompleted"
proof (cases "st_Kind step")
  case StepParallel
  assume "decide_step spec step = Inr (Some d)"
  with StepParallel have "decideParallelStep spec step = Inr (Some d)" by (simp add: decide_step_def)
  then show ?thesis
    using parallel_scan_Inl scheduled_decision_kind(2)
    by (fastforce simp: decideParallelStep_def split: sum.splits if_splits)
next
  case StepJoin
  then show "decide_step spec step = Inr (Some d) \<Longrightarrow> ?thesis"
    by (auto simp: decide_step_def decideJoinStep_def dest: decide_join_kind)
qed (auto simp: decide_step_def decideActivityStep_def decideTimerStep_def decideChildStep_def
    decideRaceStep_def Let_def orchestrationWait_def dest!: scheduled_decision_kind(2) failed_decision_kind(2)
    split: option.splits ActivityProgressStatus.splits TimerProgressStatus.splits ChildProgressStatus.splits
      sum.splits if_splits)

text \<open>The steps a decision looks at: all but the leaves that belong to a parallel or race step.\<close>

definition own_step :: "StepSpec list \<Rightarrow> StepSpec \<Rightarrow> bool" where
  "own_step steps step \<longleftrightarrow>
     \<not> (st_Name step \<in> orchestrationBranchMembers steps \<and> orchestrationBranchLeaf (st_Kind step))"

lemma decide_loop_completed:
  "decide_loop spec members steps = Inr d \<Longrightarrow> od_kind d = OrchestrationCompleted \<longleftrightarrow>
     (\<forall>step \<in> set steps. st_Name step \<in> members \<and> orchestrationBranchLeaf (st_Kind step) \<or>
        step_done (oz_Instance spec) step)"
proof (induction steps)
  case Nil
  then show ?case by (auto simp: orchestrationTerminal_def Let_def split: sum.splits)
next
  case (Cons step steps)
  show ?case
  proof (cases "st_Name step \<in> members \<and> orchestrationBranchLeaf (st_Kind step)")
    case True
    then show ?thesis using Cons by simp
  next
    case False
    then consider "decide_step spec step = Inr (Some d)"
      | "decide_step spec step = Inr None" "decide_loop spec members steps = Inr d"
      using Cons.prems by (auto split: sum.splits option.splits)
    then show ?thesis
    proof cases
      case 1
      then have "\<not> step_done (oz_Instance spec) step" using decide_step_done [of spec step] by simp
      then show ?thesis using decide_step_kind [OF 1] False by auto
    next
      case 2
      then have "step_done (oz_Instance spec) step" using decide_step_done [of spec step] by simp
      then show ?thesis using Cons.IH [OF 2(2)] by auto
    qed
  qed
qed

section \<open>Decisions replay\<close>

text \<open>
  The plan of a decision that is not a wait. The constructor of the plan does not compare the
  decision's time with the instance, and the definition's steps are as \<open>NewDefinition\<close> left them.
\<close>

definition orchestration_plan :: "OrchestrationDecisionSpec \<Rightarrow> Transition result" where
  "orchestration_plan spec = (case NewOrchestrationDecision spec of
     Inl e \<Rightarrow> Inl e
   | Inr d \<Rightarrow> if od_kind d = OrchestrationWaiting then Inl ErrInvalidOrchestration else Inr (od_transition d))"

definition orchestration_ready :: "OrchestrationDecisionSpec \<Rightarrow> bool" where
  "orchestration_ready spec \<longleftrightarrow> wf_steps (def_Steps (oz_Definition spec)) \<and>
     \<not> Before (oz_DecidedAt spec) (in_updatedAt (oz_Instance spec))"

text \<open>What one decision's plan must do, whichever step made it.\<close>

definition decision_sound :: "OrchestrationDecisionSpec \<Rightarrow> Transition \<Rightarrow> bool" where
  "decision_sound spec t \<longleftrightarrow> plan_for (oz_Instance spec) t \<and>
     (\<forall>registry. live registry (oz_Instance spec) (oz_Definition spec) \<longrightarrow>
        (\<exists>j. apply_all registry (oz_Instance spec) (tr_events t) = Inr j \<and> in_pendingOperator j = OperatorNone))"

lemma single_decision_sound:
  assumes "NewHistoryEvent (zero_HistoryEventSpec\<lparr>hs_Sequence := in_sequence (oz_Instance spec) + 1,
      hs_InstanceID := in_id (oz_Instance spec), hs_Kind := kind, hs_OccurredAt := oz_DecidedAt spec,
      hs_StepName := n, hs_Data := data\<rparr>) = Inr e"
    "NewTransition \<lparr>ts_ID = oz_TransitionID spec, ts_InstanceID = in_id (oz_Instance spec),
      ts_ExpectedSequence = in_sequence (oz_Instance spec), ts_Definition = in_definition (oz_Instance spec),
      ts_Events = [e], ts_Work = []\<rparr> = Inr t"
    "orchestration_ready spec" "in_status (oz_Instance spec) = StatusRunning" "kind \<noteq> EventOperatorCommandRecorded"
    "\<And>registry. live registry (oz_Instance spec) (oz_Definition spec) \<Longrightarrow> \<exists>k. replay_step registry (oz_Instance spec) e k"
  shows "decision_sound spec t"
  unfolding decision_sound_def
proof (intro conjI allI impI)
  note f = NewHistoryEvent_fields [OF assms(1)]
  show "plan_for (oz_Instance spec) t" using plan_for_single(1) [OF assms(2) f(1)] by simp
  fix registry
  assume lv: "live registry (oz_Instance spec) (oz_Definition spec)"
  obtain k where k: "replay_step registry (oz_Instance spec) e k" using assms(6) [OF lv] by blast
  have ev: "tr_events t = [e]" using assms(2) by (simp add: NewTransition_Inr)
  show "\<exists>j. apply_all registry (oz_Instance spec) (tr_events t) = Inr j \<and> in_pendingOperator j = OperatorNone"
    by (rule single_plan_replays [OF lv assms(1) _ _ _ _ _ k ev])
      (use assms(3,4,5) in \<open>simp_all add: orchestration_ready_def\<close>)
qed

lemma orchestrationTerminal_sound:
  assumes "orchestrationTerminal spec kind n = Inr d" "orchestration_ready spec"
    "in_status (oz_Instance spec) = StatusRunning"
  shows "decision_sound spec (od_transition d)"
proof -
  let ?kind = "if kind = OrchestrationFailed then EventInstanceFailed else EventInstanceCompleted"
  obtain e where e: "NewHistoryEvent (zero_HistoryEventSpec\<lparr>hs_Sequence := in_sequence (oz_Instance spec) + 1,
      hs_InstanceID := in_id (oz_Instance spec), hs_Kind := ?kind, hs_OccurredAt := oz_DecidedAt spec,
      hs_StepName := [], hs_Data := oz_Result spec\<rparr>) = Inr e"
    and t: "NewTransition \<lparr>ts_ID = oz_TransitionID spec, ts_InstanceID = in_id (oz_Instance spec),
      ts_ExpectedSequence = in_sequence (oz_Instance spec), ts_Definition = in_definition (oz_Instance spec),
      ts_Events = [e], ts_Work = []\<rparr> = Inr (od_transition d)"
    using assms(1) by (auto simp: orchestrationTerminal_def Let_def zero_HistoryEventSpec_def split: sum.splits)
  show ?thesis
    by (rule single_decision_sound [OF e t assms(2,3)])
      (use assms(3) NewHistoryEvent_fields [OF e] in
        \<open>auto intro: replay_step.completed replay_step.failed split: if_splits\<close>)
qed

lemma wf_step_found:
  "wf_steps (def_Steps d) \<Longrightarrow> step \<in> set (def_Steps d) \<Longrightarrow> definitionStep d (st_Name step) (st_Kind step) = Some step"
  using find_step_unique [of "ds_Steps (def_spec d)" step] by (simp add: definitionStep_def wf_steps_def)

lemma race_winner_received:
  "race_winner i v at names \<noteq> v \<Longrightarrow> race_winner i v at names \<in> set names \<and>
     in_signals i (race_winner i v at names) \<noteq> None"
  by (induction names arbitrary: v at) (auto split: option.splits if_splits, metis+)

lemma decideRaceStep_sound:
  assumes "decideRaceStep spec step = Inr (Some d)" "od_kind d \<noteq> OrchestrationWaiting" "orchestration_ready spec"
    "in_status (oz_Instance spec) = StatusRunning" "step \<in> set (def_Steps (oz_Definition spec))"
    "st_Kind step = StepRace"
  shows "decision_sound spec (od_transition d)"
proof -
  let ?w = "race_winner (oz_Instance spec) [] time_zero (st_Branches step)"
  obtain e where e: "NewHistoryEvent (zero_HistoryEventSpec\<lparr>hs_Sequence := in_sequence (oz_Instance spec) + 1,
      hs_InstanceID := in_id (oz_Instance spec), hs_Kind := EventRaceWon, hs_OccurredAt := oz_DecidedAt spec,
      hs_StepName := st_Name step, hs_Data := Some ?w\<rparr>) = Inr e"
    and t: "NewTransition \<lparr>ts_ID = oz_TransitionID spec, ts_InstanceID = in_id (oz_Instance spec),
      ts_ExpectedSequence = in_sequence (oz_Instance spec), ts_Definition = in_definition (oz_Instance spec),
      ts_Events = [e], ts_Work = []\<rparr> = Inr (od_transition d)"
    and open_race: "in_races (oz_Instance spec) (st_Name step) = None" and win: "?w \<noteq> []"
    using assms(1,2) by (auto simp: decideRaceStep_def Let_def has_key_def orchestrationWait_def
        split: sum.splits if_splits)
  have step: "definitionStep (oz_Definition spec) (st_Name step) StepRace = Some step"
    using wf_step_found [OF _ assms(5)] assms(3,6) by (simp add: orchestration_ready_def)
  note f = NewHistoryEvent_fields [OF e]
  show ?thesis
  proof (rule single_decision_sound [OF e t assms(3,4)])
    fix registry
    assume "live registry (oz_Instance spec) (oz_Definition spec)"
    then have "\<exists>k. applyRace registry (oz_Instance spec) e = Inr k"
      using f step race_winner_received [OF win] open_race assms(4) by (simp add: applyRace_Inr live_def)
    then show "\<exists>k. replay_step registry (oz_Instance spec) e k"
      using f(4) by (auto intro: replay_step.race)
  qed simp
qed

subsection \<open>Parallel admission\<close>

lemma parallel_branch_Inr:
  assumes "parallel_branch spec branches index n = Inr (e, w)"
  obtains b step where "branches n = Some b" "definitionActivityStep (oz_Definition spec) n = Some step"
    "blen (ob_Input b) \<le> unat (st_InputLimit step)" "instanceIDPattern (ob_IdempotencyKey b)"
    "NewHistoryEvent (zero_HistoryEventSpec\<lparr>
       hs_Sequence := in_sequence (oz_Instance spec) + of_nat index + 1, hs_InstanceID := in_id (oz_Instance spec),
       hs_Kind := EventActivityScheduled, hs_OccurredAt := oz_DecidedAt spec,
       hs_StepName := n, hs_Data := ob_Input b\<rparr>) = Inr e" "work_valid w"
  using assms
  by (auto simp: parallel_branch_def Let_def not_less split: option.splits if_splits sum.splits
      dest: NewPendingWork_canonical)

lemma parallel_loop_ok:
  "parallel_loop spec branches index names = Inr (es, ws) \<Longrightarrow> list_all event_ok es \<and> list_all work_valid ws \<and>
     map ev_stepName es = names"
proof (induction names arbitrary: index es ws)
  case Nil
  then show ?case by simp
next
  case (Cons n names)
  from Cons.prems obtain e w es' ws' where b: "parallel_branch spec branches index n = Inr (e, w)"
      and rest: "parallel_loop spec branches (Suc index) names = Inr (es', ws')" and "es = e # es'" "ws = w # ws'"
    by (auto split: sum.splits)
  from b have "event_ok e \<and> work_valid w \<and> ev_stepName e = n"
    by (rule parallel_branch_Inr) (auto dest: NewHistoryEvent_fields)
  with Cons.IH [OF rest] \<open>es = e # es'\<close> \<open>ws = w # ws'\<close> show ?case by simp
qed

text \<open>
  The events of a parallel admission apply one after the other: each schedules a branch that is
  still absent, at the next position.
\<close>

lemma parallel_loop_replays:
  assumes "parallel_loop spec branches index names = Inr (es, ws)" "distinct names"
    "live registry j (oz_Definition spec)" "in_id j = in_id (oz_Instance spec)"
    "in_sequence j = in_sequence (oz_Instance spec) + of_nat index" "in_status j = StatusRunning"
    "\<forall>n \<in> set names. in_activities j n = None" "wall (in_updatedAt j) \<le> wall (oz_DecidedAt spec)"
  shows "\<exists>k. apply_all registry j es = Inr k \<and> in_pendingOperator k = OperatorNone"
  using assms
proof (induction names arbitrary: index es ws j)
  case Nil
  then show ?case by (simp add: live_def)
next
  case (Cons n names)
  from Cons.prems(1) obtain e w es' ws' where b: "parallel_branch spec branches index n = Inr (e, w)"
      and rest: "parallel_loop spec branches (Suc index) names = Inr (es', ws')" and es: "es = e # es'"
    by (auto split: sum.splits)
  from b obtain br :: OrchestrationBranchSpec and step where br: "definitionActivityStep (oz_Definition spec) n = Some step"
      "blen (ob_Input br) \<le> unat (st_InputLimit step)"
    and ev: "NewHistoryEvent (zero_HistoryEventSpec\<lparr>
       hs_Sequence := in_sequence (oz_Instance spec) + of_nat index + 1, hs_InstanceID := in_id (oz_Instance spec),
       hs_Kind := EventActivityScheduled, hs_OccurredAt := oz_DecidedAt spec,
       hs_StepName := n, hs_Data := ob_Input br\<rparr>) = Inr e"
    by (rule parallel_branch_Inr) (rule that)
  note f = NewHistoryEvent_fields [OF ev]
  let ?k = "\<lambda>p. j\<lparr>in_activities := (in_activities j)(n \<mapsto> p)\<rparr>"
  have "\<exists>p. replay_step registry j e (?k p)"
    using replay_step.activity [of e registry j step] br f Cons.prems(3,6,7)
    by (auto simp: activity_kind_cases live_def activity_step_None)
  then obtain p where rs: "replay_step registry j e (?k p)" by blast
  have app: "apply_all registry j [e] = Inr (finish_event j e (?k p))"
      "in_pendingOperator (finish_event j e (?k p)) = OperatorNone"
    using single_event_replay [OF Cons.prems(3) f(1) _ _ _ _ rs] f Cons.prems by simp_all
  let ?j = "finish_event j e (?k p)"
  have "\<exists>k. apply_all registry ?j es' = Inr k \<and> in_pendingOperator k = OperatorNone"
  proof (rule Cons.IH [OF rest])
    show "live registry ?j (oz_Definition spec)"
      using Cons.prems(3) app(2) f event_ok_basic [OF f(1)] by (simp add: live_def)
  qed (use Cons.prems f in \<open>auto simp: add.assoc\<close>)
  then show ?case using app(1) es by (auto split: sum.splits)
qed

lemma newParallelActivitySchedule_sound:
  assumes "newParallelActivitySchedule spec step = Inr t" "orchestration_ready spec"
    "in_status (oz_Instance spec) = StatusRunning" "step \<in> set (def_Steps (oz_Definition spec))"
    "st_Kind step = StepParallel" "\<forall>n \<in> set (st_Branches step). in_activities (oz_Instance spec) n = None"
  shows "decision_sound spec t"
proof -
  obtain branches es ws where
      loop: "parallel_loop spec branches 0 (st_Branches step) = Inr (es, ws)"
    and t: "NewTransition \<lparr>ts_ID = oz_TransitionID spec, ts_InstanceID = in_id (oz_Instance spec),
      ts_ExpectedSequence = in_sequence (oz_Instance spec), ts_Definition = in_definition (oz_Instance spec),
      ts_Events = es, ts_Work = ws\<rparr> = Inr t"
    using assms(1) by (auto simp: newParallelActivitySchedule_def split: sum.splits if_splits)
  have "validateStep step = Inr ()"
    using assms(2,4) by (auto simp: orchestration_ready_def wf_steps_def list_all_iff)
  then have d: "distinct (st_Branches step)"
    using validateStep_branches(2) assms(5) by (simp add: is_control_def)
  have "plan_for (oz_Instance spec) t"
    using t parallel_loop_ok [OF loop] by (simp add: plan_for_def NewTransition_Inr)
  moreover have "\<exists>j. apply_all registry (oz_Instance spec) (tr_events t) = Inr j \<and> in_pendingOperator j = OperatorNone"
    if lv: "live registry (oz_Instance spec) (oz_Definition spec)" for registry
  proof -
    have "wall (in_updatedAt (oz_Instance spec)) \<le> wall (oz_DecidedAt spec)"
      using not_before_wall assms(2) lv by (simp add: orchestration_ready_def live_def)
    then show ?thesis
      using parallel_loop_replays [OF loop d lv _ _ assms(3,6)] t by (simp add: NewTransition_Inr)
  qed
  ultimately show ?thesis by (simp add: decision_sound_def)
qed

subsection \<open>The interpretation\<close>

lemma parallel_scan_Failed:
  "parallel_scan spec step m names = Inl (Inr (Some d)) \<Longrightarrow> od_kind d = OrchestrationWaiting \<or>
     (\<exists>n. orchestrationTerminal spec OrchestrationFailed n = Inr d)"
  by (induction names arbitrary: m)
    (auto simp: Let_def orchestrationWait_def failed_decision_def
      split: option.splits ActivityProgressStatus.splits if_splits sum.splits)

lemma decideParallelStep_sound:
  assumes "decideParallelStep spec step = Inr (Some d)" "od_kind d \<noteq> OrchestrationWaiting" "orchestration_ready spec"
    "in_status (oz_Instance spec) = StatusRunning" "step \<in> set (def_Steps (oz_Definition spec))"
    "st_Kind step = StepParallel"
  shows "decision_sound spec (od_transition d)"
proof (cases "parallel_scan spec step 0 (st_Branches step)")
  case (Inl r)
  then have "parallel_scan spec step 0 (st_Branches step) = Inl (Inr (Some d))"
    using assms(1) by (simp add: decideParallelStep_def)
  then show ?thesis
    using parallel_scan_Failed assms(2) orchestrationTerminal_sound [OF _ assms(3,4)] by blast
next
  case (Inr m)
  then have m: "m = length (st_Branches step)" "m \<noteq> 0"
      "newParallelActivitySchedule spec step = Inr (od_transition d)"
    using assms(1) by (auto simp: decideParallelStep_def dest: scheduled_decision_kind(2) split: if_splits)
  have "length (filter (\<lambda>n. in_activities (oz_Instance spec) n = None) (st_Branches step)) = length (st_Branches step)"
    using parallel_scan_Inr [OF Inr] m(1) by simp
  then have "\<forall>n \<in> set (st_Branches step). in_activities (oz_Instance spec) n = None"
    by (metis (mono_tags, lifting) length_filter_less less_irrefl)
  then show ?thesis by (rule newParallelActivitySchedule_sound [OF m(3) assms(3-6)])
qed

lemma constructor_sound:
  assumes "plan_constructor construct inst defn admissible" "construct s = Inr t" "admissible s"
    "inst s = oz_Instance spec" "defn s = oz_Definition spec"
  shows "decision_sound spec t"
  using plan_constructor.plan_law [OF assms(1-3)] plan_constructor.replay_law [OF assms(1-3)] assms(4,5)
  by (simp add: decision_sound_def)

lemma failed_decision_sound:
  assumes "failed_decision spec n = Inr (Some d)" "orchestration_ready spec"
    "in_status (oz_Instance spec) = StatusRunning"
  shows "decision_sound spec (od_transition d)"
  using assms orchestrationTerminal_sound by (auto simp: failed_decision_def split: sum.splits)

lemma decide_step_sound:
  assumes "decide_step spec step = Inr (Some d)" "od_kind d \<noteq> OrchestrationWaiting" "orchestration_ready spec"
    "in_status (oz_Instance spec) = StatusRunning" "def_Reference (oz_Definition spec) = in_definition (oz_Instance spec)"
    "step \<in> set (def_Steps (oz_Definition spec))"
  shows "decision_sound spec (od_transition d)"
proof (cases "st_Kind step")
  case StepActivity
  then consider "failed_decision spec (st_Name step) = Inr (Some d)"
    | s where "NewActivitySchedule s = Inr (od_transition d)" "as_Instance s = oz_Instance spec"
      "as_Definition s = oz_Definition spec"
    using assms(1,2)
    by (auto simp: decide_step_def decideActivityStep_def orchestrationWait_def
        dest!: scheduled_decision_kind(2) split: option.splits ActivityProgressStatus.splits if_splits)
  then show ?thesis
    by cases (blast intro: failed_decision_sound assms constructor_sound [OF schedule.plan_constructor_axioms])+
next
  case StepChild
  then consider "failed_decision spec (st_Name step) = Inr (Some d)"
    | s where "NewChildSchedule s = Inr (od_transition d)" "xs_Instance s = oz_Instance spec"
      "xs_Definition s = oz_Definition spec"
    using assms(1,2)
    by (auto simp: decide_step_def decideChildStep_def orchestrationWait_def
        dest!: scheduled_decision_kind(2) split: option.splits ChildProgressStatus.splits if_splits)
  then show ?thesis
    by cases (blast intro: failed_decision_sound assms constructor_sound [OF child_schedule.plan_constructor_axioms])+
next
  case StepTimer
  then obtain s where s: "NewTimerSchedule s = Inr (od_transition d)" "ti_Definition s = oz_Definition spec"
      "timer_schedule_ready (s, oz_Instance spec)"
    using assms
    by (auto simp: decide_step_def decideTimerStep_def orchestrationWait_def timer_schedule_ready_def
        orchestration_ready_def dest!: scheduled_decision_kind(2) split: option.splits if_splits)
  then show ?thesis
    using constructor_sound [OF timer_schedule.plan_constructor_axioms, of "(s, oz_Instance spec)"] by simp
next
  case StepParallel
  then show ?thesis using decideParallelStep_sound assms by (simp add: decide_step_def)
next
  case StepRace
  then show ?thesis using decideRaceStep_sound assms by (simp add: decide_step_def)
next
  case StepJoin
  then show ?thesis using assms(1,2) by (auto simp: decide_step_def decideJoinStep_def dest: decide_join_kind)
qed (use assms(1,2) in \<open>auto simp: decide_step_def orchestrationWait_def split: if_splits\<close>)

lemma decide_loop_sound:
  assumes "decide_loop spec members steps = Inr d" "od_kind d \<noteq> OrchestrationWaiting" "orchestration_ready spec"
    "in_status (oz_Instance spec) = StatusRunning" "def_Reference (oz_Definition spec) = in_definition (oz_Instance spec)"
    "set steps \<subseteq> set (def_Steps (oz_Definition spec))"
  shows "decision_sound spec (od_transition d)"
  using assms
proof (induction steps)
  case Nil
  then show ?case using orchestrationTerminal_sound by simp
next
  case (Cons step steps)
  then show ?case
    by (auto split: if_splits sum.splits option.splits intro: decide_step_sound)
qed

interpretation orchestrated: plan_constructor orchestration_plan oz_Instance oz_Definition orchestration_ready
proof -
  have "decision_sound s t" if ok: "orchestration_plan s = Inr t" and r: "orchestration_ready s" for s t
  proof -
    obtain d where "NewOrchestrationDecision s = Inr d" "od_kind d \<noteq> OrchestrationWaiting" "t = od_transition d"
      using ok by (auto simp: orchestration_plan_def split: sum.splits if_splits)
    then show ?thesis
      using r by (auto simp: NewOrchestrationDecision_def Let_def split: if_splits intro!: decide_loop_sound)
  qed
  then show "plan_constructor orchestration_plan oz_Instance oz_Definition orchestration_ready"
    by unfold_locales (simp_all add: decision_sound_def)
qed

end
