(* ===== verification/Plan_Properties.thy ===== *)
theory Plan_Properties
  imports Example Orchestration Definition_Properties
begin

text \<open>
  The transition constructors as one system. Each component's constructors are collected in a
  predicate: a plan that one of them accepts for a replayed instance, in the state the constructor
  leaves to its caller to check. A history is grown by committing such plans one after the other;
  every history grown this way replays.
\<close>

section \<open>Plans of one component\<close>


definition compensation_plan :: "Instance \<Rightarrow> Definition \<Rightarrow> Transition \<Rightarrow> bool" where
  "compensation_plan i d t \<longleftrightarrow>
     (\<exists>s. ks_Instance s = i \<and> ks_Definition s = d \<and> NewCompensationSchedule s = Inr t) \<or>
     (\<exists>s. kt_Instance s = i \<and> kt_Definition s = d \<and> NewCompensationAttemptStart s = Inr t) \<or>
     (\<exists>s. ko_Instance s = i \<and> ko_Definition s = d \<and> NewCompensationAttemptOutcome s = Inr t \<and>
        \<not> terminalStatus (in_status i)) \<or>
     (\<exists>s. ky_Instance s = i \<and> ky_Definition s = d \<and> NewCompensationRetry s = Inr t)"

definition child_plan :: "Instance \<Rightarrow> Definition \<Rightarrow> Transition \<Rightarrow> bool" where
  "child_plan i d t \<longleftrightarrow>
     (\<exists>s. xs_Instance s = i \<and> xs_Definition s = d \<and> NewChildSchedule s = Inr t) \<or>
     (\<exists>s. xt_Instance s = i \<and> xt_Definition s = d \<and> NewChildStartAttempt s = Inr t) \<or>
     (\<exists>s. xa_Instance s = i \<and> xa_Definition s = d \<and> NewChildStartAttemptOutcome s = Inr t \<and>
        definitionStep d (xa_StepName s) StepChild \<noteq> None) \<or>
     (\<exists>s. xy_Instance s = i \<and> xy_Definition s = d \<and> NewChildStartRetry s = Inr t) \<or>
     (\<exists>s. xo_Instance s = i \<and> xo_Definition s = d \<and> NewChildOutcome s = Inr t)"

definition wait_plan :: "Instance \<Rightarrow> Definition \<Rightarrow> Transition \<Rightarrow> bool" where
  "wait_plan i d t \<longleftrightarrow>
     (\<exists>s. ti_Definition s = d \<and> NewTimerSchedule s = Inr t \<and> timer_schedule_ready (s, i)) \<or>
     (\<exists>s. tf_Definition s = d \<and> NewTimerFire s = Inr t \<and> timer_fire_ready (s, i)) \<or>
     (\<exists>s. sg_Definition s = d \<and> NewSignalAcceptance s = Inr t \<and> signal_ready (s, i))"

definition operator_plan :: "Instance \<Rightarrow> Definition \<Rightarrow> Transition \<Rightarrow> bool" where
  "operator_plan i d t \<longleftrightarrow>
     (\<exists>s. ol_Instance s = i \<and> NewOperatorLifecycleCommand s = Inr t \<and> lifecycle_ready (s, d)) \<or>
     (\<exists>s. oar_Instance s = i \<and> oar_Definition s = d \<and> NewOperatorActivityRetry s = Inr t \<and>
        operator_identity (oar_Actor s) (oar_Reason s) \<and> in_status i = StatusRunning) \<or>
     (\<exists>s. oc_Instance s = i \<and> oc_Definition s = d \<and> NewOperatorCompensation s = Inr t \<and>
        operator_identity (oc_Actor s) (oc_Reason s)) \<or>
     (\<exists>s. ov_Instance s = i \<and> ov_Definition s = d \<and> NewOperatorCompensationResolution s = Inr t \<and> resolution_ready s) \<or>
     (\<exists>s. op_Instance s = i \<and> op_Definition s = d \<and> NewOperatorApproval s = Inr t \<and> approval_ready s)"

definition decision_plan :: "Instance \<Rightarrow> Definition \<Rightarrow> Transition \<Rightarrow> bool" where
  "decision_plan i d t \<longleftrightarrow>
     (\<exists>s. oz_Instance s = i \<and> oz_Definition s = d \<and> orchestration_plan s = Inr t \<and> orchestration_ready s)"


text \<open>What committing an accepted plan does to a stored history.\<close>

definition extends :: "Registry option \<Rightarrow> HistoryEvent list \<Rightarrow> Transition \<Rightarrow> bool" where
  "extends registry es t \<longleftrightarrow> (\<exists>j. Replay registry (es @ tr_events t) = Inr j \<and>
     unat (in_sequence j) = length es + length (tr_events t)) \<and>
     list_all event_ok (tr_events t) \<and> list_all work_valid (tr_work t)"

context plan_constructor
begin

lemma constructor_extends:
  assumes "construct s = Inr t" "admissible s" "inst s = i" "defn s = d" "Replay registry es = Inr i"
    "list_all event_ok es" "resolved registry (in_definition i) = d" "compiled registry"
  shows "extends registry es t"
  using extends_history [OF assms(1,2), of registry es] plan_law [OF assms(1,2)] assms
  by (simp add: extends_def plan_for_def)

end

section \<open>Each component's plans replay\<close>


lemma compensation_extends:
  assumes "compiled registry" "list_all event_ok es" "Replay registry es = Inr i"
    "compensation_plan i (resolved registry (in_definition i)) t"
  shows "extends registry es t"
  using assms unfolding compensation_plan_def
  by (elim disjE exE conjE)
    (metis comp_schedule.constructor_extends comp_start.constructor_extends comp_outcome.constructor_extends
      comp_retry.constructor_extends)+

lemma child_extends:
  assumes "compiled registry" "list_all event_ok es" "Replay registry es = Inr i"
    "child_plan i (resolved registry (in_definition i)) t"
  shows "extends registry es t"
  using assms unfolding child_plan_def
  by (elim disjE exE conjE)
    (metis child_schedule.constructor_extends child_start.constructor_extends
      child_start_outcome.constructor_extends child_retry.constructor_extends child_outcome.constructor_extends)+

lemma wait_extends:
  assumes "compiled registry" "list_all event_ok es" "Replay registry es = Inr i"
    "wait_plan i (resolved registry (in_definition i)) t"
  shows "extends registry es t"
proof -
  note c = assms(3,2) refl assms(1)
  consider s where "ti_Definition s = resolved registry (in_definition i)" "NewTimerSchedule s = Inr t"
      "timer_schedule_ready (s, i)"
    | s where "tf_Definition s = resolved registry (in_definition i)" "NewTimerFire s = Inr t" "timer_fire_ready (s, i)"
    | s where "sg_Definition s = resolved registry (in_definition i)" "NewSignalAcceptance s = Inr t" "signal_ready (s, i)"
    using assms(4) unfolding wait_plan_def by blast
  then show ?thesis
  proof cases
    case (1 s)
    then show ?thesis using timer_schedule.constructor_extends [of "(s, i)", OF _ _ _ _ c] by simp
  next
    case (2 s)
    then show ?thesis using timer_fire.constructor_extends [of "(s, i)", OF _ _ _ _ c] by simp
  next
    case (3 s)
    then show ?thesis using signal.constructor_extends [of "(s, i)", OF _ _ _ _ c] by simp
  qed
qed

lemma operator_extends:
  assumes "compiled registry" "list_all event_ok es" "Replay registry es = Inr i"
    "operator_plan i (resolved registry (in_definition i)) t"
  shows "extends registry es t"
proof (cases "\<exists>s. ol_Instance s = i \<and> NewOperatorLifecycleCommand s = Inr t \<and>
    lifecycle_ready (s, resolved registry (in_definition i))")
  case True
  then obtain s where s: "ol_Instance s = i" "NewOperatorLifecycleCommand s = Inr t"
      "lifecycle_ready (s, resolved registry (in_definition i))" by blast
  then show ?thesis
    using op_lifecycle.constructor_extends [of "(s, resolved registry (in_definition i))", OF _ _ _ _ assms(3,2) refl assms(1)]
    by simp
next
  case False
  then show ?thesis
    using assms unfolding operator_plan_def
    by (elim disjE exE conjE)
      (blast | metis op_retry.constructor_extends op_compensation.constructor_extends
        op_resolution.constructor_extends op_approval.constructor_extends)+
qed

lemma decision_extends:
  assumes "compiled registry" "list_all event_ok es" "Replay registry es = Inr i"
    "decision_plan i (resolved registry (in_definition i)) t"
  shows "extends registry es t"
  using assms unfolding decision_plan_def by (metis orchestrated.constructor_extends)



text \<open>
  A compensation plan (schedule, attempt start, attempt outcome, retry) that is accepted for the
  replayed instance extends its history to one that replays, with valid events and work items.
\<close>

theorem compensation_plans_replay:
  assumes "compiled registry" "list_all event_ok es" "Replay registry es = Inr i"
    "compensation_plan i (resolved registry (in_definition i)) t"
  shows "extends registry es t"
  by (rule compensation_extends [OF assms])

theorem compensation_plans_replay_witness:
  "\<exists>t. NewCompensationSchedule ex_comp_schedule = Inr t \<and>
     extends ex_registry [ex_started, ex_scheduled, ex_attempt, ex_succeeded] t"
proof -
  obtain t where t: "NewCompensationSchedule ex_comp_schedule = Inr t" using ex_comp_schedule_accepted by blast
  have f: "ks_Instance ex_comp_schedule = ex_i4" "ks_Definition ex_comp_schedule = ex_definition" by (simp_all add: ex_comp_schedule_def)
  have "compensation_plan ex_i4 (resolved ex_registry (in_definition ex_i4)) t"
    unfolding compensation_plan_def by (rule disjI1) (use t f in \<open>auto simp: ex_pinned ex_resolved\<close>)
  from compensation_plans_replay [OF ex_compiled _ _ this, of "[ex_started, ex_scheduled, ex_attempt, ex_succeeded]"]
  show ?thesis using t by (auto simp: ex_events_ok ex_replay)
qed

text \<open>
  A child plan (schedule, start attempt, start outcome, start retry, child outcome) that is accepted
  for the replayed instance extends its history to one that replays, with valid events and work items;
  a start outcome needs the step to be still in the pinned definition, which its constructor does
  not check.
\<close>

theorem child_plans_replay:
  assumes "compiled registry" "list_all event_ok es" "Replay registry es = Inr i"
    "child_plan i (resolved registry (in_definition i)) t"
  shows "extends registry es t"
  by (rule child_extends [OF assms])

theorem child_plans_replay_witness:
  "\<exists>t. NewChildStartAttempt ex_child_start = Inr t \<and> extends ex_registry [ex_started, ex_child] t"
proof -
  obtain t where t: "NewChildStartAttempt ex_child_start = Inr t" using ex_child_start_accepted by blast
  have f: "xt_Instance ex_child_start = ex_c2" "xt_Definition ex_child_start = ex_definition" by (simp_all add: ex_child_start_def)
  have "child_plan ex_c2 (resolved ex_registry (in_definition ex_c2)) t"
    unfolding child_plan_def
    by (rule disjI2, rule disjI1) (use t f in \<open>auto simp: ex_pinned ex_resolved\<close>)
  from child_plans_replay [OF ex_compiled _ _ this, of "[ex_started, ex_child]"] show ?thesis
    using t by (auto simp: ex_events_ok ex_replay)
qed

text \<open>
  A timer or signal plan extends the history of the instance it was built for to one that replays,
  when the instance is at the expected position and in the state the event needs (the constructors see
  only the identity and the position, so the state is the caller's obligation).
\<close>

theorem wait_plans_replay:
  assumes "compiled registry" "list_all event_ok es" "Replay registry es = Inr i"
    "wait_plan i (resolved registry (in_definition i)) t"
  shows "extends registry es t"
  by (rule wait_extends [OF assms])

theorem wait_plans_replay_witness:
  "\<exists>t. NewTimerFire ex_timer_fire = Inr t \<and> extends ex_registry [ex_started, ex_timer] t"
proof -
  obtain t where t: "NewTimerFire ex_timer_fire = Inr t" using ex_timer_fire_accepted by blast
  have f: "tf_Definition ex_timer_fire = ex_definition" by (simp_all add: ex_timer_fire_def)
  have "timer_fire_ready (ex_timer_fire, ex_t2)"
    by (simp add: timer_fire_ready_def ex_timer_fire_def ex_lease_def ex_t2_def ex_i1_def ex_ref_def Before_def
        def_Reference_def ex_definition_def ex_spec_def)
  then have "wait_plan ex_t2 (resolved ex_registry (in_definition ex_t2)) t"
    unfolding wait_plan_def
    by (intro disjI2 disjI1) (use t f in \<open>auto simp: ex_pinned ex_resolved\<close>)
  from wait_plans_replay [OF ex_compiled _ _ this, of "[ex_started, ex_timer]"] show ?thesis
    using t by (auto simp: ex_events_ok ex_replay)
qed

text \<open>
  An operator command (pause, resume, cancel, terminate, activity retry, compensation, manual
  resolution, approval) that is accepted for the replayed instance extends its history by the audit
  event and the event it authorises to a history that replays, when actor and reason are stable names
  and the instance is in the state the authorised event needs.
\<close>

theorem operator_plans_replay:
  assumes "compiled registry" "list_all event_ok es" "Replay registry es = Inr i"
    "operator_plan i (resolved registry (in_definition i)) t"
  shows "extends registry es t"
  by (rule operator_extends [OF assms])

theorem operator_plans_replay_witness:
  "\<exists>t. NewOperatorActivityRetry ex_op_retry = Inr t \<and>
     extends ex_registry [ex_started, ex_scheduled, ex_attempt, ex_failed] t"
proof -
  obtain t where t: "NewOperatorActivityRetry ex_op_retry = Inr t" using ex_op_retry_accepted by blast
  have f: "oar_Instance ex_op_retry = ex_if" "oar_Definition ex_op_retry = ex_definition" by (simp_all add: ex_op_retry_def)
  have o: "in_status ex_if = StatusRunning" "oar_Actor ex_op_retry = ''alice''" "oar_Reason ex_op_retry = ''outage''"
    by (simp_all add: ex_if_def ex_i1_def ex_op_retry_def)
  have "operator_plan ex_if (resolved ex_registry (in_definition ex_if)) t"
    unfolding operator_plan_def
    by (intro disjI2 disjI1) (use t f ex_operator o in \<open>auto simp: ex_pinned ex_resolved\<close>)
  from operator_plans_replay [OF ex_compiled _ _ this, of "[ex_started, ex_scheduled, ex_attempt, ex_failed]"]
  show ?thesis using t by (auto simp: ex_events_ok ex_replay)
qed

section \<open>Orchestration decisions\<close>

text \<open>
  The next persisted decision of an orchestration (schedule an activity, timer or child, admit the
  branches of a parallel step, record the winner of a race, complete or fail) extends the history of
  the instance it was made for to one that replays, when its time is not before the last event.
\<close>

theorem orchestration_plans_replay:
  assumes "compiled registry" "list_all event_ok es" "Replay registry es = Inr (oz_Instance s)"
    "resolved registry (in_definition (oz_Instance s)) = oz_Definition s"
    "NewOrchestrationDecision s = Inr d" "od_kind d \<noteq> OrchestrationWaiting" "orchestration_ready s"
  shows "extends registry es (od_transition d)"
proof -
  have "orchestration_plan s = Inr (od_transition d)" using assms(5,6) by (simp add: orchestration_plan_def)
  then show ?thesis
    using decision_extends [OF assms(1-3)] assms(4,7) by (auto simp: decision_plan_def)
qed

definition ex_decide :: OrchestrationDecisionSpec where
  "ex_decide = \<lparr>oz_TransitionID = ''t-2'', oz_WorkID = ''w-2'', oz_Instance = ex_i1, oz_Definition = ex_definition,
     oz_DecidedAt = utc 1010, oz_Deadline = utc 5000, oz_IdempotencyKey = ''key-1'', oz_Input = Some ''9'',
     oz_Result = None, oz_TenantID = [], oz_CorrelationID = [], oz_ChildID = [], oz_Branches = []\<rparr>"

lemma ex_decide_accepted:
  assumes "NewActivitySchedule ex_schedule = Inr t"
  shows "NewOrchestrationDecision ex_decide =
    Inr \<lparr>od_kind = OrchestrationScheduled, od_stepName = ''charge'', od_transition = t\<rparr>"
proof -
  have charge: "st_Name ex_charge = ''charge''" "st_Kind ex_charge = StepActivity" by (simp_all add: ex_charge_def)
  have idle: "in_activities ex_i1 = Map.empty" "in_status ex_i1 = StatusRunning"
    by (simp_all add: ex_i1_def zero_Instance_def)
  have "decideActivityStep ex_decide ex_charge = scheduled_decision ''charge'' (NewActivitySchedule ex_schedule)"
    by (simp add: decideActivityStep_def charge ex_decide_def ex_schedule_def idle)
  moreover have "''charge'' \<notin> orchestrationBranchMembers (def_Steps ex_definition)"
    by (simp add: orchestrationBranchMembers_def ex_definition_def ex_spec_def ex_steps zero_StepSpec_def)
  moreover have "def_Steps ex_definition = ex_charge # [ex_cool, ex_paid, ex_check, ex_first, ex_ship]"
    "def_Mode ex_definition = Orchestration" "def_Reference ex_definition = in_definition ex_i1"
    by (simp_all add: ex_definition_def ex_spec_def def_Reference_def ex_i1_def ex_ref_def)
  ultimately show ?thesis
    using assms charge idle
    by (simp add: NewOrchestrationDecision_def decide_step_def scheduled_decision_def ex_decide_def)
qed

lemma ex_decide_ready: "orchestration_ready ex_decide"
  using validateDefinition_wf(1) [OF ex_valid]
  by (simp add: orchestration_ready_def ex_decide_def ex_definition_def ex_i1_def Before_def)

theorem orchestration_plans_replay_witness:
  "\<exists>d. NewOrchestrationDecision ex_decide = Inr d \<and> od_kind d = OrchestrationScheduled \<and>
     extends ex_registry [ex_started] (od_transition d)"
proof -
  obtain t where "NewActivitySchedule ex_schedule = Inr t" using ex_schedule_accepted by blast
  note d = ex_decide_accepted [OF this]
  have i: "oz_Instance ex_decide = ex_i1" "oz_Definition ex_decide = ex_definition" by (simp_all add: ex_decide_def)
  have "extends ex_registry [ex_started] t"
    using orchestration_plans_replay [OF ex_compiled _ _ _ d _ ex_decide_ready, of "[ex_started]"]
    by (simp add: i ex_events_ok ex_replay ex_pinned ex_resolved)
  then show ?thesis using d by auto
qed

text \<open>
  C36: An orchestration decides to complete exactly when every step is done: activities and children
  have succeeded, timers have fired, signals and approvals have arrived, every branch of a parallel
  or join step has succeeded, and every race has a winner. The leaves of a parallel or race step are
  judged with the step that owns them.
\<close>

theorem orchestration_completes_exactly:
  assumes "NewOrchestrationDecision s = Inr d"
  shows "od_kind d = OrchestrationCompleted \<longleftrightarrow>
    (\<forall>step \<in> set (def_Steps (oz_Definition s)). own_step (def_Steps (oz_Definition s)) step \<longrightarrow>
       step_done (oz_Instance s) step)"
proof -
  have "decide_loop s (orchestrationBranchMembers (def_Steps (oz_Definition s))) (def_Steps (oz_Definition s)) = Inr d"
    using assms by (auto simp: NewOrchestrationDecision_def Let_def split: if_splits)
  from decide_loop_completed [OF this] show ?thesis by (auto simp: own_step_def)
qed

theorem orchestration_completes_exactly_witness:
  "\<exists>d. NewOrchestrationDecision ex_decide = Inr d \<and> od_kind d \<noteq> OrchestrationCompleted \<and>
     \<not> (\<forall>step \<in> set (def_Steps ex_definition). own_step (def_Steps ex_definition) step \<longrightarrow> step_done ex_i1 step)"
proof -
  obtain t where "NewActivitySchedule ex_schedule = Inr t" using ex_schedule_accepted by blast
  from orchestration_completes_exactly [OF ex_decide_accepted [OF this]] ex_decide_accepted [OF this]
  show ?thesis by (simp add: ex_decide_def)
qed

section \<open>Histories grown by accepted plans\<close>







end
