(* ===== verification/Store.thy ===== *)
theory Store
  imports Transition Effects
begin

text \<open>
  Store contracts (store.go): the durability class of a commit error, bounded history queries and
  the pages that answer them.
\<close>

section \<open>Commit errors\<close>

definition NewStoreCommitError :: "StoreCommitOutcome \<Rightarrow> go_error option \<Rightarrow> go_error" where
  "NewStoreCommitError outcome cause = (case cause of
     None \<Rightarrow> ErrInvalidStoreRequest
   | Some e \<Rightarrow> if outcome = StoreCommitInvalid then ErrInvalidStoreRequest else StoreCommitError outcome e)"

definition commit_error_text :: "StoreCommitOutcome \<Rightarrow> string" where
  "commit_error_text outcome = (case outcome of
     StoreCommitNotCommitted \<Rightarrow> ''workflow transition did not commit''
   | StoreCommitCommitted \<Rightarrow> ''workflow transition committed before a later failure''
   | _ \<Rightarrow> ''workflow transition commit outcome is unknown'')"

text \<open>
  \<open>errors.Is\<close> and \<open>errors.As\<close> walk the tree of wrapped errors depth first; the walk of \<open>errors.As\<close> here
  stops at the first error that has a \<open>CommitOutcome\<close>.
\<close>

fun error_is :: "go_error \<Rightarrow> go_error \<Rightarrow> bool" where
  "error_is (StoreCommitError outcome cause) target \<longleftrightarrow>
     StoreCommitError outcome cause = target \<or> error_is cause target"
| "error_is (OperationError operation cause) target \<longleftrightarrow>
     OperationError operation cause = target \<or> error_is cause target"
| "error_is (JoinedError a b) target \<longleftrightarrow>
     JoinedError a b = target \<or> error_is a target \<or> error_is b target"
| "error_is err target \<longleftrightarrow> err = target"

fun commit_classification :: "go_error \<Rightarrow> StoreCommitOutcome option" where
  "commit_classification (StoreCommitError outcome cause) = Some outcome"
| "commit_classification (OperationError operation cause) = commit_classification cause"
| "commit_classification (JoinedError a b) =
     (case commit_classification a of None \<Rightarrow> commit_classification b | Some outcome \<Rightarrow> Some outcome)"
| "commit_classification err = None"

definition StoreCommitOutcomeOf :: "go_error \<Rightarrow> StoreCommitOutcome" where
  "StoreCommitOutcomeOf err =
     (case commit_classification err of Some classified \<Rightarrow> classified | None \<Rightarrow> StoreCommitUnknown)"

lemma StoreCommitOutcomeOf_simps [simp]:
  "StoreCommitOutcomeOf (StoreCommitError outcome cause) = outcome"
  by (simp add: StoreCommitOutcomeOf_def)

section \<open>History queries\<close>

definition MaxHistoryPageEvents :: nat where "MaxHistoryPageEvents = 1000"

record HistoryQuery =
  hq_instanceID :: string
  hq_afterSequence :: uint64
  hq_limit :: uint32

type_synonym HistoryQuerySpec = HistoryQuery

definition zero_HistoryQuery :: HistoryQuery where
  "zero_HistoryQuery = \<lparr>hq_instanceID = [], hq_afterSequence = 0, hq_limit = 0\<rparr>"

definition query_valid :: "HistoryQuery \<Rightarrow> bool" where
  "query_valid query \<longleftrightarrow> instanceIDPattern (hq_instanceID query) \<and> hq_limit query > 0 \<and>
     unat (hq_limit query) \<le> MaxHistoryPageEvents \<and> hq_afterSequence query \<noteq> NOT 0"

definition NewHistoryQuery :: "HistoryQuerySpec \<Rightarrow> HistoryQuery result" where
  "NewHistoryQuery spec = (if \<not> query_valid spec then Inl ErrInvalidStoreRequest else Inr spec)"

section \<open>History pages\<close>

record HistoryPage =
  hp_events :: "HistoryEvent list"
  hp_nextAfterSequence :: uint64
  hp_hasMore :: bool

text \<open>The loop of \<open>NewHistoryPage\<close>: the cursor after the events, or \<open>None\<close> at the first bad one.\<close>

fun page_cursor :: "HistoryQuery \<Rightarrow> nat \<Rightarrow> uint64 \<Rightarrow> HistoryEvent list \<Rightarrow> uint64 option" where
  "page_cursor query index cursor [] = Some cursor"
| "page_cursor query index cursor (event # events) =
     (if \<not> historyEventValid event \<or> ev_instanceID event \<noteq> hq_instanceID query \<or>
         ev_sequence event \<noteq> hq_afterSequence query + of_nat index + 1
      then None else page_cursor query (Suc index) (ev_sequence event) events)"

definition NewHistoryPage :: "HistoryQuery \<Rightarrow> HistoryEvent list \<Rightarrow> bool \<Rightarrow> HistoryPage result" where
  "NewHistoryPage query events hasMore =
     (if \<not> query_valid query \<or> length events > unat (hq_limit query) \<or>
         (hasMore \<and> length events \<noteq> unat (hq_limit query))
      then Inl ErrInvalidStoreRequest
      else case page_cursor query 0 (hq_afterSequence query) events of
        None \<Rightarrow> Inl ErrInvalidStoreRequest
      | Some cursor \<Rightarrow> Inr \<lparr>hp_events = events, hp_nextAfterSequence = cursor, hp_hasMore = hasMore\<rparr>)"

definition page_events_ok :: "HistoryQuery \<Rightarrow> nat \<Rightarrow> HistoryEvent list \<Rightarrow> bool" where
  "page_events_ok query index es \<longleftrightarrow> (\<forall>k < length es. historyEventValid (es ! k) \<and>
     ev_instanceID (es ! k) = hq_instanceID query \<and>
     ev_sequence (es ! k) = hq_afterSequence query + of_nat (index + k) + 1)"

lemma page_events_ok_simps:
  "page_events_ok q n []"
  "page_events_ok q n (e # es) \<longleftrightarrow> historyEventValid e \<and> ev_instanceID e = hq_instanceID q \<and>
     ev_sequence e = hq_afterSequence q + of_nat n + 1 \<and> page_events_ok q (Suc n) es"
  unfolding page_events_ok_def length_Cons All_less_Suc2 by simp_all

lemma page_cursor_eq:
  "page_cursor q n c es = (if page_events_ok q n es
     then Some (if es = [] then c else hq_afterSequence q + of_nat (n + length es)) else None)"
proof (induction es arbitrary: n c)
  case Nil
  then show ?case by (simp add: page_events_ok_simps)
next
  case (Cons e es)
  have step: "of_nat n + 1 = (of_nat (Suc n) :: uint64)" by simp
  show ?case
  proof (cases "historyEventValid e \<and> ev_instanceID e = hq_instanceID q \<and>
      ev_sequence e = hq_afterSequence q + of_nat n + 1")
    case True
    then have "page_cursor q n c (e # es) = page_cursor q (Suc n) (ev_sequence e) es" by simp
    also have "\<dots> = (if page_events_ok q (Suc n) es
        then Some (hq_afterSequence q + of_nat (n + length (e # es))) else None)"
      unfolding Cons.IH using True by (cases es) (simp_all add: add.assoc step)
    finally show ?thesis using True by (simp add: page_events_ok_simps(2))
  next
    case False
    then show ?thesis by (auto simp: page_events_ok_simps(2))
  qed
qed

lemma NewHistoryPage_Inr:
  "NewHistoryPage q es hasMore = Inr page \<longleftrightarrow> query_valid q \<and> length es \<le> unat (hq_limit q) \<and>
     (hasMore \<longrightarrow> length es = unat (hq_limit q)) \<and> page_events_ok q 0 es \<and>
     page = \<lparr>hp_events = es, hp_nextAfterSequence = hq_afterSequence q + of_nat (length es), hp_hasMore = hasMore\<rparr>"
  by (auto simp: NewHistoryPage_def page_cursor_eq split: if_splits)

text \<open>No event has sequence number zero, so the positions of a page never wrap around.\<close>

lemma unat_walk: "(\<forall>k < n. q + of_nat k + 1 \<noteq> 0) \<Longrightarrow> unat (q + of_nat n :: uint64) = unat q + n"
proof (induction n)
  case 0
  then show ?case by simp
next
  case (Suc n)
  then have "q + of_nat n + 1 \<noteq> 0" "unat (q + of_nat n) = unat q + n" by simp_all
  then show ?case using unat_Suc_word [of "q + of_nat n"] by (simp add: ac_simps)
qed

lemma page_positions:
  assumes "page_events_ok q 0 es" "k \<le> length es"
  shows "unat (hq_afterSequence q + of_nat k) = unat (hq_afterSequence q) + k"
proof (rule unat_walk, intro allI impI)
  fix j
  assume "j < k"
  then have "historyEventValid (es ! j)" "ev_sequence (es ! j) = hq_afterSequence q + of_nat j + 1"
    using assms by (simp_all add: page_events_ok_def)
  then show "hq_afterSequence q + of_nat j + 1 \<noteq> 0"
    by (auto simp: historyEventValid_def validHistoryEventSpec_def event_spec_def split: if_splits)
qed

section \<open>The store interface\<close>

text \<open>
  The interfaces \<open>TransitionStore\<close> (store.go), \<open>HistoryReader\<close> (inspection.go) and
  \<open>ActivityExecutionStore\<close> (activity\_processor.go) as the operations a client calls. The store is
  borrowed: its operations are computations over the caller's world.
\<close>

record TransitionReconciliation =
  rc_transitionID :: string
  rc_fingerprint :: string

datatype TransitionReconciliationOutcome =
  TransitionMissing | TransitionCommitted | TransitionConflicting | TransitionReconciliationInvalid

type_synonym 'w HistoryReader = "'w ctx \<Rightarrow> HistoryQuery \<Rightarrow> ('w, HistoryPage result) state"

record 'w ExecutionStore =
  do_Commit :: "'w ctx \<Rightarrow> Transition \<Rightarrow> ('w, unit result) state"
  do_History :: "'w HistoryReader"
  do_ReconcileTransition ::
    "'w ctx \<Rightarrow> TransitionReconciliation \<Rightarrow> ('w, TransitionReconciliationOutcome result) state"

end
