(* ===== verification/Administration.thy ===== *)
theory Administration
  imports Store
begin

text \<open>
  Administration (administration.go): keyset cursors, bounded list queries and pages of instance
  metadata, and the identity of an uncertain transition. Go compares strings byte by byte, which
  is the lexicographic order of \<open>string\<close>.
\<close>

definition MaxInstanceListItems :: uint32 where "MaxInstanceListItems = 100"

datatype InstanceListSelection =
  ListActiveInstances | ListArchivedInstances | ListAllInstances | ListSelectionInvalid

record InstanceListCursor =
  lc_createdAt :: gotime
  lc_instanceID :: string

definition NewInstanceListCursor :: "InstanceListCursor \<Rightarrow> InstanceListCursor result" where
  "NewInstanceListCursor spec =
     (let cursor = spec\<lparr>lc_createdAt := canonicalTime (lc_createdAt spec)\<rparr>
      in if IsZero (lc_createdAt cursor) \<or> \<not> instanceIDPattern (lc_instanceID cursor)
         then Inl ErrInvalidStoreRequest else Inr cursor)"

definition list_cursor_valid :: "InstanceListCursor \<Rightarrow> bool" where
  "list_cursor_valid cursor =
     (if IsZero (lc_createdAt cursor) then lc_instanceID cursor = []
      else instanceIDPattern (lc_instanceID cursor))"

record InstanceListQuery =
  lq_selection :: InstanceListSelection
  lq_after :: InstanceListCursor
  lq_limit :: uint32

definition list_query_Valid :: "InstanceListQuery \<Rightarrow> bool" where
  "list_query_Valid query \<longleftrightarrow> lq_selection query \<noteq> ListSelectionInvalid \<and>
     list_cursor_valid (lq_after query) \<and> lq_limit query > 0 \<and> lq_limit query \<le> MaxInstanceListItems"

definition NewInstanceListQuery :: "InstanceListQuery \<Rightarrow> InstanceListQuery result" where
  "NewInstanceListQuery spec = (if \<not> list_query_Valid spec then Inl ErrInvalidStoreRequest else Inr spec)"

record InstanceRecord =
  ir_instanceID :: string
  ir_definition :: DefinitionReference
  ir_sequence :: uint64
  ir_createdAt :: gotime
  ir_updatedAt :: gotime
  ir_archivedAt :: gotime

definition record_valid :: "InstanceRecord \<Rightarrow> bool" where
  "record_valid item \<longleftrightarrow> instanceIDPattern (ir_instanceID item) \<and> reference_valid (ir_definition item) \<and>
     ir_sequence item > 0 \<and> \<not> IsZero (ir_createdAt item) \<and>
     \<not> Before (ir_updatedAt item) (ir_createdAt item) \<and>
     (IsZero (ir_archivedAt item) \<or> \<not> Before (ir_archivedAt item) (ir_updatedAt item))"

definition NewInstanceRecord :: "InstanceRecord \<Rightarrow> InstanceRecord result" where
  "NewInstanceRecord spec =
     (let item = spec\<lparr>ir_createdAt := canonicalTime (ir_createdAt spec),
            ir_updatedAt := canonicalTime (ir_updatedAt spec),
            ir_archivedAt := canonicalTime (ir_archivedAt spec)\<rparr>
      in if \<not> record_valid item then Inl ErrInvalidStoreRequest else Inr item)"

definition instanceSelectionMatches :: "InstanceListSelection \<Rightarrow> InstanceRecord \<Rightarrow> bool" where
  "instanceSelectionMatches selection item = (case selection of
     ListActiveInstances \<Rightarrow> IsZero (ir_archivedAt item)
   | ListArchivedInstances \<Rightarrow> \<not> IsZero (ir_archivedAt item)
   | _ \<Rightarrow> True)"

definition cursorBefore :: "InstanceListCursor \<Rightarrow> gotime \<Rightarrow> string \<Rightarrow> bool" where
  "cursorBefore cursor createdAt instanceID =
     (if IsZero (lc_createdAt cursor) \<or> After createdAt (lc_createdAt cursor) then True
      else if \<not> Equal createdAt (lc_createdAt cursor) then False
      else instanceID > lc_instanceID cursor)"

record InstanceListPage =
  lp_items :: "InstanceRecord list"
  lp_nextCursor :: InstanceListCursor
  lp_hasMore :: bool

definition list_key :: "InstanceRecord \<Rightarrow> InstanceListCursor" where
  "list_key item = \<lparr>lc_createdAt = ir_createdAt item, lc_instanceID = ir_instanceID item\<rparr>"

fun list_page_loop :: "InstanceListSelection \<Rightarrow> InstanceListCursor \<Rightarrow> InstanceRecord list \<Rightarrow> InstanceListCursor option" where
  "list_page_loop selection previous [] = Some previous"
| "list_page_loop selection previous (item # items) =
     (if \<not> record_valid item \<or> \<not> instanceSelectionMatches selection item \<or>
         \<not> cursorBefore previous (ir_createdAt item) (ir_instanceID item)
      then None else list_page_loop selection (list_key item) items)"

definition NewInstanceListPage :: "InstanceListQuery \<Rightarrow> InstanceRecord list \<Rightarrow> bool \<Rightarrow> InstanceListPage result" where
  "NewInstanceListPage query items hasMore =
     (if \<not> list_query_Valid query \<or> length items > unat (lq_limit query) \<or>
         (hasMore \<and> length items \<noteq> unat (lq_limit query))
      then Inl ErrInvalidStoreRequest
      else case list_page_loop (lq_selection query) (lq_after query) items of
        None \<Rightarrow> Inl ErrInvalidStoreRequest
      | Some previous \<Rightarrow> Inr \<lparr>lp_items = items, lp_nextCursor = previous, lp_hasMore = hasMore\<rparr>)"

section \<open>Reconciliation\<close>

definition reconciliation_Valid :: "TransitionReconciliation \<Rightarrow> bool" where
  "reconciliation_Valid reconciliation \<longleftrightarrow> instanceIDPattern (rc_transitionID reconciliation) \<and>
     fingerprintPattern (rc_fingerprint reconciliation)"

definition NewTransitionReconciliation :: "TransitionReconciliation \<Rightarrow> TransitionReconciliation result" where
  "NewTransitionReconciliation spec =
     (if \<not> reconciliation_Valid spec then Inl ErrInvalidStoreRequest else Inr spec)"

section \<open>Keyset pagination\<close>

text \<open>
  The contract of a keyset page: a strict order on keys, an optional start, and a page whose keys
  ascend strictly from the query's cursor. Pages that follow one another by their cursors form
  one strictly ascending list, so that no record is delivered twice, however the underlying
  records change between the queries.
\<close>

fun ascending :: "('k \<Rightarrow> 'k \<Rightarrow> bool) \<Rightarrow> 'k \<Rightarrow> 'k list \<Rightarrow> bool" where
  "ascending before c [] \<longleftrightarrow> True"
| "ascending before c (k # ks) \<longleftrightarrow> before c k \<and> ascending before k ks"

lemma ascending_append:
  "ascending before c (ks @ ls) \<longleftrightarrow> ascending before c ks \<and> ascending before (last (c # ks)) ls"
  by (induction ks arbitrary: c) auto

text \<open>A chain of accepted pages: each query starts where the last page ended.\<close>

fun page_chain :: "('q \<Rightarrow> 'r list \<Rightarrow> bool \<Rightarrow> 'p result) \<Rightarrow> ('q \<Rightarrow> 'k) \<Rightarrow> ('p \<Rightarrow> 'k) \<Rightarrow> 'k \<Rightarrow>
    ('q \<times> 'r list \<times> bool) list \<Rightarrow> bool" where
  "page_chain page query_start page_next c [] \<longleftrightarrow> True"
| "page_chain page query_start page_next c ((q, rs, hasMore) # ps) \<longleftrightarrow> query_start q = c \<and>
     (case page q rs hasMore of Inl _ \<Rightarrow> False | Inr p \<Rightarrow> page_chain page query_start page_next (page_next p) ps)"

definition delivered :: "('q \<times> 'r list \<times> bool) list \<Rightarrow> 'r list" where
  "delivered ps = concat (map (fst \<circ> snd) ps)"

definition key_below :: "int \<times> string \<Rightarrow> int \<times> string \<Rightarrow> bool" where
  "key_below a b \<longleftrightarrow> fst a < fst b \<or> fst a = fst b \<and> snd a < snd b"

lemma key_below_trans: "key_below a b \<Longrightarrow> key_below b c \<Longrightarrow> key_below a c"
  by (auto simp: key_below_def)

lemma sorted_key_below_distinct: "sorted_wrt key_below xs \<Longrightarrow> distinct xs"
  by (induction xs) (auto simp: key_below_def)

locale keyset_pages =
  fixes before :: "'k \<Rightarrow> 'k \<Rightarrow> bool" and key :: "'r \<Rightarrow> 'k" and record_ok :: "'r \<Rightarrow> bool"
    and normal :: "'r \<Rightarrow> bool" and page :: "'q \<Rightarrow> 'r list \<Rightarrow> bool \<Rightarrow> 'p result" and query_start :: "'q \<Rightarrow> 'k"
    and page_next :: "'p \<Rightarrow> 'k" and rank :: "'k \<Rightarrow> int \<times> string"
  assumes page_law: "page q rs hasMore = Inr p \<Longrightarrow>
      ascending before (query_start q) (map key rs) \<and> list_all record_ok rs \<and>
      page_next p = last (query_start q # map key rs)"
    and order_law: "record_ok r \<Longrightarrow> normal r \<Longrightarrow> normal s \<Longrightarrow> before (key r) (key s) \<Longrightarrow>
      key_below (rank (key r)) (rank (key s))"
begin

abbreviation chain :: "'k \<Rightarrow> ('q \<times> 'r list \<times> bool) list \<Rightarrow> bool" where
  "chain \<equiv> page_chain page query_start page_next"

lemma chain_ascending:
  "chain c ps \<Longrightarrow> ascending before c (map key (delivered ps)) \<and> list_all record_ok (delivered ps)"
proof (induction ps arbitrary: c)
  case Nil
  then show ?case by (simp add: delivered_def)
next
  case (Cons p ps)
  obtain q rs hasMore where p: "p = (q, rs, hasMore)" by (cases p)
  with Cons.prems obtain g where g: "query_start q = c" "page q rs hasMore = Inr g" "chain (page_next g) ps"
    by (auto split: sum.splits)
  show ?case
    using page_law [OF g(2)] Cons.IH [OF g(3)] g(1) p by (auto simp: ascending_append delivered_def)
qed

lemma ascending_below:
  "ascending before (key r) (map key rs) \<Longrightarrow> list_all record_ok (r # rs) \<Longrightarrow> list_all normal (r # rs) \<Longrightarrow>
     sorted_wrt key_below (map (\<lambda>x. rank (key x)) (r # rs))"
proof (induction rs arbitrary: r)
  case Nil
  then show ?case by simp
next
  case (Cons s rs)
  have first: "key_below (rank (key r)) (rank (key s))"
    using order_law [of r s] Cons.prems by simp
  have rest: "sorted_wrt key_below (map (\<lambda>x. rank (key x)) (s # rs))"
    by (rule Cons.IH) (use Cons.prems in auto)
  have "key_below (rank (key r)) (rank (key x))" if "x \<in> set rs" for x
    using key_below_trans [OF first] rest that by simp
  with first rest show ?case by simp
qed

lemma chain_sorted:
  assumes "chain c ps" "list_all normal (delivered ps)"
  shows "sorted_wrt key_below (map (\<lambda>x. rank (key x)) (delivered ps))"
  using chain_ascending [OF assms(1)] assms(2) ascending_below
  by (cases "delivered ps") auto

lemma chain_distinct:
  assumes "chain c ps" "list_all normal (delivered ps)"
  shows "distinct (map (\<lambda>x. rank (key x)) (delivered ps))"
  by (rule sorted_key_below_distinct [OF chain_sorted [OF assms]])

end

section \<open>Instance pages\<close>

definition list_rank :: "InstanceListCursor \<Rightarrow> int \<times> string" where
  "list_rank cursor = (wall (lc_createdAt cursor), lc_instanceID cursor)"

definition list_before :: "InstanceListCursor \<Rightarrow> InstanceListCursor \<Rightarrow> bool" where
  "list_before cursor k = cursorBefore cursor (lc_createdAt k) (lc_instanceID k)"

lemma list_page_loop_Some:
  "list_page_loop sel c items = Some c' \<Longrightarrow>
     ascending list_before c (map list_key items) \<and>
     list_all (\<lambda>i. record_valid i \<and> instanceSelectionMatches sel i) items \<and> c' = last (c # map list_key items)"
  by (induction items arbitrary: c) (auto simp: list_before_def list_key_def split: if_splits)

lemma NewInstanceListPage_Inr:
  "NewInstanceListPage q items hasMore = Inr page \<Longrightarrow>
     ascending list_before (lq_after q) (map list_key items) \<and>
     list_all (\<lambda>i. record_valid i \<and> instanceSelectionMatches (lq_selection q) i) items \<and>
     lp_nextCursor page = last (lq_after q # map list_key items) \<and> lp_items page = items \<and>
     list_query_Valid q \<and> length items \<le> unat (lq_limit q)"
  by (auto simp: NewInstanceListPage_def dest!: list_page_loop_Some split: if_splits option.splits)

lemma list_before_below:
  assumes "record_valid r" "canonical (ir_createdAt r)" "canonical (ir_createdAt s)"
    "list_before (list_key r) (list_key s)"
  shows "key_below (list_rank (list_key r)) (list_rank (list_key s))"
  using assms
  by (auto simp: list_before_def cursorBefore_def list_key_def list_rank_def key_below_def
      record_valid_def After_wall Equal_wall canonical_def split: if_splits)

interpretation instance_pages: keyset_pages list_before list_key record_valid "\<lambda>r. canonical (ir_createdAt r)"
  NewInstanceListPage lq_after lp_nextCursor list_rank
proof
  fix q rs hasMore p
  assume "NewInstanceListPage q rs hasMore = Inr p"
  from NewInstanceListPage_Inr [OF this]
  show "ascending list_before (lq_after q) (map list_key rs) \<and> list_all record_valid rs \<and>
      lp_nextCursor p = last (lq_after q # map list_key rs)"
    by (auto simp: list_all_iff)
qed (rule list_before_below)

end
