(* ===== verification/Dead_Letter.thy ===== *)
theory Dead_Letter
  imports Administration
begin

text \<open>
  Dead letters (deadletter.go): audited resolutions of poison work with their fingerprint, the
  unresolved records, and the pages of the operator's inspection.
\<close>

section \<open>Resolutions\<close>

datatype DeadLetterResolutionAction = DeadLetterRetry | DeadLetterDiscard | DeadLetterActionInvalid

definition resolution_code :: "DeadLetterResolutionAction \<Rightarrow> nat" where
  "resolution_code action = (case action of
     DeadLetterRetry \<Rightarrow> 1 | DeadLetterDiscard \<Rightarrow> 2 | DeadLetterActionInvalid \<Rightarrow> 0)"

definition resolution_String :: "DeadLetterResolutionAction \<Rightarrow> string" where
  "resolution_String action = (case action of
     DeadLetterRetry \<Rightarrow> ''retry'' | DeadLetterDiscard \<Rightarrow> ''discard'' | DeadLetterActionInvalid \<Rightarrow> '''')"

record DeadLetterResolutionSpec =
  dl_CommandID :: string
  dl_WorkID :: string
  dl_Token :: uint64
  dl_Action :: DeadLetterResolutionAction
  dl_Actor :: string
  dl_Reason :: string
  dl_OccurredAt :: gotime
  dl_RetryAt :: gotime
  dl_Deadline :: gotime

record DeadLetterResolution = DeadLetterResolutionSpec +
  dl_fingerprint :: string

definition resolution_validFields :: "'a DeadLetterResolutionSpec_scheme \<Rightarrow> bool" where
  "resolution_validFields resolution =
     (if \<not> instanceIDPattern (dl_CommandID resolution) \<or> \<not> instanceIDPattern (dl_WorkID resolution) \<or>
         dl_Token resolution = 0 \<or> resolution_String (dl_Action resolution) = [] \<or>
         \<not> instanceIDPattern (dl_Actor resolution) \<or> \<not> stableName (dl_Reason resolution) \<or>
         IsZero (dl_OccurredAt resolution)
      then False
      else if dl_Action resolution = DeadLetterRetry
      then \<not> Before (dl_RetryAt resolution) (dl_OccurredAt resolution) \<and>
           After (dl_Deadline resolution) (dl_RetryAt resolution)
      else IsZero (dl_RetryAt resolution) \<and> IsZero (dl_Deadline resolution))"

definition resolution_json :: "'a DeadLetterResolutionSpec_scheme \<Rightarrow> json option" where
  "resolution_json resolution = j_object [
     (''CommandID'', Some (JStr (dl_CommandID resolution))),
     (''WorkID'', Some (JStr (dl_WorkID resolution))),
     (''Token'', Some (j_uint (dl_Token resolution))),
     (''Action'', Some (JNum (dec_nat (resolution_code (dl_Action resolution))))),
     (''Actor'', Some (JStr (dl_Actor resolution))),
     (''Reason'', Some (JStr (dl_Reason resolution))),
     (''OccurredAt'', j_time (dl_OccurredAt resolution)),
     (''RetryAt'', j_time (dl_RetryAt resolution)),
     (''Deadline'', j_time (dl_Deadline resolution))]"

definition deadLetterResolutionFingerprint :: "'a DeadLetterResolutionSpec_scheme \<Rightarrow> string" where
  "deadLetterResolutionFingerprint resolution = sha256_hex (marshal (resolution_json resolution))"

definition NewDeadLetterResolution :: "DeadLetterResolutionSpec \<Rightarrow> DeadLetterResolution result" where
  "NewDeadLetterResolution spec =
     (let resolution = spec\<lparr>dl_OccurredAt := canonicalTime (dl_OccurredAt spec),
            dl_RetryAt := canonicalTime (dl_RetryAt spec), dl_Deadline := canonicalTime (dl_Deadline spec)\<rparr>
      in if \<not> resolution_validFields resolution then Inl ErrInvalidOperatorCommand
         else Inr (DeadLetterResolutionSpec.extend resolution
                (DeadLetterResolution.fields (deadLetterResolutionFingerprint resolution))))"

definition resolution_Valid :: "DeadLetterResolution \<Rightarrow> bool" where
  "resolution_Valid resolution \<longleftrightarrow> resolution_validFields resolution \<and>
     dl_fingerprint resolution = deadLetterResolutionFingerprint resolution"

section \<open>Records\<close>

record DeadLetterRecord =
  dr_work :: PendingWork
  dr_attempt :: uint32
  dr_token :: uint64
  dr_failureCode :: string
  dr_failedAt :: gotime

definition dead_record_valid :: "DeadLetterRecord \<Rightarrow> bool" where
  "dead_record_valid item \<longleftrightarrow> work_valid (dr_work item) \<and> dr_attempt item > 0 \<and> dr_token item > 0 \<and>
     stableName (dr_failureCode item) \<and> \<not> IsZero (dr_failedAt item)"

definition NewDeadLetterRecord :: "DeadLetterRecord \<Rightarrow> DeadLetterRecord result" where
  "NewDeadLetterRecord spec =
     (let item = spec\<lparr>dr_failedAt := canonicalTime (dr_failedAt spec),
            dr_work := (dr_work spec)\<lparr>pw_payload := cloneBytes (pw_payload (dr_work spec))\<rparr>\<rparr>
      in if \<not> dead_record_valid item then Inl ErrInvalidStoreRequest else Inr item)"

section \<open>Cursors, queries and pages\<close>

definition MaxDeadLetterPageItems :: uint32 where "MaxDeadLetterPageItems = 100"

record DeadLetterCursor =
  dc_failedAt :: gotime
  dc_workID :: string

definition zero_DeadLetterCursor :: DeadLetterCursor where
  "zero_DeadLetterCursor = \<lparr>dc_failedAt = time_zero, dc_workID = []\<rparr>"

definition dead_cursor_valid :: "DeadLetterCursor \<Rightarrow> bool" where
  "dead_cursor_valid cursor \<longleftrightarrow> \<not> IsZero (dc_failedAt cursor) \<and> instanceIDPattern (dc_workID cursor)"

definition NewDeadLetterCursor :: "DeadLetterCursor \<Rightarrow> DeadLetterCursor result" where
  "NewDeadLetterCursor spec =
     (let cursor = spec\<lparr>dc_failedAt := canonicalTime (dc_failedAt spec)\<rparr>
      in if \<not> dead_cursor_valid cursor then Inl ErrInvalidStoreRequest else Inr cursor)"

record DeadLetterQuery =
  dq_after :: DeadLetterCursor
  dq_limit :: uint32

definition dead_query_Valid :: "DeadLetterQuery \<Rightarrow> bool" where
  "dead_query_Valid query \<longleftrightarrow> dq_limit query > 0 \<and> dq_limit query \<le> MaxDeadLetterPageItems \<and>
     (dq_after query = zero_DeadLetterCursor \<or> dead_cursor_valid (dq_after query))"

definition NewDeadLetterQuery :: "DeadLetterQuery \<Rightarrow> DeadLetterQuery result" where
  "NewDeadLetterQuery spec = (if \<not> dead_query_Valid spec then Inl ErrInvalidStoreRequest else Inr spec)"

record DeadLetterPage =
  dp_items :: "DeadLetterRecord list"
  dp_nextCursor :: DeadLetterCursor
  dp_hasMore :: bool

definition deadLetterCursorBefore :: "DeadLetterCursor \<Rightarrow> gotime \<Rightarrow> string \<Rightarrow> bool" where
  "deadLetterCursorBefore cursor failedAt workID =
     (if IsZero (dc_failedAt cursor) then True
      else if After failedAt (dc_failedAt cursor) then True
      else Equal failedAt (dc_failedAt cursor) \<and> workID > dc_workID cursor)"

definition dead_key :: "DeadLetterRecord \<Rightarrow> DeadLetterCursor" where
  "dead_key item = \<lparr>dc_failedAt = dr_failedAt item, dc_workID = pw_id (dr_work item)\<rparr>"

fun dead_page_loop :: "DeadLetterCursor \<Rightarrow> DeadLetterRecord list \<Rightarrow> DeadLetterCursor option" where
  "dead_page_loop previous [] = Some previous"
| "dead_page_loop previous (item # items) =
     (if \<not> dead_record_valid item \<or> \<not> deadLetterCursorBefore previous (dr_failedAt item) (pw_id (dr_work item))
      then None else dead_page_loop (dead_key item) items)"

definition NewDeadLetterPage :: "DeadLetterQuery \<Rightarrow> DeadLetterRecord list \<Rightarrow> bool \<Rightarrow> DeadLetterPage result" where
  "NewDeadLetterPage query items hasMore =
     (if \<not> dead_query_Valid query \<or> length items > unat (dq_limit query) \<or>
         (hasMore \<and> length items \<noteq> unat (dq_limit query))
      then Inl ErrInvalidStoreRequest
      else case dead_page_loop (dq_after query) items of
        None \<Rightarrow> Inl ErrInvalidStoreRequest
      | Some previous \<Rightarrow> Inr \<lparr>dp_items = items, dp_nextCursor = previous, dp_hasMore = hasMore\<rparr>)"

section \<open>Pages ascend\<close>

definition dead_rank :: "DeadLetterCursor \<Rightarrow> int \<times> string" where
  "dead_rank cursor = (wall (dc_failedAt cursor), dc_workID cursor)"

definition dead_before :: "DeadLetterCursor \<Rightarrow> DeadLetterCursor \<Rightarrow> bool" where
  "dead_before cursor k = deadLetterCursorBefore cursor (dc_failedAt k) (dc_workID k)"

lemma dead_page_loop_Some:
  "dead_page_loop c items = Some c' \<Longrightarrow> ascending dead_before c (map dead_key items) \<and>
     list_all dead_record_valid items \<and> c' = last (c # map dead_key items)"
  by (induction items arbitrary: c) (auto simp: dead_before_def dead_key_def split: if_splits)

lemma NewDeadLetterPage_Inr:
  "NewDeadLetterPage q items hasMore = Inr page \<Longrightarrow>
     ascending dead_before (dq_after q) (map dead_key items) \<and> list_all dead_record_valid items \<and>
     dp_nextCursor page = last (dq_after q # map dead_key items) \<and> dp_items page = items \<and>
     dead_query_Valid q \<and> length items \<le> unat (dq_limit q)"
  by (auto simp: NewDeadLetterPage_def dest!: dead_page_loop_Some split: if_splits option.splits)

lemma dead_before_below:
  assumes "dead_record_valid r" "canonical (dr_failedAt r)" "canonical (dr_failedAt s)"
    "dead_before (dead_key r) (dead_key s)"
  shows "key_below (dead_rank (dead_key r)) (dead_rank (dead_key s))"
  using assms
  by (auto simp: dead_before_def deadLetterCursorBefore_def dead_key_def dead_rank_def key_below_def
      dead_record_valid_def After_wall Equal_wall canonical_def split: if_splits)

interpretation dead_pages: keyset_pages dead_before dead_key dead_record_valid "\<lambda>r. canonical (dr_failedAt r)"
  NewDeadLetterPage dq_after dp_nextCursor dead_rank
proof
  fix q rs hasMore p
  assume "NewDeadLetterPage q rs hasMore = Inr p"
  from NewDeadLetterPage_Inr [OF this]
  show "ascending dead_before (dq_after q) (map dead_key rs) \<and> list_all dead_record_valid rs \<and>
      dp_nextCursor p = last (dq_after q # map dead_key rs)"
    by blast
qed (rule dead_before_below)

text \<open>Accepted resolutions carry the digest of their own fields.\<close>

lemma NewDeadLetterResolution_Valid:
  assumes "NewDeadLetterResolution spec = Inr r"
  shows "resolution_Valid r"
  using assms
  by (auto simp: NewDeadLetterResolution_def Let_def resolution_Valid_def resolution_validFields_def
      deadLetterResolutionFingerprint_def resolution_json_def DeadLetterResolutionSpec.defs
      DeadLetterResolution.defs split: if_splits)

end
