(* ===== verification/Database.thy ===== *)
theory Database
  imports Dead_Letter Work "HOL-Library.Product_Lexorder"
begin

text \<open>
  The tables of the workflow schema (postgres/migration.go) and the statements that the store
  prepares in \<open>newStore\<close> (postgres/store.go), each as a function on the tables, with the constraints
  of the schema. A table is the list of its rows in order of insertion.

  PostgreSQL itself is outside the repository. Two of its behaviours are parameters: \<open>pg_stamp\<close>, the
  instant that a \<open>timestamptz\<close> column gives back for an instant written to it (PostgreSQL keeps
  microseconds), and \<open>pg_collation\<close>, the sort key by which it compares text. Transactions are serial:
  the statements of one transaction run without interference, as the row lock on the instance and
  the unique keys make transactions that conflict wait for one another. The checks of a row are
  made before \<open>ON CONFLICT\<close> looks at the keys, foreign keys after the row is in.
\<close>

record PgConfig =
  pg_stamp :: "int \<Rightarrow> int"
  pg_collation :: "string \<Rightarrow> string"

section \<open>Tables\<close>

record InstanceRow =
  ri_instance_id :: string
  ri_definition :: DefinitionReference
  ri_sequence :: int
  ri_created_at :: int
  ri_updated_at :: int
  ri_archived_at :: "int option"

record TransitionRow =
  rt_transition_id :: string
  rt_instance_id :: string
  rt_fingerprint :: string
  rt_expected_sequence :: int
  rt_committed_sequence :: int
  rt_committed_at :: int

record HistoryRow =
  rh_instance_id :: string
  rh_sequence :: int
  rh_kind :: nat
  rh_occurred_at :: int
  rh_definition :: DefinitionReference
  rh_successor_id :: string
  rh_step_name :: string
  rh_attempt :: int
  rh_idempotency_key :: string
  rh_due_at :: "int option"
  rh_code :: string
  rh_retryable :: bool
  rh_data :: bytes

record WorkRow =
  rw_work_id :: string
  rw_kind :: nat
  rw_instance_id :: string
  rw_sequence :: int
  rw_available_at :: int
  rw_deadline :: int
  rw_payload :: bytes
  rw_tenant_id :: string
  rw_correlation_id :: string
  rw_state :: nat
  rw_attempts :: int
  rw_lease_owner :: "string option"
  rw_lease_token :: int
  rw_lease_expires_at :: "int option"
  rw_failure_code :: string
  rw_completed_at :: "int option"

record ResolutionRow =
  rr_command_id :: string
  rr_fingerprint :: string
  rr_work_id :: string
  rr_lease_token :: int
  rr_action :: nat
  rr_actor :: string
  rr_reason :: string
  rr_occurred_at :: int
  rr_retry_at :: "int option"
  rr_deadline :: "int option"

record Tables =
  tb_instances :: "InstanceRow list"
  tb_transitions :: "TransitionRow list"
  tb_history :: "HistoryRow list"
  tb_work :: "WorkRow list"
  tb_resolutions :: "ResolutionRow list"

text \<open>
  A statement that changes rows returns how many, or \<open>None\<close> when a constraint of the schema rejects
  it.
\<close>

type_synonym statement = "Tables \<Rightarrow> (nat \<times> Tables) option"

section \<open>Statements of a commit\<close>

definition findTransition :: "string \<Rightarrow> Tables \<Rightarrow> string option" where
  "findTransition transitionID tb =
     map_option rt_fingerprint (find (\<lambda>r. rt_transition_id r = transitionID) (tb_transitions tb))"

definition lockInstance :: "string \<Rightarrow> Tables \<Rightarrow> InstanceRow option" where
  "lockInstance instanceID tb = find (\<lambda>r. ri_instance_id r = instanceID) (tb_instances tb)"

definition insertInstance :: "InstanceRow \<Rightarrow> statement" where
  "insertInstance row tb =
     (if length (dr_fingerprint (ri_definition row)) \<noteq> 64 \<or> ri_sequence row < 0 then None
      else if lockInstance (ri_instance_id row) tb \<noteq> None then Some (0, tb)
      else Some (1, tb\<lparr>tb_instances := tb_instances tb @ [row]\<rparr>))"

text \<open>\<open>ON CONFLICT DO NOTHING RETURNING fingerprint\<close>: no row comes back when the key exists.\<close>

definition insertTransition :: "TransitionRow \<Rightarrow> Tables \<Rightarrow> (string option \<times> Tables) option" where
  "insertTransition row tb =
     (if length (rt_fingerprint row) \<noteq> 64 \<or> rt_expected_sequence row < 0 \<or>
         \<not> rt_committed_sequence row > rt_expected_sequence row then None
      else if findTransition (rt_transition_id row) tb \<noteq> None then Some (None, tb)
      else if lockInstance (rt_instance_id row) tb = None then None
      else Some (Some (rt_fingerprint row), tb\<lparr>tb_transitions := tb_transitions tb @ [row]\<rparr>))"

definition history_key :: "HistoryRow \<Rightarrow> string \<times> int" where
  "history_key row = (rh_instance_id row, rh_sequence row)"

definition insertHistory :: "HistoryRow \<Rightarrow> statement" where
  "insertHistory row tb =
     (if history_key row \<in> set (map history_key (tb_history tb)) \<or> lockInstance (rh_instance_id row) tb = None \<or>
         \<not> rh_sequence row > 0 \<or> \<not> rh_kind row > 0 \<or> rh_attempt row < 0
      then None
      else Some (1, tb\<lparr>tb_history := tb_history tb @ [row]\<rparr>))"

definition findWork :: "string \<Rightarrow> Tables \<Rightarrow> WorkRow option" where
  "findWork workID tb = find (\<lambda>r. rw_work_id r = workID) (tb_work tb)"

definition insertWork :: "WorkRow \<Rightarrow> statement" where
  "insertWork row tb =
     (if findWork (rw_work_id row) tb \<noteq> None \<or> \<not> rw_kind row > 0 \<or>
         (rw_instance_id row, rw_sequence row) \<notin> set (map history_key (tb_history tb))
      then None
      else Some (1, tb\<lparr>tb_work := tb_work tb @ [row]\<rparr>))"

definition updateInstance ::
  "DefinitionReference \<Rightarrow> int \<Rightarrow> int \<Rightarrow> string \<Rightarrow> int \<Rightarrow> int option \<Rightarrow> statement" where
  "updateInstance definition_ref next_sequence updated_at instanceID expected archived_at tb =
     (let hit = (\<lambda>r. ri_instance_id r = instanceID \<and> ri_sequence r = expected)
      in if filter hit (tb_instances tb) \<noteq> [] \<and>
            (length (dr_fingerprint definition_ref) \<noteq> 64 \<or> next_sequence < 0) then None
         else Some (length (filter hit (tb_instances tb)), tb\<lparr>tb_instances := map (\<lambda>r. if hit r
                 then r\<lparr>ri_definition := definition_ref, ri_sequence := next_sequence, ri_updated_at := updated_at,
                        ri_archived_at := (case ri_archived_at r of None \<Rightarrow> archived_at | Some t \<Rightarrow> Some t)\<rparr>
                 else r) (tb_instances tb)\<rparr>))"

section \<open>Reads\<close>

definition instanceExists :: "string \<Rightarrow> Tables \<Rightarrow> bool" where
  "instanceExists instanceID tb \<longleftrightarrow> list_ex (\<lambda>r. ri_instance_id r = instanceID) (tb_instances tb)"

lemma instanceExists_iff [simp]: "instanceExists instanceID tb \<longleftrightarrow> lockInstance instanceID tb \<noteq> None"
  by (auto simp: instanceExists_def lockInstance_def list_ex_iff find_None_iff)

definition selectHistory :: "string \<Rightarrow> int \<Rightarrow> nat \<Rightarrow> Tables \<Rightarrow> HistoryRow list" where
  "selectHistory instanceID after limit tb =
     take limit (sort_key rh_sequence
       (filter (\<lambda>r. rh_instance_id r = instanceID \<and> rh_sequence r > after) (tb_history tb)))"

definition listInstances ::
  "PgConfig \<Rightarrow> (InstanceRow \<Rightarrow> bool) \<Rightarrow> int option \<Rightarrow> string \<Rightarrow> nat \<Rightarrow> Tables \<Rightarrow> InstanceRow list" where
  "listInstances pg selected after instanceID limit tb =
     (let key = (\<lambda>r. (ri_created_at r, pg_collation pg (ri_instance_id r)))
      in take limit (sort_key key (filter (\<lambda>r. selected r \<and>
           (case after of None \<Rightarrow> True | Some t \<Rightarrow> key r > (t, pg_collation pg instanceID)))
           (tb_instances tb))))"

definition listDeadLetters :: "PgConfig \<Rightarrow> int option \<Rightarrow> string \<Rightarrow> nat \<Rightarrow> Tables \<Rightarrow> WorkRow list" where
  "listDeadLetters pg after workID limit tb =
     (let key = (\<lambda>r. (the (rw_completed_at r), pg_collation pg (rw_work_id r)))
      in take limit (sort_key key (filter (\<lambda>r. rw_state r = 4 \<and> rw_completed_at r \<noteq> None \<and>
           \<not> list_ex (\<lambda>s. rr_work_id s = rw_work_id r \<and> rr_lease_token s = rw_lease_token r) (tb_resolutions tb) \<and>
           (case after of None \<Rightarrow> True | Some t \<Rightarrow> key r > (t, pg_collation pg workID)))
           (tb_work tb))))"

section \<open>Work leases\<close>

definition due :: "int \<Rightarrow> WorkRow \<Rightarrow> bool" where
  "due now r \<longleftrightarrow> ((rw_state r = 1 \<and> rw_available_at r \<le> now) \<or>
       (rw_state r = 2 \<and> (case rw_lease_expires_at r of None \<Rightarrow> False | Some t \<Rightarrow> t \<le> now))) \<and>
     rw_deadline r > now"

text \<open>\<open>row_number() OVER (PARTITION BY tenant_id ORDER BY available_at, work_id)\<close>\<close>

definition work_key :: "PgConfig \<Rightarrow> WorkRow \<Rightarrow> int \<times> string" where
  "work_key pg r = (rw_available_at r, pg_collation pg (rw_work_id r))"

definition tenant_rank :: "PgConfig \<Rightarrow> WorkRow list \<Rightarrow> WorkRow \<Rightarrow> nat" where
  "tenant_rank pg dues r =
     length (filter (\<lambda>s. rw_tenant_id s = rw_tenant_id r \<and> work_key pg s \<le> work_key pg r) dues)"

definition claim_candidates :: "PgConfig \<Rightarrow> int \<Rightarrow> nat \<Rightarrow> Tables \<Rightarrow> WorkRow list" where
  "claim_candidates pg now limit tb =
     (let dues = filter (due now) (tb_work tb)
      in take limit (sort_key (\<lambda>r. (tenant_rank pg dues r, work_key pg r)) dues))"

definition claim_row :: "string \<Rightarrow> int \<Rightarrow> WorkRow \<Rightarrow> WorkRow" where
  "claim_row owner expires r = r\<lparr>rw_state := 2, rw_attempts := rw_attempts r + 1, rw_lease_owner := Some owner,
     rw_lease_token := rw_lease_token r + 1, rw_lease_expires_at := Some (min expires (rw_deadline r))\<rparr>"

text \<open>
  \<open>claimWork\<close>: the claimed rows in order, and the tables with these rows updated. The update is
  rejected when a counter would leave its column type.
\<close>

definition claimWork ::
  "PgConfig \<Rightarrow> int \<Rightarrow> nat \<Rightarrow> string \<Rightarrow> int \<Rightarrow> Tables \<Rightarrow> (WorkRow list \<times> Tables) option" where
  "claimWork pg now limit owner expires tb =
     (let ids = map rw_work_id (claim_candidates pg now limit tb);
          claimed = map (claim_row owner expires) (filter (\<lambda>r. rw_work_id r \<in> set ids) (tb_work tb))
      in if \<exists>r \<in> set claimed. rw_attempts r \<ge> 2 ^ 31 \<or> rw_lease_token r \<ge> 2 ^ 63 then None
         else Some (sort_key (work_key pg) claimed,
                tb\<lparr>tb_work := map (\<lambda>r. if rw_work_id r \<in> set ids then claim_row owner expires r else r) (tb_work tb)\<rparr>))"

text \<open>The fence of the renewal and of the three finishing statements.\<close>

definition fenced :: "string \<Rightarrow> string \<Rightarrow> int \<Rightarrow> int \<Rightarrow> WorkRow \<Rightarrow> bool" where
  "fenced workID owner token now r \<longleftrightarrow> rw_work_id r = workID \<and> rw_state r = 2 \<and>
     rw_lease_owner r = Some owner \<and> rw_lease_token r = token \<and>
     (case rw_lease_expires_at r of None \<Rightarrow> False | Some t \<Rightarrow> t > now)"

definition updateWork :: "(WorkRow \<Rightarrow> bool) \<Rightarrow> (WorkRow \<Rightarrow> WorkRow) \<Rightarrow> statement" where
  "updateWork hit f tb = Some (length (filter hit (tb_work tb)),
     tb\<lparr>tb_work := map (\<lambda>r. if hit r then f r else r) (tb_work tb)\<rparr>)"

definition renewWork :: "string \<Rightarrow> string \<Rightarrow> int \<Rightarrow> int \<Rightarrow> int \<Rightarrow> Tables \<Rightarrow> (WorkRow option \<times> Tables)" where
  "renewWork workID owner token expires now tb =
     (let hit = (\<lambda>r. fenced workID owner token now r \<and> rw_deadline r > now);
          renew = (\<lambda>r. r\<lparr>rw_lease_expires_at := Some (min expires (rw_deadline r))\<rparr>)
      in (map_option renew (find hit (tb_work tb)),
          tb\<lparr>tb_work := map (\<lambda>r. if hit r then renew r else r) (tb_work tb)\<rparr>))"

definition completeWork :: "string \<Rightarrow> string \<Rightarrow> int \<Rightarrow> int \<Rightarrow> statement" where
  "completeWork workID owner token completed_at =
     updateWork (fenced workID owner token completed_at)
       (\<lambda>r. r\<lparr>rw_state := 3, rw_completed_at := Some completed_at, rw_lease_owner := None,
              rw_lease_expires_at := None\<rparr>)"

definition retryWork :: "string \<Rightarrow> string \<Rightarrow> int \<Rightarrow> string \<Rightarrow> int \<Rightarrow> int \<Rightarrow> statement" where
  "retryWork workID owner token code retry_at failed_at =
     updateWork (fenced workID owner token failed_at)
       (\<lambda>r. r\<lparr>rw_state := 1, rw_available_at := retry_at, rw_failure_code := code, rw_lease_owner := None,
              rw_lease_expires_at := None\<rparr>)"

definition deadLetterWork :: "string \<Rightarrow> string \<Rightarrow> int \<Rightarrow> string \<Rightarrow> int \<Rightarrow> statement" where
  "deadLetterWork workID owner token code failed_at =
     updateWork (fenced workID owner token failed_at)
       (\<lambda>r. r\<lparr>rw_state := 4, rw_failure_code := code, rw_completed_at := Some failed_at, rw_lease_owner := None,
              rw_lease_expires_at := None\<rparr>)"

section \<open>Dead letter resolutions\<close>

definition findResolution :: "string \<Rightarrow> Tables \<Rightarrow> string option" where
  "findResolution commandID tb =
     map_option rr_fingerprint (find (\<lambda>r. rr_command_id r = commandID) (tb_resolutions tb))"

definition dead_fence :: "string \<Rightarrow> int \<Rightarrow> WorkRow \<Rightarrow> bool" where
  "dead_fence workID token r \<longleftrightarrow> rw_work_id r = workID \<and> rw_state r = 4 \<and> rw_lease_token r = token"

definition lockDeadLetter :: "string \<Rightarrow> int \<Rightarrow> Tables \<Rightarrow> string option" where
  "lockDeadLetter workID token tb = map_option rw_work_id (find (dead_fence workID token) (tb_work tb))"

definition resolution_row_ok :: "ResolutionRow \<Rightarrow> bool" where
  "resolution_row_ok row \<longleftrightarrow> length (rr_fingerprint row) = 64 \<and> rr_lease_token row > 0 \<and>
     (case (rr_retry_at row, rr_deadline row) of
        (Some r, Some d) \<Rightarrow> rr_action row = 1 \<and> r \<ge> rr_occurred_at row \<and> d > r
      | (None, None) \<Rightarrow> rr_action row = 2
      | _ \<Rightarrow> False)"

definition insertResolution :: "ResolutionRow \<Rightarrow> Tables \<Rightarrow> (string option \<times> Tables) option" where
  "insertResolution row tb =
     (if \<not> resolution_row_ok row then None
      else if list_ex (\<lambda>r. rr_command_id r = rr_command_id row \<or>
           (rr_work_id r = rr_work_id row \<and> rr_lease_token r = rr_lease_token row)) (tb_resolutions tb)
      then Some (None, tb)
      else if findWork (rr_work_id row) tb = None then None
      else Some (Some (rr_fingerprint row), tb\<lparr>tb_resolutions := tb_resolutions tb @ [row]\<rparr>))"

definition retryDeadLetter :: "string \<Rightarrow> int \<Rightarrow> int \<Rightarrow> int \<Rightarrow> statement" where
  "retryDeadLetter workID token retry_at deadline =
     updateWork (dead_fence workID token)
       (\<lambda>r. r\<lparr>rw_state := 1, rw_available_at := retry_at, rw_deadline := deadline, rw_failure_code := [],
              rw_completed_at := None, rw_lease_owner := None, rw_lease_expires_at := None\<rparr>)"

end
