(* ===== verification/Inspection.thy ===== *)
theory Inspection
  imports Store Replay_Invariants
begin

text \<open>
  Bounded inspection and export (inspection.go). \<open>traverseHistory\<close> reads forward pages and hands
  them to a sink; the variables a sink captures are threaded through the loop as \<open>acc\<close>. The loop
  ends because every page moves the cursor strictly forward.
\<close>

definition MaxInspectionHistoryEvents :: uint32 where "MaxInspectionHistoryEvents = 100000"

record InstanceInspectionSpec =
  is_InstanceID :: string
  is_PageSize :: uint32
  is_MaxEvents :: uint32

type_synonym HistoryExportSpec = InstanceInspectionSpec

type_synonym ('w, 'a) sink = "'a \<Rightarrow> 'w ctx \<Rightarrow> HistoryEvent list \<Rightarrow> ('w, 'a result) state"

definition validHistoryTraversal :: "string \<Rightarrow> uint32 \<Rightarrow> uint32 \<Rightarrow> bool" where
  "validHistoryTraversal instanceID pageSize maxEvents =
     (if \<not> instanceIDPattern instanceID then False
      else if pageSize = 0 \<or> unat pageSize > MaxHistoryPageEvents then False
      else maxEvents > 0 \<and> maxEvents \<le> MaxInspectionHistoryEvents)"

definition traversal_query :: "string \<Rightarrow> uint32 \<Rightarrow> uint32 \<Rightarrow> uint64 \<Rightarrow> uint64 \<Rightarrow> HistoryQuery" where
  "traversal_query instanceID pageSize maxEvents after count =
     (let remaining = ucast maxEvents - count;
          limit = ucast (min (ucast pageSize) remaining)
      in value_or zero_HistoryQuery (NewHistoryQuery
           \<lparr>hq_instanceID = instanceID, hq_afterSequence = after, hq_limit = limit\<rparr>))"

lemma state_bind_cong [fundef_cong]:
  "m = m' \<Longrightarrow> (\<And>a. f a = g a) \<Longrightarrow> State_Monad.bind m f = State_Monad.bind m' g"
  by presburger

lemma check_cong [fundef_cong]:
  "m = m' \<Longrightarrow> (\<And>e. h e = h' e) \<Longrightarrow> (\<And>v. f v = g v) \<Longrightarrow> check m h f = check m' h' g"
  by presburger

lemma traversal_query_after: "query_valid (traversal_query n p m after count) \<Longrightarrow>
    hq_afterSequence (traversal_query n p m after count) = after"
  by (auto simp: traversal_query_def Let_def NewHistoryQuery_def query_valid_def zero_HistoryQuery_def
      split: if_splits)

lemma cursor_advances:
  assumes "NewHistoryPage (traversal_query n p m after count) es hasMore = Inr page" "es \<noteq> []"
  shows "unat (hp_nextAfterSequence page) = unat after + length es"
proof -
  have q: "query_valid (traversal_query n p m after count)" "page_events_ok (traversal_query n p m after count) 0 es"
    "hp_nextAfterSequence page = hq_afterSequence (traversal_query n p m after count) + of_nat (length es)"
    using assms(1) by (simp_all add: NewHistoryPage_Inr)
  show ?thesis
    using page_positions [OF q(2), of "length es"] traversal_query_after [OF q(1)] q(3) by simp
qed

function traverse_loop ::
  "'w HistoryReader \<Rightarrow> ('w, 'a) sink \<Rightarrow> 'w ctx \<Rightarrow> string \<Rightarrow> uint32 \<Rightarrow> uint32 \<Rightarrow>
     uint64 \<Rightarrow> uint64 \<Rightarrow> 'a \<Rightarrow> ('w, 'a result) state" where
  "traverse_loop reader sink ctx instanceID pageSize maxEvents after count acc = do {
     c \<leftarrow> ctx;
     case cx_err c of
       Some err \<Rightarrow> fails err
     | None \<Rightarrow>
         (let query = traversal_query instanceID pageSize maxEvents after count
          in check (reader ctx query) fails (\<lambda>page.
               let events = hp_events page
               in case NewHistoryPage query events (hp_hasMore page) of
                    Inl _ \<Rightarrow> fails ErrInvalidStoreRequest
                  | Inr validated \<Rightarrow>
                      if hp_nextAfterSequence validated \<noteq> hp_nextAfterSequence page
                      then fails ErrInvalidStoreRequest
                      else if length events = 0 then gives acc
                      else check (sink acc ctx events) fails (\<lambda>acc'.
                             let count' = count + of_nat (length events);
                                 after' = hp_nextAfterSequence page
                             in if \<not> hp_hasMore page then gives acc'
                                else if count' = ucast maxEvents then fails ErrHistoryLimitExceeded
                                else traverse_loop reader sink ctx instanceID pageSize maxEvents
                                       after' count' acc')))
   }"
  by pat_completeness auto

termination
proof (relation "measure (\<lambda>(reader, sink, ctx, n, p, m, after, count, acc). 2 ^ 64 - unat after)", goal_cases)
  case 1
  then show ?case by simp
next
  case (2 reader sink ctx n p m after count acc c query page events validated acc' count' after')
  have "unat after' = unat after + length events"
    using cursor_advances [of n p m after count events "hp_hasMore page" validated] 2 by simp
  moreover have "unat after' < 2 ^ 64" using unsigned_less [of after', where 'a=nat] by simp
  moreover have "0 < length events" using 2 by simp
  ultimately have "2 ^ 64 - unat after' < 2 ^ 64 - unat after" by linarith
  then show ?case by simp
qed

declare traverse_loop.simps [simp del]

definition traverseHistory ::
  "'w ctx \<Rightarrow> 'w HistoryReader \<Rightarrow> string \<Rightarrow> uint32 \<Rightarrow> uint32 \<Rightarrow> ('w, 'a) sink \<Rightarrow> 'a \<Rightarrow> ('w, 'a result) state" where
  "traverseHistory ctx reader instanceID pageSize maxEvents sink acc =
     traverse_loop reader sink ctx instanceID pageSize maxEvents 0 0 acc"

definition InspectInstance ::
  "'w ctx option \<Rightarrow> 'w HistoryReader option \<Rightarrow> Registry option \<Rightarrow> InstanceInspectionSpec \<Rightarrow>
     ('w, Instance result) state" where
  "InspectInstance ctx reader registry spec = (case ctx of
     None \<Rightarrow> fails ErrInvalidStoreRequest
   | Some c \<Rightarrow> (case reader of
       None \<Rightarrow> fails ErrInvalidStoreRequest
     | Some history \<Rightarrow> (case registry of
         None \<Rightarrow> fails ErrInvalidStoreRequest
       | Some _ \<Rightarrow>
           if \<not> validHistoryTraversal (is_InstanceID spec) (is_PageSize spec) (is_MaxEvents spec)
           then fails ErrInvalidStoreRequest
           else check (traverseHistory c history (is_InstanceID spec) (is_PageSize spec) (is_MaxEvents spec)
                         (\<lambda>events _ page. gives (events @ page)) [])
                  fails (\<lambda>events. State_Monad.return (Replay registry events)))))"

definition ExportHistory ::
  "'w ctx option \<Rightarrow> 'w HistoryReader option \<Rightarrow> HistoryExportSpec \<Rightarrow>
     ('w ctx \<Rightarrow> HistoryEvent list \<Rightarrow> ('w, unit result) state) option \<Rightarrow> ('w, unit result) state" where
  "ExportHistory ctx reader spec sink = (case ctx of
     None \<Rightarrow> fails ErrInvalidStoreRequest
   | Some c \<Rightarrow> (case reader of
       None \<Rightarrow> fails ErrInvalidStoreRequest
     | Some history \<Rightarrow> (case sink of
         None \<Rightarrow> fails ErrInvalidStoreRequest
       | Some deliver \<Rightarrow>
           if \<not> validHistoryTraversal (is_InstanceID spec) (is_PageSize spec) (is_MaxEvents spec)
           then fails ErrInvalidStoreRequest
           else traverseHistory c history (is_InstanceID spec) (is_PageSize spec) (is_MaxEvents spec)
                  (\<lambda>_. deliver) ())))"

section \<open>Readers over a log\<close>

text \<open>
  What a client expects of a \<open>HistoryReader\<close>: a page it returns is the page of the instance's
  durable log after the cursor, and reading leaves the log alone. Reads may fail; a reader is
  available in a world where they do not.
\<close>

definition log_ok :: "string \<Rightarrow> HistoryEvent list \<Rightarrow> bool" where
  "log_ok n es \<longleftrightarrow> list_all historyEventValid es \<and> same_instance n es \<and> contiguous es \<and> length es < 2 ^ 63"

definition page_of :: "HistoryEvent list \<Rightarrow> HistoryQuery \<Rightarrow> HistoryPage" where
  "page_of es q =
     (let events = take (unat (hq_limit q)) (drop (unat (hq_afterSequence q)) es)
      in \<lparr>hp_events = events, hp_nextAfterSequence = hq_afterSequence q + of_nat (length events),
          hp_hasMore = (length es > unat (hq_afterSequence q) + unat (hq_limit q))\<rparr>)"

lemma page_of_simps [simp]:
  "hp_events (page_of es q) = take (unat (hq_limit q)) (drop (unat (hq_afterSequence q)) es)"
  "hp_hasMore (page_of es q) \<longleftrightarrow> length es > unat (hq_afterSequence q) + unat (hq_limit q)"
  by (simp_all add: page_of_def Let_def)

lemma page_of_accepted:
  assumes "query_valid q" "log_ok (hq_instanceID q) es"
  shows "NewHistoryPage q (hp_events (page_of es q)) (hp_hasMore (page_of es q)) = Inr (page_of es q)"
proof -
  let ?a = "unat (hq_afterSequence q)" and ?es = "take (unat (hq_limit q)) (drop (unat (hq_afterSequence q)) es)"
  have ev: "ev_sequence (es ! (?a + k)) = hq_afterSequence q + of_nat k + 1" if "?a + k < length es" for k
  proof -
    have "unat (ev_sequence (es ! (?a + k))) = Suc (?a + k)"
      using assms(2) that by (simp add: log_ok_def contiguous_def)
    then have "of_nat (unat (ev_sequence (es ! (?a + k)))) = (of_nat (Suc (?a + k)) :: uint64)" by simp
    then show ?thesis by (simp add: ac_simps)
  qed
  have "page_events_ok q 0 ?es"
    unfolding page_events_ok_def
    using assms(2) ev by (auto simp: log_ok_def list_all_length same_instance_def min_def split: if_splits)
  then show ?thesis
    using assms(1) by (auto simp: NewHistoryPage_Inr page_of_def Let_def)
qed

lemma take_then_drop:
  assumes "ps = take l (drop a es)"
  shows "ps @ drop (a + length ps) es = drop a es"
proof -
  have "ps = take (length ps) (drop a es)" using assms by (simp add: min_def)
  then show ?thesis by (metis append_take_drop_id add.commute drop_drop)
qed

lemma unat_limit:
  assumes "unat count < unat maxEvents"
  shows "unat (ucast (min (ucast pageSize) (ucast maxEvents - count :: uint64)) :: uint32) =
    min (unat (pageSize :: uint32)) (unat (maxEvents :: uint32) - unat count)"
proof -
  have m: "unat maxEvents < 2 ^ 32" "unat pageSize < 2 ^ 32"
    using unsigned_less [of maxEvents, where 'a=nat] unsigned_less [of pageSize, where 'a=nat] by simp_all
  have u: "unat (ucast maxEvents :: uint64) = unat maxEvents" "unat (ucast pageSize :: uint64) = unat pageSize"
    by (simp_all add: unsigned_ucast_eq take_bit_nat_eq_self_iff order.strict_trans [OF m(1)] order.strict_trans [OF m(2)])
  have "count \<le> ucast maxEvents" using assms u by (simp add: word_le_unat)
  then have d: "unat (ucast maxEvents - count) = unat maxEvents - unat count"
    using u by (simp add: unat_sub)
  have "unat (min (ucast pageSize) (ucast maxEvents - count :: uint64)) =
      min (unat pageSize) (unat maxEvents - unat count)"
    using u d by (simp add: min_def word_le_unat)
  then show ?thesis using m
    by (simp add: unsigned_ucast_eq take_bit_nat_eq_self_iff)
qed

lemma count_advances:
  assumes "unat count < unat (m :: uint32)" "l \<le> unat m - unat count"
  shows "unat (count + of_nat l :: uint64) = unat count + l"
    "count + of_nat l = ucast m \<longleftrightarrow> unat count + l = unat m"
proof -
  have m: "unat m < 2 ^ 32" using unsigned_less [of m, where 'a=nat] by simp
  have l: "unat (of_nat l :: uint64) = l"
    using assms m by (simp add: unat_of_nat)
  have u: "unat (ucast m :: uint64) = unat m"
    by (simp add: unsigned_ucast_eq take_bit_nat_eq_self_iff order.strict_trans [OF m])
  show c: "unat (count + of_nat l :: uint64) = unat count + l"
    using assms m l by (simp add: unat_word_ariths)
  show "count + of_nat l = ucast m \<longleftrightarrow> unat count + l = unat m"
    using c u by (metis unsigned_word_eqI)
qed

locale log_reader =
  fixes reader :: "'w HistoryReader" and ctx_ok :: "'w ctx \<Rightarrow> bool" and inv :: "'w \<Rightarrow> bool"
    and log :: "'w \<Rightarrow> string \<Rightarrow> HistoryEvent list"
  assumes reader_law: "ctx_ok ctx \<Longrightarrow> inv w \<Longrightarrow> query_valid q \<Longrightarrow> run_state (reader ctx q) w = (Inr page, w') \<Longrightarrow>
      inv w' \<and> log w' = log w \<and> page = page_of (log w (hq_instanceID q)) q"
    and ctx_law: "ctx_ok ctx \<Longrightarrow> inv w \<Longrightarrow> run_state ctx w = (c, w') \<Longrightarrow> inv w' \<and> log w' = log w"
begin

lemma traverse_sound:
  assumes "run_state (traverse_loop reader (\<lambda>events _ page. gives (events @ page)) ctx n p m after count acc) w =
      (Inr r, w')" "inv w" "log w n = es" "unat after \<le> length es" and ok: "ctx_ok ctx"
  shows "r = acc @ drop (unat after) es \<and> log w' = log w \<and> inv w'"
  using assms(1-4)
proof (induction "length es - unat after" arbitrary: after count acc w rule: less_induct)
  case less
  let ?q = "traversal_query n p m after count"
  obtain c w1 where c: "run_state ctx w = (c, w1)" by fastforce
  have w1: "inv w1" "log w1 = log w" using ctx_law [OF ok less.prems(2) c] by simp_all
  obtain page w2 where p: "run_state (reader ctx ?q) w1 = (Inr page, w2)"
    using less.prems(1) c
    by (subst (asm) traverse_loop.simps)
      (auto simp: Let_def run_check split: option.splits sum.splits prod.splits)
  obtain validated where v: "NewHistoryPage ?q (hp_events page) (hp_hasMore page) = Inr validated"
      "hp_nextAfterSequence validated = hp_nextAfterSequence page"
    using less.prems(1) c p
    by (subst (asm) traverse_loop.simps)
      (auto simp: Let_def run_check split: option.splits sum.splits if_splits)
  have q: "query_valid ?q" using v(1) by (simp add: NewHistoryPage_Inr)
  then have qf: "hq_instanceID ?q = n" "hq_afterSequence ?q = after" "hq_limit ?q > 0"
    by (auto simp: traversal_query_def Let_def NewHistoryQuery_def query_valid_def zero_HistoryQuery_def
        split: if_splits)
  have page: "inv w2" "log w2 = log w" "page = page_of es ?q"
    using reader_law [OF ok w1(1) q p] w1(2) less.prems(3) qf(1) by simp_all
  have events: "hp_events page = take (unat (hq_limit ?q)) (drop (unat after) es)"
    by (simp add: page(3) qf(2))
  show ?case
  proof (cases "hp_hasMore page \<and> hp_events page \<noteq> []")
    case False
    have "r = acc @ hp_events page \<and> w' = w2"
      using less.prems(1) c p v False
      by (subst (asm) traverse_loop.simps) (auto simp: Let_def run_check split: option.splits if_splits)
    moreover have "hp_events page = drop (unat after) es"
      using False less.prems(4) events qf by (auto simp: page(3) word_less_unat not_less)
    ultimately show ?thesis using page by simp
  next
    case True
    let ?k = "length (hp_events page)"
    have rec: "run_state (traverse_loop reader (\<lambda>events _ page. gives (events @ page)) ctx n p m
        (hp_nextAfterSequence page) (count + of_nat ?k) (acc @ hp_events page)) w2 = (Inr r, w')"
      using less.prems(1) c p v True
      by (subst (asm) traverse_loop.simps) (auto simp: Let_def run_check split: option.splits if_splits)
    have a: "unat (hp_nextAfterSequence page) = unat after + ?k"
      using cursor_advances [OF v(1)] v(2) True by simp
    have k: "0 < ?k" "unat after + ?k \<le> length es" using True less.prems(4) events by auto
    have closer: "length es - unat (hp_nextAfterSequence page) < length es - unat after" using a k by linarith
    have "r = (acc @ hp_events page) @ drop (unat (hp_nextAfterSequence page)) es \<and> log w' = log w2 \<and> inv w'"
      by (rule less.hyps [OF closer rec page(1)]) (use a k page(2) less.prems(3) in simp_all)
    moreover have "hp_events page @ drop (unat after + ?k) es = drop (unat after) es"
      by (rule take_then_drop [OF events])
    ultimately show ?thesis using a page(2) by simp
  qed
qed

lemma inspect_sound:
  assumes "run_state (InspectInstance (Some ctx) (Some reader) registry spec) w = (Inr i, w')" "inv w"
    "ctx_ok ctx"
  shows "Replay registry (log w (is_InstanceID spec)) = Inr i \<and> log w' = log w \<and> inv w'"
proof -
  obtain es where t: "run_state (traverse_loop reader (\<lambda>events _ page. gives (events @ page)) ctx (is_InstanceID spec)
      (is_PageSize spec) (is_MaxEvents spec) 0 0 []) w = (Inr es, w')" "Replay registry es = Inr i"
    using assms(1)
    by (auto simp: InspectInstance_def traverseHistory_def run_check split: option.splits if_splits prod.splits sum.splits)
  show ?thesis using traverse_sound [OF t(1) assms(2) refl _ assms(3)] t(2) by simp
qed

end

text \<open>
  A reader that answers every query in the worlds it is available in, under a context that is not
  cancelled there.
\<close>

locale available_reader = log_reader +
  fixes available :: "'a \<Rightarrow> bool" and ctx_open :: "'a ctx \<Rightarrow> bool"
  assumes answer_law: "ctx_open ctx \<Longrightarrow> inv w \<Longrightarrow> available w \<Longrightarrow> query_valid q \<Longrightarrow>
      unat (hq_afterSequence q) \<le> length (log w (hq_instanceID q)) \<Longrightarrow> log w (hq_instanceID q) \<noteq> [] \<Longrightarrow>
      \<exists>page w'. run_state (reader ctx q) w = (Inr page, w') \<and> available w'"
    and open_law: "ctx_open ctx \<Longrightarrow> inv w \<Longrightarrow> available w \<Longrightarrow> \<exists>c w'. run_state ctx w = (c, w') \<and> cx_err c = None \<and> available w'"
    and open_ok: "ctx_open ctx \<Longrightarrow> ctx_ok ctx"
    and inv_log: "inv w \<Longrightarrow> log_ok n (log w n)"
begin

lemma traverse_complete:
  assumes "inv w" "available w" "log w n = es" "es \<noteq> []" "validHistoryTraversal n p m"
    "unat after = unat count" "unat count < unat m" "unat after \<le> length es" and op: "ctx_open ctx"
  shows "\<exists>w'. run_state (traverse_loop reader (\<lambda>events _ page. gives (events @ page)) ctx n p m after count acc) w =
     (if length es \<le> unat m then Inr (acc @ drop (unat after) es) else Inl ErrHistoryLimitExceeded, w')"
  using assms(1-8)
proof (induction "length es - unat after" arbitrary: after count acc w rule: less_induct)
  case less
  note ok = open_ok [OF op]
  let ?q = "traversal_query n p m after count" and ?l = "min (unat p) (unat m - unat count)"
  have es: "log_ok n es" using inv_log less.prems(1,3) by blast
  have ne: "after \<noteq> NOT 0"
  proof
    assume "after = NOT 0"
    then have "unat after = 2 ^ 64 - 1" by (simp add: unsigned_minus_1_eq_mask mask_eq_exp_minus_1)
    then show False using less.prems(8) es by (simp add: log_ok_def)
  qed
  have p: "0 < ?l" "?l \<le> MaxHistoryPageEvents" "instanceIDPattern n"
    using less.prems(5,7) by (auto simp: validHistoryTraversal_def unat_gt_0 split: if_splits)
  have q: "?q = \<lparr>hq_instanceID = n, hq_afterSequence = after,
      hq_limit = ucast (min (ucast p) (ucast m - count))\<rparr>" "query_valid ?q"
    using p ne unat_limit [OF less.prems(7), of p]
    by (auto simp: traversal_query_def Let_def NewHistoryQuery_def query_valid_def word_less_unat)
  have lim: "unat (hq_limit ?q) = ?l" using q(1) unat_limit [OF less.prems(7)] by simp
  have qf: "hq_instanceID ?q = n" "hq_afterSequence ?q = after" using q(1) by simp_all
  obtain c w1 where c: "run_state ctx w = (c, w1)" "cx_err c = None" "available w1"
    using open_law [OF op] less.prems(1,2) by blast
  have w1: "inv w1" "log w1 = log w" using ctx_law [OF ok less.prems(1) c(1)] by simp_all
  obtain page w2 where r: "run_state (reader ctx ?q) w1 = (Inr page, w2)" "available w2"
    using answer_law [OF op w1(1) c(3) q(2)] less.prems(3,4,8) w1(2) qf by auto
  have page: "inv w2" "log w2 = log w" "page = page_of es ?q"
    using reader_law [OF ok w1(1) q(2) r(1)] w1(2) less.prems(3) qf(1) by simp_all
  have v: "NewHistoryPage ?q (hp_events page) (hp_hasMore page) = Inr page"
    using page_of_accepted [OF q(2)] es qf(1) page(3) by simp
  have events: "hp_events page = take ?l (drop (unat after) es)"
    and more: "hp_hasMore page \<longleftrightarrow> length es > unat after + ?l"
    by (simp_all add: page(3) qf(2) lim)
  let ?k = "length (hp_events page)" and ?sink = "\<lambda>events _ page. gives (events @ page)"
  have step: "run_state (traverse_loop reader ?sink ctx n p m after count acc) w =
      run_state (if hp_events page = [] then gives acc
        else if \<not> hp_hasMore page then gives (acc @ hp_events page)
        else if count + of_nat ?k = ucast m then fails ErrHistoryLimitExceeded
        else traverse_loop reader ?sink ctx n p m (hp_nextAfterSequence page) (count + of_nat ?k)
               (acc @ hp_events page)) w2"
    by (subst traverse_loop.simps) (simp add: c r v Let_def run_check)
  show ?case
  proof (cases "hp_hasMore page")
    case False
    then have all: "hp_events page = drop (unat after) es" "length es \<le> unat m"
      using more events less.prems(6,7) by auto
    show ?thesis unfolding step using False all by auto
  next
    case True
    then have k: "?k = ?l" "hp_events page \<noteq> []" using more events p(1) by auto
    have a: "unat (hp_nextAfterSequence page) = unat after + ?k"
      using cursor_advances [OF v] k(2) by simp
    have count: "unat (count + of_nat ?k) = unat count + ?l"
      "count + of_nat ?k = ucast m \<longleftrightarrow> unat count + ?l = unat m"
      using count_advances [of count m ?l] less.prems(7) k(1) by simp_all
    show ?thesis
    proof (cases "unat count + ?l = unat m")
      case stop: True
      have "length es > unat m" using True more less.prems(6) stop by simp
      then show ?thesis using stop count k(2) True unfolding step by simp
    next
      case go: False
      have closer: "length es - unat (hp_nextAfterSequence page) < length es - unat after"
        using a k p(1) True more by linarith
      have "\<exists>w'. run_state (traverse_loop reader (\<lambda>events _ page. gives (events @ page)) ctx n p m
          (hp_nextAfterSequence page) (count + of_nat ?k) (acc @ hp_events page)) w2 =
          (if length es \<le> unat m then Inr ((acc @ hp_events page) @ drop (unat (hp_nextAfterSequence page)) es)
           else Inl ErrHistoryLimitExceeded, w')"
        by (rule less.hyps [OF closer page(1) r(2)])
          (use less.prems page(2) a k count go True more in auto)
      moreover have "(acc @ hp_events page) @ drop (unat (hp_nextAfterSequence page)) es = acc @ drop (unat after) es"
        using take_then_drop [OF events] a by simp
      ultimately show ?thesis using go count k(2) True unfolding step by (auto split: if_splits)
    qed
  qed
qed

text \<open>Inspecting an instance replays its whole log, or reports that the log is too long.\<close>

lemma inspect_available:
  assumes "inv w" "available w" "log w n \<noteq> []" "validHistoryTraversal n p m" "ctx_open ctx"
  shows "\<exists>w'. run_state (InspectInstance (Some ctx) (Some reader) (Some r)
      \<lparr>is_InstanceID = n, is_PageSize = p, is_MaxEvents = m\<rparr>) w =
      (if length (log w n) \<le> unat m then Replay (Some r) (log w n) else Inl ErrHistoryLimitExceeded, w')"
proof -
  have "0 < unat m" using assms(4) by (auto simp: validHistoryTraversal_def word_less_unat split: if_splits)
  then obtain w' where "run_state (traverse_loop reader (\<lambda>events _ page. gives (events @ page)) ctx n p m 0 0 []) w =
      (if length (log w n) \<le> unat m then Inr (log w n) else Inl ErrHistoryLimitExceeded, w')"
    using traverse_complete [OF assms(1,2) refl assms(3,4), of 0 0 ctx "[]"] assms(5) by auto
  then show ?thesis
    using assms(4) by (auto simp: InspectInstance_def traverseHistory_def run_check)
qed

end

end
