(* ===== verification/Postgres_Store.thy ===== *)
theory Postgres_Store
  imports Database Inspection
begin

text \<open>
  The PostgreSQL store (postgres/store.go) over the tables of \<open>Database\<close>. The world is the database:
  its committed tables, the tables as the open transaction sees them, and how the next calls of the
  driver will end. A call can fail before it has an effect, and a call that commits can also lose
  its acknowledgement after the effect.
\<close>

section \<open>The driver\<close>

datatype fault = Fine | Fault string | LostAck string

record Db =
  db_tables :: Tables
  db_tx :: "Tables option"
  db_faults :: "fault list"

definition next_fault :: "(Db, fault) state" where
  "next_fault = State (\<lambda>db. case db_faults db of
     [] \<Rightarrow> (Fine, db) | f # fs \<Rightarrow> (f, db\<lparr>db_faults := fs\<rparr>))"

text \<open>\<open>Begin\<close> of the pool, and \<open>QueryRow\<close>, \<open>Exec\<close>, \<open>Commit\<close> and \<open>Rollback\<close> of a transaction.\<close>

definition Begin :: "(Db, unit result) state" where
  "Begin = do {
     f \<leftarrow> next_fault;
     case f of
       Fine \<Rightarrow> State (\<lambda>db. (Inr (), db\<lparr>db_tx := Some (db_tables db)\<rparr>))
     | Fault e \<Rightarrow> fails (ForeignError e)
     | LostAck e \<Rightarrow> fails (ForeignError e)
   }"

definition tx_view :: "Db \<Rightarrow> Tables" where
  "tx_view db = (case db_tx db of None \<Rightarrow> db_tables db | Some tb \<Rightarrow> tb)"

definition tx_QueryRow :: "(Tables \<Rightarrow> 'a option) \<Rightarrow> (Db, 'a option result) state" where
  "tx_QueryRow query = do {
     f \<leftarrow> next_fault;
     case f of
       Fine \<Rightarrow> State (\<lambda>db. (Inr (query (tx_view db)), db))
     | Fault e \<Rightarrow> fails (ForeignError e)
     | LostAck e \<Rightarrow> fails (ForeignError e)
   }"

definition tx_change :: "(Tables \<Rightarrow> ('a \<times> Tables) option) \<Rightarrow> (Db, 'a result) state" where
  "tx_change stmt = do {
     f \<leftarrow> next_fault;
     case f of
       Fine \<Rightarrow> State (\<lambda>db. case stmt (tx_view db) of
           None \<Rightarrow> (Inl (ForeignError ''constraint violation''), db)
         | Some (n, tb) \<Rightarrow> (Inr n, db\<lparr>db_tx := Some tb\<rparr>))
     | Fault e \<Rightarrow> fails (ForeignError e)
     | LostAck e \<Rightarrow> fails (ForeignError e)
   }"

abbreviation tx_Exec :: "statement \<Rightarrow> (Db, nat result) state" where
  "tx_Exec \<equiv> tx_change"

definition tx_Commit :: "(Db, unit result) state" where
  "tx_Commit = do {
     f \<leftarrow> next_fault;
     case f of
       Fine \<Rightarrow> State (\<lambda>db. (Inr (), db\<lparr>db_tables := tx_view db, db_tx := None\<rparr>))
     | Fault e \<Rightarrow> State (\<lambda>db. (Inl (ForeignError e), db\<lparr>db_tx := None\<rparr>))
     | LostAck e \<Rightarrow> State (\<lambda>db. (Inl (ForeignError e), db\<lparr>db_tables := tx_view db, db_tx := None\<rparr>))
   }"

definition rollback :: "(Db, unit) state" where
  "rollback = State (\<lambda>db. ((), db\<lparr>db_tx := None\<rparr>))"

text \<open>\<open>Query\<close> and \<open>QueryRow\<close> of the pool: one statement in a transaction of its own.\<close>

definition db_Query :: "(Tables \<Rightarrow> 'a) \<Rightarrow> (Db, 'a result) state" where
  "db_Query query = do {
     f \<leftarrow> next_fault;
     case f of
       Fine \<Rightarrow> State (\<lambda>db. (Inr (query (db_tables db)), db))
     | Fault e \<Rightarrow> fails (ForeignError e)
     | LostAck e \<Rightarrow> fails (ForeignError e)
   }"

definition db_change :: "(Tables \<Rightarrow> ('a \<times> Tables) option) \<Rightarrow> (Db, 'a result) state" where
  "db_change stmt = do {
     f \<leftarrow> next_fault;
     case f of
       Fine \<Rightarrow> State (\<lambda>db. case stmt (db_tables db) of
           None \<Rightarrow> (Inl (ForeignError ''constraint violation''), db)
         | Some (a, tb) \<Rightarrow> (Inr a, db\<lparr>db_tables := tb\<rparr>))
     | Fault e \<Rightarrow> fails (ForeignError e)
     | LostAck e \<Rightarrow> State (\<lambda>db. case stmt (db_tables db) of
           None \<Rightarrow> (Inl (ForeignError ''constraint violation''), db)
         | Some (a, tb) \<Rightarrow> (Inl (ForeignError e), db\<lparr>db_tables := tb\<rparr>))
   }"

section \<open>Arguments and rows\<close>

definition maxPostgreSQLSequence :: nat where "maxPostgreSQLSequence = 9223372036854775807"

definition notCommitted :: "go_error \<Rightarrow> go_error" where
  "notCommitted cause = NewStoreCommitError StoreCommitNotCommitted (Some cause)"

definition newOperationError :: "string \<Rightarrow> go_error \<Rightarrow> go_error" where
  "newOperationError operation cause = OperationError operation cause"

definition stamped :: "PgConfig \<Rightarrow> gotime \<Rightarrow> int" where
  "stamped pg t = pg_stamp pg (wall t)"

definition nullableTime :: "PgConfig \<Rightarrow> gotime \<Rightarrow> int option" where
  "nullableTime pg value = (if IsZero value then None else Some (stamped pg value))"

definition historyArguments :: "PgConfig \<Rightarrow> HistoryEvent \<Rightarrow> HistoryRow" where
  "historyArguments pg event =
     \<lparr>rh_instance_id = ev_instanceID event, rh_sequence = uint (ev_sequence event),
      rh_kind = kind_code (ev_kind event), rh_occurred_at = stamped pg (ev_occurredAt event),
      rh_definition = ev_definition event, rh_successor_id = ev_successorID event,
      rh_step_name = ev_stepName event, rh_attempt = uint (ev_attempt event),
      rh_idempotency_key = ev_idempotencyKey event, rh_due_at = nullableTime pg (ev_dueAt event),
      rh_code = ev_code event, rh_retryable = ev_retryable event, rh_data = ev_data event\<rparr>"

definition workArguments :: "PgConfig \<Rightarrow> PendingWork \<Rightarrow> WorkRow" where
  "workArguments pg work =
     \<lparr>rw_work_id = pw_id work, rw_kind = work_code (pw_kind work), rw_instance_id = pw_instanceID work,
      rw_sequence = uint (pw_sequence work), rw_available_at = stamped pg (pw_availableAt work),
      rw_deadline = stamped pg (pw_deadline work), rw_payload = pw_payload work,
      rw_tenant_id = pw_tenantID work, rw_correlation_id = pw_correlationID work,
      rw_state = 1, rw_attempts = 0, rw_lease_owner = None, rw_lease_token = 0,
      rw_lease_expires_at = None, rw_failure_code = [], rw_completed_at = None\<rparr>"

text \<open>\<open>workflow.EventKind(kind)\<close> and \<open>workflow.WorkKind(kind)\<close> of a column in range.\<close>

definition event_kinds :: "EventKind list" where
  "event_kinds = [EventInstanceStarted, EventInstancePaused, EventInstanceResumed, EventCancellationRequested,
     EventInstanceCancelled, EventInstanceCompleted, EventInstanceFailed, EventInstanceTerminated,
     EventDefinitionMigrated, EventContinuedAsNew, EventActivityScheduled, EventActivityAttemptStarted,
     EventActivityAttemptSucceeded, EventActivityAttemptFailed, EventActivityAttemptUnknown,
     EventActivityRetryScheduled, EventTimerScheduled, EventTimerFired, EventSignalReceived,
     EventCompensationScheduled, EventCompensationAttemptStarted, EventCompensationAttemptSucceeded,
     EventCompensationAttemptFailed, EventCompensationAttemptUnknown, EventCompensationRetryScheduled,
     EventCompensationManuallyResolved, EventOperatorCommandRecorded, EventRaceWon, EventChildScheduled,
     EventChildCompleted, EventChildFailed, EventChildStartAttempted, EventChildStarted, EventChildStartFailed,
     EventChildStartUnknown, EventChildStartRetryScheduled]"

definition event_kind_of :: "nat \<Rightarrow> EventKind" where
  "event_kind_of code = (case find (\<lambda>k. kind_code k = code) event_kinds of
     Some k \<Rightarrow> k | None \<Rightarrow> EventKindInvalid)"

definition work_kind_of :: "nat \<Rightarrow> WorkKind" where
  "work_kind_of code = (case find (\<lambda>k. work_code k = code)
      [WorkActivity, WorkTimer, WorkChild, WorkPublication, WorkReconciliation, WorkCompensation] of
     Some k \<Rightarrow> k | None \<Rightarrow> WorkKindInvalid)"

definition scanHistoryEvent :: "string \<Rightarrow> HistoryRow \<Rightarrow> HistoryEvent result" where
  "scanHistoryEvent instanceID row =
     (if rh_sequence row < 1 \<or> rh_attempt row < 0 \<or> rh_attempt row > 2 ^ 32 - 1 \<or>
         rh_kind row < kind_code EventInstanceStarted \<or> rh_kind row > kind_code EventChildStartRetryScheduled
      then Inl ErrCorruptStore
      else
        let reference = rh_definition row;
            spec = zero_HistoryEventSpec\<lparr>hs_Sequence := of_int (rh_sequence row), hs_InstanceID := instanceID,
              hs_Kind := event_kind_of (rh_kind row), hs_OccurredAt := utc (rh_occurred_at row),
              hs_SuccessorID := rh_successor_id row, hs_StepName := rh_step_name row,
              hs_Attempt := of_int (rh_attempt row), hs_IdempotencyKey := rh_idempotency_key row,
              hs_Code := rh_code row, hs_Retryable := rh_retryable row, hs_Data := rh_data row,
              hs_DueAt := (case rh_due_at row of None \<Rightarrow> time_zero | Some t \<Rightarrow> utc t)\<rparr>
        in if reference = zero_DefinitionReference
           then (case NewHistoryEvent spec of
                   Inl e \<Rightarrow> Inl (JoinedError ErrCorruptStore e) | Inr event \<Rightarrow> Inr event)
           else case NewDefinitionReference (dr_name reference) (dr_version reference) (dr_fingerprint reference) of
             Inl e \<Rightarrow> Inl (JoinedError ErrCorruptStore e)
           | Inr definition_ref \<Rightarrow>
               (case NewHistoryEvent (spec\<lparr>hs_Definition := definition_ref\<rparr>) of
                  Inl e \<Rightarrow> Inl (JoinedError ErrCorruptStore e) | Inr event \<Rightarrow> Inr event))"

definition scanInstanceRecord :: "InstanceRow \<Rightarrow> InstanceRecord result" where
  "scanInstanceRecord row =
     (if ri_sequence row < 1 then Inl ErrCorruptStore
      else case NewDefinitionReference (dr_name (ri_definition row)) (dr_version (ri_definition row))
                  (dr_fingerprint (ri_definition row)) of
        Inl e \<Rightarrow> Inl (JoinedError ErrCorruptStore e)
      | Inr reference \<Rightarrow>
          (case NewInstanceRecord \<lparr>ir_instanceID = ri_instance_id row, ir_definition = reference,
                   ir_sequence = of_int (ri_sequence row), ir_createdAt = utc (ri_created_at row),
                   ir_updatedAt = utc (ri_updated_at row),
                   ir_archivedAt = (case ri_archived_at row of None \<Rightarrow> time_zero | Some t \<Rightarrow> utc t)\<rparr> of
             Inl e \<Rightarrow> Inl (JoinedError ErrCorruptStore e)
           | Inr item \<Rightarrow> Inr item))"

definition row_work_spec :: "WorkRow \<Rightarrow> PendingWorkSpec" where
  "row_work_spec row =
     \<lparr>ws_ID = rw_work_id row, ws_Kind = work_kind_of (rw_kind row), ws_InstanceID = rw_instance_id row,
      ws_Sequence = of_int (rw_sequence row), ws_AvailableAt = utc (rw_available_at row),
      ws_Deadline = utc (rw_deadline row), ws_Payload = rw_payload row, ws_TenantID = rw_tenant_id row,
      ws_CorrelationID = rw_correlation_id row\<rparr>"

definition work_row_sane :: "WorkRow \<Rightarrow> bool" where
  "work_row_sane row \<longleftrightarrow> \<not> (rw_kind row < work_code WorkActivity \<or> rw_kind row > work_code WorkCompensation \<or>
     rw_sequence row < 1 \<or> rw_attempts row < 1 \<or> rw_attempts row > 2 ^ 32 - 1 \<or> rw_lease_token row < 1)"

definition scanWorkLease :: "WorkRow \<Rightarrow> string \<Rightarrow> gotime \<Rightarrow> WorkLease result" where
  "scanWorkLease row owner claimedAt = (case rw_lease_expires_at row of
     None \<Rightarrow> Inl (ForeignError ''cannot scan NULL into time.Time'')
   | Some expires \<Rightarrow>
       if \<not> work_row_sane row then Inl ErrCorruptStore
       else case NewPendingWork (row_work_spec row) of
         Inl e \<Rightarrow> Inl (JoinedError ErrCorruptStore e)
       | Inr work \<Rightarrow>
           (case NewWorkLease \<lparr>wl_work = work, wl_owner = owner, wl_token = of_int (rw_lease_token row),
                    wl_attempt = of_int (rw_attempts row), wl_claimedAt = claimedAt,
                    wl_expiresAt = utc expires\<rparr> of
              Inl e \<Rightarrow> Inl (JoinedError ErrCorruptStore e)
            | Inr lease \<Rightarrow> Inr lease))"

definition scanDeadLetterRecord :: "WorkRow \<Rightarrow> DeadLetterRecord result" where
  "scanDeadLetterRecord row = (case rw_completed_at row of
     None \<Rightarrow> Inl (ForeignError ''cannot scan NULL into time.Time'')
   | Some failed \<Rightarrow>
       if \<not> work_row_sane row then Inl ErrCorruptStore
       else case NewPendingWork (row_work_spec row) of
         Inl e \<Rightarrow> Inl (JoinedError ErrCorruptStore e)
       | Inr work \<Rightarrow>
           (case NewDeadLetterRecord \<lparr>dr_work = work, dr_attempt = of_int (rw_attempts row),
                    dr_token = of_int (rw_lease_token row), dr_failureCode = rw_failure_code row,
                    dr_failedAt = utc failed\<rparr> of
              Inl e \<Rightarrow> Inl (JoinedError ErrCorruptStore e)
            | Inr item \<Rightarrow> Inr item))"

text \<open>The \<open>rows.Next()\<close> loop: the scanned rows, or the error of the first row that does not scan.\<close>

fun scan_rows :: "('r \<Rightarrow> 'a result) \<Rightarrow> 'r list \<Rightarrow> 'a list result" where
  "scan_rows scan [] = Inr []"
| "scan_rows scan (row # rows) = (case scan row of
     Inl e \<Rightarrow> Inl e
   | Inr item \<Rightarrow> (case scan_rows scan rows of Inl e \<Rightarrow> Inl e | Inr items \<Rightarrow> Inr (item # items)))"

definition rows_Err :: "(Db, unit result) state" where
  "rows_Err = do {
     f \<leftarrow> next_fault;
     case f of Fine \<Rightarrow> gives () | Fault e \<Rightarrow> fails (ForeignError e) | LostAck e \<Rightarrow> fails (ForeignError e)
   }"

text \<open>
  The entry of every method: a nil context or an invalid request is refused, then the context is
  looked at. A method is called on a store that \<open>New\<close> returned.
\<close>

definition guarded :: "'w ctx option \<Rightarrow> bool \<Rightarrow> (go_error \<Rightarrow> go_error) \<Rightarrow> ('w, 'a result) state \<Rightarrow>
    ('w, 'a result) state" where
  "guarded ctx request_ok wrap body = (case ctx of
     None \<Rightarrow> fails (wrap ErrInvalidStoreRequest)
   | Some c \<Rightarrow>
       if \<not> request_ok then fails (wrap ErrInvalidStoreRequest)
       else do {
         seen \<leftarrow> c;
         case cx_err seen of Some err \<Rightarrow> fails (wrap err) | None \<Rightarrow> body
       })"

section \<open>Transitions\<close>

text \<open>
  The position of the last event; a plan of \<open>NewTransition\<close> has at least one event, so the index
  expression of the code does not panic on a valid plan.
\<close>

definition transitionSequenceFits :: "Transition \<Rightarrow> bool" where
  "transitionSequenceFits transition \<longleftrightarrow> tr_events transition \<noteq> [] \<and>
     unat (ev_sequence (last (tr_events transition))) \<le> maxPostgreSQLSequence"

definition exactTransition :: "Transition \<Rightarrow> (Db, bool result) state" where
  "exactTransition transition =
     check (tx_QueryRow (findTransition (tr_id transition))) fails (\<lambda>row. case row of
       None \<Rightarrow> gives False
     | Some fingerprint \<Rightarrow>
         if fingerprint \<noteq> tr_fingerprint transition then fails ErrDuplicateTransition else gives True)"

text \<open>\<open>return false, store.concurrentTransition(...)\<close>: nothing is staged, with or without an error.\<close>

definition concurrentTransition :: "Transition \<Rightarrow> (Db, bool result) state" where
  "concurrentTransition transition =
     check (exactTransition transition) (\<lambda>e. fails (notCommitted e)) (\<lambda>exact.
       if exact then gives False else fails (notCommitted ErrStoreConflict))"

definition terminalArchiveTime :: "PgConfig \<Rightarrow> HistoryEvent \<Rightarrow> int option" where
  "terminalArchiveTime pg event =
     (if ev_kind event \<in> {EventInstanceCompleted, EventInstanceFailed, EventInstanceCancelled,
           EventInstanceTerminated, EventContinuedAsNew}
      then Some (stamped pg (ev_occurredAt event)) else None)"

definition next_definition :: "Transition \<Rightarrow> DefinitionReference" where
  "next_definition transition = foldl (\<lambda>d event.
     if ev_kind event = EventDefinitionMigrated then ev_definition event else d)
     (tr_definition transition) (tr_events transition)"

fun exec_all :: "statement list \<Rightarrow> (Db, unit result) state" where
  "exec_all [] = gives ()"
| "exec_all (stmt # stmts) = check (tx_Exec stmt) (\<lambda>e. fails (notCommitted e)) (\<lambda>_. exec_all stmts)"

definition stage_rows :: "PgConfig \<Rightarrow> Transition \<Rightarrow> (Db, bool result) state" where
  "stage_rows pg transition =
     (let events = tr_events transition; final = last events
      in check (tx_change (insertTransition \<lparr>rt_transition_id = tr_id transition,
                  rt_instance_id = tr_instanceID transition, rt_fingerprint = tr_fingerprint transition,
                  rt_expected_sequence = uint (tr_expectedSequence transition),
                  rt_committed_sequence = uint (ev_sequence final),
                  rt_committed_at = stamped pg (ev_occurredAt final)\<rparr>))
           (\<lambda>e. fails (notCommitted e)) (\<lambda>row. case row of
             None \<Rightarrow> concurrentTransition transition
           | Some inserted \<Rightarrow>
               if inserted \<noteq> tr_fingerprint transition then fails (notCommitted ErrDuplicateTransition)
               else check (exec_all (map (\<lambda>event. insertHistory (historyArguments pg event)) events)) fails (\<lambda>_.
                    check (exec_all (map (\<lambda>work. insertWork (workArguments pg work)) (tr_work transition))) fails (\<lambda>_.
                    check (tx_Exec (updateInstance (next_definition transition) (uint (ev_sequence final))
                             (stamped pg (ev_occurredAt final)) (tr_instanceID transition)
                             (uint (tr_expectedSequence transition)) (terminalArchiveTime pg final)))
                      (\<lambda>e. fails (notCommitted e)) (\<lambda>n.
                        if n \<noteq> 1 then fails (notCommitted ErrStoreConflict) else gives True)))))"

definition stageTransition :: "PgConfig \<Rightarrow> Transition \<Rightarrow> (Db, bool result) state" where
  "stageTransition pg transition =
     check (exactTransition transition) (\<lambda>e. fails (notCommitted e)) (\<lambda>exact.
       if exact then gives False
       else if tr_expectedSequence transition = 0
       then check (tx_Exec (insertInstance \<lparr>ri_instance_id = tr_instanceID transition,
                     ri_definition = tr_definition transition, ri_sequence = 0,
                     ri_created_at = stamped pg (ev_occurredAt (hd (tr_events transition))),
                     ri_updated_at = stamped pg (ev_occurredAt (hd (tr_events transition))),
                     ri_archived_at = None\<rparr>))
              (\<lambda>e. fails (notCommitted e)) (\<lambda>n.
                if n \<noteq> 1 then concurrentTransition transition else stage_rows pg transition)
       else check (tx_QueryRow (lockInstance (tr_instanceID transition))) (\<lambda>e. fails (notCommitted e))
              (\<lambda>row. case row of
                 None \<Rightarrow> fails (notCommitted ErrStoreNotFound)
               | Some inst \<Rightarrow>
                   if ri_sequence inst \<noteq> uint (tr_expectedSequence transition) \<or>
                      ri_definition inst \<noteq> tr_definition transition
                   then concurrentTransition transition else stage_rows pg transition))"

text \<open>\<open>Commit\<close>, whose deferred rollback runs after the transaction whatever its end.\<close>

definition Commit :: "PgConfig \<Rightarrow> Db ctx option \<Rightarrow> Transition \<Rightarrow> (Db, unit result) state" where
  "Commit pg ctx transition =
     guarded ctx (transition_Valid transition \<and> transitionSequenceFits transition) notCommitted
       (check Begin (\<lambda>e. fails (notCommitted e)) (\<lambda>_. do {
          r \<leftarrow> check (stageTransition pg transition) fails (\<lambda>staged.
                 if \<not> staged then gives ()
                 else check tx_Commit (\<lambda>e. fails (NewStoreCommitError StoreCommitUnknown (Some e)))
                        (\<lambda>_. gives ()));
          rollback;
          State_Monad.return r
        }))"

text \<open>\<open>Stage\<close> works in the caller's open transaction and leaves it open.\<close>

definition Stage :: "PgConfig \<Rightarrow> Db ctx option \<Rightarrow> Transition \<Rightarrow> (Db, unit result) state" where
  "Stage pg ctx transition =
     guarded ctx (transition_Valid transition \<and> transitionSequenceFits transition) notCommitted
       (check (stageTransition pg transition) fails (\<lambda>_. gives ()))"

definition ReconcileTransition ::
  "Db ctx option \<Rightarrow> TransitionReconciliation \<Rightarrow> (Db, TransitionReconciliationOutcome result) state" where
  "ReconcileTransition ctx reconciliation =
     guarded ctx (reconciliation_Valid reconciliation) id
       (check (db_Query (findTransition (rc_transitionID reconciliation)))
          (\<lambda>e. fails (newOperationError ''reconcile transition'' e)) (\<lambda>row. case row of
            None \<Rightarrow> gives TransitionMissing
          | Some fingerprint \<Rightarrow>
              if fingerprint = rc_fingerprint reconciliation then gives TransitionCommitted
              else gives TransitionConflicting))"

section \<open>History\<close>

definition History :: "Db ctx option \<Rightarrow> HistoryQuery \<Rightarrow> (Db, HistoryPage result) state" where
  "History ctx query =
     guarded ctx (query_valid query \<and> unat (hq_afterSequence query) \<le> maxPostgreSQLSequence) id
       (check (db_Query (instanceExists (hq_instanceID query)))
          (\<lambda>e. fails (newOperationError ''inspect history instance'' e)) (\<lambda>exists.
            if \<not> exists then fails ErrStoreNotFound
            else check (db_Query (selectHistory (hq_instanceID query) (uint (hq_afterSequence query))
                                    (unat (hq_limit query) + 1)))
                   (\<lambda>e. fails (newOperationError ''query history'' e)) (\<lambda>rows.
                     case scan_rows (scanHistoryEvent (hq_instanceID query)) rows of
                       Inl e \<Rightarrow> fails (newOperationError ''scan history'' e)
                     | Inr events \<Rightarrow>
                         check rows_Err (\<lambda>e. fails (newOperationError ''iterate history'' e)) (\<lambda>_.
                           let hasMore = length events > unat (hq_limit query)
                           in case NewHistoryPage query (take (unat (hq_limit query)) events) hasMore of
                                Inl e \<Rightarrow> fails (newOperationError ''validate history''
                                           (JoinedError ErrCorruptStore e))
                              | Inr page \<Rightarrow> gives page))))"

definition ListInstances :: "PgConfig \<Rightarrow> Db ctx option \<Rightarrow> InstanceListQuery \<Rightarrow> (Db, InstanceListPage result) state" where
  "ListInstances pg ctx query =
     guarded ctx (list_query_Valid query) id
       (let selected = (\<lambda>r. case lq_selection query of
              ListActiveInstances \<Rightarrow> ri_archived_at r = None
            | ListArchivedInstances \<Rightarrow> ri_archived_at r \<noteq> None
            | _ \<Rightarrow> True);
            after = nullableTime pg (lc_createdAt (lq_after query))
        in check (db_Query (listInstances pg selected after (lc_instanceID (lq_after query))
                     (unat (lq_limit query) + 1)))
             (\<lambda>e. fails (newOperationError ''list instances'' e)) (\<lambda>rows.
               case scan_rows scanInstanceRecord rows of
                 Inl e \<Rightarrow> fails (newOperationError ''scan instance'' e)
               | Inr items \<Rightarrow>
                   check rows_Err (\<lambda>e. fails (newOperationError ''iterate instances'' e)) (\<lambda>_.
                     let hasMore = length items > unat (lq_limit query)
                     in case NewInstanceListPage query (take (unat (lq_limit query)) items) hasMore of
                          Inl e \<Rightarrow> fails (newOperationError ''validate instance page''
                                     (JoinedError ErrCorruptStore e))
                        | Inr page \<Rightarrow> gives page)))"

section \<open>Work\<close>

definition Claim :: "PgConfig \<Rightarrow> Db ctx option \<Rightarrow> WorkClaimRequest \<Rightarrow> (Db, WorkLease list result) state" where
  "Claim pg ctx request =
     guarded ctx (claim_Valid request) id
       (check (db_change (claimWork pg (stamped pg (cr_now request)) (unat (cr_limit request)) (cr_owner request)
                 (stamped pg (Add (cr_now request) (cr_leaseDuration request)))))
          (\<lambda>e. fails (newOperationError ''claim work'' e)) (\<lambda>rows.
            case scan_rows (\<lambda>row. scanWorkLease row (cr_owner request) (cr_now request)) rows of
              Inl e \<Rightarrow> fails (newOperationError ''scan claimed work'' e)
            | Inr leases \<Rightarrow>
                check rows_Err (\<lambda>e. fails (newOperationError ''iterate claimed work'' e)) (\<lambda>_. gives leases)))"

definition Renew :: "PgConfig \<Rightarrow> Db ctx option \<Rightarrow> WorkLeaseRenewal \<Rightarrow> (Db, WorkLease result) state" where
  "Renew pg ctx renewal =
     guarded ctx (renewal_Valid renewal) id
       (check (db_change (\<lambda>tb. Some (renewWork (rn_workID renewal) (rn_owner renewal) (uint (rn_token renewal))
                 (stamped pg (Add (rn_now renewal) (rn_extendBy renewal))) (stamped pg (rn_now renewal)) tb)))
          (\<lambda>e. fails (newOperationError ''renew work'' e)) (\<lambda>row. case row of
            None \<Rightarrow> fails ErrStaleWorkLease
          | Some r \<Rightarrow>
              (case scanWorkLease r (rn_owner renewal) (rn_now renewal) of
                 Inl e \<Rightarrow> fails (newOperationError ''renew work'' e)
               | Inr lease \<Rightarrow> gives lease)))"

definition databaseExec :: "statement \<Rightarrow> (Db, nat result) state" where
  "databaseExec stmt = check Begin fails (\<lambda>_. do {
     r \<leftarrow> check (tx_Exec stmt) fails (\<lambda>n. check tx_Commit fails (\<lambda>_. gives n));
     rollback;
     State_Monad.return r
   })"

definition fencedExec :: "statement \<Rightarrow> string \<Rightarrow> (Db, unit result) state" where
  "fencedExec stmt operation =
     check (databaseExec stmt) (\<lambda>e. fails (newOperationError operation e)) (\<lambda>n.
       if n \<noteq> 1 then fails ErrStaleWorkLease else gives ())"

definition Complete :: "PgConfig \<Rightarrow> Db ctx option \<Rightarrow> WorkCompletion \<Rightarrow> (Db, unit result) state" where
  "Complete pg ctx completion =
     guarded ctx (completion_Valid completion) id
       (fencedExec (completeWork (wc_workID completion) (wc_owner completion) (uint (wc_token completion))
          (stamped pg (wc_completedAt completion))) ''complete work'')"

definition Fail :: "PgConfig \<Rightarrow> Db ctx option \<Rightarrow> WorkFailure \<Rightarrow> (Db, unit result) state" where
  "Fail pg ctx failure =
     guarded ctx (failure_Valid failure) id
       (if wf_disposition failure = WorkRetry
        then fencedExec (retryWork (wf_workID failure) (wf_owner failure) (uint (wf_token failure))
               (wf_code failure) (stamped pg (wf_retryAt failure)) (stamped pg (wf_failedAt failure))) ''retry work''
        else fencedExec (deadLetterWork (wf_workID failure) (wf_owner failure) (uint (wf_token failure))
               (wf_code failure) (stamped pg (wf_failedAt failure))) ''dead-letter work'')"

section \<open>Dead letters\<close>

definition ListDeadLetters :: "PgConfig \<Rightarrow> Db ctx option \<Rightarrow> DeadLetterQuery \<Rightarrow> (Db, DeadLetterPage result) state" where
  "ListDeadLetters pg ctx query =
     guarded ctx (dead_query_Valid query) id
       (check (db_Query (listDeadLetters pg (nullableTime pg (dc_failedAt (dq_after query)))
                 (dc_workID (dq_after query)) (unat (dq_limit query) + 1)))
          (\<lambda>e. fails (newOperationError ''list dead letters'' e)) (\<lambda>rows.
            case scan_rows scanDeadLetterRecord rows of
              Inl e \<Rightarrow> fails (newOperationError ''scan dead letter'' e)
            | Inr items \<Rightarrow>
                check rows_Err (\<lambda>e. fails (newOperationError ''iterate dead letters'' e)) (\<lambda>_.
                  let hasMore = length items > unat (dq_limit query)
                  in case NewDeadLetterPage query (take (unat (dq_limit query)) items) hasMore of
                       Inl e \<Rightarrow> fails (newOperationError ''validate dead-letter page''
                                  (JoinedError ErrCorruptStore e))
                     | Inr page \<Rightarrow> gives page)))"

definition exactDeadLetterResolution :: "DeadLetterResolution \<Rightarrow> (Db, bool result) state" where
  "exactDeadLetterResolution resolution =
     check (tx_QueryRow (findResolution (dl_CommandID resolution))) fails (\<lambda>row. case row of
       None \<Rightarrow> gives False
     | Some fingerprint \<Rightarrow>
         if fingerprint \<noteq> dl_fingerprint resolution then fails ErrStoreConflict else gives True)"

definition resolution_row :: "PgConfig \<Rightarrow> DeadLetterResolution \<Rightarrow> ResolutionRow" where
  "resolution_row pg resolution =
     \<lparr>rr_command_id = dl_CommandID resolution, rr_fingerprint = dl_fingerprint resolution,
      rr_work_id = dl_WorkID resolution, rr_lease_token = uint (dl_Token resolution),
      rr_action = resolution_code (dl_Action resolution), rr_actor = dl_Actor resolution,
      rr_reason = dl_Reason resolution, rr_occurred_at = stamped pg (dl_OccurredAt resolution),
      rr_retry_at = nullableTime pg (dl_RetryAt resolution),
      rr_deadline = nullableTime pg (dl_Deadline resolution)\<rparr>"

text \<open>The transaction of \<open>ResolveDeadLetter\<close>: \<open>Inr True\<close> goes on to commit.\<close>

definition stage_resolution :: "PgConfig \<Rightarrow> DeadLetterResolution \<Rightarrow> (Db, bool result) state" where
  "stage_resolution pg resolution =
     check (exactDeadLetterResolution resolution) (\<lambda>e. fails (notCommitted e)) (\<lambda>exact.
       if exact then gives False
       else check (tx_QueryRow (lockDeadLetter (dl_WorkID resolution) (uint (dl_Token resolution))))
              (\<lambda>e. fails (notCommitted e)) (\<lambda>locked. case locked of
                None \<Rightarrow> fails (notCommitted ErrStaleWorkLease)
              | Some _ \<Rightarrow>
                  check (tx_change (insertResolution (resolution_row pg resolution)))
                    (\<lambda>e. fails (notCommitted e)) (\<lambda>row. case row of
                      None \<Rightarrow>
                        check (exactDeadLetterResolution resolution) (\<lambda>e. fails (notCommitted e)) (\<lambda>again.
                          if again then gives False else fails (notCommitted ErrStoreConflict))
                    | Some inserted \<Rightarrow>
                        if inserted \<noteq> dl_fingerprint resolution then fails (notCommitted ErrStoreConflict)
                        else if dl_Action resolution = DeadLetterRetry
                        then check (tx_Exec (retryDeadLetter (dl_WorkID resolution) (uint (dl_Token resolution))
                                      (stamped pg (dl_RetryAt resolution)) (stamped pg (dl_Deadline resolution))))
                               (\<lambda>e. fails (notCommitted e)) (\<lambda>n.
                                 if n \<noteq> 1 then fails (notCommitted ErrStaleWorkLease) else gives True)
                        else gives True)))"

definition ResolveDeadLetter :: "PgConfig \<Rightarrow> Db ctx option \<Rightarrow> DeadLetterResolution \<Rightarrow> (Db, unit result) state" where
  "ResolveDeadLetter pg ctx resolution =
     guarded ctx (resolution_Valid resolution) notCommitted
       (check Begin (\<lambda>e. fails (notCommitted e)) (\<lambda>_. do {
          r \<leftarrow> check (stage_resolution pg resolution) fails (\<lambda>staged.
                 if \<not> staged then gives ()
                 else check tx_Commit (\<lambda>e. fails (NewStoreCommitError StoreCommitUnknown (Some e)))
                        (\<lambda>_. gives ()));
          rollback;
          State_Monad.return r
        }))"

end
