(* ===== verification/Store_Safety.thy ===== *)
theory Store_Safety
  imports Postgres_Store
begin

text \<open>
  What the PostgreSQL store guarantees: a commit has all of its effects or none, and the error it
  returns says which; the history of every instance stays a contiguous log to which commits append;
  reading through the store gives back that log; and work is changed only under its current fence.
\<close>

section \<open>The driver\<close>

lemma triple_given: "(b \<Longrightarrow> triple P m Q) \<Longrightarrow> triple (\<lambda>w. P w \<and> b) m Q"
  unfolding triple_def by blast

text \<open>Inside a transaction: the committed tables \<open>T\<close> and the view \<open>tb\<close>.\<close>

definition inside :: "Tables \<Rightarrow> Tables \<Rightarrow> Db \<Rightarrow> bool" where
  "inside T tb db \<longleftrightarrow> db_tables db = T \<and> db_tx db = Some tb"

definition at_rest :: "Tables \<Rightarrow> Db \<Rightarrow> bool" where
  "at_rest T db \<longleftrightarrow> db_tables db = T"

lemma run_next_fault:
  "run_state next_fault db = (f, db') \<Longrightarrow> db_tables db' = db_tables db \<and> db_tx db' = db_tx db"
  by (auto simp: next_fault_def split: list.splits)

lemma triple_next_fault [intro]: "triple (inside T tb) next_fault (\<lambda>_. inside T tb)"
    "triple (at_rest T) next_fault (\<lambda>_. at_rest T)"
  by (auto intro!: tripleI dest!: run_next_fault simp: inside_def at_rest_def)

lemma triple_Begin: "triple (at_rest T) Begin (\<lambda>r db. case r of Inl _ \<Rightarrow> at_rest T db | Inr _ \<Rightarrow> inside T T db)"
  unfolding Begin_def
  by (rule triple_bind [OF triple_next_fault(2)])
    (auto split: fault.split intro!: tripleI simp: at_rest_def inside_def)

lemma triple_QueryRow:
  "triple (inside T tb) (tx_QueryRow q) (\<lambda>r db. inside T tb db \<and> (\<forall>x. r = Inr x \<longrightarrow> x = q tb))"
  unfolding tx_QueryRow_def
  by (rule triple_bind [OF triple_next_fault(1)])
    (auto split: fault.split intro!: tripleI simp: inside_def tx_view_def)

lemma triple_change:
  "triple (inside T tb) (tx_change stmt) (\<lambda>r db. case r of
     Inl _ \<Rightarrow> inside T tb db | Inr a \<Rightarrow> (\<exists>tb'. stmt tb = Some (a, tb') \<and> inside T tb' db))"
  unfolding tx_change_def
  by (rule triple_bind [OF triple_next_fault(1)])
    (auto split: fault.split option.splits prod.splits intro!: tripleI simp: inside_def tx_view_def)

lemma triple_Commit:
  "triple (inside T tb) tx_Commit (\<lambda>r db. case r of
     Inl _ \<Rightarrow> at_rest T db \<or> at_rest tb db | Inr _ \<Rightarrow> at_rest tb db)"
  unfolding tx_Commit_def
  by (rule triple_bind [OF triple_next_fault(1)])
    (auto split: fault.split intro!: tripleI simp: inside_def at_rest_def tx_view_def)

lemma triple_rollback: "triple (at_rest T) rollback (\<lambda>_. at_rest T)"
  by (auto intro!: tripleI simp: rollback_def at_rest_def)

lemma triple_db_Query:
  "triple (at_rest T) (db_Query q) (\<lambda>r db. at_rest T db \<and> (case r of Inl _ \<Rightarrow> True | Inr x \<Rightarrow> x = q T))"
  unfolding db_Query_def
  by (rule triple_bind [OF triple_next_fault(2)]) (auto split: fault.split intro!: tripleI simp: at_rest_def)

lemma triple_rows_Err: "triple (at_rest T) rows_Err (\<lambda>_. at_rest T)"
  unfolding rows_Err_def
  by (rule triple_bind [OF triple_next_fault(2)]) (auto split: fault.split)

section \<open>Staging a transition\<close>

lemma notCommitted_outcome [simp]: "StoreCommitOutcomeOf (notCommitted e) = StoreCommitNotCommitted"
  by (simp add: notCommitted_def NewStoreCommitError_def)

text \<open>A sequence of statements without faults.\<close>

fun run_all :: "statement list \<Rightarrow> Tables \<Rightarrow> Tables option" where
  "run_all [] tb = Some tb"
| "run_all (stmt # stmts) tb = (case stmt tb of None \<Rightarrow> None | Some (_, tb') \<Rightarrow> run_all stmts tb')"

lemma triple_exec_all:
  "triple (inside T tb) (exec_all stmts) (\<lambda>r db. case r of
     Inl e \<Rightarrow> db_tables db = T \<and> StoreCommitOutcomeOf e = StoreCommitNotCommitted
   | Inr _ \<Rightarrow> (\<exists>tb'. run_all stmts tb = Some tb' \<and> inside T tb' db))"
proof (induction stmts arbitrary: tb)
  case Nil
  then show ?case by simp
next
  case (Cons stmt stmts)
  show ?case
    unfolding exec_all.simps
  proof (rule triple_check [OF triple_change])
    fix n
    show "triple (\<lambda>db. case Inr n of Inl _ \<Rightarrow> inside T tb db | Inr a \<Rightarrow> \<exists>tb'. stmt tb = Some (a, tb') \<and> inside T tb' db)
        (exec_all stmts) (\<lambda>r db. case r of
           Inl e \<Rightarrow> db_tables db = T \<and> StoreCommitOutcomeOf e = StoreCommitNotCommitted
         | Inr _ \<Rightarrow> (\<exists>tb'. run_all (stmt # stmts) tb = Some tb' \<and> inside T tb' db))"
    proof (cases "stmt tb")
      case None
      then show ?thesis by (simp add: triple_def)
    next
      case (Some p)
      then show ?thesis
        by (cases p) (rule triple_weaken [OF Cons.IH [of "snd p"]], auto split: sum.splits)
    qed
  qed (simp add: inside_def)
qed

lemma run_all_insertHistory:
  "run_all (map (\<lambda>x. insertHistory (f x)) xs) tb = Some tb' \<Longrightarrow>
     tb' = tb\<lparr>tb_history := tb_history tb @ map f xs\<rparr>"
  by (induction xs arbitrary: tb) (fastforce simp: insertHistory_def split: if_splits)+

lemma insertWork_Some:
  "insertWork row tb = Some (n, tb') \<Longrightarrow> n = 1 \<and> tb' = tb\<lparr>tb_work := tb_work tb @ [row]\<rparr> \<and>
     rw_work_id row \<notin> set (map rw_work_id (tb_work tb))"
  by (auto simp: insertWork_def findWork_def find_None_iff split: if_splits)

lemma run_all_insertWork:
  "run_all (map (\<lambda>x. insertWork (f x)) xs) tb = Some tb' \<Longrightarrow> tb' = tb\<lparr>tb_work := tb_work tb @ map f xs\<rparr> \<and>
     distinct (map (\<lambda>x. rw_work_id (f x)) xs) \<and>
     set (map (\<lambda>x. rw_work_id (f x)) xs) \<inter> set (map rw_work_id (tb_work tb)) = {}"
proof (induction xs arbitrary: tb)
  case Nil
  then show ?case by simp
next
  case (Cons x xs)
  from Cons.prems have new: "rw_work_id (f x) \<notin> set (map rw_work_id (tb_work tb))"
    and rec: "run_all (map (\<lambda>x. insertWork (f x)) xs) (tb\<lparr>tb_work := tb_work tb @ [f x]\<rparr>) = Some tb'"
    by (auto dest: insertWork_Some split: option.splits)
  from Cons.IH [OF rec] new show ?case by auto
qed

text \<open>
  The tables after a staged transition: the instance row advanced (or created and advanced), the
  transition recorded, the events and the work appended.
\<close>

definition advance_row :: "PgConfig \<Rightarrow> Transition \<Rightarrow> InstanceRow \<Rightarrow> InstanceRow" where
  "advance_row pg t r =
     (if ri_instance_id r = tr_instanceID t \<and> ri_sequence r = uint (tr_expectedSequence t)
      then r\<lparr>ri_definition := next_definition t, ri_sequence := uint (ev_sequence (last (tr_events t))),
             ri_updated_at := stamped pg (ev_occurredAt (last (tr_events t))),
             ri_archived_at := (case ri_archived_at r of
               None \<Rightarrow> terminalArchiveTime pg (last (tr_events t)) | Some a \<Rightarrow> Some a)\<rparr>
      else r)"

definition first_row :: "PgConfig \<Rightarrow> Transition \<Rightarrow> InstanceRow" where
  "first_row pg t = \<lparr>ri_instance_id = tr_instanceID t, ri_definition = tr_definition t, ri_sequence = 0,
     ri_created_at = stamped pg (ev_occurredAt (hd (tr_events t))),
     ri_updated_at = stamped pg (ev_occurredAt (hd (tr_events t))), ri_archived_at = None\<rparr>"

definition transition_row :: "PgConfig \<Rightarrow> Transition \<Rightarrow> TransitionRow" where
  "transition_row pg t = \<lparr>rt_transition_id = tr_id t, rt_instance_id = tr_instanceID t,
     rt_fingerprint = tr_fingerprint t, rt_expected_sequence = uint (tr_expectedSequence t),
     rt_committed_sequence = uint (ev_sequence (last (tr_events t))),
     rt_committed_at = stamped pg (ev_occurredAt (last (tr_events t)))\<rparr>"

definition opened :: "PgConfig \<Rightarrow> Transition \<Rightarrow> Tables \<Rightarrow> Tables" where
  "opened pg t tb = (if tr_expectedSequence t = 0
     then tb\<lparr>tb_instances := tb_instances tb @ [first_row pg t]\<rparr> else tb)"

definition staged :: "PgConfig \<Rightarrow> Transition \<Rightarrow> Tables \<Rightarrow> Tables" where
  "staged pg t tb = (opened pg t tb)\<lparr>tb_instances := map (advance_row pg t) (tb_instances (opened pg t tb)),
     tb_transitions := tb_transitions tb @ [transition_row pg t],
     tb_history := tb_history tb @ map (historyArguments pg) (tr_events t),
     tb_work := tb_work tb @ map (workArguments pg) (tr_work t)\<rparr>"

text \<open>What the store has checked when it stages a transition.\<close>

definition stageable :: "Transition \<Rightarrow> Tables \<Rightarrow> bool" where
  "stageable t tb \<longleftrightarrow> findTransition (tr_id t) tb = None \<and>
     (if tr_expectedSequence t = 0 then lockInstance (tr_instanceID t) tb = None
      else \<exists>r. lockInstance (tr_instanceID t) tb = Some r \<and> ri_sequence r = uint (tr_expectedSequence t) \<and>
        ri_definition r = tr_definition t) \<and>
     distinct (map pw_id (tr_work t)) \<and> set (map pw_id (tr_work t)) \<inter> set (map rw_work_id (tb_work tb)) = {}"

definition stage_post :: "PgConfig \<Rightarrow> Transition \<Rightarrow> Tables \<Rightarrow> Tables \<Rightarrow> bool result \<Rightarrow> Db \<Rightarrow> bool" where
  "stage_post pg t T tb r db \<longleftrightarrow> db_tables db = T \<and> (case r of
     Inl e \<Rightarrow> StoreCommitOutcomeOf e = StoreCommitNotCommitted
   | Inr done_ \<Rightarrow> if done_ then stageable t tb \<and> db_tx db = Some (staged pg t tb)
       else findTransition (tr_id t) tb = Some (tr_fingerprint t))"

lemma triple_exactTransition:
  "triple (inside T tb) (exactTransition t) (\<lambda>r db. inside T tb db \<and> (case r of Inl _ \<Rightarrow> True
     | Inr b \<Rightarrow> findTransition (tr_id t) tb = (if b then Some (tr_fingerprint t) else None)))"
  unfolding exactTransition_def
  by (rule triple_check [OF triple_QueryRow]) (auto split: option.split)

lemma triple_concurrentTransition:
  assumes "findTransition (tr_id t) tb' = findTransition (tr_id t) tb"
  shows "triple (inside T tb') (concurrentTransition t) (stage_post pg t T tb)"
  unfolding concurrentTransition_def
  by (rule triple_check [OF triple_exactTransition]) (auto simp: stage_post_def inside_def assms)

lemma insertTransition_Some:
  "insertTransition row tb = Some (a, tb') \<Longrightarrow>
     (a = None \<and> tb' = tb) \<or>
     (a = Some (rt_fingerprint row) \<and> tb' = tb\<lparr>tb_transitions := tb_transitions tb @ [row]\<rparr>)"
  by (auto simp: insertTransition_def split: if_splits)

lemma updateInstance_Some:
  "updateInstance d q u n x a tb = Some (k, tb') \<Longrightarrow> k = length (filter (\<lambda>r. ri_instance_id r = n \<and> ri_sequence r = x)
       (tb_instances tb)) \<and> tb' = tb\<lparr>tb_instances := map (\<lambda>r. if ri_instance_id r = n \<and> ri_sequence r = x
         then r\<lparr>ri_definition := d, ri_sequence := q, ri_updated_at := u,
                ri_archived_at := (case ri_archived_at r of None \<Rightarrow> a | Some t \<Rightarrow> Some t)\<rparr>
         else r) (tb_instances tb)\<rparr>"
  by (auto simp: updateInstance_def Let_def split: if_splits)

lemma opened_parts [simp]:
  "tb_transitions (opened pg t tb) = tb_transitions tb" "tb_history (opened pg t tb) = tb_history tb"
  "tb_work (opened pg t tb) = tb_work tb" "tb_resolutions (opened pg t tb) = tb_resolutions tb"
  by (simp_all add: opened_def)

lemma findTransition_opened [simp]: "findTransition n (opened pg t tb) = findTransition n tb"
  by (simp add: findTransition_def)

lemma inserted_rows_staged:
  assumes "run_all (map (\<lambda>e. insertHistory (historyArguments pg e)) (tr_events t))
      ((opened pg t tb)\<lparr>tb_transitions := tb_transitions tb @ [transition_row pg t]\<rparr>) = Some tb3"
    "run_all (map (\<lambda>w. insertWork (workArguments pg w)) (tr_work t)) tb3 = Some tb4"
    "updateInstance (next_definition t) (uint (ev_sequence (last (tr_events t))))
       (stamped pg (ev_occurredAt (last (tr_events t)))) (tr_instanceID t)
       (uint (tr_expectedSequence t)) (terminalArchiveTime pg (last (tr_events t))) tb4 = Some (n, tb5)"
  shows "tb5 = staged pg t tb" "distinct (map pw_id (tr_work t))"
    "set (map pw_id (tr_work t)) \<inter> set (map rw_work_id (tb_work tb)) = {}"
proof -
  have tb3: "tb3 = (opened pg t tb)\<lparr>tb_transitions := tb_transitions tb @ [transition_row pg t],
      tb_history := tb_history tb @ map (historyArguments pg) (tr_events t)\<rparr>"
    using run_all_insertHistory [OF assms(1)] by simp
  have tb4: "tb4 = tb3\<lparr>tb_work := tb_work tb @ map (workArguments pg) (tr_work t)\<rparr>"
    and ids: "distinct (map pw_id (tr_work t))" "set (map pw_id (tr_work t)) \<inter> set (map rw_work_id (tb_work tb)) = {}"
    using run_all_insertWork [OF assms(2)] tb3 by (simp_all add: workArguments_def)
  show "tb5 = staged pg t tb"
    using updateInstance_Some [OF assms(3)] tb3 tb4 by (simp add: staged_def advance_row_def cong: if_cong)
  show "distinct (map pw_id (tr_work t))" "set (map pw_id (tr_work t)) \<inter> set (map rw_work_id (tb_work tb)) = {}"
    by (rule ids)+
qed

text \<open>The statements behind the recorded transition: the events, the work, the instance row.\<close>

lemma triple_insert_rows:
  fixes t pg tb
  defines "hs \<equiv> map (\<lambda>e. insertHistory (historyArguments pg e)) (tr_events t)"
    and "ws \<equiv> map (\<lambda>w. insertWork (workArguments pg w)) (tr_work t)"
    and "upd \<equiv> updateInstance (next_definition t) (uint (ev_sequence (last (tr_events t))))
      (stamped pg (ev_occurredAt (last (tr_events t)))) (tr_instanceID t)
      (uint (tr_expectedSequence t)) (terminalArchiveTime pg (last (tr_events t)))"
    and "tb2 \<equiv> (opened pg t tb)\<lparr>tb_transitions := tb_transitions tb @ [transition_row pg t]\<rparr>"
  assumes ok: "distinct (map pw_id (tr_work t)) \<Longrightarrow>
      set (map pw_id (tr_work t)) \<inter> set (map rw_work_id (tb_work tb)) = {} \<Longrightarrow> stageable t tb"
  shows "triple (inside T tb2)
     (check (exec_all hs) fails (\<lambda>_. check (exec_all ws) fails (\<lambda>_.
        check (tx_Exec upd) (\<lambda>e. fails (notCommitted e)) (\<lambda>n.
          if n \<noteq> 1 then fails (notCommitted ErrStoreConflict) else gives True)))) (stage_post pg t T tb)"
proof (rule triple_check [OF triple_exec_all], goal_cases)
  case (2 v)
  have "triple (inside T tb3) (check (exec_all ws) fails (\<lambda>_.
      check (tx_Exec upd) (\<lambda>e. fails (notCommitted e)) (\<lambda>n.
        if n \<noteq> 1 then fails (notCommitted ErrStoreConflict) else gives True))) (stage_post pg t T tb)"
    if h: "run_all hs tb2 = Some tb3" for tb3
  proof (rule triple_check [OF triple_exec_all], goal_cases)
    case (2 v)
    have "triple (inside T tb4) (check (tx_Exec upd) (\<lambda>e. fails (notCommitted e)) (\<lambda>n.
        if n \<noteq> 1 then fails (notCommitted ErrStoreConflict) else gives True)) (stage_post pg t T tb)"
      if w: "run_all ws tb3 = Some tb4" for tb4
    proof (rule triple_check [OF triple_change], goal_cases)
      case (2 n)
      have "stageable t tb \<and> tb5 = staged pg t tb" if "upd tb4 = Some (n, tb5)" for tb5
        using inserted_rows_staged [OF h [unfolded hs_def tb2_def] w [unfolded ws_def]
            that [unfolded upd_def]] ok by simp
      then show ?case by (auto simp: stage_post_def inside_def)
    qed (simp add: stage_post_def inside_def)
    then show ?case by (auto intro!: triple_ex triple_conj)
  qed (simp add: stage_post_def)
  then show ?case by (auto intro!: triple_ex triple_conj)
qed (simp add: stage_post_def)

lemma triple_stage_rows:
  assumes "findTransition (tr_id t) tb = None"
    "if tr_expectedSequence t = 0 then lockInstance (tr_instanceID t) tb = None
     else \<exists>r. lockInstance (tr_instanceID t) tb = Some r \<and> ri_sequence r = uint (tr_expectedSequence t) \<and>
       ri_definition r = tr_definition t"
  shows "triple (inside T (opened pg t tb)) (stage_rows pg t) (stage_post pg t T tb)"
  unfolding stage_rows_def Let_def transition_row_def [symmetric]
proof (rule triple_check [OF triple_change], goal_cases)
  case (1 e)
  then show ?case by (simp add: stage_post_def inside_def)
next
  case (2 row)
  have ok: "stageable t tb" if "distinct (map pw_id (tr_work t))"
      "set (map pw_id (tr_work t)) \<inter> set (map rw_work_id (tb_work tb)) = {}"
    using assms that by (simp add: stageable_def)
  show ?case
    unfolding sum.case
  proof (rule triple_ex, rule triple_conj)
    fix tb'
    assume "insertTransition (transition_row pg t) (opened pg t tb) = Some (row, tb')"
    from insertTransition_Some [OF this]
    consider "row = None" "tb' = opened pg t tb"
      | "row = Some (tr_fingerprint t)"
        "tb' = (opened pg t tb)\<lparr>tb_transitions := tb_transitions tb @ [transition_row pg t]\<rparr>"
      by (auto simp: transition_row_def)
    then show "triple (inside T tb') (case row of None \<Rightarrow> concurrentTransition t
        | Some inserted \<Rightarrow> if inserted \<noteq> tr_fingerprint t then fails (notCommitted ErrDuplicateTransition)
            else check (exec_all (map (\<lambda>e. insertHistory (historyArguments pg e)) (tr_events t))) fails (\<lambda>_.
              check (exec_all (map (\<lambda>w. insertWork (workArguments pg w)) (tr_work t))) fails (\<lambda>_.
                check (tx_Exec (updateInstance (next_definition t) (uint (ev_sequence (last (tr_events t))))
                  (stamped pg (ev_occurredAt (last (tr_events t)))) (tr_instanceID t)
                  (uint (tr_expectedSequence t)) (terminalArchiveTime pg (last (tr_events t)))))
                (\<lambda>e. fails (notCommitted e)) (\<lambda>n.
                  if n \<noteq> 1 then fails (notCommitted ErrStoreConflict) else gives True)))) (stage_post pg t T tb)"
    proof cases
      case 1
      then show ?thesis by (simp add: triple_concurrentTransition)
    next
      case 2
      then show ?thesis using triple_insert_rows [OF ok] by simp
    qed
  qed
qed

lemma insertInstance_Some:
  "insertInstance row tb = Some (n, tb') \<Longrightarrow> if lockInstance (ri_instance_id row) tb = None
     then n = 1 \<and> tb' = tb\<lparr>tb_instances := tb_instances tb @ [row]\<rparr> else n = 0 \<and> tb' = tb"
  by (auto simp: insertInstance_def split: if_splits)

lemma triple_stageTransition: "triple (inside T tb) (stageTransition pg t) (stage_post pg t T tb)"
  unfolding stageTransition_def first_row_def [symmetric]
proof (rule triple_check [OF triple_exactTransition], goal_cases)
  case (1 e)
  then show ?case by (simp add: stage_post_def inside_def)
next
  case (2 exact)
  have ins: "triple (inside T tb) (check (tx_Exec (insertInstance (first_row pg t))) (\<lambda>e. fails (notCommitted e))
      (\<lambda>n. if n \<noteq> 1 then concurrentTransition t else stage_rows pg t)) (stage_post pg t T tb)"
    if none: "findTransition (tr_id t) tb = None" and zero: "tr_expectedSequence t = 0"
  proof (rule triple_check [OF triple_change], goal_cases)
    case (2 n)
    have "triple (inside T tb') (if n \<noteq> 1 then concurrentTransition t else stage_rows pg t) (stage_post pg t T tb)"
      if "insertInstance (first_row pg t) tb = Some (n, tb')" for tb'
    proof -
      from insertInstance_Some [OF that] zero
      have "(n = 1 \<and> lockInstance (tr_instanceID t) tb = None \<and> tb' = opened pg t tb) \<or> (n = 0 \<and> tb' = tb)"
        by (auto simp: first_row_def opened_def split: if_splits)
      then show ?thesis
        using triple_concurrentTransition [of t tb tb T pg] triple_stage_rows [OF none, where T = T] zero by auto
    qed
    then show ?case by (auto intro!: triple_ex triple_conj)
  qed (simp add: stage_post_def inside_def)
  have upd: "triple (inside T tb) (check (tx_QueryRow (lockInstance (tr_instanceID t))) (\<lambda>e. fails (notCommitted e))
      (\<lambda>row. case row of None \<Rightarrow> fails (notCommitted ErrStoreNotFound)
        | Some inst \<Rightarrow> if ri_sequence inst \<noteq> uint (tr_expectedSequence t) \<or> ri_definition inst \<noteq> tr_definition t
            then concurrentTransition t else stage_rows pg t)) (stage_post pg t T tb)"
    if none: "findTransition (tr_id t) tb = None" and old: "tr_expectedSequence t \<noteq> 0"
  proof (rule triple_check [OF triple_QueryRow], goal_cases)
    case (2 row)
    have "triple (inside T tb) (case row of None \<Rightarrow> fails (notCommitted ErrStoreNotFound)
        | Some inst \<Rightarrow> if ri_sequence inst \<noteq> uint (tr_expectedSequence t) \<or> ri_definition inst \<noteq> tr_definition t
            then concurrentTransition t else stage_rows pg t) (stage_post pg t T tb)"
      if "row = lockInstance (tr_instanceID t) tb"
      using triple_concurrentTransition [of t tb tb T pg] triple_stage_rows [OF none, where T = T and pg = pg] old that
      by (auto simp: stage_post_def inside_def opened_def split: option.split)
    then show ?case by (auto intro: triple_given)
  qed (simp add: stage_post_def inside_def)
  show ?case
  proof (cases exact)
    case True
    then show ?thesis by (auto simp add: stage_post_def inside_def)
  next
    case False
    then show ?thesis
      using ins upd by (cases "tr_expectedSequence t = 0") (simp_all add: triple_given)
  qed
qed

section \<open>Committing\<close>

text \<open>Looking at a context does not change the tables.\<close>

definition quiet :: "Db ctx \<Rightarrow> bool" where
  "quiet c \<longleftrightarrow> (\<forall>db. db_tables (snd (run_state c db)) = db_tables db)"

lemma triple_guarded:
  assumes "\<And>c. ctx = Some c \<Longrightarrow> quiet c" "request_ok \<Longrightarrow> triple (at_rest T) body Q"
    "\<And>e db. at_rest T db \<Longrightarrow> Q (Inl (wrap e)) db"
  shows "triple (at_rest T) (guarded ctx request_ok wrap body) Q"
proof (cases ctx)
  case (Some c)
  have "triple (at_rest T) c (\<lambda>_. at_rest T)"
    using assms(1) Some by (auto intro!: tripleI simp: at_rest_def quiet_def dest: spec)
      (metis snd_conv)
  then have "triple (at_rest T) (c \<bind> (\<lambda>seen. case cx_err seen of Some err \<Rightarrow> fails (wrap err) | None \<Rightarrow> body)) Q"
    if request_ok
    by (rule triple_bind) (use assms(2,3) that in \<open>auto split: option.split\<close>)
  then show ?thesis
    using assms(3) by (simp add: guarded_def Some)
qed (use assms(3) in \<open>simp add: guarded_def\<close>)

text \<open>
  The outcome of a transaction that has something to write (\<open>A\<close>, with the tables \<open>W\<close> after it) or
  finds its work already done (\<open>B\<close>): all or nothing, and the error says which it may be.
\<close>

definition transaction_post :: "bool \<Rightarrow> Tables \<Rightarrow> bool \<Rightarrow> Tables \<Rightarrow> unit result \<Rightarrow> Tables \<Rightarrow> bool" where
  "transaction_post A W B T r T' \<longleftrightarrow> (case r of
     Inr _ \<Rightarrow> (T' = T \<and> B) \<or> (A \<and> T' = W)
   | Inl e \<Rightarrow> (StoreCommitOutcomeOf e = StoreCommitNotCommitted \<and> T' = T) \<or>
       (StoreCommitOutcomeOf e = StoreCommitUnknown \<and> A \<and> (T' = T \<or> T' = W)))"

definition staging_post :: "bool \<Rightarrow> Tables \<Rightarrow> bool \<Rightarrow> Tables \<Rightarrow> bool result \<Rightarrow> Db \<Rightarrow> bool" where
  "staging_post A W B T r db \<longleftrightarrow> db_tables db = T \<and> (case r of
     Inl e \<Rightarrow> StoreCommitOutcomeOf e = StoreCommitNotCommitted
   | Inr done_ \<Rightarrow> if done_ then A \<and> db_tx db = Some W else B)"

lemma unknown_outcome [simp]:
  "StoreCommitOutcomeOf (NewStoreCommitError StoreCommitUnknown (Some e)) = StoreCommitUnknown"
  by (simp add: NewStoreCommitError_def)

lemma triple_rollback_after:
  "triple P m (\<lambda>r db. Q r (db_tables db)) \<Longrightarrow>
   triple P (do { r \<leftarrow> m; rollback; State_Monad.return r }) (\<lambda>r db. Q r (db_tables db))"
  by (fastforce simp: triple_def rollback_def split: prod.splits)

lemma triple_transaction:
  assumes "\<And>c. ctx = Some c \<Longrightarrow> quiet c" "triple (inside T T) m (staging_post A W B T)"
  shows "triple (at_rest T) (guarded ctx request_ok notCommitted
      (check Begin (\<lambda>e. fails (notCommitted e)) (\<lambda>_. do {
         r \<leftarrow> check m fails (\<lambda>staged. if \<not> staged then gives ()
                else check tx_Commit (\<lambda>e. fails (NewStoreCommitError StoreCommitUnknown (Some e))) (\<lambda>_. gives ()));
         rollback;
         State_Monad.return r })))
    (\<lambda>r db. transaction_post A W B T r (db_tables db))"
proof (rule triple_guarded [OF assms(1)], assumption)
  let ?Q = "\<lambda>r db. transaction_post A W B T r (db_tables db)"
  have finish: "triple (inside T W) (check tx_Commit
      (\<lambda>e. fails (NewStoreCommitError StoreCommitUnknown (Some e))) (\<lambda>_. gives ())) ?Q" if A
    by (rule triple_check [OF triple_Commit]) (auto simp: transaction_post_def at_rest_def that)
  have "triple (inside T T) (check m fails (\<lambda>staged. if \<not> staged then gives ()
      else check tx_Commit (\<lambda>e. fails (NewStoreCommitError StoreCommitUnknown (Some e))) (\<lambda>_. gives ()))) ?Q"
  proof (rule triple_check [OF assms(2)], goal_cases)
    case (2 went)
    have "triple (\<lambda>db. db_tables db = T \<and> A \<and> db_tx db = Some W) (check tx_Commit
        (\<lambda>e. fails (NewStoreCommitError StoreCommitUnknown (Some e))) (\<lambda>_. gives ())) ?Q"
      using finish by (auto simp: triple_def inside_def)
    then show ?case by (cases went) (simp_all add: staging_post_def [abs_def] transaction_post_def)
  qed (simp add: staging_post_def transaction_post_def)
  then show "triple (at_rest T) (check Begin (\<lambda>e. fails (notCommitted e)) (\<lambda>_. do {
      r \<leftarrow> check m fails (\<lambda>staged. if \<not> staged then gives ()
             else check tx_Commit (\<lambda>e. fails (NewStoreCommitError StoreCommitUnknown (Some e))) (\<lambda>_. gives ()));
      rollback;
      State_Monad.return r })) ?Q"
    by (intro triple_check [OF triple_Begin])
      (auto simp: transaction_post_def at_rest_def intro!: triple_rollback_after [unfolded transaction_post_def])
qed (auto simp: transaction_post_def at_rest_def)

definition commit_post :: "PgConfig \<Rightarrow> Transition \<Rightarrow> Tables \<Rightarrow> unit result \<Rightarrow> Tables \<Rightarrow> bool" where
  "commit_post pg t T r T' \<longleftrightarrow> transaction_post (stageable t T) (staged pg t T)
     (findTransition (tr_id t) T = Some (tr_fingerprint t)) T r T'"

lemma commit_post_iff:
  "commit_post pg t T r T' \<longleftrightarrow> (case r of
     Inr _ \<Rightarrow> (T' = T \<and> findTransition (tr_id t) T = Some (tr_fingerprint t)) \<or>
       (stageable t T \<and> T' = staged pg t T)
   | Inl e \<Rightarrow> (StoreCommitOutcomeOf e = StoreCommitNotCommitted \<and> T' = T) \<or>
       (StoreCommitOutcomeOf e = StoreCommitUnknown \<and> stageable t T \<and> (T' = T \<or> T' = staged pg t T)))"
  by (simp add: commit_post_def transaction_post_def)

lemma triple_store_Commit:
  assumes "\<And>c. ctx = Some c \<Longrightarrow> quiet c"
  shows "triple (at_rest T) (Commit pg ctx t) (\<lambda>r db. commit_post pg t T r (db_tables db))"
  unfolding Commit_def commit_post_def
proof (rule triple_transaction [OF assms], assumption)
  show "triple (inside T T) (stageTransition pg t) (staging_post (stageable t T) (staged pg t T)
      (findTransition (tr_id t) T = Some (tr_fingerprint t)) T)"
    using triple_stageTransition [of T T pg t] by (simp add: stage_post_def [abs_def] staging_post_def [abs_def])
qed

section \<open>Reconciling\<close>

lemma find_append: "find P (xs @ ys) = (case find P xs of None \<Rightarrow> find P ys | Some x \<Rightarrow> Some x)"
  by (induction xs) auto

lemma findTransition_staged:
  "stageable t T \<Longrightarrow> findTransition (tr_id t) (staged pg t T) = Some (tr_fingerprint t)"
  by (auto simp: stageable_def findTransition_def staged_def find_append transition_row_def split: option.split)

lemma triple_ReconcileTransition:
  assumes "\<And>c. ctx = Some c \<Longrightarrow> quiet c"
  shows "triple (at_rest T) (ReconcileTransition ctx rc) (\<lambda>r db. at_rest T db \<and> (\<forall>outcome. r = Inr outcome \<longrightarrow>
     outcome = (case findTransition (rc_transitionID rc) T of None \<Rightarrow> TransitionMissing
       | Some f \<Rightarrow> if f = rc_fingerprint rc then TransitionCommitted else TransitionConflicting)))"
  unfolding ReconcileTransition_def
  by (rule triple_guarded [OF assms], assumption, rule triple_check [OF triple_db_Query])
    (auto split: option.split)

end
