(* ===== verification/Store_Log.thy ===== *)
theory Store_Log
  imports Store_Safety
begin

text \<open>
  The history table as a set of logs, one per instance: a stored event is read back as it was
  written, a commit appends its events to the log of its instance, and the history reader of the
  store pages through that log. The store so interprets the interface of the inspection code.
\<close>

section \<open>Rows and events\<close>

text \<open>An event whose instants a \<open>timestamptz\<close> column keeps.\<close>

definition exact_event :: "PgConfig \<Rightarrow> HistoryEvent \<Rightarrow> bool" where
  "exact_event pg e \<longleftrightarrow> event_ok e \<and> stamped pg (ev_occurredAt e) = wall (ev_occurredAt e) \<and>
     (IsZero (ev_dueAt e) \<or> stamped pg (ev_dueAt e) = wall (ev_dueAt e))"

lemma event_kind_of_code: "k \<noteq> EventKindInvalid \<Longrightarrow> event_kind_of (kind_code k) = k"
  by (cases k) (simp_all add: event_kind_of_def event_kinds_def)

lemma nullableTime_back:
  assumes "canonical t" "IsZero t \<or> stamped pg t = wall t"
  shows "(case nullableTime pg t of None \<Rightarrow> time_zero | Some n \<Rightarrow> utc n) = t"
  using assms by (auto simp: nullableTime_def canonical_eq_iff IsZero_def)

lemma event_ok_reference:
  "event_ok e \<Longrightarrow> ev_definition e = zero_DefinitionReference \<or> reference_valid (ev_definition e)"
  by (auto simp: event_ok_def historyEventValid_def validHistoryEventSpec_def event_spec_def split: if_splits)

lemma event_ok_kind:
  "event_ok e \<Longrightarrow> kind_code EventInstanceStarted \<le> kind_code (ev_kind e) \<and>
     kind_code (ev_kind e) \<le> kind_code EventChildStartRetryScheduled"
  by (auto simp: event_ok_def historyEventValid_def validHistoryEventSpec_def event_spec_def split: if_splits)

lemma NewDefinitionReference_parts:
  "reference_valid d \<Longrightarrow> NewDefinitionReference (dr_name d) (dr_version d) (dr_fingerprint d) = Inr d"
  by (cases d) (simp add: NewDefinitionReference_def)

lemma scan_historyArguments:
  assumes "exact_event pg e"
  shows "scanHistoryEvent (ev_instanceID e) (historyArguments pg e) = Inr e"
proof -
  have e: "event_ok e" and t: "utc (stamped pg (ev_occurredAt e)) = ev_occurredAt e"
    using assms by (auto simp: exact_event_def event_ok_def canonical_eq_iff)
  have d: "(case nullableTime pg (ev_dueAt e) of None \<Rightarrow> time_zero | Some n \<Rightarrow> utc n) = ev_dueAt e"
    using assms by (intro nullableTime_back) (auto simp: exact_event_def event_ok_def)
  have q: "1 \<le> uint (ev_sequence e)"
    using event_ok_basic(1) [OF e] by (metis int_one_le_iff_zero_less uint_0_iff uint_ge_0 less_le)
  have a: "0 \<le> uint (ev_attempt e)" "uint (ev_attempt e) \<le> 2 ^ 32 - 1"
    using uint_lt2p [of "ev_attempt e"] by simp_all
  have spec: "zero_HistoryEventSpec\<lparr>hs_Sequence := of_int (rh_sequence (historyArguments pg e)),
      hs_InstanceID := ev_instanceID e, hs_Kind := event_kind_of (rh_kind (historyArguments pg e)),
      hs_OccurredAt := utc (rh_occurred_at (historyArguments pg e)),
      hs_SuccessorID := rh_successor_id (historyArguments pg e), hs_StepName := rh_step_name (historyArguments pg e),
      hs_Attempt := of_int (rh_attempt (historyArguments pg e)),
      hs_IdempotencyKey := rh_idempotency_key (historyArguments pg e), hs_Code := rh_code (historyArguments pg e),
      hs_Retryable := rh_retryable (historyArguments pg e), hs_Data := rh_data (historyArguments pg e),
      hs_DueAt := (case rh_due_at (historyArguments pg e) of None \<Rightarrow> time_zero | Some t \<Rightarrow> utc t)\<rparr> =
      (event_spec e)\<lparr>hs_Definition := zero_DefinitionReference\<rparr>"
    using t d event_ok_basic(5) [OF e]
    by (simp add: historyArguments_def event_spec_def zero_HistoryEventSpec_def event_kind_of_code)
  have same: "(event_spec e)\<lparr>hs_Definition := ev_definition e\<rparr> = event_spec e"
    by (simp add: event_spec_def)
  have new: "NewHistoryEvent (event_spec e) = Inr e"
    using e by (simp add: event_ok_def NewHistoryEvent_event_spec)
  have range: "\<not> (rh_sequence (historyArguments pg e) < 1 \<or> rh_attempt (historyArguments pg e) < 0 \<or>
      rh_attempt (historyArguments pg e) > 2 ^ 32 - 1 \<or>
      rh_kind (historyArguments pg e) < kind_code EventInstanceStarted \<or>
      rh_kind (historyArguments pg e) > kind_code EventChildStartRetryScheduled)"
    using q a event_ok_kind [OF e] by (simp add: historyArguments_def)
  show ?thesis
    unfolding scanHistoryEvent_def if_not_P [OF range] Let_def spec
    using event_ok_reference [OF e] new same
    by (auto simp: historyArguments_def NewDefinitionReference_parts)
qed

section \<open>Logs\<close>

definition decoded :: "HistoryRow \<Rightarrow> HistoryEvent" where
  "decoded r = (case scanHistoryEvent (rh_instance_id r) r of Inl _ \<Rightarrow> zero_HistoryEvent | Inr e \<Rightarrow> e)"

definition stored_log :: "Tables \<Rightarrow> string \<Rightarrow> HistoryEvent list" where
  "stored_log tb n = map decoded (filter (\<lambda>r. rh_instance_id r = n) (tb_history tb))"

lemma decoded_historyArguments [simp]: "exact_event pg e \<Longrightarrow> decoded (historyArguments pg e) = e"
  using scan_historyArguments [of pg e] by (simp add: decoded_def historyArguments_def)

text \<open>
  The invariant of the store: instance keys are unique, every history row is the row of an exact
  event of a known instance, and an instance row counts the events of a non-empty contiguous log.
\<close>

definition row_ok :: "PgConfig \<Rightarrow> Tables \<Rightarrow> HistoryRow \<Rightarrow> bool" where
  "row_ok pg tb r \<longleftrightarrow> exact_event pg (decoded r) \<and> historyArguments pg (decoded r) = r \<and>
     lockInstance (rh_instance_id r) tb \<noteq> None"

definition instance_ok :: "Tables \<Rightarrow> InstanceRow \<Rightarrow> bool" where
  "instance_ok tb r \<longleftrightarrow> (let es = stored_log tb (ri_instance_id r)
     in log_ok (ri_instance_id r) es \<and> es \<noteq> [] \<and> ri_sequence r = int (length es))"

definition store_ok :: "PgConfig \<Rightarrow> Tables \<Rightarrow> bool" where
  "store_ok pg tb \<longleftrightarrow> distinct (map ri_instance_id (tb_instances tb)) \<and>
     list_all (row_ok pg tb) (tb_history tb) \<and> list_all (instance_ok tb) (tb_instances tb)"

lemma lockInstance_None: "lockInstance n tb = None \<longleftrightarrow> n \<notin> set (map ri_instance_id (tb_instances tb))"
  by (auto simp: lockInstance_def find_None_iff)

lemma lockInstance_Some: "lockInstance n tb = Some r \<Longrightarrow> r \<in> set (tb_instances tb) \<and> ri_instance_id r = n"
  by (auto simp: lockInstance_def find_Some_iff)

lemma stored_log_rows:
  assumes "store_ok pg tb"
  shows "filter (\<lambda>r. rh_instance_id r = n) (tb_history tb) = map (historyArguments pg) (stored_log tb n)"
    "list_all (exact_event pg) (stored_log tb n)"
proof -
  have "\<forall>r \<in> set (tb_history tb). historyArguments pg (decoded r) = r \<and> exact_event pg (decoded r)"
    using assms by (simp add: store_ok_def row_ok_def list_all_iff)
  then show "filter (\<lambda>r. rh_instance_id r = n) (tb_history tb) = map (historyArguments pg) (stored_log tb n)"
      "list_all (exact_event pg) (stored_log tb n)"
    by (auto simp: stored_log_def list_all_iff intro!: map_idI [symmetric])
qed

lemma stored_log_missing:
  assumes "store_ok pg tb" "lockInstance n tb = None"
  shows "stored_log tb n = []"
proof -
  have "\<forall>r \<in> set (tb_history tb). rh_instance_id r \<noteq> n"
    using assms by (auto simp: store_ok_def row_ok_def list_all_iff)
  then show ?thesis by (simp add: stored_log_def)
qed

lemma stored_log_ok:
  assumes "store_ok pg tb"
  shows "log_ok n (stored_log tb n)"
proof (cases "lockInstance n tb")
  case None
  then show ?thesis
    using stored_log_missing [OF assms] by (simp add: log_ok_def same_instance_def contiguous_def)
next
  case (Some r)
  then show ?thesis
    using assms lockInstance_Some [OF Some] by (auto simp: store_ok_def instance_ok_def list_all_iff Let_def)
qed

lemma stored_log_known:
  "store_ok pg tb \<Longrightarrow> lockInstance n tb = Some r \<Longrightarrow> stored_log tb n \<noteq> [] \<and> ri_sequence r = int (length (stored_log tb n))"
  using lockInstance_Some [of n tb r] by (auto simp: store_ok_def instance_ok_def list_all_iff Let_def)

lemma known_log: "store_ok pg tb \<Longrightarrow> stored_log tb n \<noteq> [] \<Longrightarrow> lockInstance n tb \<noteq> None"
  using stored_log_missing by blast

section \<open>Commits append\<close>

text \<open>A plan of the engine whose instants the database keeps and whose positions fit its columns.\<close>

definition storable :: "PgConfig \<Rightarrow> Transition \<Rightarrow> bool" where
  "storable pg t \<longleftrightarrow> list_all (exact_event pg) (tr_events t) \<and> transitionSequenceFits t \<and>
     plan_events_ok (tr_instanceID t) (unat (tr_expectedSequence t)) (tr_events t)"

lemma stored_log_staged:
  assumes "storable pg t"
  shows "stored_log (staged pg t tb) n = stored_log tb n @ (if n = tr_instanceID t then tr_events t else [])"
proof -
  have e: "\<forall>e \<in> set (tr_events t). ev_instanceID e = tr_instanceID t \<and> exact_event pg e"
    using assms by (auto simp: storable_def plan_events_ok_def same_instance_def list_all_iff)
  then have "filter (\<lambda>r. rh_instance_id r = n) (map (historyArguments pg) (tr_events t)) =
      (if n = tr_instanceID t then map (historyArguments pg) (tr_events t) else [])"
    by (auto simp: filter_map o_def historyArguments_def filter_empty_conv intro: filter_True)
  moreover have "map (decoded \<circ> historyArguments pg) (tr_events t) = tr_events t"
    using e by (intro map_idI) simp
  ultimately show ?thesis by (simp add: stored_log_def staged_def)
qed

lemma contiguous_append:
  assumes "contiguous es" "\<forall>k < length fs. unat (ev_sequence (fs ! k)) = length es + Suc k"
  shows "contiguous (es @ fs)"
  using assms by (auto simp: contiguous_def nth_append)

lemma expected_length:
  assumes "store_ok pg tb" "stageable t tb"
  shows "unat (tr_expectedSequence t) = length (stored_log tb (tr_instanceID t))"
proof (cases "tr_expectedSequence t = 0")
  case True
  then show ?thesis using assms stored_log_missing [OF assms(1)] by (simp add: stageable_def)
next
  case False
  then obtain r where "lockInstance (tr_instanceID t) tb = Some r" "ri_sequence r = uint (tr_expectedSequence t)"
    using assms(2) by (auto simp: stageable_def)
  then show ?thesis using stored_log_known [OF assms(1)] by (metis of_nat_eq_iff uint_nat)
qed

lemma log_ok_staged:
  assumes "store_ok pg tb" "stageable t tb" "storable pg t"
  shows "log_ok (tr_instanceID t) (stored_log tb (tr_instanceID t) @ tr_events t)"
    "int (length (stored_log tb (tr_instanceID t) @ tr_events t)) = uint (ev_sequence (last (tr_events t)))"
proof -
  let ?es = "stored_log tb (tr_instanceID t)"
  have ne: "tr_events t \<noteq> []" and fit: "unat (ev_sequence (last (tr_events t))) \<le> maxPostgreSQLSequence"
    and pos: "\<forall>k < length (tr_events t). unat (ev_sequence (tr_events t ! k)) = length ?es + Suc k"
    and id: "same_instance (tr_instanceID t) (tr_events t)" and ok: "list_all event_ok (tr_events t)"
    using assms(3) expected_length [OF assms(1,2)]
    by (auto simp: storable_def plan_events_ok_def transitionSequenceFits_def exact_event_def list_all_iff)
  have last: "unat (ev_sequence (last (tr_events t))) = length (?es @ tr_events t)"
    using pos ne by (simp add: last_conv_nth)
  show "int (length (?es @ tr_events t)) = uint (ev_sequence (last (tr_events t)))"
    using last by (metis uint_nat)
  have "log_ok (tr_instanceID t) ?es" by (rule stored_log_ok [OF assms(1)])
  then show "log_ok (tr_instanceID t) (?es @ tr_events t)"
    using contiguous_append [OF _ pos] id ok last fit
    by (auto simp: log_ok_def same_instance_def list_all_iff event_ok_def maxPostgreSQLSequence_def)
qed

lemma staged_ids [simp]:
  "map ri_instance_id (tb_instances (staged pg t tb)) = map ri_instance_id (tb_instances tb) @
     (if tr_expectedSequence t = 0 then [tr_instanceID t] else [])"
  by (simp add: staged_def opened_def first_row_def advance_row_def)

lemma advanced_instance_ok:
  assumes ok: "store_ok pg tb" and st: "stageable t tb" "storable pg t"
    and r: "r \<in> set (tb_instances (opened pg t tb))"
  shows "instance_ok (staged pg t tb) (advance_row pg t r)"
proof (cases "ri_instance_id r = tr_instanceID t")
  case True
  have "ri_sequence r = uint (tr_expectedSequence t)"
  proof (cases "tr_expectedSequence t = 0")
    case True
    with st(1) r \<open>ri_instance_id r = tr_instanceID t\<close> have "r = first_row pg t"
      by (auto simp: stageable_def lockInstance_None opened_def image_iff)
    with True show ?thesis by (simp add: first_row_def)
  next
    case False
    with r have "r \<in> set (tb_instances tb)" by (simp add: opened_def)
    then have "ri_sequence r = int (length (stored_log tb (tr_instanceID t)))"
      using ok True by (auto simp: store_ok_def instance_ok_def list_all_iff Let_def)
    then show ?thesis using expected_length [OF ok st(1)] by (simp add: uint_nat)
  qed
  moreover have "tr_events t \<noteq> []" using st(2) by (simp add: storable_def transitionSequenceFits_def)
  ultimately show ?thesis
    using log_ok_staged [OF ok st] stored_log_staged [OF st(2)] True
    by (simp add: instance_ok_def advance_row_def Let_def)
next
  case False
  then have "r \<in> set (tb_instances tb)" using r by (auto simp: opened_def first_row_def split: if_splits)
  with ok have "instance_ok tb r" by (simp add: store_ok_def list_all_iff)
  then show ?thesis
    using False stored_log_staged [OF st(2)] by (simp add: instance_ok_def advance_row_def)
qed

lemma staged_row_ok:
  assumes "store_ok pg tb" "stageable t tb" "storable pg t" "r \<in> set (tb_history (staged pg t tb))"
  shows "row_ok pg (staged pg t tb) r"
proof -
  have known: "lockInstance n (staged pg t tb) \<noteq> None" if "lockInstance n tb \<noteq> None \<or> n = tr_instanceID t" for n
    using that assms(2) unfolding lockInstance_None staged_ids
    by (force simp: stageable_def dest: lockInstance_Some split: if_splits)
  consider "r \<in> set (tb_history tb)" | e where "e \<in> set (tr_events t)" "r = historyArguments pg e"
    using assms(4) by (auto simp: staged_def)
  then show ?thesis
  proof cases
    case 1
    then show ?thesis using assms(1) known by (simp add: store_ok_def row_ok_def list_all_iff)
  next
    case 2
    moreover have "exact_event pg e" "ev_instanceID e = tr_instanceID t"
      using 2 assms(3) by (auto simp: storable_def list_all_iff plan_events_ok_def same_instance_def)
    ultimately show ?thesis using known by (simp add: row_ok_def) (simp add: historyArguments_def)
  qed
qed

lemma store_ok_staged:
  assumes "store_ok pg tb" "stageable t tb" "storable pg t"
  shows "store_ok pg (staged pg t tb)"
proof -
  have "distinct (map ri_instance_id (tb_instances (staged pg t tb)))"
    using assms(1,2) by (auto simp: store_ok_def stageable_def lockInstance_None simp del: set_map)
  moreover have "list_all (instance_ok (staged pg t tb)) (tb_instances (staged pg t tb))"
    using advanced_instance_ok [OF assms] by (auto simp: list_all_iff) (auto simp: staged_def)
  moreover have "list_all (row_ok pg (staged pg t tb)) (tb_history (staged pg t tb))"
    using staged_row_ok [OF assms] by (simp add: list_all_iff)
  ultimately show ?thesis by (simp add: store_ok_def)
qed

section \<open>Reading history\<close>

lemma later_rows:
  assumes "contiguous es"
  shows "filter (\<lambda>r. rh_sequence r > int a) (map (historyArguments pg) es) = map (historyArguments pg) (drop a es)"
  using assms
proof (induction es rule: rev_induct)
  case Nil
  then show ?case by simp
next
  case (snoc e es)
  have "contiguous es" using snoc.prems by (auto simp: contiguous_def nth_append split: if_splits)
  moreover have "unat (ev_sequence e) = Suc (length es)"
    using snoc.prems by (auto simp: contiguous_def nth_append dest!: spec [of _ "length es"])
  then have "uint (ev_sequence e) = int (Suc (length es))" by (metis uint_nat)
  ultimately show ?case using snoc.IH by (auto simp: historyArguments_def)
qed

lemma rows_sorted:
  assumes "contiguous es"
  shows "sorted (map rh_sequence (map (historyArguments pg) es))"
proof -
  have "uint (ev_sequence (es ! k)) = int (Suc k)" if "k < length es" for k
    using assms that by (simp add: contiguous_def uint_nat del: uint_nat [symmetric])
  then show ?thesis by (auto simp: sorted_iff_nth_mono historyArguments_def)
qed

lemma selectHistory_log:
  assumes "store_ok pg tb"
  shows "selectHistory n (int a) l tb = map (historyArguments pg) (take l (drop a (stored_log tb n)))"
proof -
  let ?es = "stored_log tb n"
  have c: "contiguous ?es" using stored_log_ok [OF assms, of n] by (simp add: log_ok_def)
  have "filter (\<lambda>r. rh_instance_id r = n \<and> rh_sequence r > int a) (tb_history tb) =
      filter (\<lambda>r. rh_sequence r > int a) (filter (\<lambda>r. rh_instance_id r = n) (tb_history tb))"
    by (simp add: conj_commute)
  also have "\<dots> = map (historyArguments pg) (drop a ?es)"
    by (simp only: stored_log_rows(1) [OF assms] later_rows [OF c])
  moreover have "sorted (map rh_sequence (map (historyArguments pg) (drop a ?es)))"
    using rows_sorted [OF c] by (metis drop_map sorted_wrt_drop)
  ultimately show ?thesis
    by (simp only: selectHistory_def sorted_sort_id sort_key_id_if_sorted take_map)
qed

lemma scan_log:
  "list_all (exact_event pg) es \<Longrightarrow> same_instance n es \<Longrightarrow>
     scan_rows (scanHistoryEvent n) (map (historyArguments pg) es) = Inr es"
  by (induction es) (auto simp: same_instance_def scan_historyArguments)

text \<open>What the tail of \<open>History\<close> makes of the rows it selected.\<close>

lemma history_rows_page:
  assumes "store_ok pg tb" "query_valid q"
  shows "\<exists>es. scan_rows (scanHistoryEvent (hq_instanceID q))
      (selectHistory (hq_instanceID q) (uint (hq_afterSequence q)) (unat (hq_limit q) + 1) tb) = Inr es \<and>
     NewHistoryPage q (take (unat (hq_limit q)) es) (length es > unat (hq_limit q)) =
       Inr (page_of (stored_log tb (hq_instanceID q)) q)"
proof -
  let ?log = "stored_log tb (hq_instanceID q)"
  let ?es = "take (unat (hq_limit q) + 1) (drop (unat (hq_afterSequence q)) ?log)"
  have ok: "log_ok (hq_instanceID q) ?log" by (rule stored_log_ok [OF assms(1)])
  have "list_all (exact_event pg) ?es" "same_instance (hq_instanceID q) ?es"
    using stored_log_rows(2) [OF assms(1), of "hq_instanceID q"] ok
    by (auto simp: list_all_iff log_ok_def same_instance_def dest!: in_set_takeD in_set_dropD)
  then have "scan_rows (scanHistoryEvent (hq_instanceID q))
      (selectHistory (hq_instanceID q) (uint (hq_afterSequence q)) (unat (hq_limit q) + 1) tb) = Inr ?es"
    unfolding uint_nat selectHistory_log [OF assms(1)] by (rule scan_log)
  moreover have "NewHistoryPage q (take (unat (hq_limit q)) ?es) (length ?es > unat (hq_limit q)) = Inr (page_of ?log q)"
  proof -
    have "hp_events (page_of ?log q) = take (unat (hq_limit q)) ?es"
      "hp_hasMore (page_of ?log q) \<longleftrightarrow> length ?es > unat (hq_limit q)"
      by (auto simp: min_def)
    then show ?thesis using page_of_accepted [OF assms(2) ok] by simp
  qed
  ultimately show ?thesis by blast
qed

lemma triple_History:
  assumes ctx: "\<And>c. ctx = Some c \<Longrightarrow> quiet c" and ok: "store_ok pg T" and q: "query_valid q"
  shows "triple (at_rest T) (History ctx q) (\<lambda>r db. at_rest T db \<and>
     (\<forall>page. r = Inr page \<longrightarrow> page = page_of (stored_log T (hq_instanceID q)) q))"
  unfolding History_def
proof (rule triple_guarded [OF ctx], assumption, goal_cases)
  case 1
  obtain es where es: "scan_rows (scanHistoryEvent (hq_instanceID q))
      (selectHistory (hq_instanceID q) (uint (hq_afterSequence q)) (unat (hq_limit q) + 1) T) = Inr es"
      "NewHistoryPage q (take (unat (hq_limit q)) es) (length es > unat (hq_limit q)) =
       Inr (page_of (stored_log T (hq_instanceID q)) q)"
    using history_rows_page [OF ok q] by blast
  let ?Q = "\<lambda>r db. at_rest T db \<and> (\<forall>page. r = Inr page \<longrightarrow> page = page_of (stored_log T (hq_instanceID q)) q)"
  have page: "triple (at_rest T) (check rows_Err (\<lambda>e. fails (f e)) (\<lambda>_.
      let hasMore = length es > unat (hq_limit q)
      in case NewHistoryPage q (take (unat (hq_limit q)) es) hasMore of Inl e \<Rightarrow> fails (g e) | Inr page \<Rightarrow> gives page)) ?Q"
    for f g
    by (rule triple_check [OF triple_rows_Err]) (simp_all add: es(2))
  have rows: "triple (at_rest T) (check (db_Query (selectHistory (hq_instanceID q) (uint (hq_afterSequence q))
      (unat (hq_limit q) + 1))) (\<lambda>e. fails (f e)) (\<lambda>rows. case scan_rows (scanHistoryEvent (hq_instanceID q)) rows of
        Inl e \<Rightarrow> fails (f' e)
      | Inr events \<Rightarrow> check rows_Err (\<lambda>e. fails (f'' e)) (\<lambda>_.
          let hasMore = length events > unat (hq_limit q)
          in case NewHistoryPage q (take (unat (hq_limit q)) events) hasMore of
               Inl e \<Rightarrow> fails (g e) | Inr page \<Rightarrow> gives page))) ?Q" for f f' f'' g
  proof (rule triple_check [OF triple_db_Query], goal_cases)
    case (2 rows)
    show ?case unfolding sum.case by (rule triple_given) (use page es(1) in simp)
  qed simp
  show ?case
  proof (rule triple_check [OF triple_db_Query], goal_cases)
    case (2 known)
    show ?case unfolding sum.case by (rule triple_given) (use rows in \<open>simp add: triple_def\<close>)
  qed simp
qed simp

text \<open>A context that stays open and consumes no faults.\<close>

definition open_ctx :: "Db ctx \<Rightarrow> bool" where
  "open_ctx c \<longleftrightarrow> quiet c \<and> (\<forall>db. cx_err (fst (run_state c db)) = None \<and>
     db_faults (snd (run_state c db)) = db_faults db)"

lemma run_without_faults:
  assumes "db_faults db = []"
  shows "run_state (db_Query f) db = (Inr (f (db_tables db)), db)" "run_state rows_Err db = (Inr (), db)"
  using assms by (simp_all add: db_Query_def rows_Err_def next_fault_def)

lemma History_available:
  assumes ok: "store_ok pg (db_tables db)" and q: "query_valid q" and c: "open_ctx c" and fine: "db_faults db = []"
    and after: "unat (hq_afterSequence q) \<le> length (stored_log (db_tables db) (hq_instanceID q))"
    and ne: "stored_log (db_tables db) (hq_instanceID q) \<noteq> []"
  shows "\<exists>page db'. run_state (History (Some c) q) db = (Inr page, db') \<and> db_faults db' = []"
proof -
  obtain seen db' where o: "run_state c db = (seen, db')" by fastforce
  have db': "cx_err seen = None" "db_faults db' = []" "db_tables db' = db_tables db"
    using c fine o by (auto simp: open_ctx_def quiet_def dest!: spec [of _ db])
  have "unat (hq_afterSequence q) \<le> maxPostgreSQLSequence"
    using stored_log_ok [OF ok, of "hq_instanceID q"] after by (simp add: log_ok_def maxPostgreSQLSequence_def)
  moreover have "lockInstance (hq_instanceID q) (db_tables db) \<noteq> None" by (rule known_log [OF ok ne])
  ultimately show ?thesis
    using history_rows_page [OF ok q] q o db'
    by (auto simp: History_def guarded_def run_check run_without_faults Let_def split: sum.splits)
qed

text \<open>The store as the reader of the inspection code.\<close>

interpretation pg_log: log_reader "\<lambda>c. History (Some c)" quiet "\<lambda>db. store_ok pg (db_tables db)"
    "\<lambda>db. stored_log (db_tables db)" for pg
proof (unfold_locales, goal_cases)
  case (1 ctx w q page w')
  then have "triple (at_rest (db_tables w)) (History (Some ctx) q) (\<lambda>r db. at_rest (db_tables w) db \<and>
      (\<forall>page. r = Inr page \<longrightarrow> page = page_of (stored_log (db_tables w) (hq_instanceID q)) q))"
    by (intro triple_History) auto
  from tripleD [OF this _ 1(4)] 1(2) show ?case by (simp add: at_rest_def)
next
  case (2 ctx w c w')
  then show ?case by (auto simp: quiet_def dest!: spec [of _ w])
qed

interpretation pg_available: available_reader "\<lambda>c. History (Some c)" quiet "\<lambda>db. store_ok pg (db_tables db)"
    "\<lambda>db. stored_log (db_tables db)" "\<lambda>db. db_faults db = []" open_ctx for pg
proof (unfold_locales, goal_cases)
  case (1 ctx w q)
  then show ?case by (intro History_available)
next
  case (2 ctx w)
  then show ?case by (cases "run_state ctx w") (auto simp: open_ctx_def dest!: spec [of _ w])
next
  case (3 ctx)
  then show ?case by (simp add: open_ctx_def)
next
  case (4 w n)
  then show ?case by (rule stored_log_ok)
qed

end
