(* ===== verification/Store_Leases.thy ===== *)
theory Store_Leases
  imports Store_Safety
begin

text \<open>
  Work under leases: a claim takes only due work and moves its fence, and renewing, completing or
  failing work changes a row only under the fence that its current lease has.
\<close>

section \<open>Single statements\<close>

definition exec_post :: "(Tables \<Rightarrow> ('a \<times> Tables) option) \<Rightarrow> Tables \<Rightarrow> 'a result \<Rightarrow> Tables \<Rightarrow> bool" where
  "exec_post stmt T r T' \<longleftrightarrow> (case r of
     Inl _ \<Rightarrow> T' = T \<or> (\<exists>n. stmt T = Some (n, T')) | Inr n \<Rightarrow> stmt T = Some (n, T'))"

lemma triple_databaseExec:
  "triple (at_rest T) (databaseExec stmt) (\<lambda>r db. exec_post stmt T r (db_tables db))"
  unfolding databaseExec_def
proof (rule triple_check [OF triple_Begin], goal_cases)
  case (2 u)
  have "triple (inside T T) (check (tx_Exec stmt) fails (\<lambda>n. check tx_Commit fails (\<lambda>_. gives n)))
      (\<lambda>r db. exec_post stmt T r (db_tables db))"
  proof (rule triple_check [OF triple_change], goal_cases)
    case (2 n)
    have "triple (inside T tb) (check tx_Commit fails (\<lambda>_. gives n)) (\<lambda>r db. exec_post stmt T r (db_tables db))"
      if "stmt T = Some (n, tb)" for tb
      using that by (intro triple_check [OF triple_Commit]) (auto simp: at_rest_def exec_post_def)
    then show ?case by (auto intro!: triple_ex triple_conj)
  qed (simp add: inside_def exec_post_def)
  then show ?case unfolding sum.case by (rule triple_rollback_after)
qed (simp add: at_rest_def exec_post_def)

lemma triple_db_change:
  "triple (at_rest T) (db_change stmt) (\<lambda>r db. exec_post stmt T r (db_tables db))"
  unfolding db_change_def
  by (rule triple_bind [OF triple_next_fault(2)])
    (auto split: fault.split option.splits prod.splits intro!: tripleI simp: at_rest_def exec_post_def)

section \<open>Finishing work\<close>

text \<open>Only the work table differs, and there only rows that satisfy \<open>P\<close>; keys and fences stay.\<close>

definition only_changes :: "(WorkRow \<Rightarrow> bool) \<Rightarrow> Tables \<Rightarrow> Tables \<Rightarrow> bool" where
  "only_changes P T T' \<longleftrightarrow> T' = T\<lparr>tb_work := tb_work T'\<rparr> \<and>
     list_all2 (\<lambda>r r'. r' = r \<or> (P r \<and> rw_work_id r' = rw_work_id r \<and> rw_lease_token r' = rw_lease_token r))
       (tb_work T) (tb_work T')"

lemma only_changes_refl [simp]: "only_changes P T T"
  by (simp add: only_changes_def list_all2_same)

lemma only_changes_map:
  "(\<And>r. rw_work_id (f r) = rw_work_id r \<and> rw_lease_token (f r) = rw_lease_token r) \<Longrightarrow>
     only_changes P T (T\<lparr>tb_work := map (\<lambda>r. if P r then f r else r) (tb_work T)\<rparr>)"
  by (simp add: only_changes_def list_all2_conv_all_nth)

lemma only_changes_mono:
  "only_changes P T T' \<Longrightarrow> (\<And>r. P r \<Longrightarrow> Q r) \<Longrightarrow> only_changes Q T T'"
  unfolding only_changes_def by (auto elim!: list_all2_mono)

lemma only_changes_instances: "only_changes P T T' \<Longrightarrow> tb_instances T' = tb_instances T"
  by (cases T') (simp add: only_changes_def)

definition fenced_post :: "(WorkRow \<Rightarrow> bool) \<Rightarrow> Tables \<Rightarrow> unit result \<Rightarrow> Tables \<Rightarrow> bool" where
  "fenced_post P T r T' \<longleftrightarrow> only_changes P T T' \<and> (r = Inr () \<longrightarrow> length (filter P (tb_work T)) = 1)"

lemma fenced_post_error [simp]: "fenced_post P T (Inl e) T"
  by (simp add: fenced_post_def)

lemma triple_fencedExec:
  assumes "\<And>r. rw_work_id (f r) = rw_work_id r \<and> rw_lease_token (f r) = rw_lease_token r"
  shows "triple (at_rest T) (fencedExec (updateWork P f) operation) (\<lambda>r db. fenced_post P T r (db_tables db))"
  unfolding fencedExec_def
  by (rule triple_check [OF triple_databaseExec])
    (auto simp: fenced_post_def exec_post_def updateWork_def dest!: sym [of _ "db_tables _"]
      intro: only_changes_map [OF assms])

lemma triple_Complete:
  assumes "\<And>c. ctx = Some c \<Longrightarrow> quiet c"
  shows "triple (at_rest T) (Complete pg ctx completion) (\<lambda>r db. fenced_post (fenced (wc_workID completion)
     (wc_owner completion) (uint (wc_token completion)) (stamped pg (wc_completedAt completion))) T r (db_tables db))"
  unfolding Complete_def completeWork_def
  by (rule triple_guarded [OF assms], assumption, rule triple_fencedExec) (simp_all add: at_rest_def)

lemma triple_Fail:
  assumes "\<And>c. ctx = Some c \<Longrightarrow> quiet c"
  shows "triple (at_rest T) (Fail pg ctx failure) (\<lambda>r db. fenced_post (fenced (wf_workID failure)
     (wf_owner failure) (uint (wf_token failure)) (stamped pg (wf_failedAt failure))) T r (db_tables db))"
  unfolding Fail_def retryWork_def deadLetterWork_def
  by (rule triple_guarded [OF assms], assumption)
    (simp_all add: triple_fencedExec at_rest_def)

lemma renewWork_changes:
  "renewWork n owner token expires now T = (row, T') \<Longrightarrow> only_changes (fenced n owner token now) T T' \<and>
     (row \<noteq> None \<longrightarrow> list_ex (fenced n owner token now) (tb_work T))"
  by (auto simp: renewWork_def Let_def find_Some_iff list_ex_length
      intro!: only_changes_mono [OF only_changes_map [where P = "\<lambda>r. fenced n owner token now r \<and> rw_deadline r > now"]])

lemma triple_Renew:
  assumes "\<And>c. ctx = Some c \<Longrightarrow> quiet c"
  shows "triple (at_rest T) (Renew pg ctx renewal) (\<lambda>r db. only_changes (fenced (rn_workID renewal)
     (rn_owner renewal) (uint (rn_token renewal)) (stamped pg (rn_now renewal))) T (db_tables db) \<and>
     ((\<exists>lease. r = Inr lease) \<longrightarrow> list_ex (fenced (rn_workID renewal)
     (rn_owner renewal) (uint (rn_token renewal)) (stamped pg (rn_now renewal))) (tb_work T)))"
  unfolding Renew_def
  by (rule triple_guarded [OF assms], assumption, rule triple_check [OF triple_db_change])
    (auto simp: at_rest_def exec_post_def split: option.split sum.split dest!: renewWork_changes)

section \<open>Claiming work\<close>

lemma scan_rows_Inr: "scan_rows scan rows = Inr xs \<longleftrightarrow> list_all2 (\<lambda>r x. scan r = Inr x) rows xs"
proof (induction rows arbitrary: xs)
  case (Cons row rows)
  then show ?case by (cases "scan_rows scan rows") (auto simp: list_all2_Cons1 split: sum.splits)
qed auto

definition work_keyed :: "Tables \<Rightarrow> bool" where
  "work_keyed tb \<longleftrightarrow> distinct (map rw_work_id (tb_work tb))"

lemma scanWorkLease_Inr:
  assumes "scanWorkLease row owner now = Inr lease" "rw_lease_token row < 2 ^ 63"
  shows "pw_id (wl_work lease) = rw_work_id row" "wl_owner lease = owner"
    "uint (wl_token lease) = rw_lease_token row" "lease_Valid lease"
proof -
  from assms(1) have sane: "work_row_sane row"
    and work: "pw_id (wl_work lease) = rw_work_id row" "wl_owner lease = owner"
      "wl_token lease = of_int (rw_lease_token row)" "lease_Valid lease"
    by (auto simp: scanWorkLease_def row_work_spec_def NewPendingWork_Inr NewWorkLease_def Let_def
        split: option.splits if_splits sum.splits)
  from sane have "0 \<le> rw_lease_token row" by (simp add: work_row_sane_def)
  then show "uint (wl_token lease) = rw_lease_token row"
    using assms(2) work(3) by (simp add: uint_word_of_int_eq take_bit_int_eq_self_iff)
  show "pw_id (wl_work lease) = rw_work_id row" "wl_owner lease = owner" "lease_Valid lease"
    by (fact work)+
qed

definition claimed_post :: "PgConfig \<Rightarrow> WorkClaimRequest \<Rightarrow> Tables \<Rightarrow> Tables \<Rightarrow> bool" where
  "claimed_post pg request T T' \<longleftrightarrow> T' = T\<lparr>tb_work := tb_work T'\<rparr> \<and>
     list_all2 (\<lambda>r r'. r' = r \<or> (due (stamped pg (cr_now request)) r \<and>
         r' = claim_row (cr_owner request) (stamped pg (Add (cr_now request) (cr_leaseDuration request))) r))
       (tb_work T) (tb_work T')"

lemma claimed_post_refl [simp]: "claimed_post pg request T T"
  by (simp add: claimed_post_def list_all2_same)

lemma in_candidates:
  assumes "work_keyed T" "r \<in> set (tb_work T)" "rw_work_id r \<in> set (map rw_work_id (claim_candidates pg now l T))"
  shows "due now r"
proof -
  obtain s where s: "s \<in> set (claim_candidates pg now l T)" "rw_work_id s = rw_work_id r" using assms(3) by auto
  then have "s \<in> set (tb_work T)" "due now s"
    by (auto simp: claim_candidates_def Let_def dest!: in_set_takeD)
  then have "s = r" using s(2) assms(1,2) by (auto simp: work_keyed_def distinct_map dest: inj_onD)
  then show ?thesis using \<open>due now s\<close> by simp
qed

lemma candidates_count:
  assumes "work_keyed T"
  shows "length (filter (\<lambda>r. rw_work_id r \<in> set (map rw_work_id (claim_candidates pg now l T))) (tb_work T)) \<le> l"
proof -
  let ?ids = "set (map rw_work_id (claim_candidates pg now l T))"
  have "length (filter (\<lambda>r. rw_work_id r \<in> ?ids) (tb_work T)) =
      card (rw_work_id ` set (filter (\<lambda>r. rw_work_id r \<in> ?ids) (tb_work T)))"
    using assms unfolding work_keyed_def
    by (metis (no_types, lifting) distinct_card distinct_map_filter length_map list.set_map)
  also have "\<dots> \<le> card ?ids" by (intro card_mono) auto
  also have "\<dots> \<le> length (map rw_work_id (claim_candidates pg now l T))" by (rule card_length)
  also have "\<dots> \<le> l" by (simp add: claim_candidates_def Let_def)
  finally show ?thesis .
qed

lemma claimWork_Some:
  assumes "claimWork pg (stamped pg (cr_now request)) l (cr_owner request)
      (stamped pg (Add (cr_now request) (cr_leaseDuration request))) T = Some (rows, T')" "work_keyed T"
  shows "claimed_post pg request T T'" "length rows \<le> l" "distinct (map rw_work_id rows)"
    "\<And>row. row \<in> set rows \<Longrightarrow> rw_lease_token row < 2 ^ 63 \<and> (\<exists>r \<in> set (tb_work T). due (stamped pg (cr_now request)) r \<and>
      row = claim_row (cr_owner request) (stamped pg (Add (cr_now request) (cr_leaseDuration request))) r)"
proof -
  let ?now = "stamped pg (cr_now request)"
  let ?take = "claim_row (cr_owner request) (stamped pg (Add (cr_now request) (cr_leaseDuration request)))"
  let ?ids = "set (map rw_work_id (claim_candidates pg ?now l T))"
  let ?picked = "filter (\<lambda>r. rw_work_id r \<in> ?ids) (tb_work T)"
  have rows: "rows = sort_key (work_key pg) (map ?take ?picked)"
      "T' = T\<lparr>tb_work := map (\<lambda>r. if rw_work_id r \<in> ?ids then ?take r else r) (tb_work T)\<rparr>"
      "\<forall>r \<in> set (map ?take ?picked). rw_lease_token r < 2 ^ 63"
    using assms(1) by (auto simp: claimWork_def Let_def not_le split: if_splits)
  have due: "due ?now r" if "r \<in> set (tb_work T)" "rw_work_id r \<in> ?ids" for r
    using in_candidates [OF assms(2)] that by blast
  show "claimed_post pg request T T'"
    unfolding rows(2) claimed_post_def using due by (auto simp: list_all2_conv_all_nth simp del: set_map)
  show "length rows \<le> l" using candidates_count [OF assms(2)] by (simp add: rows(1))
  have "distinct (map rw_work_id (map ?take ?picked))"
    using assms(2) by (simp add: work_keyed_def claim_row_def o_def distinct_map_filter)
  then show "distinct (map rw_work_id rows)"
    unfolding rows(1) by (simp only: distinct_map [of rw_work_id] distinct_sort set_sort)
  show "rw_lease_token row < 2 ^ 63 \<and> (\<exists>r \<in> set (tb_work T). due ?now r \<and> row = ?take r)"
    if "row \<in> set rows" for row
  proof -
    have row: "row \<in> set (map ?take ?picked)" using that rows(1) by (simp only: set_sort)
    then obtain r where "r \<in> set ?picked" "row = ?take r" by (auto simp only: set_map image_iff)
    then show ?thesis using due [of r] rows(3) row by (auto simp del: set_map)
  qed
qed

definition leases_ok :: "PgConfig \<Rightarrow> WorkClaimRequest \<Rightarrow> Tables \<Rightarrow> WorkLease list \<Rightarrow> bool" where
  "leases_ok pg request T leases \<longleftrightarrow> length leases \<le> unat (cr_limit request) \<and>
     distinct (map (\<lambda>l. pw_id (wl_work l)) leases) \<and>
     (\<forall>l \<in> set leases. lease_Valid l \<and> wl_owner l = cr_owner request \<and>
        (\<exists>r \<in> set (tb_work T). rw_work_id r = pw_id (wl_work l) \<and> due (stamped pg (cr_now request)) r \<and>
           uint (wl_token l) = rw_lease_token r + 1))"

lemma leases_of_rows:
  assumes "scan_rows (\<lambda>row. scanWorkLease row (cr_owner request) (cr_now request)) rows = Inr leases"
    "length rows \<le> unat (cr_limit request)" "distinct (map rw_work_id rows)"
    "\<And>row. row \<in> set rows \<Longrightarrow> rw_lease_token row < 2 ^ 63 \<and> (\<exists>r \<in> set (tb_work T). due (stamped pg (cr_now request)) r \<and>
      row = claim_row (cr_owner request) (stamped pg (Add (cr_now request) (cr_leaseDuration request))) r)"
  shows "leases_ok pg request T leases"
proof -
  have all: "list_all2 (\<lambda>row l. scanWorkLease row (cr_owner request) (cr_now request) = Inr l) rows leases"
    using assms(1) by (simp add: scan_rows_Inr)
  then have each: "scanWorkLease (rows ! k) (cr_owner request) (cr_now request) = Inr (leases ! k) \<and>
      rw_lease_token (rows ! k) < 2 ^ 63 \<and> k < length rows" if "k < length leases" for k
    using that assms(4) by (simp add: list_all2_conv_all_nth)
  have ids: "map (\<lambda>l. pw_id (wl_work l)) leases = map rw_work_id rows"
    using all each scanWorkLease_Inr(1) by (intro nth_equalityI) (auto simp: list_all2_conv_all_nth)
  have "lease_Valid (leases ! k) \<and> wl_owner (leases ! k) = cr_owner request \<and>
      (\<exists>r \<in> set (tb_work T). rw_work_id r = pw_id (wl_work (leases ! k)) \<and> due (stamped pg (cr_now request)) r \<and>
         uint (wl_token (leases ! k)) = rw_lease_token r + 1)" if k: "k < length leases" for k
  proof -
    note scan = scanWorkLease_Inr [OF conjunct1 [OF each [OF k]] conjunct1 [OF conjunct2 [OF each [OF k]]]]
    obtain r where "r \<in> set (tb_work T)" "due (stamped pg (cr_now request)) r"
        "rows ! k = claim_row (cr_owner request) (stamped pg (Add (cr_now request) (cr_leaseDuration request))) r"
      using assms(4) [of "rows ! k"] each [OF k] by auto
    then show ?thesis using scan by (auto simp: claim_row_def intro!: bexI [of _ r])
  qed
  then show ?thesis
    using ids assms(2,3) by (auto simp: leases_ok_def in_set_conv_nth dest: map_eq_imp_length_eq)
qed

lemma triple_Claim:
  assumes "\<And>c. ctx = Some c \<Longrightarrow> quiet c" "work_keyed T"
  shows "triple (at_rest T) (Claim pg ctx request) (\<lambda>r db. claimed_post pg request T (db_tables db) \<and>
     (case r of Inl _ \<Rightarrow> True | Inr leases \<Rightarrow> leases_ok pg request T leases))"
  unfolding Claim_def
proof (rule triple_guarded [OF assms(1)], assumption, goal_cases)
  case 1
  let ?stmt = "claimWork pg (stamped pg (cr_now request)) (unat (cr_limit request)) (cr_owner request)
      (stamped pg (Add (cr_now request) (cr_leaseDuration request)))"
  show ?case
  proof (rule triple_check [OF triple_db_change], goal_cases)
    case (1 e)
    then show ?case using claimWork_Some(1) [OF _ assms(2)] by (auto simp: exec_post_def)
  next
    case (2 rows)
    have "triple (at_rest T') (case scan_rows (\<lambda>row. scanWorkLease row (cr_owner request) (cr_now request)) rows of
          Inl e \<Rightarrow> fails (newOperationError ''scan claimed work'' e)
        | Inr leases \<Rightarrow> check rows_Err (\<lambda>e. fails (newOperationError ''iterate claimed work'' e)) (\<lambda>_. gives leases))
       (\<lambda>r db. claimed_post pg request T (db_tables db) \<and>
         (case r of Inl _ \<Rightarrow> True | Inr leases \<Rightarrow> leases_ok pg request T leases))"
      if st: "?stmt T = Some (rows, T')" for T'
      using claimWork_Some [OF st assms(2)] leases_of_rows
      by (auto split: sum.split intro!: triple_check [OF triple_rows_Err] simp: at_rest_def)
    then show ?case by (auto simp: triple_def exec_post_def at_rest_def)
  qed
qed (simp add: at_rest_def)

end
