(* ===== verification/Store_Dead_Letters.thy ===== *)
theory Store_Dead_Letters
  imports Store_Safety
begin

text \<open>
  Resolving dead letters through the PostgreSQL store: what \<open>ResolveDeadLetter\<close> writes, and that
  the transaction around it writes that or nothing.
\<close>

definition resolved_tables :: "PgConfig \<Rightarrow> DeadLetterResolution \<Rightarrow> Tables \<Rightarrow> Tables" where
  "resolved_tables pg res T = T\<lparr>tb_resolutions := tb_resolutions T @ [resolution_row pg res],
     tb_work := (if dl_Action res = DeadLetterRetry
       then map (\<lambda>r. if dead_fence (dl_WorkID res) (uint (dl_Token res)) r
         then r\<lparr>rw_state := 1, rw_available_at := stamped pg (dl_RetryAt res), rw_deadline := stamped pg (dl_Deadline res),
                rw_failure_code := [], rw_completed_at := None, rw_lease_owner := None, rw_lease_expires_at := None\<rparr>
         else r) (tb_work T)
       else tb_work T)\<rparr>"

text \<open>The command is new, the work is dead under the given fence, and no command has resolved that fence.\<close>

definition resolvable :: "DeadLetterResolution \<Rightarrow> Tables \<Rightarrow> bool" where
  "resolvable res T \<longleftrightarrow> findResolution (dl_CommandID res) T = None \<and>
     list_ex (dead_fence (dl_WorkID res) (uint (dl_Token res))) (tb_work T) \<and>
     \<not> list_ex (\<lambda>s. rr_work_id s = dl_WorkID res \<and> rr_lease_token s = uint (dl_Token res)) (tb_resolutions T)"

abbreviation resolution_staged :: "PgConfig \<Rightarrow> DeadLetterResolution \<Rightarrow> Tables \<Rightarrow> bool result \<Rightarrow> Db \<Rightarrow> bool" where
  "resolution_staged pg res T \<equiv> staging_post (resolvable res T) (resolved_tables pg res T)
     (findResolution (dl_CommandID res) T = Some (dl_fingerprint res)) T"

lemma triple_exactDeadLetterResolution:
  "triple (inside T tb) (exactDeadLetterResolution res) (\<lambda>r db. inside T tb db \<and> (case r of Inl _ \<Rightarrow> True
     | Inr b \<Rightarrow> findResolution (dl_CommandID res) tb = (if b then Some (dl_fingerprint res) else None)))"
  unfolding exactDeadLetterResolution_def
  by (rule triple_check [OF triple_QueryRow]) (auto split: option.split)

lemma find_list_ex: "find P xs \<noteq> None \<longleftrightarrow> list_ex P xs"
  by (auto simp: find_None_iff list_ex_iff)

lemma insertResolution_Some:
  assumes "insertResolution (resolution_row pg res) T = Some (row, tb)"
    "list_ex (dead_fence (dl_WorkID res) (uint (dl_Token res))) (tb_work T)"
  shows "(row = None \<and> tb = T) \<or> (row = Some (dl_fingerprint res) \<and> resolvable res T \<and>
     tb = T\<lparr>tb_resolutions := tb_resolutions T @ [resolution_row pg res]\<rparr>)"
  using assms
  by (auto simp: insertResolution_def resolvable_def findResolution_def find_None_iff list_ex_iff resolution_row_def
      split: if_splits)

lemma triple_record_resolution:
  assumes "list_ex (dead_fence (dl_WorkID res) (uint (dl_Token res))) (tb_work T)"
  shows "triple (inside T T) (check (tx_change (insertResolution (resolution_row pg res)))
      (\<lambda>e. fails (notCommitted e)) (\<lambda>row. case row of
        None \<Rightarrow>
          check (exactDeadLetterResolution res) (\<lambda>e. fails (notCommitted e)) (\<lambda>again.
            if again then gives False else fails (notCommitted ErrStoreConflict))
      | Some inserted \<Rightarrow>
          if inserted \<noteq> dl_fingerprint res then fails (notCommitted ErrStoreConflict)
          else if dl_Action res = DeadLetterRetry
          then check (tx_Exec (retryDeadLetter (dl_WorkID res) (uint (dl_Token res))
                        (stamped pg (dl_RetryAt res)) (stamped pg (dl_Deadline res))))
                 (\<lambda>e. fails (notCommitted e)) (\<lambda>n.
                   if n \<noteq> 1 then fails (notCommitted ErrStaleWorkLease) else gives True)
          else gives True)) (resolution_staged pg res T)"
proof (rule triple_check [OF triple_change], goal_cases)
  case (2 row)
  let ?in = "T\<lparr>tb_resolutions := tb_resolutions T @ [resolution_row pg res]\<rparr>"
  have again: "triple (inside T T) (check (exactDeadLetterResolution res) (\<lambda>e. fails (notCommitted e)) (\<lambda>again.
      if again then gives False else fails (notCommitted ErrStoreConflict))) (resolution_staged pg res T)"
    by (rule triple_check [OF triple_exactDeadLetterResolution]) (auto simp: staging_post_def inside_def)
  have retry: "triple (inside T ?in) (check (tx_Exec (retryDeadLetter (dl_WorkID res) (uint (dl_Token res))
      (stamped pg (dl_RetryAt res)) (stamped pg (dl_Deadline res)))) (\<lambda>e. fails (notCommitted e)) (\<lambda>n.
        if n \<noteq> 1 then fails (notCommitted ErrStaleWorkLease) else gives True)) (resolution_staged pg res T)"
    if "resolvable res T" "dl_Action res = DeadLetterRetry"
    by (rule triple_check [OF triple_change])
      (auto simp: staging_post_def inside_def that retryDeadLetter_def updateWork_def resolved_tables_def)
  have none: "resolution_staged pg res T (Inr True) db"
    if "resolvable res T" "dl_Action res \<noteq> DeadLetterRetry" "inside T ?in db" for db
    using that by (simp add: staging_post_def inside_def resolved_tables_def)
  show ?case
    unfolding sum.case
  proof (intro triple_ex triple_conj)
    fix tb
    assume ins: "insertResolution (resolution_row pg res) T = Some (row, tb)"
    from insertResolution_Some [OF this assms] consider "row = None" "tb = T"
      | "row = Some (dl_fingerprint res)" "resolvable res T" "tb = ?in" by blast
    then show "triple (inside T tb) (case row of
        None \<Rightarrow>
          check (exactDeadLetterResolution res) (\<lambda>e. fails (notCommitted e)) (\<lambda>again.
            if again then gives False else fails (notCommitted ErrStoreConflict))
      | Some inserted \<Rightarrow>
          if inserted \<noteq> dl_fingerprint res then fails (notCommitted ErrStoreConflict)
          else if dl_Action res = DeadLetterRetry
          then check (tx_Exec (retryDeadLetter (dl_WorkID res) (uint (dl_Token res))
                        (stamped pg (dl_RetryAt res)) (stamped pg (dl_Deadline res))))
                 (\<lambda>e. fails (notCommitted e)) (\<lambda>n.
                   if n \<noteq> 1 then fails (notCommitted ErrStaleWorkLease) else gives True)
          else gives True) (resolution_staged pg res T)"
    proof cases
      case 1
      then show ?thesis using again by simp
    next
      case 2
      then show ?thesis using retry [OF 2(2)] none [OF 2(2)] by (cases "dl_Action res = DeadLetterRetry") simp_all
    qed
  qed
qed (simp add: staging_post_def inside_def)

lemma triple_stage_resolution: "triple (inside T T) (stage_resolution pg res) (resolution_staged pg res T)"
  unfolding stage_resolution_def
proof (rule triple_check [OF triple_exactDeadLetterResolution], goal_cases)
  case (2 exact)
  have "triple (inside T T) (check (tx_QueryRow (lockDeadLetter (dl_WorkID res) (uint (dl_Token res))))
      (\<lambda>e. fails (notCommitted e)) (\<lambda>locked. case locked of
        None \<Rightarrow> fails (notCommitted ErrStaleWorkLease) | Some _ \<Rightarrow> m)) (resolution_staged pg res T)"
    if "list_ex (dead_fence (dl_WorkID res) (uint (dl_Token res))) (tb_work T) \<Longrightarrow>
      triple (inside T T) m (resolution_staged pg res T)" for m
  proof (rule triple_check [OF triple_QueryRow], goal_cases)
    case (2 locked)
    then show ?case
    proof (cases "list_ex (dead_fence (dl_WorkID res) (uint (dl_Token res))) (tb_work T)")
      case True
      from that [OF this] show ?thesis
        by (cases locked) (simp add: staging_post_def inside_def, simp add: triple_given)
    next
      case False
      then have "lockDeadLetter (dl_WorkID res) (uint (dl_Token res)) T = None"
        using find_list_ex [of "dead_fence (dl_WorkID res) (uint (dl_Token res))" "tb_work T"]
        by (simp add: lockDeadLetter_def)
      then show ?thesis by (cases locked) (auto simp: staging_post_def inside_def triple_def)
    qed
  qed (simp add: staging_post_def inside_def)
  note body = this [OF triple_record_resolution]
  show ?case
  proof (cases exact)
    case False
    show ?thesis unfolding sum.case if_not_P [OF False] by (rule triple_given [OF body])
  qed (simp add: staging_post_def inside_def)
qed (simp add: staging_post_def inside_def)

lemma triple_ResolveDeadLetter:
  assumes "\<And>c. ctx = Some c \<Longrightarrow> quiet c"
  shows "triple (at_rest T) (ResolveDeadLetter pg ctx res) (\<lambda>r db. transaction_post (resolvable res T)
    (resolved_tables pg res T) (findResolution (dl_CommandID res) T = Some (dl_fingerprint res)) T r (db_tables db))"
  unfolding ResolveDeadLetter_def by (rule triple_transaction [OF assms triple_stage_resolution])

text \<open>A resolved fence is no longer listed.\<close>

lemma resolved_not_listed:
  "r \<in> set (listDeadLetters pg after n k (resolved_tables pg res T)) \<Longrightarrow>
     \<not> dead_fence (dl_WorkID res) (uint (dl_Token res)) r"
  by (auto simp: listDeadLetters_def Let_def resolved_tables_def dead_fence_def resolution_row_def
      dest!: in_set_takeD)

end
