(* ===== verification/Store_Listing.thy ===== *)
theory Store_Listing
  imports Store_Leases Store_Log
begin

text \<open>
  Reading a list through the PostgreSQL store page by page: \<open>ListInstances\<close> and \<open>ListDeadLetters\<close>
  followed by their cursors until no page is left. Both statements are keyset queries, so that one
  locale shows what the pages add up to on tables that do not change meanwhile.
\<close>

section \<open>Reading to the end\<close>

text \<open>
  \<open>fetch c items nxt hasMore\<close>: a page read at cursor \<open>c\<close> has these items, the cursor \<open>nxt\<close>, and tells
  whether there is more. A reader goes on from \<open>nxt\<close> while there is more.
\<close>

inductive readout :: "('c \<Rightarrow> 'i list \<Rightarrow> 'c \<Rightarrow> bool \<Rightarrow> bool) \<Rightarrow> 'c \<Rightarrow> 'i list \<Rightarrow> bool"
  for fetch where
  readout_last: "fetch c items nxt False \<Longrightarrow> readout fetch c items"
| readout_more: "fetch c items nxt True \<Longrightarrow> readout fetch nxt rest \<Longrightarrow> readout fetch c (items @ rest)"

lemma scan_rows_append:
  "scan_rows scan (xs @ ys) = (case scan_rows scan xs of
     Inl e \<Rightarrow> Inl e
   | Inr is \<Rightarrow> (case scan_rows scan ys of Inl e \<Rightarrow> Inl e | Inr js \<Rightarrow> Inr (is @ js)))"
  by (induction xs) (auto split: sum.splits)

lemma scan_rows_related: "scan_rows scan rows = Inr items \<longleftrightarrow> list_all2 (\<lambda>r i. scan r = Inr i) rows items"
proof (induction rows arbitrary: items)
  case (Cons row rows)
  show ?case by (auto simp: list_all2_Cons1 simp flip: Cons.IH split: sum.splits)
qed auto

lemma scannable:
  "\<forall>r \<in> set rows. r \<in> S \<and> (case scan r of Inl _ \<Rightarrow> False | Inr _ \<Rightarrow> True) \<Longrightarrow>
   \<exists>items. list_all2 (\<lambda>r i. r \<in> S \<and> scan r = Inr i) rows items"
  by (induction rows) (auto simp: list_all2_Cons1 split: sum.splits)

lemma list_all2_origin: "list_all2 P rows items \<Longrightarrow> i \<in> set items \<Longrightarrow> \<exists>r. P r i"
  by (induction rule: list_all2_induct) auto

text \<open>The pages of a readout form a chain of accepted pages.\<close>

lemma readout_chain:
  assumes "\<And>c items nxt hasMore. fetch c items nxt hasMore \<Longrightarrow>
      \<exists>q p. query_start q = c \<and> page q items hasMore = Inr p \<and> page_next p = nxt"
    and "readout fetch c items"
  shows "\<exists>ps. page_chain page query_start page_next c ps \<and> delivered ps = items"
  using assms(2)
proof induction
  case (readout_last c items nxt)
  then obtain q p where "query_start q = c" "page q items False = Inr p" using assms(1) by blast
  then show ?case by (intro exI [of _ "[(q, items, False)]"]) (simp add: delivered_def)
next
  case (readout_more c items nxt rest)
  then obtain q p ps where "query_start q = c" "page q items True = Inr p" "page_next p = nxt"
      "page_chain page query_start page_next nxt ps" "delivered ps = rest" using assms(1) by blast
  then show ?case by (intro exI [of _ "(q, items, True) # ps"]) (simp add: delivered_def)
qed

text \<open>The rows a keyset query goes through: behind a position, in the order of their keys.\<close>

definition behind :: "'k::linorder option \<Rightarrow> 'k \<Rightarrow> bool" where
  "behind position k = (case position of None \<Rightarrow> True | Some p \<Rightarrow> p < k)"

definition onward :: "('r \<Rightarrow> 'k::linorder) \<Rightarrow> 'k option \<Rightarrow> 'r list \<Rightarrow> 'r list" where
  "onward key position rows = sort_key key (filter (\<lambda>r. behind position (key r)) rows)"

text \<open>Behind the last row of a prefix lies exactly the rest of the rows.\<close>

lemma onward_split:
  assumes "distinct (map key rows)" "onward key position rows = xs @ [x] @ ys"
  shows "onward key (Some (key x)) rows = ys"
proof -
  have strict: "sorted_wrt (<) (map key (xs @ [x] @ ys))"
    unfolding strict_sorted_iff assms(2) [symmetric] onward_def
    using assms(1) by (auto simp: distinct_map inj_on_def)
  have "x \<in> set (onward key position rows)" by (simp add: assms(2))
  then have sub: "behind (Some (key x)) (key r) \<longrightarrow> behind position (key r)" for r
    by (auto simp: onward_def behind_def split: option.splits)
  have "filter (\<lambda>r. behind (Some (key x)) (key r)) (filter (\<lambda>r. behind position (key r)) rows) =
      filter (\<lambda>r. behind (Some (key x)) (key r)) rows"
    unfolding filter_filter by (rule filter_cong [OF refl]) (use sub in blast)
  then have "onward key (Some (key x)) rows =
      filter (\<lambda>r. behind (Some (key x)) (key r)) (onward key position rows)"
    by (simp add: onward_def filter_sort)
  also have "\<dots> = ys"
    using strict unfolding assms(2)
    by (auto simp: behind_def sorted_wrt_append filter_empty_conv intro!: filter_True)
  finally show ?thesis .
qed

section \<open>Keyset queries\<close>

locale keyset_listing =
  fixes fetch :: "'t \<Rightarrow> 'c \<Rightarrow> 'i list \<Rightarrow> 'c \<Rightarrow> bool \<Rightarrow> bool" and rows :: "'t \<Rightarrow> 'r list"
    and key :: "'r \<Rightarrow> 'k::linorder" and scan :: "'r \<Rightarrow> 'i result" and cursor :: "'i \<Rightarrow> 'c"
    and position :: "'c \<Rightarrow> 'k option" and keyed :: "'t \<Rightarrow> bool"
  assumes fetch_law: "fetch t c items nxt hasMore \<Longrightarrow> \<exists>n all. 0 < n \<and>
      scan_rows scan (take (Suc n) (onward key (position c) (rows t))) = Inr all \<and>
      items = take n all \<and> hasMore = (n < length all) \<and> nxt = last (c # map cursor items)"
    and distinct_law: "keyed t \<Longrightarrow> distinct (map key (rows t))"
    and cursor_law: "keyed t \<Longrightarrow> r \<in> set (rows t) \<Longrightarrow> scan r = Inr i \<Longrightarrow> position (cursor i) = Some (key r)"
begin

lemma fetch_last:
  assumes "fetch t c items nxt False"
  shows "scan_rows scan (onward key (position c) (rows t)) = Inr items"
proof -
  obtain n all where all: "scan_rows scan (take (Suc n) (onward key (position c) (rows t))) = Inr all"
      "items = take n all" "\<not> n < length all" using fetch_law [OF assms] by auto
  then have "length (take (Suc n) (onward key (position c) (rows t))) \<le> n"
    using list_all2_lengthD [of _ "take (Suc n) (onward key (position c) (rows t))" all] by (simp add: scan_rows_related)
  then show ?thesis using all by auto
qed

lemma fetch_more:
  assumes "fetch t c items nxt True" "keyed t"
  shows "\<exists>seen. seen \<noteq> [] \<and> scan_rows scan seen = Inr items \<and>
    onward key (position c) (rows t) = seen @ onward key (position nxt) (rows t)"
proof -
  let ?on = "onward key (position c) (rows t)"
  obtain n all where all: "0 < n" "scan_rows scan (take (Suc n) ?on) = Inr all" "items = take n all"
      "n < length all" "nxt = last (c # map cursor items)" using fetch_law [OF assms(1)] by auto
  then have len: "length all = length (take (Suc n) ?on)"
    using list_all2_lengthD [of _ "take (Suc n) ?on" all] by (simp add: scan_rows_related)
  have long: "n < length ?on" using all(4) len by auto
  define xs x ys where "xs = take (n - 1) ?on" and "x = ?on ! (n - 1)" and "ys = drop n ?on"
  have seen: "take n ?on = xs @ [x]"
    using take_Suc_conv_app_nth [of "n - 1" ?on] all(1) long by (simp add: xs_def x_def)
  then have on: "?on = xs @ [x] @ ys" using append_take_drop_id [of n ?on] by (simp add: ys_def)
  have scanned: "scan_rows scan (take n ?on) = Inr items"
    using all(2,3) list_all2_takeI [of _ _ all n] by (fastforce simp: scan_rows_related min_def)
  then obtain i before_i where i: "items = before_i @ [i]" "scan x = Inr i"
    unfolding seen by (auto simp: scan_rows_append split: sum.splits)
  have "x \<in> set ?on" by (subst on) simp
  then have "x \<in> set (rows t)" by (simp add: onward_def)
  then have "position nxt = Some (key x)" using cursor_law [OF assms(2) _ i(2)] all(5) i(1) by simp
  then have "onward key (position nxt) (rows t) = ys"
    using onward_split [OF distinct_law [OF assms(2)] on] by simp
  then show ?thesis using scanned seen on by auto
qed

text \<open>Every row behind the cursor is delivered, once, and in the order of the keys.\<close>

lemma readout_complete:
  assumes "readout (fetch t) c items" "keyed t"
  shows "scan_rows scan (onward key (position c) (rows t)) = Inr items"
  using assms(1)
proof induction
  case (readout_last c items nxt)
  then show ?case by (rule fetch_last)
next
  case (readout_more c items nxt rest)
  then show ?case using fetch_more [OF readout_more.hyps(1) assms(2)] by (auto simp: scan_rows_append)
qed

end

text \<open>When a page can always be read, the reader comes to the end: each page shortens the rest.\<close>

locale available_listing = keyset_listing +
  fixes sane :: "'a \<Rightarrow> bool" and fits :: "'a \<Rightarrow> 'b \<Rightarrow> bool"
  assumes sane_keyed: "sane t \<Longrightarrow> keyed t"
    and step_law: "sane t \<Longrightarrow> fits t c \<Longrightarrow>
      \<exists>items nxt hasMore. fetch t c items nxt hasMore \<and> (hasMore \<longrightarrow> fits t nxt)"
begin

lemma readout_exists:
  assumes "sane t" "fits t c"
  shows "\<exists>items. readout (fetch t) c items"
  using assms(2)
proof (induction "length (onward key (position c) (rows t))" arbitrary: c rule: less_induct)
  case less
  obtain items nxt hasMore where page: "fetch t c items nxt hasMore" "hasMore \<longrightarrow> fits t nxt"
    using step_law [OF assms(1) less.prems] by blast
  show ?case
  proof (cases hasMore)
    case True
    then obtain seen where "seen \<noteq> []" "onward key (position c) (rows t) = seen @ onward key (position nxt) (rows t)"
      using fetch_more [of t c items nxt] page sane_keyed [OF assms(1)] by auto
    then have "length (onward key (position nxt) (rows t)) < length (onward key (position c) (rows t))" by simp
    then obtain rest where "readout (fetch t) nxt rest" using less.hyps page(2) True by blast
    then show ?thesis using readout_more [of "fetch t" c items nxt rest] page(1) True by auto
  next
    case False
    then show ?thesis using readout_last [of "fetch t" c items nxt] page(1) by auto
  qed
qed

end

text \<open>Rows behind a cursor in the order of their keys are records that ascend from the cursor.\<close>

lemma ascending_scanned:
  assumes "list_all2 (\<lambda>r i. r \<in> S \<and> scan r = Inr i) rows items" "sorted_wrt (<) (map key rows)"
    "\<forall>r \<in> set rows. behind (position c) (key r)" "fits c"
    and "\<And>c r i. fits c \<Longrightarrow> r \<in> S \<Longrightarrow> scan r = Inr i \<Longrightarrow> behind (position c) (key r) \<Longrightarrow> before c (cursor i)"
    and "\<And>r i. r \<in> S \<Longrightarrow> scan r = Inr i \<Longrightarrow> fits (cursor i) \<and> position (cursor i) = Some (key r)"
  shows "ascending before c (map cursor items)"
  using assms(1-4)
proof (induction arbitrary: c rule: list_all2_induct)
  case (Cons r rows i items)
  have "ascending before (cursor i) (map cursor items)"
    by (rule Cons.IH) (use Cons.prems Cons.hyps assms(6) [of r i] in \<open>auto simp: behind_def\<close>)
  then show ?case using assms(5) [of c r i] Cons.prems Cons.hyps by simp
qed simp

lemma onward_sorted:
  "distinct (map key rows) \<Longrightarrow> sorted_wrt (<) (map key (take n (onward key position rows)))"
  unfolding take_map [symmetric]
  by (rule sorted_wrt_take) (auto simp: strict_sorted_iff onward_def distinct_map inj_on_def)

section \<open>Instances\<close>

definition row_selected :: "InstanceListSelection \<Rightarrow> InstanceRow \<Rightarrow> bool" where
  "row_selected selection r = (case selection of
     ListActiveInstances \<Rightarrow> ri_archived_at r = None
   | ListArchivedInstances \<Rightarrow> ri_archived_at r \<noteq> None
   | _ \<Rightarrow> True)"

definition instance_key :: "PgConfig \<Rightarrow> InstanceRow \<Rightarrow> int \<times> string" where
  "instance_key pg r = (ri_created_at r, pg_collation pg (ri_instance_id r))"

definition instance_position :: "PgConfig \<Rightarrow> InstanceListCursor \<Rightarrow> (int \<times> string) option" where
  "instance_position pg c =
     map_option (\<lambda>t. (t, pg_collation pg (lc_instanceID c))) (nullableTime pg (lc_createdAt c))"

text \<open>
  What the schema and PostgreSQL give: identities are the primary key, a stored instant is read
  back as it was stored, and texts that differ have different sort keys (a deterministic collation).
\<close>

definition instances_keyed :: "PgConfig \<Rightarrow> Tables \<Rightarrow> bool" where
  "instances_keyed pg tb \<longleftrightarrow> inj (pg_collation pg) \<and> distinct (map ri_instance_id (tb_instances tb)) \<and>
     list_all (\<lambda>r. pg_stamp pg (ri_created_at r) = ri_created_at r) (tb_instances tb)"

lemma instances_keyed_staged:
  assumes "instances_keyed pg tb" "stageable t tb" "\<And>n. pg_stamp pg (pg_stamp pg n) = pg_stamp pg n"
  shows "instances_keyed pg (staged pg t tb)"
proof -
  have "distinct (map ri_instance_id (tb_instances (staged pg t tb)))"
    using assms(1,2) by (auto simp: instances_keyed_def stageable_def lockInstance_None simp del: set_map)
  moreover have "pg_stamp pg (ri_created_at r) = ri_created_at r" if "r \<in> set (tb_instances (opened pg t tb))" for r
    using that assms(1,3) by (auto simp: opened_def first_row_def stamped_def instances_keyed_def list_all_iff split: if_splits)
  ultimately show ?thesis
    using assms(1) by (auto simp: instances_keyed_def list_all_iff staged_def advance_row_def)
qed

text \<open>A page of instances, read with one of the limits, with any context and faults of the driver.\<close>

definition instance_fetch :: "PgConfig \<Rightarrow> InstanceListSelection \<Rightarrow> uint32 set \<Rightarrow> Tables \<Rightarrow> InstanceListCursor \<Rightarrow>
    InstanceRecord list \<Rightarrow> InstanceListCursor \<Rightarrow> bool \<Rightarrow> bool" where
  "instance_fetch pg selection limits tb c items nxt hasMore \<longleftrightarrow> (\<exists>ctx limit db db' page. limit \<in> limits \<and> quiet ctx \<and>
     db_tables db = tb \<and> run_state (ListInstances pg (Some ctx) \<lparr>lq_selection = selection, lq_after = c, lq_limit = limit\<rparr>) db =
       (Inr page, db') \<and>
     lp_items page = items \<and> lp_nextCursor page = nxt \<and> lp_hasMore page = hasMore)"

lemma listInstances_onward:
  "listInstances pg (row_selected selection) (nullableTime pg (lc_createdAt c)) (lc_instanceID c) n tb =
     take n (onward (instance_key pg) (instance_position pg c) (filter (row_selected selection) (tb_instances tb)))"
  unfolding listInstances_def onward_def filter_filter Let_def
  by (auto simp: instance_key_def [abs_def] instance_position_def behind_def split: option.split
      intro!: arg_cong [where f = "take n"] arg_cong [where f = "sort_key _"] filter_cong)

lemma triple_ListInstances:
  assumes "\<And>c. ctx = Some c \<Longrightarrow> quiet c"
  shows "triple (at_rest T) (ListInstances pg ctx q) (\<lambda>r db. at_rest T db \<and> (\<forall>page. r = Inr page \<longrightarrow>
     list_query_Valid q \<and> (\<exists>all. scan_rows scanInstanceRecord (listInstances pg (row_selected (lq_selection q))
         (nullableTime pg (lc_createdAt (lq_after q))) (lc_instanceID (lq_after q)) (unat (lq_limit q) + 1) T) = Inr all \<and>
       NewInstanceListPage q (take (unat (lq_limit q)) all) (length all > unat (lq_limit q)) = Inr page)))"
  unfolding ListInstances_def Let_def row_selected_def [symmetric]
proof (rule triple_guarded [OF assms], assumption, goal_cases)
  case 1
  show ?case
  proof (rule triple_check [OF triple_db_Query], goal_cases)
    case (2 rows)
    show ?case unfolding sum.case
      by (rule triple_given) (auto simp: 1 split: sum.split intro!: triple_check [OF triple_rows_Err])
  qed simp
qed simp

lemma scanInstanceRecord_Inr:
  assumes "scanInstanceRecord r = Inr i"
  shows "list_key i = \<lparr>lc_createdAt = utc (ri_created_at r), lc_instanceID = ri_instance_id r\<rparr> \<and>
    record_valid i \<and> canonical (ir_createdAt i)"
  using assms
  by (auto simp: scanInstanceRecord_def NewInstanceRecord_def list_key_def canonicalTime_utc canonical_def
      Let_def split: if_splits sum.splits)

lemma instance_position_of_row:
  assumes "instances_keyed pg tb" "r \<in> set (tb_instances tb)" "scanInstanceRecord r = Inr i"
  shows "instance_position pg (list_key i) = Some (instance_key pg r)"
proof -
  have "\<not> IsZero (utc (ri_created_at r))"
    using scanInstanceRecord_Inr [OF assms(3)] by (auto simp: record_valid_def list_key_def)
  then show ?thesis
    using scanInstanceRecord_Inr [OF assms(3)] assms(1,2)
    by (simp add: instance_position_def nullableTime_def stamped_def utc_def instance_key_def instances_keyed_def
        list_all_iff)
qed

lemma instance_fetchE:
  assumes "instance_fetch pg selection limits tb c items nxt hasMore"
  obtains n all q page where "0 < n" "scan_rows scanInstanceRecord (take (Suc n) (onward (instance_key pg)
      (instance_position pg c) (filter (row_selected selection) (tb_instances tb)))) = Inr all"
    "items = take n all" "hasMore = (n < length all)" "nxt = last (c # map list_key items)"
    "lq_after q = c" "NewInstanceListPage q items hasMore = Inr page" "lp_nextCursor page = nxt"
proof -
  from assms obtain ctx limit db db' page where run: "quiet ctx" "db_tables db = tb"
      "run_state (ListInstances pg (Some ctx) \<lparr>lq_selection = selection, lq_after = c, lq_limit = limit\<rparr>) db =
         (Inr page, db')"
      "lp_items page = items" "lp_nextCursor page = nxt" "lp_hasMore page = hasMore"
    by (auto simp: instance_fetch_def)
  let ?q = "\<lparr>lq_selection = selection, lq_after = c, lq_limit = limit\<rparr>"
  obtain all where all: "list_query_Valid ?q" "scan_rows scanInstanceRecord (listInstances pg (row_selected selection)
        (nullableTime pg (lc_createdAt c)) (lc_instanceID c) (unat limit + 1) tb) = Inr all"
      "NewInstanceListPage ?q (take (unat limit) all) (length all > unat limit) = Inr page"
    using tripleD [OF triple_ListInstances [of "Some ctx" tb pg ?q] _ run(3)] run(1,2) by (auto simp: at_rest_def)
  have more: "lp_hasMore page = (length all > unat limit)"
    using all(3) by (auto simp: NewInstanceListPage_def split: if_splits option.splits)
  show ?thesis
    by (rule that [of "unat limit" all ?q page])
      (use NewInstanceListPage_Inr [OF all(3)] all more run(4-6) listInstances_onward [of pg selection c] in
        \<open>auto simp: list_query_Valid_def unat_gt_0 word_neq_0_conv\<close>)
qed

interpretation instance_listing: keyset_listing "instance_fetch pg selection limits"
    "\<lambda>tb. filter (row_selected selection) (tb_instances tb)" "instance_key pg" scanInstanceRecord list_key
    "instance_position pg" "instances_keyed pg" for pg selection limits
proof (unfold_locales, goal_cases)
  case (1 t c items nxt hasMore)
  then show ?case by (auto elim!: instance_fetchE)
next
  case (2 t)
  then show ?case
    by (auto simp: instances_keyed_def instance_key_def distinct_map inj_on_def)
next
  case (3 t r i)
  then show ?case by (auto intro: instance_position_of_row)
qed

lemma instance_readout_ascends:
  assumes "readout (instance_fetch pg selection limits tb) c items" "instances_keyed pg tb"
  shows "sorted_wrt key_below (map (\<lambda>i. list_rank (list_key i)) items)"
proof -
  obtain ps where ps: "page_chain NewInstanceListPage lq_after lp_nextCursor c ps" "delivered ps = items"
    using readout_chain [OF _ assms(1), of lq_after NewInstanceListPage lp_nextCursor]
    by (auto elim!: instance_fetchE)
  have "list_all (\<lambda>i. canonical (ir_createdAt i)) items"
    using instance_listing.readout_complete [OF assms]
    by (auto simp: scan_rows_related list_all_length list_all2_conv_all_nth dest!: scanInstanceRecord_Inr)
  then show ?thesis using instance_pages.chain_sorted [OF ps(1)] ps(2) by simp
qed

text \<open>
  With a bytewise collation every selected row can be delivered: the rows scan, and a stored
  archive time is not the zero time.
\<close>

definition listable :: "InstanceRow \<Rightarrow> bool" where
  "listable r \<longleftrightarrow> (case scanInstanceRecord r of Inl _ \<Rightarrow> False | Inr _ \<Rightarrow> True) \<and> ri_archived_at r \<noteq> Some 0"

definition instances_listable :: "PgConfig \<Rightarrow> Tables \<Rightarrow> bool" where
  "instances_listable pg tb \<longleftrightarrow> pg_collation pg = id \<and> instances_keyed pg tb \<and> list_all listable (tb_instances tb)"

definition cursor_fits :: "PgConfig \<Rightarrow> InstanceListCursor \<Rightarrow> bool" where
  "cursor_fits pg c \<longleftrightarrow> list_cursor_valid c \<and> canonical (lc_createdAt c) \<and>
     (IsZero (lc_createdAt c) \<or> stamped pg (lc_createdAt c) = wall (lc_createdAt c))"

lemma list_page_loop_ascending:
  assumes "ascending list_before c (map list_key items)"
    "list_all (\<lambda>i. record_valid i \<and> instanceSelectionMatches selection i) items"
  shows "list_page_loop selection c items = Some (last (c # map list_key items))"
  using assms by (induction items arbitrary: c) (auto simp: list_before_def list_key_def)

lemma scanned_matches:
  assumes "scanInstanceRecord r = Inr i" "ri_archived_at r \<noteq> Some 0" "row_selected selection r"
  shows "instanceSelectionMatches selection i"
  using assms
  by (auto simp: scanInstanceRecord_def NewInstanceRecord_def instanceSelectionMatches_def row_selected_def Let_def
      split: if_splits sum.splits InstanceListSelection.splits option.splits)

lemma behind_list_before:
  assumes "cursor_fits pg c" "pg_collation pg = id" "scanInstanceRecord r = Inr i"
    "behind (instance_position pg c) (instance_key pg r)"
  shows "list_before c (list_key i)"
  using assms scanInstanceRecord_Inr [OF assms(3)]
  by (auto simp: cursor_fits_def list_before_def cursorBefore_def behind_def instance_position_def nullableTime_def
      instance_key_def canonical_def After_wall Equal_wall split: if_splits)

lemma row_cursor_fits:
  assumes "instances_keyed pg tb" "r \<in> set (tb_instances tb)" "scanInstanceRecord r = Inr i"
  shows "cursor_fits pg (list_key i)"
  using scanInstanceRecord_Inr [OF assms(3)] assms(1,2)
  by (auto simp: cursor_fits_def list_cursor_valid_def record_valid_def list_key_def instances_keyed_def stamped_def
      list_all_iff)

lemma scanned_page_accepted:
  assumes "instances_listable pg tb" "cursor_fits pg c"
    and "list_all2 (\<lambda>r i. r \<in> set (filter (row_selected selection) (tb_instances tb)) \<and> scanInstanceRecord r = Inr i)
      (take n (onward (instance_key pg) (instance_position pg c) (filter (row_selected selection) (tb_instances tb)))) all"
  shows "list_page_loop selection c (take m all) = Some (last (c # map list_key (take m all)))"
proof -
  let ?rows = "filter (row_selected selection) (tb_instances tb)"
  have keyed: "instances_keyed pg tb" using assms(1) by (simp add: instances_listable_def)
  have "ascending list_before c (map list_key all)"
  proof (rule ascending_scanned [OF assms(3) onward_sorted, where fits = "cursor_fits pg"])
    show "distinct (map (instance_key pg) ?rows)" by (rule instance_listing.distinct_law [OF keyed])
    show "\<forall>r \<in> set (take n (onward (instance_key pg) (instance_position pg c) ?rows)).
        behind (instance_position pg c) (instance_key pg r)"
      by (auto simp: onward_def dest!: in_set_takeD)
  qed (use assms(1,2) row_cursor_fits [OF keyed] instance_position_of_row [OF keyed] in
      \<open>auto intro: behind_list_before simp: instances_listable_def\<close>)
  then have "ascending list_before c (map list_key (take m all))"
    using ascending_append [of list_before c "map list_key (take m all)" "map list_key (drop m all)"]
    by (simp flip: map_append)
  moreover have "record_valid i \<and> instanceSelectionMatches selection i" if "i \<in> set all" for i
  proof -
    obtain r where "r \<in> set ?rows" "scanInstanceRecord r = Inr i"
      using list_all2_origin [OF assms(3) \<open>i \<in> set all\<close>] by blast
    then show ?thesis
      using assms(1) scanInstanceRecord_Inr [of r i] scanned_matches [of r i selection]
      by (auto simp: instances_listable_def listable_def list_all_iff)
  qed
  ultimately show ?thesis
    by (intro list_page_loop_ascending) (auto simp: list_all_iff dest: in_set_takeD)
qed

lemma instance_page_available:
  assumes "instances_listable pg tb" "cursor_fits pg c" "selection \<noteq> ListSelectionInvalid"
    "0 < limit" "limit \<le> MaxInstanceListItems"
  shows "\<exists>items nxt hasMore. instance_fetch pg selection {limit} tb c items nxt hasMore \<and>
    (hasMore \<longrightarrow> cursor_fits pg nxt)"
proof -
  let ?rows = "filter (row_selected selection) (tb_instances tb)"
  let ?got = "take (Suc (unat limit)) (onward (instance_key pg) (instance_position pg c) ?rows)"
  let ?q = "\<lparr>lq_selection = selection, lq_after = c, lq_limit = limit\<rparr>"
  have "\<forall>r \<in> set ?got. r \<in> set ?rows \<and> (case scanInstanceRecord r of Inl _ \<Rightarrow> False | Inr _ \<Rightarrow> True)"
    using assms(1) by (auto simp: onward_def instances_listable_def listable_def list_all_iff dest!: in_set_takeD)
  from scannable [OF this] obtain all where
    all: "list_all2 (\<lambda>r i. r \<in> set ?rows \<and> scanInstanceRecord r = Inr i) ?got all" by blast
  let ?items = "take (unat limit) all" and ?more = "unat limit < length all"
  have scan: "scan_rows scanInstanceRecord ?got = Inr all"
    using all by (auto simp: scan_rows_related elim: list_all2_mono)
  have "list_query_Valid ?q" using assms by (simp add: list_query_Valid_def cursor_fits_def)
  then have page: "NewInstanceListPage ?q ?items ?more =
      Inr \<lparr>lp_items = ?items, lp_nextCursor = last (c # map list_key ?items), lp_hasMore = ?more\<rparr>"
    using scanned_page_accepted [OF assms(1,2) all] by (simp add: NewInstanceListPage_def)
  define ctx where "ctx = (State_Monad.return \<lparr>cx_err = None, cx_deadline = None, cx_now = time_zero\<rparr> :: Db ctx)"
  let ?db = "\<lparr>db_tables = tb, db_tx = None, db_faults = []\<rparr>"
  have "run_state (ListInstances pg (Some ctx) ?q) ?db =
      (Inr \<lparr>lp_items = ?items, lp_nextCursor = last (c # map list_key ?items), lp_hasMore = ?more\<rparr>, ?db)"
    using \<open>list_query_Valid ?q\<close> page scan
    by (simp add: ListInstances_def guarded_def run_check db_Query_def rows_Err_def next_fault_def ctx_def
        row_selected_def [symmetric] listInstances_onward)
  then have "instance_fetch pg selection {limit} tb c ?items (last (c # map list_key ?items)) ?more"
    unfolding instance_fetch_def by (intro exI [of _ ctx] exI [of _ limit] exI [of _ ?db]) (simp add: quiet_def ctx_def)
  moreover have "cursor_fits pg (last (c # map list_key ?items))"
  proof (cases "?items = []")
    case False
    then have "last ?items \<in> set all" using last_in_set in_set_takeD by fast
    then obtain r where "r \<in> set (tb_instances tb)" "scanInstanceRecord r = Inr (last ?items)"
      using list_all2_origin [OF all] by fastforce
    then show ?thesis using False row_cursor_fits assms(1) by (auto simp: instances_listable_def last_map)
  qed (use assms(2) in simp)
  ultimately show ?thesis by blast
qed

interpretation instance_reading: available_listing "instance_fetch pg selection {limit}"
    "\<lambda>tb. filter (row_selected selection) (tb_instances tb)" "instance_key pg" scanInstanceRecord list_key
    "instance_position pg" "instances_keyed pg"
    "\<lambda>tb. instances_listable pg tb \<and> selection \<noteq> ListSelectionInvalid \<and> 0 < limit \<and> limit \<le> MaxInstanceListItems"
    "\<lambda>_. cursor_fits pg" for pg selection limit
  by unfold_locales (auto simp: instances_listable_def intro: instance_page_available [unfolded instances_listable_def])

section \<open>Dead letters\<close>

definition unresolved :: "Tables \<Rightarrow> WorkRow \<Rightarrow> bool" where
  "unresolved tb r \<longleftrightarrow> rw_state r = 4 \<and> rw_completed_at r \<noteq> None \<and>
     \<not> list_ex (\<lambda>s. rr_work_id s = rw_work_id r \<and> rr_lease_token s = rw_lease_token r) (tb_resolutions tb)"

definition letter_key :: "PgConfig \<Rightarrow> WorkRow \<Rightarrow> int \<times> string" where
  "letter_key pg r = (the (rw_completed_at r), pg_collation pg (rw_work_id r))"

definition letter_position :: "PgConfig \<Rightarrow> DeadLetterCursor \<Rightarrow> (int \<times> string) option" where
  "letter_position pg c = map_option (\<lambda>t. (t, pg_collation pg (dc_workID c))) (nullableTime pg (dc_failedAt c))"

definition letters_keyed :: "PgConfig \<Rightarrow> Tables \<Rightarrow> bool" where
  "letters_keyed pg tb \<longleftrightarrow> inj (pg_collation pg) \<and> work_keyed tb \<and>
     list_all (\<lambda>r. \<forall>t. rw_completed_at r = Some t \<longrightarrow> pg_stamp pg t = t) (tb_work tb)"

definition letter_fetch :: "PgConfig \<Rightarrow> uint32 set \<Rightarrow> Tables \<Rightarrow> DeadLetterCursor \<Rightarrow> DeadLetterRecord list \<Rightarrow>
    DeadLetterCursor \<Rightarrow> bool \<Rightarrow> bool" where
  "letter_fetch pg limits tb c items nxt hasMore \<longleftrightarrow> (\<exists>ctx limit db db' page. limit \<in> limits \<and> quiet ctx \<and>
     db_tables db = tb \<and> run_state (ListDeadLetters pg (Some ctx) \<lparr>dq_after = c, dq_limit = limit\<rparr>) db = (Inr page, db') \<and>
     dp_items page = items \<and> dp_nextCursor page = nxt \<and> dp_hasMore page = hasMore)"

lemma listDeadLetters_onward:
  "listDeadLetters pg (nullableTime pg (dc_failedAt c)) (dc_workID c) n tb =
     take n (onward (letter_key pg) (letter_position pg c) (filter (unresolved tb) (tb_work tb)))"
  unfolding listDeadLetters_def onward_def filter_filter Let_def
  by (auto simp: letter_key_def [abs_def] letter_position_def unresolved_def behind_def split: option.split
      intro!: arg_cong [where f = "take n"] arg_cong [where f = "sort_key _"] filter_cong)

lemma triple_ListDeadLetters:
  assumes "\<And>c. ctx = Some c \<Longrightarrow> quiet c"
  shows "triple (at_rest T) (ListDeadLetters pg ctx q) (\<lambda>r db. at_rest T db \<and> (\<forall>page. r = Inr page \<longrightarrow>
     dead_query_Valid q \<and> (\<exists>all. scan_rows scanDeadLetterRecord (listDeadLetters pg
         (nullableTime pg (dc_failedAt (dq_after q))) (dc_workID (dq_after q)) (unat (dq_limit q) + 1) T) = Inr all \<and>
       NewDeadLetterPage q (take (unat (dq_limit q)) all) (length all > unat (dq_limit q)) = Inr page)))"
  unfolding ListDeadLetters_def Let_def
proof (rule triple_guarded [OF assms], assumption, goal_cases)
  case 1
  show ?case
  proof (rule triple_check [OF triple_db_Query], goal_cases)
    case (2 rows)
    show ?case unfolding sum.case
      by (rule triple_given) (auto simp: 1 split: sum.split intro!: triple_check [OF triple_rows_Err])
  qed simp
qed simp

lemma scanDeadLetterRecord_Inr:
  assumes "scanDeadLetterRecord r = Inr i"
  shows "\<exists>t. rw_completed_at r = Some t \<and> dead_key i = \<lparr>dc_failedAt = utc t, dc_workID = rw_work_id r\<rparr> \<and>
    dead_record_valid i \<and> canonical (dr_failedAt i)"
  using assms
  by (auto simp: scanDeadLetterRecord_def NewDeadLetterRecord_def NewPendingWork_def row_work_spec_def dead_key_def
      canonicalTime_utc canonical_def Let_def split: if_splits sum.splits option.splits)

lemma letter_position_of_row:
  assumes "letters_keyed pg tb" "r \<in> set (tb_work tb)" "scanDeadLetterRecord r = Inr i"
  shows "letter_position pg (dead_key i) = Some (letter_key pg r)"
proof -
  obtain t where t: "rw_completed_at r = Some t" "dead_key i = \<lparr>dc_failedAt = utc t, dc_workID = rw_work_id r\<rparr>"
      "dead_record_valid i" using scanDeadLetterRecord_Inr [OF assms(3)] by blast
  then have "\<not> IsZero (utc t)" by (auto simp: dead_record_valid_def dead_key_def)
  then show ?thesis
    using t assms(1,2)
    by (simp add: letter_position_def nullableTime_def stamped_def utc_def letter_key_def letters_keyed_def list_all_iff)
qed

lemma letter_fetchE:
  assumes "letter_fetch pg limits tb c items nxt hasMore"
  obtains n all q page where "0 < n" "scan_rows scanDeadLetterRecord (take (Suc n) (onward (letter_key pg)
      (letter_position pg c) (filter (unresolved tb) (tb_work tb)))) = Inr all"
    "items = take n all" "hasMore = (n < length all)" "nxt = last (c # map dead_key items)"
    "dq_after q = c" "NewDeadLetterPage q items hasMore = Inr page" "dp_nextCursor page = nxt"
proof -
  from assms obtain ctx limit db db' page where run: "quiet ctx" "db_tables db = tb"
      "run_state (ListDeadLetters pg (Some ctx) \<lparr>dq_after = c, dq_limit = limit\<rparr>) db = (Inr page, db')"
      "dp_items page = items" "dp_nextCursor page = nxt" "dp_hasMore page = hasMore"
    by (auto simp: letter_fetch_def)
  let ?q = "\<lparr>dq_after = c, dq_limit = limit\<rparr>"
  obtain all where all: "dead_query_Valid ?q" "scan_rows scanDeadLetterRecord (listDeadLetters pg
        (nullableTime pg (dc_failedAt c)) (dc_workID c) (unat limit + 1) tb) = Inr all"
      "NewDeadLetterPage ?q (take (unat limit) all) (length all > unat limit) = Inr page"
    using tripleD [OF triple_ListDeadLetters [of "Some ctx" tb pg ?q] _ run(3)] run(1,2) by (auto simp: at_rest_def)
  have more: "dp_hasMore page = (length all > unat limit)"
    using all(3) by (auto simp: NewDeadLetterPage_def split: if_splits option.splits)
  show ?thesis
    by (rule that [of "unat limit" all ?q page])
      (use NewDeadLetterPage_Inr [OF all(3)] all more run(4-6) listDeadLetters_onward [of pg c] in
        \<open>auto simp: dead_query_Valid_def unat_gt_0 word_neq_0_conv\<close>)
qed

interpretation letter_listing: keyset_listing "letter_fetch pg limits" "\<lambda>tb. filter (unresolved tb) (tb_work tb)"
    "letter_key pg" scanDeadLetterRecord dead_key "letter_position pg" "letters_keyed pg" for pg limits
proof (unfold_locales, goal_cases)
  case (1 t c items nxt hasMore)
  then show ?case by (auto elim!: letter_fetchE)
next
  case (2 t)
  then show ?case
    by (auto simp: letters_keyed_def work_keyed_def letter_key_def distinct_map inj_on_def)
next
  case (3 t r i)
  then show ?case by (auto intro: letter_position_of_row)
qed

lemma letter_readout_ascends:
  assumes "readout (letter_fetch pg limits tb) c items" "letters_keyed pg tb"
  shows "sorted_wrt key_below (map (\<lambda>i. dead_rank (dead_key i)) items)"
proof -
  obtain ps where ps: "page_chain NewDeadLetterPage dq_after dp_nextCursor c ps" "delivered ps = items"
    using readout_chain [OF _ assms(1), of dq_after NewDeadLetterPage dp_nextCursor]
    by (auto elim!: letter_fetchE)
  have "list_all (\<lambda>i. canonical (dr_failedAt i)) items"
    using letter_listing.readout_complete [OF assms]
    by (auto simp: scan_rows_related list_all_length list_all2_conv_all_nth dest!: scanDeadLetterRecord_Inr)
  then show ?thesis using dead_pages.chain_sorted [OF ps(1)] ps(2) by simp
qed

definition letters_listable :: "PgConfig \<Rightarrow> Tables \<Rightarrow> bool" where
  "letters_listable pg tb \<longleftrightarrow> pg_collation pg = id \<and> letters_keyed pg tb \<and>
     list_all (\<lambda>r. case scanDeadLetterRecord r of Inl _ \<Rightarrow> False | Inr _ \<Rightarrow> True) (filter (unresolved tb) (tb_work tb))"

definition letter_cursor_fits :: "PgConfig \<Rightarrow> DeadLetterCursor \<Rightarrow> bool" where
  "letter_cursor_fits pg c \<longleftrightarrow> (c = zero_DeadLetterCursor \<or> dead_cursor_valid c) \<and> canonical (dc_failedAt c) \<and>
     (IsZero (dc_failedAt c) \<or> stamped pg (dc_failedAt c) = wall (dc_failedAt c))"

lemma dead_page_loop_ascending:
  assumes "ascending dead_before c (map dead_key items)" "list_all dead_record_valid items"
  shows "dead_page_loop c items = Some (last (c # map dead_key items))"
  using assms by (induction items arbitrary: c) (auto simp: dead_before_def dead_key_def)

lemma behind_dead_before:
  assumes "letter_cursor_fits pg c" "pg_collation pg = id" "scanDeadLetterRecord r = Inr i"
    "behind (letter_position pg c) (letter_key pg r)"
  shows "dead_before c (dead_key i)"
  using assms scanDeadLetterRecord_Inr [OF assms(3)]
  by (auto simp: letter_cursor_fits_def dead_before_def deadLetterCursorBefore_def behind_def letter_position_def
      nullableTime_def letter_key_def canonical_def After_wall Equal_wall split: if_splits)

lemma row_letter_cursor_fits:
  assumes "letters_keyed pg tb" "r \<in> set (tb_work tb)" "scanDeadLetterRecord r = Inr i"
  shows "letter_cursor_fits pg (dead_key i)"
  using scanDeadLetterRecord_Inr [OF assms(3)] assms(1,2)
  by (auto simp: letter_cursor_fits_def dead_cursor_valid_def dead_record_valid_def work_valid_def dead_key_def
      letters_keyed_def stamped_def list_all_iff)

lemma scanned_letters_accepted:
  assumes "letters_listable pg tb" "letter_cursor_fits pg c"
    and "list_all2 (\<lambda>r i. r \<in> set (filter (unresolved tb) (tb_work tb)) \<and> scanDeadLetterRecord r = Inr i)
      (take n (onward (letter_key pg) (letter_position pg c) (filter (unresolved tb) (tb_work tb)))) all"
  shows "dead_page_loop c (take m all) = Some (last (c # map dead_key (take m all)))"
proof -
  let ?rows = "filter (unresolved tb) (tb_work tb)"
  have keyed: "letters_keyed pg tb" using assms(1) by (simp add: letters_listable_def)
  have "ascending dead_before c (map dead_key all)"
  proof (rule ascending_scanned [OF assms(3) onward_sorted, where fits = "letter_cursor_fits pg"])
    show "distinct (map (letter_key pg) ?rows)" by (rule letter_listing.distinct_law [OF keyed])
    show "\<forall>r \<in> set (take n (onward (letter_key pg) (letter_position pg c) ?rows)).
        behind (letter_position pg c) (letter_key pg r)"
      by (auto simp: onward_def dest!: in_set_takeD)
  qed (use assms(1,2) row_letter_cursor_fits [OF keyed] letter_position_of_row [OF keyed] in
      \<open>auto intro: behind_dead_before simp: letters_listable_def\<close>)
  then have "ascending dead_before c (map dead_key (take m all))"
    using ascending_append [of dead_before c "map dead_key (take m all)" "map dead_key (drop m all)"]
    by (simp flip: map_append)
  moreover have "dead_record_valid i" if "i \<in> set all" for i
    using list_all2_origin [OF assms(3) that] scanDeadLetterRecord_Inr by blast
  ultimately show ?thesis
    by (intro dead_page_loop_ascending) (auto simp: list_all_iff dest: in_set_takeD)
qed

lemma letter_page_available:
  assumes "letters_listable pg tb" "letter_cursor_fits pg c" "0 < limit" "limit \<le> MaxDeadLetterPageItems"
  shows "\<exists>items nxt hasMore. letter_fetch pg {limit} tb c items nxt hasMore \<and> (hasMore \<longrightarrow> letter_cursor_fits pg nxt)"
proof -
  let ?rows = "filter (unresolved tb) (tb_work tb)"
  let ?got = "take (Suc (unat limit)) (onward (letter_key pg) (letter_position pg c) ?rows)"
  let ?q = "\<lparr>dq_after = c, dq_limit = limit\<rparr>"
  have "\<forall>r \<in> set ?got. r \<in> set ?rows \<and> (case scanDeadLetterRecord r of Inl _ \<Rightarrow> False | Inr _ \<Rightarrow> True)"
    using assms(1) by (auto simp: onward_def letters_listable_def list_all_iff dest!: in_set_takeD)
  from scannable [OF this] obtain all where
    all: "list_all2 (\<lambda>r i. r \<in> set ?rows \<and> scanDeadLetterRecord r = Inr i) ?got all" by blast
  let ?items = "take (unat limit) all" and ?more = "unat limit < length all"
  have scan: "scan_rows scanDeadLetterRecord ?got = Inr all"
    using all by (auto simp: scan_rows_related elim: list_all2_mono)
  have "dead_query_Valid ?q" using assms by (auto simp: dead_query_Valid_def letter_cursor_fits_def)
  then have page: "NewDeadLetterPage ?q ?items ?more =
      Inr \<lparr>dp_items = ?items, dp_nextCursor = last (c # map dead_key ?items), dp_hasMore = ?more\<rparr>"
    using scanned_letters_accepted [OF assms(1,2) all] by (simp add: NewDeadLetterPage_def)
  define ctx where "ctx = (State_Monad.return \<lparr>cx_err = None, cx_deadline = None, cx_now = time_zero\<rparr> :: Db ctx)"
  let ?db = "\<lparr>db_tables = tb, db_tx = None, db_faults = []\<rparr>"
  have "run_state (ListDeadLetters pg (Some ctx) ?q) ?db =
      (Inr \<lparr>dp_items = ?items, dp_nextCursor = last (c # map dead_key ?items), dp_hasMore = ?more\<rparr>, ?db)"
    using \<open>dead_query_Valid ?q\<close> page scan
    by (simp add: ListDeadLetters_def guarded_def run_check db_Query_def rows_Err_def next_fault_def ctx_def
        listDeadLetters_onward)
  then have "letter_fetch pg {limit} tb c ?items (last (c # map dead_key ?items)) ?more"
    unfolding letter_fetch_def by (intro exI [of _ ctx] exI [of _ limit] exI [of _ ?db]) (simp add: quiet_def ctx_def)
  moreover have "letter_cursor_fits pg (last (c # map dead_key ?items))"
  proof (cases "?items = []")
    case False
    then have "last ?items \<in> set all" using last_in_set in_set_takeD by fast
    then obtain r where "r \<in> set (tb_work tb)" "scanDeadLetterRecord r = Inr (last ?items)"
      using list_all2_origin [OF all] by fastforce
    then show ?thesis using False row_letter_cursor_fits assms(1) by (auto simp: letters_listable_def last_map)
  qed (use assms(2) in simp)
  ultimately show ?thesis by blast
qed

interpretation letter_reading: available_listing "letter_fetch pg {limit}"
    "\<lambda>tb. filter (unresolved tb) (tb_work tb)" "letter_key pg" scanDeadLetterRecord dead_key
    "letter_position pg" "letters_keyed pg"
    "\<lambda>tb. letters_listable pg tb \<and> 0 < limit \<and> limit \<le> MaxDeadLetterPageItems"
    "\<lambda>_. letter_cursor_fits pg" for pg limit
  by unfold_locales (auto simp: letters_listable_def intro: letter_page_available [unfolded letters_listable_def])

end
