(* ===== verification/Store_Properties.thy ===== *)
theory Store_Properties
  imports Store_Log Store_Leases Store_Dead_Letters Store_Listing Example
begin

text \<open>The properties of the PostgreSQL store, with their witnesses on a small database.\<close>

section \<open>A small database\<close>

text \<open>PostgreSQL keeps microseconds; the text order is bytewise.\<close>

definition ex_pg :: PgConfig where
  "ex_pg = \<lparr>pg_stamp = (\<lambda>n. n div 1000 * 1000), pg_collation = id\<rparr>"

definition ex_tables :: Tables where
  "ex_tables = \<lparr>tb_instances = [], tb_transitions = [], tb_history = [], tb_work = [], tb_resolutions = []\<rparr>"

definition ex_ctx :: "'w ctx" where
  "ex_ctx = State_Monad.return \<lparr>cx_err = None, cx_deadline = None, cx_now = utc 1000\<rparr>"

definition ex_begin :: Transition where
  "ex_begin = \<lparr>tr_id = ''t-1'', tr_instanceID = ''order-1'', tr_expectedSequence = 0, tr_definition = ex_ref,
     tr_events = [ex_started], tr_work = [\<lparr>pw_id = ''w-1'', pw_kind = WorkReconciliation,
       pw_instanceID = ''order-1'', pw_sequence = 1, pw_availableAt = utc 1000, pw_deadline = utc 9000,
       pw_payload = None, pw_tenantID = [], pw_correlationID = []\<rparr>],
     tr_fingerprint = replicate 64 CHR ''a''\<rparr>"

definition ex_db :: "Tables \<Rightarrow> fault list \<Rightarrow> Db" where
  "ex_db tb faults = \<lparr>db_tables = tb, db_tx = None, db_faults = faults\<rparr>"

lemma ex_ctx_open: "open_ctx ex_ctx" "quiet ex_ctx"
  by (simp_all add: open_ctx_def quiet_def ex_ctx_def)

lemmas tx_eval = Commit_def guarded_def ex_ctx_def run_check Begin_def next_fault_def stageTransition_def
  exactTransition_def tx_QueryRow_def tx_view_def tx_change_def stage_rows_def tx_Commit_def rollback_def
  findTransition_def insertInstance_def insertTransition_def lockInstance_def insertHistory_def insertWork_def
  findWork_def updateInstance_def transition_Valid_def transitionSequenceFits_def

lemma ex_commit:
  "run_state (Commit ex_pg (Some ex_ctx) ex_begin) (ex_db ex_tables []) =
     (Inr (), ex_db (staged ex_pg ex_begin ex_tables) [])"
  by (simp add: tx_eval ex_db_def ex_tables_def ex_begin_def ex_started_def ex_event_def ex_ref_def
      maxPostgreSQLSequence_def history_key_def historyArguments_def workArguments_def Let_def
      zero_HistoryEvent_def staged_def opened_def first_row_def advance_row_def transition_row_def
      terminalArchiveTime_def next_definition_def)

section \<open>Commits\<close>

text \<open>
  C4: A commit has all of its effects or none, and the error it returns is classified truthfully.
  On success the transition was already recorded with the same fingerprint and nothing changed, or
  it was admissible (new identity, the expected position and definition of its instance, new work
  identities) and all of its rows are in the tables. An error classified as not committed left the
  tables alone; any other error is classified as unknown, and then the rows are all in or none is.
  This holds whatever calls of the driver fail, and when the acknowledgement of the commit is lost.
\<close>

theorem store_commit_atomic:
  assumes "\<forall>c. ctx = Some c \<longrightarrow> quiet c" "run_state (Commit pg ctx t) db = (r, db')"
  shows "case r of
     Inr _ \<Rightarrow> (db_tables db' = db_tables db \<and> findTransition (tr_id t) (db_tables db) = Some (tr_fingerprint t)) \<or>
       (stageable t (db_tables db) \<and> db_tables db' = staged pg t (db_tables db))
   | Inl e \<Rightarrow> (StoreCommitOutcomeOf e = StoreCommitNotCommitted \<and> db_tables db' = db_tables db) \<or>
       (StoreCommitOutcomeOf e = StoreCommitUnknown \<and> stageable t (db_tables db) \<and>
        (db_tables db' = db_tables db \<or> db_tables db' = staged pg t (db_tables db)))"
  using tripleD [OF triple_store_Commit [of ctx "db_tables db" pg t] _ assms(2)] assms(1)
  by (simp add: commit_post_iff at_rest_def)

theorem store_commit_atomic_witness:
  "stageable ex_begin ex_tables \<and> length (tb_history (staged ex_pg ex_begin ex_tables)) = 1"
proof -
  have "findTransition (tr_id ex_begin) (db_tables (ex_db ex_tables [])) = None"
    by (simp add: ex_db_def ex_tables_def findTransition_def)
  moreover have "\<forall>c. Some ex_ctx = Some c \<longrightarrow> quiet c" using ex_ctx_open(2) by simp
  ultimately have "stageable ex_begin (db_tables (ex_db ex_tables []))"
    using store_commit_atomic [OF _ ex_commit] by auto
  then show ?thesis by (simp add: ex_db_def staged_def ex_tables_def ex_begin_def)
qed

text \<open>
  C11: An unknown commit is settled by reconciliation. When \<open>Commit\<close> ended with an unknown outcome
  and \<open>ReconcileTransition\<close> then answers for the same identity and fingerprint, it answers
  \<open>TransitionCommitted\<close> exactly when the rows of the transition are in, and \<open>TransitionMissing\<close>
  exactly when nothing was written; it never reports a conflict.
\<close>

theorem reconciliation_settles_commit:
  assumes "quiet c" "run_state (Commit pg (Some c) t) db = (Inl e, db1)" "StoreCommitOutcomeOf e = StoreCommitUnknown"
    "run_state (ReconcileTransition (Some c) \<lparr>rc_transitionID = tr_id t, rc_fingerprint = tr_fingerprint t\<rparr>) db1 =
       (Inr outcome, db2)"
  shows "db_tables db2 = db_tables db1 \<and>
    ((outcome = TransitionCommitted \<and> db_tables db1 = staged pg t (db_tables db)) \<or>
     (outcome = TransitionMissing \<and> db_tables db1 = db_tables db))"
proof -
  have post: "stageable t (db_tables db) \<and> (db_tables db1 = db_tables db \<or> db_tables db1 = staged pg t (db_tables db))"
    using tripleD [OF triple_store_Commit [of "Some c" "db_tables db" pg t] _ assms(2)] assms(1,3)
    by (auto simp: commit_post_iff at_rest_def)
  have "db_tables db2 = db_tables db1 \<and> outcome = (case findTransition (tr_id t) (db_tables db1) of
      None \<Rightarrow> TransitionMissing
    | Some f \<Rightarrow> if f = tr_fingerprint t then TransitionCommitted else TransitionConflicting)"
    using tripleD [OF triple_ReconcileTransition [of "Some c" "db_tables db1"] _ assms(4)] assms(1)
    by (auto simp: at_rest_def split: option.split)
  then show ?thesis using post findTransition_staged [of t "db_tables db" pg] by (auto simp: stageable_def)
qed

lemmas reconcile_eval = ReconcileTransition_def reconciliation_Valid_def db_Query_def

lemma ex_lost:
  "run_state (Commit ex_pg (Some ex_ctx) ex_begin) (ex_db ex_tables [Fine, Fine, Fine, Fine, Fine, Fine, Fine, LostAck ''gone'']) =
     (Inl (StoreCommitError StoreCommitUnknown (ForeignError ''gone'')), ex_db (staged ex_pg ex_begin ex_tables) [])"
  by (simp add: tx_eval ex_db_def ex_tables_def ex_begin_def ex_started_def ex_event_def ex_ref_def
      maxPostgreSQLSequence_def history_key_def historyArguments_def workArguments_def Let_def
      zero_HistoryEvent_def staged_def opened_def first_row_def advance_row_def transition_row_def
      terminalArchiveTime_def next_definition_def NewStoreCommitError_def)

theorem reconciliation_settles_commit_witness:
  "\<exists>db2. run_state (ReconcileTransition (Some ex_ctx)
      \<lparr>rc_transitionID = ''t-1'', rc_fingerprint = replicate 64 CHR ''a''\<rparr>) (ex_db (staged ex_pg ex_begin ex_tables) []) =
      (Inr TransitionCommitted, db2) \<and> db_tables db2 = staged ex_pg ex_begin ex_tables"
proof -
  have run: "run_state (ReconcileTransition (Some ex_ctx) \<lparr>rc_transitionID = tr_id ex_begin,
      rc_fingerprint = tr_fingerprint ex_begin\<rparr>) (ex_db (staged ex_pg ex_begin ex_tables) []) =
      (Inr TransitionCommitted, ex_db (staged ex_pg ex_begin ex_tables) [])"
    by (simp add: reconcile_eval tx_eval ex_db_def ex_tables_def staged_def opened_def transition_row_def ex_begin_def
        pattern_eval)
  have "db_tables (ex_db (staged ex_pg ex_begin ex_tables) []) = staged ex_pg ex_begin ex_tables"
    using reconciliation_settles_commit [OF ex_ctx_open(2) ex_lost _ run] by (simp add: ex_db_def)
  then show ?thesis using run by (auto simp: ex_begin_def)
qed

section \<open>The durable log\<close>


lemma ex_storable: "storable ex_pg ex_begin"
proof -
  have "event_ok ex_started" by (rule ex_events_ok)
  then show ?thesis
    by (simp add: storable_def exact_event_def transitionSequenceFits_def plan_events_ok_def ex_begin_def stamped_def
        ex_pg_def same_instance_def ordered_times_def maxPostgreSQLSequence_def ex_started_def ex_event_def
        zero_HistoryEvent_def)
qed

lemma ex_empty_ok: "store_ok pg ex_tables"
  by (simp add: store_ok_def ex_tables_def)


text \<open>
  C13: Inspecting an instance through the PostgreSQL store gives the replay of its whole durable
  log. Under an open context and a database that answers, \<open>InspectInstance\<close> returns exactly what
  \<open>Replay\<close> makes of the stored log, for every page size, or reports that the log is longer than the
  caller's limit; paging neither loses nor repeats an event.
\<close>

theorem inspection_replays_log:
  assumes "store_ok pg (db_tables db)" "db_faults db = []" "stored_log (db_tables db) n \<noteq> []"
    "validHistoryTraversal n pageSize maxEvents" "open_ctx c"
  shows "\<exists>db'. run_state (InspectInstance (Some c) (Some (\<lambda>c. History (Some c))) (Some registry)
      \<lparr>is_InstanceID = n, is_PageSize = pageSize, is_MaxEvents = maxEvents\<rparr>) db =
      (if length (stored_log (db_tables db) n) \<le> unat maxEvents
       then Replay (Some registry) (stored_log (db_tables db) n) else Inl ErrHistoryLimitExceeded, db')"
  by (rule pg_available.inspect_available [OF assms])

theorem inspection_replays_log_witness:
  "\<exists>db'. run_state (InspectInstance (Some ex_ctx) (Some (\<lambda>c. History (Some c))) ex_registry
      \<lparr>is_InstanceID = ''order-1'', is_PageSize = 1, is_MaxEvents = 5\<rparr>)
      (ex_db (staged ex_pg ex_begin ex_tables) []) = (Inr ex_i1, db')"
proof -
  let ?db = "ex_db (staged ex_pg ex_begin ex_tables) []"
  have st: "stageable ex_begin ex_tables"
    by (simp add: stageable_def ex_begin_def ex_tables_def findTransition_def lockInstance_def)
  have ok: "store_ok ex_pg (db_tables ?db)"
    using store_ok_staged [OF ex_empty_ok st ex_storable] by (simp add: ex_db_def)
  have log: "stored_log (db_tables ?db) ''order-1'' = [ex_started]"
    using stored_log_staged [OF ex_storable, of ex_tables] by (simp add: ex_db_def ex_begin_def stored_log_def ex_tables_def)
  have "validHistoryTraversal ''order-1'' 1 5"
    by (simp add: validHistoryTraversal_def MaxHistoryPageEvents_def MaxInspectionHistoryEvents_def pattern_eval)
  from inspection_replays_log [OF ok _ _ this ex_ctx_open(1), of "the ex_registry"] log
  show ?thesis using ex_apply1 ex_idle by (simp add: ex_db_def Replay_def ex_registry_def)
qed

section \<open>Leases\<close>

text \<open>The example work under a lease of \<open>worker-0\<close> with token 4 that ends at 3000.\<close>

definition ex_row :: "string \<Rightarrow> int \<Rightarrow> WorkRow" where
  "ex_row n expires = \<lparr>rw_work_id = n, rw_kind = 1, rw_instance_id = ''order-1'', rw_sequence = 1,
     rw_available_at = 1000, rw_deadline = 900000, rw_payload = None, rw_tenant_id = [], rw_correlation_id = [],
     rw_state = 2, rw_attempts = 1, rw_lease_owner = Some ''worker-0'', rw_lease_token = 4,
     rw_lease_expires_at = Some expires, rw_failure_code = [], rw_completed_at = None\<rparr>"

definition ex_leased :: Tables where
  "ex_leased = ex_tables\<lparr>tb_work := [ex_row ''w-1'' 3000, ex_row ''w-2'' 8000]\<rparr>"





text \<open>
  C15: Work is finished only under its current fence. Completing, failing and renewing change no
  table but the work table and no row there but one whose identity, owner, token and unexpired
  lease match the request; the fence token itself never moves, and the operation reports success
  only when there is such a row. A worker whose lease was taken over or has expired changes nothing.
\<close>

theorem work_changes_under_fence:
  assumes "quiet c" "run_state (Complete pg (Some c) completion) db = (r1, db1)"
    "run_state (Fail pg (Some c) failure) db = (r2, db2)" "run_state (Renew pg (Some c) renewal) db = (r3, db3)"
  shows "(let P = fenced (wc_workID completion) (wc_owner completion) (uint (wc_token completion))
        (stamped pg (wc_completedAt completion))
      in only_changes P (db_tables db) (db_tables db1) \<and>
         (r1 = Inr () \<longrightarrow> length (filter P (tb_work (db_tables db))) = 1)) \<and>
    (let P = fenced (wf_workID failure) (wf_owner failure) (uint (wf_token failure)) (stamped pg (wf_failedAt failure))
      in only_changes P (db_tables db) (db_tables db2) \<and>
         (r2 = Inr () \<longrightarrow> length (filter P (tb_work (db_tables db))) = 1)) \<and>
    (let P = fenced (rn_workID renewal) (rn_owner renewal) (uint (rn_token renewal)) (stamped pg (rn_now renewal))
      in only_changes P (db_tables db) (db_tables db3) \<and>
         ((\<exists>lease. r3 = Inr lease) \<longrightarrow> list_ex P (tb_work (db_tables db))))"
  using tripleD [OF triple_Complete [of "Some c" "db_tables db" pg completion] _ assms(2)]
    tripleD [OF triple_Fail [of "Some c" "db_tables db" pg failure] _ assms(3)]
    tripleD [OF triple_Renew [of "Some c" "db_tables db" pg renewal] _ assms(4)] assms(1)
  by (simp add: at_rest_def fenced_post_def)

definition ex_completion :: WorkCompletion where
  "ex_completion = \<lparr>wc_workID = ''w-2'', wc_owner = ''worker-0'', wc_token = 4, wc_completedAt = utc 5000\<rparr>"

definition ex_failure :: WorkFailure where
  "ex_failure = \<lparr>wf_workID = ''w-2'', wf_owner = ''worker-0'', wf_token = 3, wf_failedAt = utc 5000,
     wf_code = ''late'', wf_disposition = WorkDeadLetter, wf_retryAt = time_zero\<rparr>"

definition ex_renewal :: WorkLeaseRenewal where
  "ex_renewal = \<lparr>rn_workID = ''w-1'', rn_owner = ''worker-0'', rn_token = 4, rn_now = utc 5000, rn_extendBy = 1000\<rparr>"

text \<open>The live lease completes; the failure under an old token and the renewal after expiry change nothing.\<close>

theorem work_changes_under_fence_witness:
  "\<exists>r1 db1 r2 db2 r3 db3. run_state (Complete ex_pg (Some ex_ctx) ex_completion) (ex_db ex_leased []) = (r1, db1) \<and>
     run_state (Fail ex_pg (Some ex_ctx) ex_failure) (ex_db ex_leased []) = (r2, db2) \<and>
     run_state (Renew ex_pg (Some ex_ctx) ex_renewal) (ex_db ex_leased []) = (r3, db3) \<and>
     tb_instances (db_tables db1) = [] \<and> r2 \<noteq> Inr () \<and> (\<nexists>lease. r3 = Inr lease)"
proof -
  obtain r1 db1 r2 db2 r3 db3 where runs:
      "run_state (Complete ex_pg (Some ex_ctx) ex_completion) (ex_db ex_leased []) = (r1, db1)"
      "run_state (Fail ex_pg (Some ex_ctx) ex_failure) (ex_db ex_leased []) = (r2, db2)"
      "run_state (Renew ex_pg (Some ex_ctx) ex_renewal) (ex_db ex_leased []) = (r3, db3)" by fastforce
  have "tb_instances (db_tables db1) = [] \<and> r2 \<noteq> Inr () \<and> (\<nexists>lease. r3 = Inr lease)"
    using work_changes_under_fence [OF ex_ctx_open(2) runs]
    by (auto dest!: only_changes_instances simp: fenced_def ex_db_def ex_leased_def ex_row_def ex_completion_def ex_failure_def
        ex_renewal_def stamped_def ex_pg_def ex_tables_def Let_def)
  then show ?thesis using runs by blast
qed

section \<open>Dead letters\<close>

text \<open>
  C16: A dead letter is resolved once and as a whole. On success the command was already applied
  with the same fingerprint and nothing changed, or it was new, the work was dead under exactly the
  given fence, no other command had resolved that fence, and now the audit record is in and, for a
  retry, the work is back in admission; the fence is then no longer listed. An error classified as
  not committed changed nothing; any other error is classified as unknown.
\<close>

theorem dead_letter_resolved_once:
  assumes "quiet c" "run_state (ResolveDeadLetter pg (Some c) res) db = (r, db')"
  shows "(case r of
     Inr _ \<Rightarrow> (db_tables db' = db_tables db \<and> findResolution (dl_CommandID res) (db_tables db) = Some (dl_fingerprint res)) \<or>
       (resolvable res (db_tables db) \<and> db_tables db' = resolved_tables pg res (db_tables db) \<and>
        (\<forall>after n k. \<forall>row \<in> set (listDeadLetters pg after n k (db_tables db')).
           \<not> dead_fence (dl_WorkID res) (uint (dl_Token res)) row))
   | Inl e \<Rightarrow> (StoreCommitOutcomeOf e = StoreCommitNotCommitted \<and> db_tables db' = db_tables db) \<or>
       (StoreCommitOutcomeOf e = StoreCommitUnknown \<and> resolvable res (db_tables db) \<and>
        (db_tables db' = db_tables db \<or> db_tables db' = resolved_tables pg res (db_tables db))))"
  using tripleD [OF triple_ResolveDeadLetter [of "Some c" "db_tables db" pg res] _ assms(2)] assms(1)
  by (auto simp: at_rest_def transaction_post_def resolved_not_listed split: sum.splits)

text \<open>The work is under a lease, not dead: the command is refused and nothing changes.\<close>

definition ex_resolution :: DeadLetterResolution where
  "ex_resolution = \<lparr>dl_CommandID = ''c-1'', dl_WorkID = ''w-1'', dl_Token = 4, dl_Action = DeadLetterDiscard,
     dl_Actor = ''ops'', dl_Reason = ''poison'', dl_OccurredAt = utc 5000, dl_RetryAt = time_zero,
     dl_Deadline = time_zero, dl_fingerprint = replicate 64 CHR ''a''\<rparr>"

theorem dead_letter_resolved_once_witness:
  "\<exists>e db'. run_state (ResolveDeadLetter ex_pg (Some ex_ctx) ex_resolution) (ex_db ex_leased []) = (Inl e, db') \<and>
     StoreCommitOutcomeOf e = StoreCommitNotCommitted \<and> db_tables db' = ex_leased"
proof -
  obtain r db' where run: "run_state (ResolveDeadLetter ex_pg (Some ex_ctx) ex_resolution) (ex_db ex_leased []) = (r, db')"
    by fastforce
  have "\<not> resolvable ex_resolution ex_leased" "findResolution ''c-1'' ex_leased = None" "dl_CommandID ex_resolution = ''c-1''"
    by (simp_all add: resolvable_def dead_fence_def ex_leased_def ex_row_def ex_tables_def findResolution_def ex_resolution_def)
  with dead_letter_resolved_once [OF ex_ctx_open(2) run] run show ?thesis
    by (cases r) (auto simp: ex_db_def)
qed

section \<open>Lists\<close>

text \<open>
  C17: Following the cursors of \<open>ListInstances\<close> from the start until no page is left delivers every
  selected instance of the tables exactly once, in the order of creation time and identity, whatever
  limits the pages are read with and whatever calls of the driver failed and were repeated in
  between; the order is that of Go's strings. With a bytewise collation and rows that scan, such a
  reading always comes to its end, for every admissible limit. The tables hold still meanwhile, and
  PostgreSQL reads back the instants it stored and tells different texts apart.
\<close>

theorem instance_listing_complete:
  assumes "instances_keyed pg tb" "start = \<lparr>lc_createdAt = time_zero, lc_instanceID = []\<rparr>"
  shows "(\<forall>limits items. readout (instance_fetch pg selection limits tb) start items \<longrightarrow>
      scan_rows scanInstanceRecord
        (sort_key (\<lambda>r. (ri_created_at r, pg_collation pg (ri_instance_id r)))
           (filter (row_selected selection) (tb_instances tb))) = Inr items \<and>
      sorted_wrt key_below (map (\<lambda>i. list_rank (list_key i)) items)) \<and>
    (\<forall>limit. instances_listable pg tb \<longrightarrow> selection \<noteq> ListSelectionInvalid \<longrightarrow> 0 < limit \<longrightarrow>
      limit \<le> MaxInstanceListItems \<longrightarrow> (\<exists>items. readout (instance_fetch pg selection {limit} tb) start items))"
proof -
  have "instance_position pg start = None" "cursor_fits pg start"
    by (simp_all add: assms(2) instance_position_def nullableTime_def cursor_fits_def list_cursor_valid_def)
  then show ?thesis
    using instance_listing.readout_complete [OF _ assms(1)] instance_readout_ascends [OF _ assms(1)]
      instance_reading.readout_exists [of pg tb selection]
    by (fastforce simp: onward_def behind_def instance_key_def [abs_def])
qed

definition ex_instance :: "string \<Rightarrow> int \<Rightarrow> int option \<Rightarrow> InstanceRow" where
  "ex_instance n created archived = \<lparr>ri_instance_id = n, ri_definition = ex_ref, ri_sequence = 3,
     ri_created_at = created, ri_updated_at = 4000, ri_archived_at = archived\<rparr>"

definition ex_letter :: "string \<Rightarrow> WorkRow" where
  "ex_letter n = (ex_row n 8000)\<lparr>rw_state := 4, rw_failure_code := ''failed'', rw_completed_at := Some 2000\<rparr>"

definition ex_listed :: Tables where
  "ex_listed = ex_tables\<lparr>tb_instances := [ex_instance ''order-3'' 2000 None, ex_instance ''order-2'' 1000 (Some 5000),
     ex_instance ''order-1'' 2000 None],
     tb_work := [ex_letter ''w-2'', ex_letter ''w-1'', ex_row ''w-3'' 8000]\<rparr>"

lemmas listed_eval = ex_listed_def ex_tables_def ex_instance_def ex_row_def ex_pg_def

lemma ex_names: "instanceIDPattern ''order-1''" "instanceIDPattern ''order-2''" "instanceIDPattern ''order-3''"
    "instanceIDPattern ''w-1''" "instanceIDPattern ''w-2''" "stableName ''failed''" "reference_valid ex_ref"
  by (simp_all add: pattern_eval ex_ref_def reference_valid_def)

lemma ex_instance_scans:
  assumes "instanceIDPattern n" "0 < created" "created \<le> 4000" "case archived of None \<Rightarrow> True | Some t \<Rightarrow> 4000 \<le> t"
  shows "\<exists>i. scanInstanceRecord (ex_instance n created archived) = Inr i \<and> ir_instanceID i = n"
  using assms ex_names(7)
  by (auto simp: scanInstanceRecord_def NewDefinitionReference_def ex_instance_def NewInstanceRecord_def record_valid_def
      reference_valid_def Before_def canonicalTime_utc time_zero_utc Let_def split: option.splits)

lemma ex_instances_listable: "instances_listable ex_pg ex_listed"
proof -
  have "\<forall>r \<in> set (tb_instances ex_listed). listable r"
    using ex_instance_scans [of "''order-1''" 2000 None] ex_instance_scans [of "''order-2''" 1000 "Some 5000"]
      ex_instance_scans [of "''order-3''" 2000 None] ex_names
    by (auto simp: ex_listed_def listable_def) (simp_all add: ex_instance_def)
  then show ?thesis
    by (simp add: instances_listable_def instances_keyed_def list_all_iff) (simp add: listed_eval)
qed

theorem instance_listing_complete_witness:
  "\<exists>items. readout (instance_fetch ex_pg ListActiveInstances {1} ex_listed)
      \<lparr>lc_createdAt = time_zero, lc_instanceID = []\<rparr> items \<and> map ir_instanceID items = [''order-1'', ''order-3'']"
proof -
  have keyed: "instances_keyed ex_pg ex_listed" using ex_instances_listable by (simp add: instances_listable_def)
  note complete = instance_listing_complete [OF keyed refl, of ListActiveInstances]
  obtain items where items: "readout (instance_fetch ex_pg ListActiveInstances {1} ex_listed)
      \<lparr>lc_createdAt = time_zero, lc_instanceID = []\<rparr> items"
    using complete ex_instances_listable by (force simp: MaxInstanceListItems_def)
  have "filter (row_selected ListActiveInstances) (tb_instances ex_listed) =
      [ex_instance ''order-3'' 2000 None, ex_instance ''order-1'' 2000 None]"
    by (simp add: listed_eval row_selected_def)
  moreover have "sort_key (\<lambda>r. (ri_created_at r, pg_collation ex_pg (ri_instance_id r)))
      [ex_instance ''order-3'' 2000 None, ex_instance ''order-1'' 2000 None] =
      [ex_instance ''order-1'' 2000 None, ex_instance ''order-3'' 2000 None]"
    by (simp add: ex_instance_def ex_pg_def)
  ultimately have "scan_rows scanInstanceRecord [ex_instance ''order-1'' 2000 None, ex_instance ''order-3'' 2000 None] =
      Inr items"
    using complete items by simp
  then have "map ir_instanceID items = [''order-1'', ''order-3'']"
    using ex_instance_scans [of "''order-1''" 2000 None] ex_instance_scans [of "''order-3''" 2000 None] ex_names by auto
  with items show ?thesis by (intro exI conjI)
qed

text \<open>
  C18: Following the cursors of \<open>ListDeadLetters\<close> from the start until no page is left delivers every
  unresolved dead letter of the tables exactly once, in the order of failure time and identity,
  whatever limits the pages are read with; work that is alive or was resolved under its current
  fence is not delivered. With a bytewise collation and rows that scan, such a reading always comes
  to its end, for every admissible limit.
\<close>

theorem dead_letter_listing_complete:
  assumes "letters_keyed pg tb"
  shows "(\<forall>limits items. readout (letter_fetch pg limits tb) zero_DeadLetterCursor items \<longrightarrow>
      scan_rows scanDeadLetterRecord
        (sort_key (\<lambda>r. (the (rw_completed_at r), pg_collation pg (rw_work_id r)))
           (filter (unresolved tb) (tb_work tb))) = Inr items \<and>
      sorted_wrt key_below (map (\<lambda>i. dead_rank (dead_key i)) items)) \<and>
    (\<forall>limit. letters_listable pg tb \<longrightarrow> 0 < limit \<longrightarrow> limit \<le> MaxDeadLetterPageItems \<longrightarrow>
      (\<exists>items. readout (letter_fetch pg {limit} tb) zero_DeadLetterCursor items))"
proof -
  have "letter_position pg zero_DeadLetterCursor = None" "letter_cursor_fits pg zero_DeadLetterCursor"
    by (simp_all add: zero_DeadLetterCursor_def letter_position_def nullableTime_def letter_cursor_fits_def)
  then show ?thesis
    using letter_listing.readout_complete [OF _ assms] letter_readout_ascends [OF _ assms]
      letter_reading.readout_exists [of pg tb]
    by (fastforce simp: onward_def behind_def letter_key_def [abs_def])
qed

lemma ex_letter_scans:
  assumes "instanceIDPattern n"
  shows "\<exists>i. scanDeadLetterRecord (ex_letter n) = Inr i \<and> pw_id (dr_work i) = n"
  using assms ex_names
  by (auto simp: scanDeadLetterRecord_def ex_letter_def ex_row_def work_row_sane_def row_work_spec_def NewPendingWork_def
      NewDeadLetterRecord_def dead_record_valid_def work_valid_def work_kind_of_def canonicalTime_utc
      optionalMetadataValid_def IsZero_def After_def Let_def)

lemma ex_unresolved: "filter (unresolved ex_listed) (tb_work ex_listed) = [ex_letter ''w-2'', ex_letter ''w-1'']"
  by (simp add: unresolved_def ex_listed_def ex_tables_def ex_letter_def ex_row_def)

lemma ex_letters_listable: "letters_listable ex_pg ex_listed"
  unfolding letters_listable_def ex_unresolved
  using ex_letter_scans [of "''w-1''"] ex_letter_scans [of "''w-2''"] ex_names(4,5)
  by (auto simp: letters_keyed_def work_keyed_def ex_listed_def ex_letter_def ex_row_def ex_pg_def ex_tables_def)

theorem dead_letter_listing_complete_witness:
  "\<exists>items. readout (letter_fetch ex_pg {1} ex_listed) zero_DeadLetterCursor items \<and>
     map (\<lambda>i. pw_id (dr_work i)) items = [''w-1'', ''w-2'']"
proof -
  have keyed: "letters_keyed ex_pg ex_listed" using ex_letters_listable by (simp add: letters_listable_def)
  note complete = dead_letter_listing_complete [OF keyed]
  obtain items where items: "readout (letter_fetch ex_pg {1} ex_listed) zero_DeadLetterCursor items"
    using complete ex_letters_listable by (force simp: MaxDeadLetterPageItems_def)
  have "sort_key (\<lambda>r. (the (rw_completed_at r), pg_collation ex_pg (rw_work_id r)))
      [ex_letter ''w-2'', ex_letter ''w-1''] = [ex_letter ''w-1'', ex_letter ''w-2'']"
    by (simp add: ex_letter_def ex_row_def ex_pg_def)
  then have "scan_rows scanDeadLetterRecord [ex_letter ''w-1'', ex_letter ''w-2''] = Inr items"
    using complete items by (simp add: ex_unresolved)
  then have "map (\<lambda>i. pw_id (dr_work i)) items = [''w-1'', ''w-2'']"
    using ex_letter_scans [of "''w-1''"] ex_letter_scans [of "''w-2''"] ex_names(4,5) by auto
  with items show ?thesis by (intro exI conjI)
qed

end
