(* ===== verification/Worker.thy ===== *)
theory Worker
  imports Work Store
begin

text \<open>
  The worker (worker.go): dispositions, fair ordering of a claim, finalisation, the handling of one
  lease and the claim loop. The store, the processor, the clock and the hooks are borrowed: they are
  computations over the world. Channels and goroutines appear as explicit orders of events: a
  script of what the \<open>select\<close> of \<open>Handle\<close> sees, and a step relation for \<open>Run\<close>.
\<close>

section \<open>Dispositions\<close>

datatype WorkDecisionKind = WorkComplete | WorkRetryDecision | WorkDeadLetterDecision | WorkDecisionInvalid

record WorkDecision =
  wd_kind :: WorkDecisionKind
  wd_code :: string
  wd_retryAt :: gotime

type_synonym WorkDecisionSpec = WorkDecision

definition decision_Valid :: "WorkDecision \<Rightarrow> bool" where
  "decision_Valid decision = (case wd_kind decision of
     WorkComplete \<Rightarrow> wd_code decision = [] \<and> IsZero (wd_retryAt decision)
   | WorkRetryDecision \<Rightarrow> stableName (wd_code decision) \<and> \<not> IsZero (wd_retryAt decision)
   | WorkDeadLetterDecision \<Rightarrow> stableName (wd_code decision) \<and> IsZero (wd_retryAt decision)
   | WorkDecisionInvalid \<Rightarrow> False)"

definition NewWorkDecision :: "WorkDecisionSpec \<Rightarrow> WorkDecision result" where
  "NewWorkDecision spec =
     (let decision = spec\<lparr>wd_retryAt := canonicalTime (wd_retryAt spec)\<rparr>
      in if \<not> decision_Valid decision then Inl ErrInvalidWorker else Inr decision)"

section \<open>Collaborators\<close>

record 'w WorkStore =
  do_Claim :: "'w ctx \<Rightarrow> WorkClaimRequest \<Rightarrow> ('w, WorkLease list result) state"
  do_Renew :: "'w ctx \<Rightarrow> WorkLeaseRenewal \<Rightarrow> ('w, WorkLease result) state"
  do_Complete :: "'w ctx \<Rightarrow> WorkCompletion \<Rightarrow> ('w, unit result) state"
  do_Fail :: "'w ctx \<Rightarrow> WorkFailure \<Rightarrow> ('w, unit result) state"

text \<open>\<open>Clock.Now\<close>; the timers of the clock appear as the ticks of a script.\<close>

type_synonym 'w Clock = "('w, gotime) state"

type_synonym 'w WorkProcessor = "'w ctx \<Rightarrow> WorkLease \<Rightarrow> ('w, WorkDecision result) state"

datatype WorkerEventKind =
    WorkerClaimFailed | WorkerProcessingFailed | WorkerLeaseLost | WorkerWorkClaimed | WorkerWorkReadmitted
  | WorkerProcessingStarted | WorkerLeaseRenewed | WorkerCompleted | WorkerRetryScheduled | WorkerDeadLettered

record WorkerEvent =
  we_kind :: WorkerEventKind
  we_workKind :: WorkKind
  we_workID :: string
  we_attempt :: uint32
  we_at :: gotime
  we_cause :: "go_error option"

type_synonym 'w WorkerHooks = "WorkerEvent \<Rightarrow> ('w, unit) state"

record 'w WorkerConfig =
  wk_Store :: "'w WorkStore option"
  wk_Processor :: "'w WorkProcessor option"
  wk_Clock :: "'w Clock option"
  wk_Owner :: string
  wk_MaxConcurrent :: uint32
  wk_ClaimLimit :: uint32
  wk_LeaseDuration :: duration
  wk_RenewEvery :: duration
  wk_PollInterval :: duration
  wk_FinalizeTimeout :: duration
  wk_Hooks :: "'w WorkerHooks option"

definition MaxWorkerConcurrency :: uint32 where "MaxWorkerConcurrency = 1000"

definition MaxWorkerPollInterval :: int where "MaxWorkerPollInterval = 60 * 1000000000"

text \<open>A worker that \<open>NewWorker\<close> returned, with its three collaborators at hand.\<close>

record 'w Worker =
  wr_config :: "'w WorkerConfig"
  wr_store :: "'w WorkStore"
  wr_processor :: "'w WorkProcessor"
  wr_clock :: "'w Clock"

definition NewWorker :: "'w WorkerConfig \<Rightarrow> 'w Worker result" where
  "NewWorker config = (case wk_Store config of
     None \<Rightarrow> Inl ErrInvalidWorker
   | Some store \<Rightarrow> (case wk_Processor config of
       None \<Rightarrow> Inl ErrInvalidWorker
     | Some processor \<Rightarrow> (case wk_Clock config of
         None \<Rightarrow> Inl ErrInvalidWorker
       | Some clock \<Rightarrow>
           if \<not> instanceIDPattern (wk_Owner config) \<or> wk_MaxConcurrent config = 0 \<or>
              wk_MaxConcurrent config > MaxWorkerConcurrency \<or> wk_ClaimLimit config = 0 \<or>
              wk_ClaimLimit config > MaxWorkClaimItems \<or>
              sint (wk_LeaseDuration config) > MaxWorkLeaseDuration \<or> sint (wk_RenewEvery config) \<le> 0 \<or>
              sint (wk_RenewEvery config) \<ge> sint (wk_LeaseDuration config) \<or>
              sint (wk_PollInterval config) \<le> 0 \<or> sint (wk_PollInterval config) > MaxWorkerPollInterval \<or>
              sint (wk_FinalizeTimeout config) \<le> 0 \<or>
              sint (wk_FinalizeTimeout config) > MaxWorkLeaseDuration
           then Inl ErrInvalidWorker
           else Inr \<lparr>wr_config = config, wr_store = store, wr_processor = processor, wr_clock = clock\<rparr>)))"

section \<open>Hooks\<close>

definition observe :: "'w Worker \<Rightarrow> WorkerEventKind \<Rightarrow> string \<Rightarrow> go_error option \<Rightarrow> ('w, unit) state" where
  "observe worker kind workID cause = (case wk_Hooks (wr_config worker) of
     None \<Rightarrow> State_Monad.return ()
   | Some hook \<Rightarrow> do {
       now \<leftarrow> wr_clock worker;
       hook \<lparr>we_kind = kind, we_workKind = WorkKindInvalid, we_workID = workID, we_attempt = 0,
             we_at = now, we_cause = cause\<rparr>
     })"

definition observeLease :: "'w Worker \<Rightarrow> WorkerEventKind \<Rightarrow> WorkLease \<Rightarrow> go_error option \<Rightarrow> ('w, unit) state" where
  "observeLease worker kind lease cause = (case wk_Hooks (wr_config worker) of
     None \<Rightarrow> State_Monad.return ()
   | Some hook \<Rightarrow> do {
       now \<leftarrow> wr_clock worker;
       hook \<lparr>we_kind = kind, we_workKind = pw_kind (wl_work lease), we_workID = pw_id (wl_work lease),
             we_attempt = wl_attempt lease, we_at = now, we_cause = cause\<rparr>
     })"

section \<open>Finalisation\<close>

text \<open>\<open>context.WithTimeout(context.WithoutCancel(ctx), timeout)\<close>, created now.\<close>

definition detached :: "'w ctx \<Rightarrow> gotime \<Rightarrow> 'w ctx" where
  "detached ctx deadline = do {
     c \<leftarrow> ctx;
     State_Monad.return (WithDeadline (c\<lparr>cx_err := None, cx_deadline := None\<rparr>) deadline)
   }"

definition finalize :: "'w Worker \<Rightarrow> 'w ctx \<Rightarrow> WorkLease \<Rightarrow> WorkDecision \<Rightarrow> ('w, unit result) state" where
  "finalize worker ctx lease decision = do {
     created \<leftarrow> ctx;
     let finalizeContext = detached ctx (Add (cx_now created) (wk_FinalizeTimeout (wr_config worker)));
     now \<leftarrow> wr_clock worker;
     case wd_kind decision of
       WorkComplete \<Rightarrow>
         (case NewWorkCompletion \<lparr>wc_workID = pw_id (wl_work lease), wc_owner = wl_owner lease,
                 wc_token = wl_token lease, wc_completedAt = now\<rparr> of
            Inl err \<Rightarrow> fails err
          | Inr completion \<Rightarrow>
              check (do_Complete (wr_store worker) finalizeContext completion) fails (\<lambda>_. do {
                observeLease worker WorkerCompleted lease None;
                gives ()
              }))
     | WorkRetryDecision \<Rightarrow>
         (case NewWorkFailure \<lparr>wf_workID = pw_id (wl_work lease), wf_owner = wl_owner lease,
                 wf_token = wl_token lease, wf_failedAt = now, wf_code = wd_code decision,
                 wf_disposition = WorkRetry, wf_retryAt = wd_retryAt decision\<rparr> of
            Inl err \<Rightarrow> fails err
          | Inr failure \<Rightarrow>
              check (do_Fail (wr_store worker) finalizeContext failure) fails (\<lambda>_. do {
                observeLease worker WorkerRetryScheduled lease None;
                gives ()
              }))
     | _ \<Rightarrow>
         (case NewWorkFailure \<lparr>wf_workID = pw_id (wl_work lease), wf_owner = wl_owner lease,
                 wf_token = wl_token lease, wf_failedAt = now, wf_code = wd_code decision,
                 wf_disposition = WorkDeadLetter, wf_retryAt = time_zero\<rparr> of
            Inl err \<Rightarrow> fails err
          | Inr failure \<Rightarrow>
              check (do_Fail (wr_store worker) finalizeContext failure) fails (\<lambda>_. do {
                observeLease worker WorkerDeadLettered lease None;
                gives ()
              }))
   }"

section \<open>Handling one lease\<close>

text \<open>
  What happens while \<open>Handle\<close> waits, in order: the processor's result arrives, the renewal timer
  fires, the context is done (with its error), or something else acts on the world: the processor
  goroutine and the rest of the program. A script that ends before \<open>Handle\<close> returns leaves it
  waiting (\<open>None\<close>).
\<close>

datatype 'w handle_event =
    Processed "WorkDecision result"
  | RenewalDue
  | ContextDone go_error
  | Elsewhere "('w, unit) state"

definition settle :: "'w Worker \<Rightarrow> 'w ctx \<Rightarrow> WorkLease \<Rightarrow> go_error option \<Rightarrow> WorkDecision result \<Rightarrow>
    ('w, unit result) state" where
  "settle worker ctx current cancelled outcome = (case outcome of
     Inl err \<Rightarrow> (case cancelled of None \<Rightarrow> fails err | Some done_err \<Rightarrow> fails done_err)
   | Inr decision \<Rightarrow>
       if \<not> decision_Valid decision then fails ErrInvalidWorker else finalize worker ctx current decision)"

definition renew_lease :: "'w Worker \<Rightarrow> 'w ctx \<Rightarrow> WorkLease \<Rightarrow> ('w, WorkLease result) state" where
  "renew_lease worker ctx current = do {
     now \<leftarrow> wr_clock worker;
     case NewWorkLeaseRenewal \<lparr>rn_workID = pw_id (wl_work current), rn_owner = wl_owner current,
            rn_token = wl_token current, rn_now = now,
            rn_extendBy = wk_LeaseDuration (wr_config worker)\<rparr> of
       Inl err \<Rightarrow> fails err
     | Inr renewal \<Rightarrow>
         check (do_Renew (wr_store worker) ctx renewal) fails (\<lambda>renewed. do {
           observeLease worker WorkerLeaseRenewed renewed None;
           gives renewed
         })
   }"

text \<open>\<open>cancel()\<close> and then \<open>result := <-processed\<close>: timers and the context no longer matter.\<close>

fun await_processed :: "(WorkDecision result \<Rightarrow> ('w, unit result) state) \<Rightarrow> 'w handle_event list \<Rightarrow>
    ('w, unit result option) state" where
  "await_processed k [] = State_Monad.return None"
| "await_processed k (Processed outcome # script) = do {
     r \<leftarrow> k outcome;
     State_Monad.return (Some r)
   }"
| "await_processed k (Elsewhere act # script) = do {
     act;
     await_processed k script
   }"
| "await_processed k (RenewalDue # script) = await_processed k script"
| "await_processed k (ContextDone err # script) = await_processed k script"

fun handle_loop :: "'w Worker \<Rightarrow> 'w ctx \<Rightarrow> WorkLease \<Rightarrow> 'w handle_event list \<Rightarrow>
    ('w, unit result option) state" where
  "handle_loop worker ctx current [] = State_Monad.return None"
| "handle_loop worker ctx current (Processed outcome # script) = do {
     r \<leftarrow> settle worker ctx current None outcome;
     State_Monad.return (Some r)
   }"
| "handle_loop worker ctx current (RenewalDue # script) = do {
     r \<leftarrow> renew_lease worker ctx current;
     case r of
       Inl err \<Rightarrow> await_processed (\<lambda>_. fails err) script
     | Inr renewed \<Rightarrow> handle_loop worker ctx renewed script
   }"
| "handle_loop worker ctx current (ContextDone err # script) =
     await_processed (settle worker ctx current (Some err)) script"
| "handle_loop worker ctx current (Elsewhere act # script) = do {
     act;
     handle_loop worker ctx current script
   }"

definition Handle :: "'w Worker option \<Rightarrow> 'w ctx option \<Rightarrow> WorkLease \<Rightarrow> 'w handle_event list \<Rightarrow>
    ('w, unit result option) state" where
  "Handle worker ctx lease script = (case worker of
     None \<Rightarrow> State_Monad.return (Some (Inl ErrInvalidWorker))
   | Some w \<Rightarrow> (case ctx of
       None \<Rightarrow> State_Monad.return (Some (Inl ErrInvalidWorker))
     | Some c \<Rightarrow>
         if \<not> lease_Valid lease \<or> wl_owner lease \<noteq> wk_Owner (wr_config w)
         then State_Monad.return (Some (Inl ErrInvalidWorker))
         else do {
           observeLease w WorkerProcessingStarted lease None;
           handle_loop w c lease script
         }))"

section \<open>Fair order\<close>

type_synonym lease_groups = "(string \<rightharpoonup> WorkLease list) \<times> string list \<times> nat"

definition group_lease :: "lease_groups \<Rightarrow> WorkLease \<Rightarrow> lease_groups" where
  "group_lease state lease =
     (let (groups, order, maximumGroupSize) = state;
          tenant = pw_tenantID (wl_work lease);
          order = (if has_key groups tenant then order else order @ [tenant]);
          groups = groups(tenant \<mapsto> lookup_zero [] groups tenant @ [lease])
      in (groups, order, max maximumGroupSize (length (lookup_zero [] groups tenant))))"

definition lease_round :: "(string \<rightharpoonup> WorkLease list) \<Rightarrow> string list \<Rightarrow> nat \<Rightarrow> WorkLease list" where
  "lease_round groups order index =
     map (\<lambda>tenant. lookup_zero [] groups tenant ! index)
       (filter (\<lambda>tenant. \<not> index \<ge> length (lookup_zero [] groups tenant)) order)"

definition fairLeaseOrder :: "WorkLease list \<Rightarrow> WorkLease list" where
  "fairLeaseOrder leases =
     (let (groups, order, maximumGroupSize) = foldl group_lease (Map.empty, [], 0) leases
      in concat (map (lease_round groups order) [0..<maximumGroupSize]))"

section \<open>The claim loop\<close>

text \<open>
  The state of \<open>Run\<close>: the count of active handlers, the handlers that have not sent their result,
  the results in the channel, the error to return, whether the run context is cancelled, whether
  the loop waits in its \<open>select\<close>, and what \<open>Run\<close> returned.
\<close>

record RunState =
  rs_active :: uint32
  rs_running :: "WorkLease list"
  rs_results :: nat
  rs_err :: "go_error option"
  rs_cancelled :: bool
  rs_selecting :: bool
  rs_returned :: "unit result option"

definition run_init :: RunState where
  "run_init = \<lparr>rs_active = 0, rs_running = [], rs_results = 0, rs_err = None, rs_cancelled = False,
     rs_selecting = False, rs_returned = None\<rparr>"

fun observe_claims :: "'w Worker \<Rightarrow> WorkLease list \<Rightarrow> ('w, unit) state" where
  "observe_claims worker [] = State_Monad.return ()"
| "observe_claims worker (lease # leases) = do {
     observeLease worker (if wl_attempt lease > 1 then WorkerWorkReadmitted else WorkerWorkClaimed) lease None;
     observe_claims worker leases
   }"

text \<open>One pass of the loop, from the look at the context down to the \<open>select\<close>.\<close>

definition run_iteration :: "'w Worker \<Rightarrow> 'w ctx \<Rightarrow> RunState \<Rightarrow> ('w, RunState) state" where
  "run_iteration worker ctx st =
     (let config = wr_config worker; capacity = wk_MaxConcurrent config - rs_active st
      in if \<not> capacity > 0 then State_Monad.return (st\<lparr>rs_selecting := True\<rparr>)
         else
           let limit = min (wk_ClaimLimit config) capacity
           in do {
             now \<leftarrow> wr_clock worker;
             case NewWorkClaimRequest \<lparr>cr_owner = wk_Owner config, cr_now = now,
                    cr_leaseDuration = wk_LeaseDuration config, cr_limit = limit\<rparr> of
               Inl _ \<Rightarrow> State_Monad.return (st\<lparr>rs_err := Some ErrInvalidWorker, rs_cancelled := True\<rparr>)
             | Inr request \<Rightarrow> do {
                 claimed \<leftarrow> do_Claim (wr_store worker) ctx request;
                 case claimed of
                   Inl claimErr \<Rightarrow> do {
                     observe worker WorkerClaimFailed [] (Some claimErr);
                     State_Monad.return (st\<lparr>rs_selecting := True\<rparr>)
                   }
                 | Inr leases \<Rightarrow>
                     if length leases > unat limit
                     then State_Monad.return (st\<lparr>rs_err := Some ErrInvalidWorker, rs_cancelled := True\<rparr>)
                     else do {
                       observe_claims worker (fairLeaseOrder leases);
                       State_Monad.return (st\<lparr>
                         rs_active := rs_active st + of_nat (length (fairLeaseOrder leases)),
                         rs_running := rs_running st @ fairLeaseOrder leases,
                         rs_selecting := (length leases = 0)\<rparr>)
                     }
               }
           })"

text \<open>
  The interleavings of the loop with its handlers, the caller's cancellation and the rest of the
  program. A handler sends its result to a channel of capacity \<open>MaxConcurrent\<close> and is then done.
\<close>

inductive run_step :: "'w Worker \<Rightarrow> 'w ctx \<Rightarrow> RunState \<times> 'w \<Rightarrow> RunState \<times> 'w \<Rightarrow> bool"
  for worker ctx where
  iterate: "\<lbrakk>rs_returned st = None; \<not> rs_selecting st; \<not> rs_cancelled st;
     run_state (run_iteration worker ctx st) w = (st', w')\<rbrakk> \<Longrightarrow> run_step worker ctx (st, w) (st', w')"
| join: "\<lbrakk>rs_returned st = None; \<not> rs_selecting st; rs_cancelled st; rs_running st = []\<rbrakk> \<Longrightarrow>
     run_step worker ctx (st, w) (st\<lparr>rs_returned := Some (case rs_err st of None \<Rightarrow> Inr () | Some e \<Rightarrow> Inl e)\<rparr>, w)"
| handler_done: "\<lbrakk>lease \<in> set (rs_running st); rs_results st < unat (wk_MaxConcurrent (wr_config worker))\<rbrakk> \<Longrightarrow>
     run_step worker ctx (st, w) (st\<lparr>rs_running := remove1 lease (rs_running st), rs_results := rs_results st + 1\<rparr>, w)"
| cancel: "run_step worker ctx (st, w) (st\<lparr>rs_cancelled := True\<rparr>, w)"
| select_done: "\<lbrakk>rs_selecting st; rs_cancelled st\<rbrakk> \<Longrightarrow> run_step worker ctx (st, w) (st\<lparr>rs_selecting := False\<rparr>, w)"
| select_timer: "rs_selecting st \<Longrightarrow> run_step worker ctx (st, w) (st\<lparr>rs_selecting := False\<rparr>, w)"
| select_result: "\<lbrakk>rs_selecting st; rs_results st > 0\<rbrakk> \<Longrightarrow> run_step worker ctx (st, w)
     (st\<lparr>rs_selecting := False, rs_results := rs_results st - 1, rs_active := rs_active st - 1\<rparr>, w)"
| elsewhere: "run_step worker ctx (st, w) (st, w')"

inductive_cases run_stepE: "run_step worker ctx (st, w) (st', w')"

end
