(* ===== verification/Activity_Processor.thy ===== *)
theory Activity_Processor
  imports Worker Inspection Activity_Transition Administration Activity Child_Transition
begin

text \<open>
  The activity processor (activity\_processor.go): what a worker runs for a leased activity item. It
  records the attempt before it calls the handler and the outcome after, and commits through a
  reconciliation. \<open>commitActivityTransition\<close>, the inspection and the two common decisions also serve
  the other two processors.
\<close>

section \<open>Committing\<close>

definition zero_TransitionReconciliation :: TransitionReconciliation where
  "zero_TransitionReconciliation = \<lparr>rc_transitionID = [], rc_fingerprint = []\<rparr>"

definition commitActivityTransition ::
  "'w ctx \<Rightarrow> 'w ExecutionStore \<Rightarrow> Transition \<Rightarrow> ('w, unit result) state" where
  "commitActivityTransition ctx store transition = do {
     committed \<leftarrow> do_Commit store ctx transition;
     case committed of
       Inr _ \<Rightarrow> gives ()
     | Inl err \<Rightarrow>
         if StoreCommitOutcomeOf err = StoreCommitCommitted then gives ()
         else if StoreCommitOutcomeOf err = StoreCommitNotCommitted then fails err
         else
           let reconciliation = value_or zero_TransitionReconciliation (NewTransitionReconciliation
                 \<lparr>rc_transitionID = tr_id transition, rc_fingerprint = tr_fingerprint transition\<rparr>)
           in check (do_ReconcileTransition store ctx reconciliation) fails (\<lambda>outcome. case outcome of
                TransitionCommitted \<Rightarrow> gives ()
              | TransitionConflicting \<Rightarrow> fails ErrDuplicateTransition
              | TransitionMissing \<Rightarrow> do_Commit store ctx transition
              | TransitionReconciliationInvalid \<Rightarrow> fails ErrInvalidStoreRequest)
   }"

definition activityComplete :: "WorkDecision result" where
  "activityComplete = NewWorkDecision \<lparr>wd_kind = WorkComplete, wd_code = [], wd_retryAt = time_zero\<rparr>"

definition activityDeadLetter :: "string \<Rightarrow> WorkDecision result" where
  "activityDeadLetter code =
     NewWorkDecision \<lparr>wd_kind = WorkDeadLetterDecision, wd_code = code, wd_retryAt = time_zero\<rparr>"

section \<open>Processors\<close>

text \<open>What every processor borrows.\<close>

record 'w Processing =
  px_Store :: "'w ExecutionStore"
  px_Definitions :: Registry
  px_Clock :: "'w Clock"
  px_PageSize :: uint32
  px_MaxHistoryEvents :: uint32

record 'w ActivityWorkProcessorConfig =
  ax_Store :: "'w ExecutionStore option"
  ax_Definitions :: "Registry option"
  ax_Activities :: "'w ActivityRegistry option"
  ax_Clock :: "'w Clock option"
  ax_PageSize :: uint32
  ax_MaxHistoryEvents :: uint32

record 'w ActivityWorkProcessor = "'w Processing" +
  px_Activities :: "'w ActivityRegistry"

definition NewActivityWorkProcessor :: "'w ActivityWorkProcessorConfig \<Rightarrow> 'w ActivityWorkProcessor result" where
  "NewActivityWorkProcessor config =
     (case (ax_Store config, ax_Definitions config, ax_Activities config, ax_Clock config) of
        (Some store, Some definitions, Some activities, Some clock) \<Rightarrow>
          if \<not> validHistoryTraversal ''processor-instance'' (ax_PageSize config) (ax_MaxHistoryEvents config)
          then Inl ErrInvalidActivityProcessor
          else Inr \<lparr>px_Store = store, px_Definitions = definitions, px_Clock = clock,
                    px_PageSize = ax_PageSize config, px_MaxHistoryEvents = ax_MaxHistoryEvents config,
                    px_Activities = activities\<rparr>
      | _ \<Rightarrow> Inl ErrInvalidActivityProcessor)"

definition inspect :: "('w, 'z) Processing_scheme \<Rightarrow> 'w ctx \<Rightarrow> string \<Rightarrow> ('w, Instance result) state" where
  "inspect processor ctx instanceID =
     InspectInstance (Some ctx) (Some (do_History (px_Store processor))) (Some (px_Definitions processor))
       \<lparr>is_InstanceID = instanceID, is_PageSize = px_PageSize processor,
        is_MaxEvents = px_MaxHistoryEvents processor\<rparr>"

fun named_activity_step :: "StepSpec list \<Rightarrow> string \<Rightarrow> StepSpec option" where
  "named_activity_step [] name = None"
| "named_activity_step (step # steps) name =
     (if st_Name step = name \<and> st_Kind step = StepActivity then Some step else named_activity_step steps name)"

definition activityProcessorStep :: "Definition \<Rightarrow> string \<Rightarrow> StepSpec option" where
  "activityProcessorStep d name = named_activity_step (def_Steps d) name"

definition load_activity :: "'w ActivityWorkProcessor \<Rightarrow> 'w ctx \<Rightarrow> PendingWork \<Rightarrow> ActivityDispatch \<Rightarrow>
    ('w, (Instance \<times> Definition \<times> StepSpec \<times> 'w Activity) result) state" where
  "load_activity processor ctx work dispatch =
     check (inspect processor ctx (pw_instanceID work)) fails (\<lambda>inst.
       let defn = resolved (Some (px_Definitions processor)) (in_definition inst)
       in case activityProcessorStep defn (ad_stepName dispatch) of
            None \<Rightarrow> fails ErrInvalidActivityProcessor
          | Some step \<Rightarrow>
              if ad_attempt dispatch > rp_MaxAttempts (st_Retry step) \<or> in_sequence inst < pw_sequence work
              then fails ErrInvalidActivityProcessor
              else case ResolveActivity (Some (px_Activities processor)) (st_Target step) of
                Inl err \<Rightarrow> fails err
              | Inr activity \<Rightarrow> gives (inst, defn, step, activity))"

section \<open>Attempts\<close>

definition zero_ActivityOutcome :: ActivityOutcome where
  "zero_ActivityOutcome = \<lparr>ao_kind = ActivityOutcomeInvalid, ao_code = [], ao_retryable = False, ao_data = None\<rparr>"

definition unknown_outcome :: "string \<Rightarrow> ActivityOutcome" where
  "unknown_outcome code = value_or zero_ActivityOutcome (NewActivityOutcome
     \<lparr>ao_kind = ActivityUnknown, ao_code = code, ao_retryable = False, ao_data = None\<rparr>)"

definition executeActivitySafely :: "'w ctx \<Rightarrow> 'w Activity \<Rightarrow> ActivityRequest \<Rightarrow> ('w, ActivityOutcome) state" where
  "executeActivitySafely ctx activity request = do {
     executed \<leftarrow> Execute activity (Some ctx) request;
     State_Monad.return (case executed of
       Inr outcome \<Rightarrow> outcome
     | Inl (GoPanic _) \<Rightarrow> unknown_outcome ''activity-panic''
     | Inl _ \<Rightarrow> unknown_outcome ''activity-execution-unknown'')
   }"

text \<open>The clock, moved up to the last update of the instance.\<close>

definition clamped_now :: "('w, 'z) Processing_scheme \<Rightarrow> Instance \<Rightarrow> ('w, gotime) state" where
  "clamped_now processor inst = do {
     now \<leftarrow> px_Clock processor;
     State_Monad.return (if Before now (in_updatedAt inst) then in_updatedAt inst else now)
   }"

definition schedule_activity_retry :: "'w ActivityWorkProcessor \<Rightarrow> 'w ctx \<Rightarrow> PendingWork \<Rightarrow> Instance \<Rightarrow>
    Definition \<Rightarrow> StepSpec \<Rightarrow> ActivityDispatch \<Rightarrow> ('w, WorkDecision result) state" where
  "schedule_activity_retry processor ctx work inst defn step dispatch =
     (let progress = lookup_zero zero_ActivityProgress (in_activities inst) (ad_stepName dispatch)
      in if \<not> ap_retryable progress \<or> ap_attempt progress \<ge> rp_MaxAttempts (st_Retry step)
         then State_Monad.return activityComplete
         else do {
           scheduledAt \<leftarrow> clamped_now processor inst;
           if \<not> Before (Add scheduledAt (retryDelay (st_Retry step) (ap_attempt progress))) (pw_deadline work)
           then State_Monad.return activityComplete
           else case NewActivityRetry \<lparr>ay_TransitionID = processorTransitionID (pw_id work) ''retry'',
                       ay_WorkID = processorTransitionID (pw_id work) ''retry-work'', ay_Instance = inst,
                       ay_Definition = defn, ay_StepName = ad_stepName dispatch,
                       ay_IdempotencyKey = processorTransitionID (pw_id work) ''retry-key'',
                       ay_ScheduledAt = scheduledAt, ay_Deadline = pw_deadline work,
                       ay_TenantID = pw_tenantID work, ay_CorrelationID = pw_correlationID work\<rparr> of
             Inl _ \<Rightarrow> fails ErrInvalidActivityProcessor
           | Inr retry \<Rightarrow>
               check (commitActivityTransition ctx (px_Store processor) retry) fails
                 (\<lambda>_. State_Monad.return activityComplete)
         })"

definition persist_activity_outcome :: "'w ActivityWorkProcessor \<Rightarrow> 'w ctx \<Rightarrow> PendingWork \<Rightarrow> Instance \<Rightarrow>
    Definition \<Rightarrow> ActivityDispatch \<Rightarrow> ActivityOutcome \<Rightarrow> ('w, WorkDecision result) state" where
  "persist_activity_outcome processor ctx work inst defn dispatch outcome = do {
     occurredAt \<leftarrow> clamped_now processor inst;
     case NewActivityAttemptOutcome \<lparr>os_TransitionID = processorTransitionID (pw_id work) ''outcome'',
            os_Instance = inst, os_Definition = defn, os_StepName = ad_stepName dispatch,
            os_Attempt = ad_attempt dispatch, os_OccurredAt = occurredAt, os_Outcome = outcome\<rparr> of
       Inl _ \<Rightarrow> fails ErrInvalidActivityProcessor
     | Inr transition \<Rightarrow>
         check (commitActivityTransition ctx (px_Store processor) transition) fails (\<lambda>_.
         check (inspect processor ctx (pw_instanceID work)) fails (\<lambda>updated.
           if ao_kind outcome = ActivityFailed then
             let step = (case activityProcessorStep defn (ad_stepName dispatch) of
                   None \<Rightarrow> zero_StepSpec | Some s \<Rightarrow> s)
             in schedule_activity_retry processor ctx work updated defn step dispatch
           else State_Monad.return activityComplete))
   }"

definition activity_request :: "WorkLease \<Rightarrow> Instance \<Rightarrow> StepSpec \<Rightarrow> ActivityDispatch \<Rightarrow> ActivityRequest result" where
  "activity_request lease running step dispatch =
     (let progress = lookup_zero zero_ActivityProgress (in_activities running) (ad_stepName dispatch)
      in NewActivityRequest \<lparr>ar_instanceID = in_id running, ar_definition = in_definition running,
           ar_stepName = ad_stepName dispatch, ar_attempt = ad_attempt dispatch,
           ar_maxAttempts = rp_MaxAttempts (st_Retry step), ar_idempotencyKey = ad_idempotencyKey dispatch,
           ar_startedAt = Add (ap_dueAt progress) (- st_Timeout step), ar_deadline = ap_dueAt progress,
           ar_input = ap_input progress, ar_inputLimit = st_InputLimit step,
           ar_resultLimit = st_ResultLimit step, ar_tenantID = pw_tenantID (wl_work lease),
           ar_correlationID = pw_correlationID (wl_work lease)\<rparr>)"

definition execute_activity :: "'w ActivityWorkProcessor \<Rightarrow> 'w ctx \<Rightarrow> WorkLease \<Rightarrow> Instance \<Rightarrow> Definition \<Rightarrow>
    StepSpec \<Rightarrow> 'w Activity \<Rightarrow> ActivityDispatch \<Rightarrow> ('w, WorkDecision result) state" where
  "execute_activity processor ctx lease inst defn step activity dispatch = do {
     startedAt \<leftarrow> px_Clock processor;
     case NewActivityAttemptStart \<lparr>ss_TransitionID = processorTransitionID (pw_id (wl_work lease)) ''start'',
            ss_Lease = lease, ss_Instance = inst, ss_Definition = defn, ss_StartedAt = startedAt\<rparr> of
       Inl _ \<Rightarrow> fails ErrInvalidActivityProcessor
     | Inr start \<Rightarrow>
         check (commitActivityTransition ctx (px_Store processor) start) fails (\<lambda>_.
         check (inspect processor ctx (pw_instanceID (wl_work lease))) fails (\<lambda>running.
           case activity_request lease running step dispatch of
             Inl _ \<Rightarrow> fails ErrInvalidActivityProcessor
           | Inr request \<Rightarrow> do {
               outcome \<leftarrow> executeActivitySafely ctx activity request;
               persist_activity_outcome processor ctx (wl_work lease) running defn dispatch outcome
             }))
   }"

definition process_activity_progress :: "'w ActivityWorkProcessor \<Rightarrow> 'w ctx \<Rightarrow> WorkLease \<Rightarrow> Instance \<Rightarrow>
    Definition \<Rightarrow> StepSpec \<Rightarrow> 'w Activity \<Rightarrow> ActivityDispatch \<Rightarrow> ActivityProgress \<Rightarrow>
    ('w, WorkDecision result) state" where
  "process_activity_progress processor ctx lease inst defn step activity dispatch progress =
     (let invalid = State_Monad.return (activityDeadLetter ''invalid-activity-state'');
          other = (ap_attempt progress \<noteq> ad_attempt dispatch \<or>
                   ap_idempotencyKey progress \<noteq> ad_idempotencyKey dispatch);
          ready = (if ad_attempt dispatch \<noteq> ap_attempt progress + 1 then invalid
                   else execute_activity processor ctx lease inst defn step activity dispatch);
          settled = (if other then invalid else State_Monad.return activityComplete)
      in case ap_status progress of
           ActivityProgressReady \<Rightarrow> ready
         | ActivityProgressRetryWaiting \<Rightarrow> ready
         | ActivityProgressRunning \<Rightarrow>
             if other then invalid
             else persist_activity_outcome processor ctx (wl_work lease) inst defn dispatch
                    (unknown_outcome ''activity-outcome-unknown'')
         | ActivityProgressFailed \<Rightarrow>
             if other then invalid
             else schedule_activity_retry processor ctx (wl_work lease) inst defn step dispatch
         | ActivityProgressSucceeded \<Rightarrow> settled
         | ActivityProgressUnknown \<Rightarrow> settled
         | ActivityProgressNone \<Rightarrow> invalid)"

definition ProcessActivity :: "'w ActivityWorkProcessor option \<Rightarrow> 'w ctx option \<Rightarrow> WorkLease \<Rightarrow>
    ('w, WorkDecision result) state" where
  "ProcessActivity processor ctx lease = (case processor of
     None \<Rightarrow> fails ErrInvalidActivityProcessor
   | Some p \<Rightarrow> (case ctx of
       None \<Rightarrow> fails ErrInvalidActivityProcessor
     | Some c \<Rightarrow>
         if \<not> lease_Valid lease then fails ErrInvalidActivityProcessor
         else if pw_kind (wl_work lease) \<noteq> WorkActivity then fails ErrInvalidActivityProcessor
         else case DecodeActivityDispatch (pw_payload (wl_work lease)) of
           Inl _ \<Rightarrow> State_Monad.return (activityDeadLetter ''invalid-activity-dispatch'')
         | Inr dispatch \<Rightarrow>
             check (load_activity p c (wl_work lease) dispatch)
               (\<lambda>err. if error_is err ErrActivityNotFound \<or> error_is err ErrInvalidActivityProcessor
                  then State_Monad.return (activityDeadLetter ''invalid-activity-definition'')
                  else fails err)
               (\<lambda>(inst, defn, step, activity).
                  case in_activities inst (ad_stepName dispatch) of
                    None \<Rightarrow> State_Monad.return (activityDeadLetter ''invalid-activity-state'')
                  | Some progress \<Rightarrow>
                      process_activity_progress p c lease inst defn step activity dispatch progress)))"

end
