(* ===== verification/Child_Processor.thy ===== *)
theory Child_Processor
  imports Activity_Processor
begin

text \<open>
  The child processor (child\_processor.go): it starts pinned child instances through a borrowed
  starter, a computation over the world that returns an outcome (\<open>Inr\<close>) or panics (\<open>Inl\<close>).
\<close>

type_synonym 'w ChildStarter = "Context \<Rightarrow> ChildStartRequest \<Rightarrow> ('w, string + ChildStartOutcome) state"

record 'w ChildWorkProcessorConfig =
  xx_Store :: "'w ExecutionStore option"
  xx_Definitions :: "Registry option"
  xx_Starter :: "'w ChildStarter option"
  xx_Clock :: "'w Clock option"
  xx_PageSize :: uint32
  xx_MaxHistoryEvents :: uint32

record 'w ChildWorkProcessor = "'w Processing" +
  px_Starter :: "'w ChildStarter"

definition NewChildWorkProcessor :: "'w ChildWorkProcessorConfig \<Rightarrow> 'w ChildWorkProcessor result" where
  "NewChildWorkProcessor config =
     (case (xx_Store config, xx_Definitions config, xx_Starter config, xx_Clock config) of
        (Some store, Some definitions, Some starter, Some clock) \<Rightarrow>
          if \<not> validHistoryTraversal ''processor-instance'' (xx_PageSize config) (xx_MaxHistoryEvents config)
          then Inl ErrInvalidChildProcessor
          else Inr \<lparr>px_Store = store, px_Definitions = definitions, px_Clock = clock,
                    px_PageSize = xx_PageSize config, px_MaxHistoryEvents = xx_MaxHistoryEvents config,
                    px_Starter = starter\<rparr>
      | _ \<Rightarrow> Inl ErrInvalidChildProcessor)"

definition childProcessorTransitionID :: "string \<Rightarrow> string \<Rightarrow> string" where
  "childProcessorTransitionID workID phase =
     ''child-processor-'' @ phase @ ''-'' @ sha256_hex (workID @ CHR 0x00 # phase)"

text \<open>\<open>step, _ := definitionStep(...)\<close>: a missing step reads as the zero step.\<close>

definition named_child_step :: "Definition \<Rightarrow> string \<Rightarrow> StepSpec" where
  "named_child_step defn name = (case definitionStep defn name StepChild of None \<Rightarrow> zero_StepSpec | Some s \<Rightarrow> s)"

definition load_child :: "'w ChildWorkProcessor \<Rightarrow> 'w ctx \<Rightarrow> PendingWork \<Rightarrow> ChildDispatch \<Rightarrow>
    ('w, (Instance \<times> Definition \<times> StepSpec) result) state" where
  "load_child processor ctx work dispatch =
     check (inspect processor ctx (pw_instanceID work)) fails (\<lambda>inst.
       let defn = resolved (Some (px_Definitions processor)) (in_definition inst);
           step = named_child_step defn (cd_stepName dispatch)
       in if st_ChildDefinition step \<noteq> cd_definition dispatch \<or>
             cd_attempt dispatch > rp_MaxAttempts (st_Retry step) \<or> in_sequence inst < pw_sequence work
          then fails ErrInvalidChildProcessor else gives (inst, defn, step))"

definition zero_ChildStartOutcome :: ChildStartOutcome where
  "zero_ChildStartOutcome = \<lparr>co_kind = ChildStartOutcomeInvalid, co_code = [], co_retryable = False\<rparr>"

definition child_outcome :: "ChildStartOutcomeKind \<Rightarrow> string \<Rightarrow> bool \<Rightarrow> ChildStartOutcome" where
  "child_outcome kind code retryable = value_or zero_ChildStartOutcome
     (NewChildStartOutcome \<lparr>co_kind = kind, co_code = code, co_retryable = retryable\<rparr>)"

definition executeChildStartSafely ::
  "'w ctx \<Rightarrow> 'w ChildStarter \<Rightarrow> ChildStartRequest \<Rightarrow> ('w, ChildStartOutcome) state" where
  "executeChildStartSafely ctx starter request = do {
     c \<leftarrow> ctx;
     let attemptContext = WithDeadline c (cq_deadline request);
     if cx_err attemptContext \<noteq> None
     then State_Monad.return (child_outcome ChildStartFailed ''child-start-context-done'' True)
     else do {
       answer \<leftarrow> starter attemptContext request;
       State_Monad.return (case answer of
         Inl _ \<Rightarrow> child_outcome ChildStartUnknown ''child-start-panic'' False
       | Inr outcome \<Rightarrow>
           if \<not> child_outcome_valid outcome
           then child_outcome ChildStartUnknown ''child-start-invalid-outcome'' False else outcome)
     }
   }"

definition schedule_child_retry :: "'w ChildWorkProcessor \<Rightarrow> 'w ctx \<Rightarrow> PendingWork \<Rightarrow> Instance \<Rightarrow>
    Definition \<Rightarrow> StepSpec \<Rightarrow> ChildDispatch \<Rightarrow> ('w, WorkDecision result) state" where
  "schedule_child_retry processor ctx work inst defn step dispatch =
     (let progress = lookup_zero zero_ChildProgress (in_children inst) (cd_stepName dispatch)
      in if \<not> cp_retryable progress \<or> cp_attempt progress \<ge> rp_MaxAttempts (st_Retry step)
         then State_Monad.return activityComplete
         else do {
           scheduledAt \<leftarrow> clamped_now processor inst;
           if \<not> Before (Add scheduledAt (retryDelay (st_Retry step) (cp_attempt progress))) (pw_deadline work)
           then State_Monad.return activityComplete
           else case NewChildStartRetry \<lparr>xy_TransitionID = childProcessorTransitionID (pw_id work) ''retry'',
                       xy_WorkID = childProcessorTransitionID (pw_id work) ''retry-work'', xy_Instance = inst,
                       xy_Definition = defn, xy_StepName = cd_stepName dispatch,
                       xy_ScheduledAt = scheduledAt, xy_Deadline = pw_deadline work,
                       xy_TenantID = pw_tenantID work, xy_CorrelationID = pw_correlationID work\<rparr> of
             Inl _ \<Rightarrow> fails ErrInvalidChildProcessor
           | Inr retry \<Rightarrow>
               check (commitActivityTransition ctx (px_Store processor) retry) fails
                 (\<lambda>_. State_Monad.return activityComplete)
         })"

definition persist_child_outcome :: "'w ChildWorkProcessor \<Rightarrow> 'w ctx \<Rightarrow> PendingWork \<Rightarrow> Instance \<Rightarrow>
    Definition \<Rightarrow> ChildDispatch \<Rightarrow> ChildStartOutcome \<Rightarrow> ('w, WorkDecision result) state" where
  "persist_child_outcome processor ctx work inst defn dispatch outcome = do {
     occurredAt \<leftarrow> clamped_now processor inst;
     case NewChildStartAttemptOutcome \<lparr>xa_TransitionID = childProcessorTransitionID (pw_id work) ''outcome'',
            xa_Instance = inst, xa_Definition = defn, xa_StepName = cd_stepName dispatch,
            xa_ChildID = cd_childID dispatch, xa_Attempt = cd_attempt dispatch,
            xa_OccurredAt = occurredAt, xa_Outcome = outcome\<rparr> of
       Inl _ \<Rightarrow> fails ErrInvalidChildProcessor
     | Inr transition \<Rightarrow>
         check (commitActivityTransition ctx (px_Store processor) transition) fails (\<lambda>_.
           if co_kind outcome \<noteq> ChildStartFailed then State_Monad.return activityComplete
           else check (inspect processor ctx (pw_instanceID work)) fails (\<lambda>updated.
                  schedule_child_retry processor ctx work updated defn
                    (named_child_step defn (cd_stepName dispatch)) dispatch))
   }"

definition child_request :: "WorkLease \<Rightarrow> Instance \<Rightarrow> StepSpec \<Rightarrow> ChildDispatch \<Rightarrow> ChildStartRequest result" where
  "child_request lease running step dispatch =
     (let progress = lookup_zero zero_ChildProgress (in_children running) (cd_stepName dispatch)
      in NewChildStartRequest \<lparr>cq_parentInstanceID = in_id running, cq_parentDefinition = in_definition running,
           cq_stepName = cd_stepName dispatch, cq_childID = cd_childID dispatch,
           cq_childDefinition = cd_definition dispatch, cq_attempt = cd_attempt dispatch,
           cq_maxAttempts = rp_MaxAttempts (st_Retry step), cq_idempotencyKey = cd_idempotencyKey dispatch,
           cq_startedAt = Add (cp_dueAt progress) (- st_Timeout step), cq_deadline = cp_dueAt progress,
           cq_input = cp_input progress, cq_inputLimit = st_InputLimit step,
           cq_tenantID = pw_tenantID (wl_work lease), cq_correlationID = pw_correlationID (wl_work lease)\<rparr>)"

definition execute_child :: "'w ChildWorkProcessor \<Rightarrow> 'w ctx \<Rightarrow> WorkLease \<Rightarrow> Instance \<Rightarrow> Definition \<Rightarrow>
    StepSpec \<Rightarrow> ChildDispatch \<Rightarrow> ('w, WorkDecision result) state" where
  "execute_child processor ctx lease inst defn step dispatch = do {
     startedAt \<leftarrow> px_Clock processor;
     case NewChildStartAttempt \<lparr>xt_TransitionID = childProcessorTransitionID (pw_id (wl_work lease)) ''start'',
            xt_Lease = lease, xt_Instance = inst, xt_Definition = defn, xt_StartedAt = startedAt\<rparr> of
       Inl _ \<Rightarrow> fails ErrInvalidChildProcessor
     | Inr start \<Rightarrow>
         check (commitActivityTransition ctx (px_Store processor) start) fails (\<lambda>_.
         check (inspect processor ctx (in_id inst)) fails (\<lambda>running.
           case child_request lease running step dispatch of
             Inl _ \<Rightarrow> fails ErrInvalidChildProcessor
           | Inr request \<Rightarrow> do {
               outcome \<leftarrow> executeChildStartSafely ctx (px_Starter processor) request;
               persist_child_outcome processor ctx (wl_work lease) running defn dispatch outcome
             }))
   }"

definition process_child_progress :: "'w ChildWorkProcessor \<Rightarrow> 'w ctx \<Rightarrow> WorkLease \<Rightarrow> Instance \<Rightarrow>
    Definition \<Rightarrow> StepSpec \<Rightarrow> ChildDispatch \<Rightarrow> ChildProgress \<Rightarrow> ('w, WorkDecision result) state" where
  "process_child_progress processor ctx lease inst defn step dispatch progress =
     (let invalid = State_Monad.return (activityDeadLetter ''invalid-child-state'');
          other = (cp_attempt progress \<noteq> cd_attempt dispatch \<or>
                   cp_idempotencyKey progress \<noteq> cd_idempotencyKey dispatch);
          ready = (if cd_attempt dispatch \<noteq> cp_attempt progress + 1 then invalid
                   else execute_child processor ctx lease inst defn step dispatch);
          settled = (if other then invalid else State_Monad.return activityComplete);
          ended = (if cp_childID progress \<noteq> cd_childID dispatch \<or> cp_definition progress \<noteq> cd_definition dispatch
                   then invalid else State_Monad.return activityComplete)
      in case cp_status progress of
           ChildScheduled \<Rightarrow> ready
         | ChildStartRetryWaiting \<Rightarrow> ready
         | ChildStartRunning \<Rightarrow>
             if other then invalid
             else persist_child_outcome processor ctx (wl_work lease) inst defn dispatch
                    (child_outcome ChildStartUnknown ''child-start-outcome-unknown'' False)
         | ChildStartFailedStatus \<Rightarrow>
             if other then invalid
             else schedule_child_retry processor ctx (wl_work lease) inst defn step dispatch
         | ChildActive \<Rightarrow> settled
         | ChildStartUnknownStatus \<Rightarrow> settled
         | ChildSucceeded \<Rightarrow> ended
         | ChildFailed \<Rightarrow> ended
         | ChildNone \<Rightarrow> invalid)"

definition ProcessChild :: "'w ChildWorkProcessor option \<Rightarrow> 'w ctx option \<Rightarrow> WorkLease \<Rightarrow>
    ('w, WorkDecision result) state" where
  "ProcessChild processor ctx lease = (case processor of
     None \<Rightarrow> fails ErrInvalidChildProcessor
   | Some p \<Rightarrow> (case ctx of
       None \<Rightarrow> fails ErrInvalidChildProcessor
     | Some c \<Rightarrow>
         if \<not> lease_Valid lease \<or> pw_kind (wl_work lease) \<noteq> WorkChild then fails ErrInvalidChildProcessor
         else case DecodeChildDispatch (pw_payload (wl_work lease)) of
           Inl _ \<Rightarrow> State_Monad.return (activityDeadLetter ''invalid-child-dispatch'')
         | Inr dispatch \<Rightarrow>
             check (load_child p c (wl_work lease) dispatch)
               (\<lambda>err. if error_is err ErrInvalidChildProcessor
                  then State_Monad.return (activityDeadLetter ''invalid-child-definition'')
                  else fails err)
               (\<lambda>(inst, defn, step).
                  case in_children inst (cd_stepName dispatch) of
                    None \<Rightarrow> State_Monad.return (activityDeadLetter ''invalid-child-state'')
                  | Some progress \<Rightarrow>
                      process_child_progress p c lease inst defn step dispatch progress)))"

end
