(* ===== verification/Compensation_Processor.thy ===== *)
theory Compensation_Processor
  imports Activity_Processor Compensation_Transition
begin

text \<open>
  The compensation processor (compensation\_processor.go). It follows the activity processor with
  the compensation of the step in place of the step.
\<close>

record 'w CompensationWorkProcessorConfig =
  kx_Store :: "'w ExecutionStore option"
  kx_Definitions :: "Registry option"
  kx_Compensations :: "'w ActivityRegistry option"
  kx_Clock :: "'w Clock option"
  kx_PageSize :: uint32
  kx_MaxHistoryEvents :: uint32

record 'w CompensationWorkProcessor = "'w Processing" +
  px_Compensations :: "'w ActivityRegistry"

definition NewCompensationWorkProcessor ::
  "'w CompensationWorkProcessorConfig \<Rightarrow> 'w CompensationWorkProcessor result" where
  "NewCompensationWorkProcessor config =
     (case (kx_Store config, kx_Definitions config, kx_Compensations config, kx_Clock config) of
        (Some store, Some definitions, Some compensations, Some clock) \<Rightarrow>
          if \<not> validHistoryTraversal ''processor-instance'' (kx_PageSize config) (kx_MaxHistoryEvents config)
          then Inl ErrInvalidCompensationProcessor
          else Inr \<lparr>px_Store = store, px_Definitions = definitions, px_Clock = clock,
                    px_PageSize = kx_PageSize config, px_MaxHistoryEvents = kx_MaxHistoryEvents config,
                    px_Compensations = compensations\<rparr>
      | _ \<Rightarrow> Inl ErrInvalidCompensationProcessor)"

definition compensationProcessorTransitionID :: "string \<Rightarrow> string \<Rightarrow> string" where
  "compensationProcessorTransitionID workID phase =
     ''compensation-processor-'' @ phase @ ''-'' @ sha256_hex (workID @ CHR 0x00 # phase)"

definition compensationDeadLetter :: "string \<Rightarrow> WorkDecision result" where
  "compensationDeadLetter code =
     NewWorkDecision \<lparr>wd_kind = WorkDeadLetterDecision, wd_code = code, wd_retryAt = time_zero\<rparr>"

definition load_compensation :: "'w CompensationWorkProcessor \<Rightarrow> 'w ctx \<Rightarrow> PendingWork \<Rightarrow> CompensationDispatch \<Rightarrow>
    ('w, (Instance \<times> Definition \<times> StepSpec \<times> 'w Activity) result) state" where
  "load_compensation processor ctx work dispatch =
     check (inspect processor ctx (pw_instanceID work)) fails (\<lambda>inst.
       let defn = resolved (Some (px_Definitions processor)) (in_definition inst)
       in case activityProcessorStep defn (ad_stepName dispatch) of
            None \<Rightarrow> fails ErrInvalidCompensationProcessor
          | Some step \<Rightarrow> (case st_Compensation step of
              None \<Rightarrow> fails ErrInvalidCompensationProcessor
            | Some compensation \<Rightarrow>
                if ad_attempt dispatch > rp_MaxAttempts (cs_Retry compensation) \<or> in_sequence inst < pw_sequence work
                then fails ErrInvalidCompensationProcessor
                else case ResolveActivity (Some (px_Compensations processor)) (cs_Target compensation) of
                  Inl err \<Rightarrow> fails err
                | Inr activity \<Rightarrow> gives (inst, defn, step, activity)))"

definition executeCompensationSafely ::
  "'w ctx \<Rightarrow> 'w Activity \<Rightarrow> ActivityRequest \<Rightarrow> ('w, ActivityOutcome) state" where
  "executeCompensationSafely ctx compensation request = do {
     executed \<leftarrow> Execute compensation (Some ctx) request;
     State_Monad.return (case executed of
       Inr outcome \<Rightarrow> outcome
     | Inl (GoPanic _) \<Rightarrow> unknown_outcome ''compensation-panic''
     | Inl _ \<Rightarrow> unknown_outcome ''compensation-execution-unknown'')
   }"

definition schedule_compensation_retry :: "'w CompensationWorkProcessor \<Rightarrow> 'w ctx \<Rightarrow> PendingWork \<Rightarrow> Instance \<Rightarrow>
    Definition \<Rightarrow> StepSpec \<Rightarrow> CompensationDispatch \<Rightarrow> ('w, WorkDecision result) state" where
  "schedule_compensation_retry processor ctx work inst defn step dispatch =
     (let progress = lookup_zero zero_CompensationProgress (in_compensations inst) (ad_stepName dispatch)
      in case st_Compensation step of
           None \<Rightarrow> State_Monad.return activityComplete
         | Some compensation \<Rightarrow>
             if \<not> kp_retryable progress then State_Monad.return activityComplete
             else if kp_attempt progress \<ge> rp_MaxAttempts (cs_Retry compensation)
             then State_Monad.return activityComplete
             else do {
               scheduledAt \<leftarrow> clamped_now processor inst;
               if \<not> Before (Add scheduledAt (retryDelay (cs_Retry compensation) (kp_attempt progress))) (pw_deadline work)
               then State_Monad.return activityComplete
               else case NewCompensationRetry
                      \<lparr>ky_TransitionID = compensationProcessorTransitionID (pw_id work) ''retry'',
                       ky_WorkID = compensationProcessorTransitionID (pw_id work) ''retry-work'', ky_Instance = inst,
                       ky_Definition = defn, ky_StepName = ad_stepName dispatch,
                       ky_IdempotencyKey = compensationProcessorTransitionID (pw_id work) ''retry-key'',
                       ky_ScheduledAt = scheduledAt, ky_Deadline = pw_deadline work,
                       ky_TenantID = pw_tenantID work, ky_CorrelationID = pw_correlationID work\<rparr> of
                 Inl _ \<Rightarrow> fails ErrInvalidCompensationProcessor
               | Inr retry \<Rightarrow>
                   check (commitActivityTransition ctx (px_Store processor) retry) fails
                     (\<lambda>_. State_Monad.return activityComplete)
             })"

definition persist_compensation_outcome :: "'w CompensationWorkProcessor \<Rightarrow> 'w ctx \<Rightarrow> PendingWork \<Rightarrow> Instance \<Rightarrow>
    Definition \<Rightarrow> CompensationDispatch \<Rightarrow> ActivityOutcome \<Rightarrow> ('w, WorkDecision result) state" where
  "persist_compensation_outcome processor ctx work inst defn dispatch outcome = do {
     occurredAt \<leftarrow> clamped_now processor inst;
     case NewCompensationAttemptOutcome
            \<lparr>ko_TransitionID = compensationProcessorTransitionID (pw_id work) ''outcome'',
             ko_Instance = inst, ko_Definition = defn, ko_StepName = ad_stepName dispatch,
             ko_Attempt = ad_attempt dispatch, ko_OccurredAt = occurredAt, ko_Outcome = outcome\<rparr> of
       Inl _ \<Rightarrow> fails ErrInvalidCompensationProcessor
     | Inr transition \<Rightarrow>
         check (commitActivityTransition ctx (px_Store processor) transition) fails (\<lambda>_.
         check (inspect processor ctx (pw_instanceID work)) fails (\<lambda>updated.
           if ao_kind outcome = ActivityFailed then
             let step = (case activityProcessorStep defn (ad_stepName dispatch) of
                   None \<Rightarrow> zero_StepSpec | Some s \<Rightarrow> s)
             in schedule_compensation_retry processor ctx work updated defn step dispatch
           else State_Monad.return activityComplete))
   }"

definition compensation_request ::
  "WorkLease \<Rightarrow> Instance \<Rightarrow> StepSpec \<Rightarrow> CompensationSpec \<Rightarrow> CompensationDispatch \<Rightarrow> ActivityRequest result" where
  "compensation_request lease running step compensation dispatch =
     (let progress = lookup_zero zero_CompensationProgress (in_compensations running) (ad_stepName dispatch)
      in NewActivityRequest \<lparr>ar_instanceID = in_id running, ar_definition = in_definition running,
           ar_stepName = ad_stepName dispatch, ar_attempt = ad_attempt dispatch,
           ar_maxAttempts = rp_MaxAttempts (cs_Retry compensation),
           ar_idempotencyKey = ad_idempotencyKey dispatch,
           ar_startedAt = Add (kp_dueAt progress) (- cs_Timeout compensation), ar_deadline = kp_dueAt progress,
           ar_input = kp_input progress, ar_inputLimit = st_InputLimit step,
           ar_resultLimit = cs_ResultLimit compensation, ar_tenantID = pw_tenantID (wl_work lease),
           ar_correlationID = pw_correlationID (wl_work lease)\<rparr>)"

text \<open>
  \<open>load\<close> has made sure of the step's compensation before \<open>execute\<close> dereferences it.
\<close>

definition execute_compensation :: "'w CompensationWorkProcessor \<Rightarrow> 'w ctx \<Rightarrow> WorkLease \<Rightarrow> Instance \<Rightarrow>
    Definition \<Rightarrow> StepSpec \<Rightarrow> 'w Activity \<Rightarrow> CompensationDispatch \<Rightarrow> ('w, WorkDecision result) state" where
  "execute_compensation processor ctx lease inst defn step handler dispatch = do {
     startedAt \<leftarrow> px_Clock processor;
     case NewCompensationAttemptStart
            \<lparr>kt_TransitionID = compensationProcessorTransitionID (pw_id (wl_work lease)) ''start'',
             kt_Lease = lease, kt_Instance = inst, kt_Definition = defn, kt_StartedAt = startedAt\<rparr> of
       Inl _ \<Rightarrow> fails ErrInvalidCompensationProcessor
     | Inr start \<Rightarrow>
         check (commitActivityTransition ctx (px_Store processor) start) fails (\<lambda>_.
         check (inspect processor ctx (pw_instanceID (wl_work lease))) fails (\<lambda>running.
           case st_Compensation step of
             None \<Rightarrow> fails (GoPanic ''nil dereference'')
           | Some compensation \<Rightarrow> (case compensation_request lease running step compensation dispatch of
               Inl _ \<Rightarrow> fails ErrInvalidCompensationProcessor
             | Inr request \<Rightarrow> do {
                 outcome \<leftarrow> executeCompensationSafely ctx handler request;
                 persist_compensation_outcome processor ctx (wl_work lease) running defn dispatch outcome
               })))
   }"

definition process_compensation_progress :: "'w CompensationWorkProcessor \<Rightarrow> 'w ctx \<Rightarrow> WorkLease \<Rightarrow> Instance \<Rightarrow>
    Definition \<Rightarrow> StepSpec \<Rightarrow> 'w Activity \<Rightarrow> CompensationDispatch \<Rightarrow> CompensationProgress \<Rightarrow>
    ('w, WorkDecision result) state" where
  "process_compensation_progress processor ctx lease inst defn step handler dispatch progress =
     (let invalid = State_Monad.return (compensationDeadLetter ''invalid-compensation-state'');
          other = (kp_attempt progress \<noteq> ad_attempt dispatch \<or>
                   kp_idempotencyKey progress \<noteq> ad_idempotencyKey dispatch);
          ready = (if ad_attempt dispatch \<noteq> kp_attempt progress + 1 then invalid
                   else execute_compensation processor ctx lease inst defn step handler dispatch);
          settled = (if other then invalid else State_Monad.return activityComplete)
      in case kp_status progress of
           CompensationReady \<Rightarrow> ready
         | CompensationRetryWaiting \<Rightarrow> ready
         | CompensationRunning \<Rightarrow>
             if other then invalid
             else persist_compensation_outcome processor ctx (wl_work lease) inst defn dispatch
                    (unknown_outcome ''compensation-outcome-unknown'')
         | CompensationFailed \<Rightarrow>
             if other then invalid
             else schedule_compensation_retry processor ctx (wl_work lease) inst defn step dispatch
         | CompensationSucceeded \<Rightarrow> settled
         | CompensationUnknown \<Rightarrow> settled
         | CompensationManuallyResolved \<Rightarrow> settled
         | CompensationNone \<Rightarrow> invalid)"

definition ProcessCompensation :: "'w CompensationWorkProcessor option \<Rightarrow> 'w ctx option \<Rightarrow> WorkLease \<Rightarrow>
    ('w, WorkDecision result) state" where
  "ProcessCompensation processor ctx lease = (case processor of
     None \<Rightarrow> fails ErrInvalidCompensationProcessor
   | Some p \<Rightarrow> (case ctx of
       None \<Rightarrow> fails ErrInvalidCompensationProcessor
     | Some c \<Rightarrow>
         if \<not> lease_Valid lease then fails ErrInvalidCompensationProcessor
         else if pw_kind (wl_work lease) \<noteq> WorkCompensation then fails ErrInvalidCompensationProcessor
         else case DecodeCompensationDispatch (pw_payload (wl_work lease)) of
           Inl _ \<Rightarrow> State_Monad.return (compensationDeadLetter ''invalid-compensation-dispatch'')
         | Inr dispatch \<Rightarrow>
             check (load_compensation p c (wl_work lease) dispatch)
               (\<lambda>err. if error_is err ErrActivityNotFound \<or> error_is err ErrInvalidCompensationProcessor
                  then State_Monad.return (compensationDeadLetter ''invalid-compensation-definition'')
                  else fails err)
               (\<lambda>(inst, defn, step, handler).
                  case in_compensations inst (ad_stepName dispatch) of
                    None \<Rightarrow> State_Monad.return (compensationDeadLetter ''invalid-compensation-state'')
                  | Some progress \<Rightarrow>
                      process_compensation_progress p c lease inst defn step handler dispatch progress)))"

end
