(* ===== verification/Processor_Safety.thy ===== *)
theory Processor_Safety
  imports Child_Processor Compensation_Processor
begin

text \<open>
  External effects happen between durable records: a processor calls a handler or a starter only in
  worlds in which the start of the attempt is recorded, and decides only after the outcome is. This
  needs of the store that a commit it reports is recorded, that an answer of the reconciliation is
  true, and that records stay.
\<close>

section \<open>Agreement\<close>

text \<open>Two computations that cannot be told apart from the worlds that satisfy \<open>P\<close>.\<close>

definition agree :: "('w \<Rightarrow> bool) \<Rightarrow> ('w, 'a) state \<Rightarrow> ('w, 'a) state \<Rightarrow> bool" where
  "agree P m m' \<longleftrightarrow> (\<forall>w. P w \<longrightarrow> run_state m w = run_state m' w)"

lemma agree_refl [simp]: "agree P m m"
  by (simp add: agree_def)

lemma agree_bind:
  assumes "agree P m m'" "triple P m R" "\<And>a. agree (R a) (f a) (f' a)"
  shows "agree P (State_Monad.bind m f) (State_Monad.bind m' f')"
  using assms unfolding agree_def triple_def by (auto split: prod.splits)

lemma agree_check:
  assumes "triple P m R" "\<And>v. agree (R (Inr v)) (f v) (f' v)"
  shows "agree P (check m h f) (check m h f')"
  unfolding check_def
  by (rule agree_bind [OF agree_refl assms(1)]) (use assms(2) in \<open>auto split: sum.split\<close>)

section \<open>Traversals keep what reads keep\<close>

lemma triple_traverse_loop:
  assumes "triple P ctx (\<lambda>_. P)" "\<And>q. triple P (reader ctx q) (\<lambda>_. P)"
    "\<And>acc es. triple P (sink acc ctx es) (\<lambda>_. P)"
  shows "triple P (traverse_loop reader sink ctx n p m after count acc) (\<lambda>_. P)"
  using assms
proof (induction reader sink ctx n p m after count acc rule: traverse_loop.induct)
  case (1 reader sink ctx n p m after count acc)
  note ih = 1(1) and keeps = 1(2-4)
  show ?case
    unfolding traverse_loop.simps [of reader sink ctx n p m after count acc] Let_def
  proof (rule triple_bind [OF keeps(1)])
    fix c :: Context
    let ?q = "traversal_query n p m after count"
    have body: "triple P (if hp_nextAfterSequence validated \<noteq> hp_nextAfterSequence page then fails ErrInvalidStoreRequest
        else if length (hp_events page) = 0 then gives acc
        else check (sink acc ctx (hp_events page)) fails (\<lambda>acc'.
          if \<not> hp_hasMore page then gives acc'
          else if count + of_nat (length (hp_events page)) = ucast m then fails ErrHistoryLimitExceeded
          else traverse_loop reader sink ctx n p m (hp_nextAfterSequence page)
            (count + of_nat (length (hp_events page))) acc')) (\<lambda>_. P)"
      if "cx_err c = None" "NewHistoryPage ?q (hp_events page) (hp_hasMore page) = Inr validated" for page :: HistoryPage and validated
    proof -
      have "triple P (traverse_loop reader sink ctx n p m (hp_nextAfterSequence page)
          (count + of_nat (length (hp_events page))) acc') (\<lambda>_. P)"
        if "hp_nextAfterSequence validated = hp_nextAfterSequence page" "length (hp_events page) \<noteq> 0"
          "hp_hasMore page" "count + of_nat (length (hp_events page)) \<noteq> ucast m" for acc'
        using ih [of c ?q "hp_events page" page validated "count + of_nat (length (hp_events page))"
            "hp_nextAfterSequence page" acc'] that keeps \<open>cx_err c = None\<close>
          \<open>NewHistoryPage ?q (hp_events page) (hp_hasMore page) = Inr validated\<close> by simp
      then show ?thesis by (auto intro!: triple_check [OF keeps(3)])
    qed
    show "triple P (case cx_err c of Some err \<Rightarrow> fails err | None \<Rightarrow>
        check (reader ctx ?q) fails (\<lambda>page.
          case NewHistoryPage ?q (hp_events page) (hp_hasMore page) of
            Inl _ \<Rightarrow> fails ErrInvalidStoreRequest
          | Inr validated \<Rightarrow>
              if hp_nextAfterSequence validated \<noteq> hp_nextAfterSequence page then fails ErrInvalidStoreRequest
              else if length (hp_events page) = 0 then gives acc
              else check (sink acc ctx (hp_events page)) fails (\<lambda>acc'.
                if \<not> hp_hasMore page then gives acc'
                else if count + of_nat (length (hp_events page)) = ucast m then fails ErrHistoryLimitExceeded
                else traverse_loop reader sink ctx n p m (hp_nextAfterSequence page)
                  (count + of_nat (length (hp_events page))) acc'))) (\<lambda>_. P)"
    proof (cases "cx_err c")
      case None
      note body = body [OF None]
      have "triple P (case NewHistoryPage ?q (hp_events page) (hp_hasMore page) of
            Inl _ \<Rightarrow> fails ErrInvalidStoreRequest
          | Inr validated \<Rightarrow>
              if hp_nextAfterSequence validated \<noteq> hp_nextAfterSequence page then fails ErrInvalidStoreRequest
              else if length (hp_events page) = 0 then gives acc
              else check (sink acc ctx (hp_events page)) fails (\<lambda>acc'.
                if \<not> hp_hasMore page then gives acc'
                else if count + of_nat (length (hp_events page)) = ucast m then fails ErrHistoryLimitExceeded
                else traverse_loop reader sink ctx n p m (hp_nextAfterSequence page)
                  (count + of_nat (length (hp_events page))) acc')) (\<lambda>_. P)" for page :: HistoryPage
      proof (cases "NewHistoryPage ?q (hp_events page) (hp_hasMore page)")
        case (Inr validated)
        show ?thesis unfolding Inr sum.case by (rule body [OF Inr])
      qed simp
      then show ?thesis unfolding None option.case by (intro triple_check [OF keeps(2)]) simp
    qed simp
  qed
qed

section \<open>Guarded handlers\<close>

text \<open>A handler that refuses to run, with a panic, in a world that does not satisfy \<open>P\<close>.\<close>

definition guard_handler :: "('w \<Rightarrow> bool) \<Rightarrow> ('c \<Rightarrow> 'r \<Rightarrow> ('w, string + 'o) state) \<Rightarrow>
    ('c \<Rightarrow> 'r \<Rightarrow> ('w, string + 'o) state)" where
  "guard_handler P handler = (\<lambda>c r. State (\<lambda>w. if P w then run_state (handler c r) w else (Inl ''refused'', w)))"

definition guard_activity :: "('w \<Rightarrow> bool) \<Rightarrow> 'w Activity \<Rightarrow> 'w Activity" where
  "guard_activity P activity = activity\<lparr>ac_handler := map_option (guard_handler P) (ac_handler activity)\<rparr>"

definition guard_registry :: "('w \<Rightarrow> bool) \<Rightarrow> 'w ActivityRegistry \<Rightarrow> 'w ActivityRegistry" where
  "guard_registry P registry = (\<lambda>name. map_option (guard_activity P) (registry name))"

lemma agree_guard_handler: "agree P (handler c r) (guard_handler P handler c r)"
  by (simp add: agree_def guard_handler_def)

lemma Execute_guarded:
  assumes "triple P ctx (\<lambda>_. P)"
  shows "agree P (Execute activity (Some ctx) request) (Execute (guard_activity P activity) (Some ctx) request)"
proof (cases "ac_handler activity")
  case None
  then show ?thesis by (simp add: Execute_def guard_activity_def)
next
  case (Some handler)
  let ?answer = "case_sum (\<lambda>p. fails (GoPanic p))
      (\<lambda>outcome. if \<not> outcome_valid outcome \<or> blen (ao_data outcome) > unat (ar_resultLimit request)
          then fails ErrInvalidActivityOutcome else gives outcome)"
  have "agree P (handler c request \<bind> ?answer) (guard_handler P handler c request \<bind> ?answer)" for c
    by (rule agree_bind [OF agree_guard_handler, where R = "\<lambda>_ _. True"]) (simp_all add: triple_def)
  then show ?thesis
    by (auto simp: Execute_def guard_activity_def Some Let_def intro!: agree_bind [OF agree_refl assms]
        split: option.split)
qed

lemma executeActivitySafely_guarded:
  assumes "triple P ctx (\<lambda>_. P)"
  shows "agree P (executeActivitySafely ctx activity request)
    (executeActivitySafely ctx (guard_activity P activity) request)"
  unfolding executeActivitySafely_def
  by (rule agree_bind [OF Execute_guarded [OF assms], where R = "\<lambda>_ _. True"]) (simp_all add: triple_def)

lemma executeCompensationSafely_guarded:
  assumes "triple P ctx (\<lambda>_. P)"
  shows "agree P (executeCompensationSafely ctx activity request)
    (executeCompensationSafely ctx (guard_activity P activity) request)"
  unfolding executeCompensationSafely_def
  by (rule agree_bind [OF Execute_guarded [OF assms], where R = "\<lambda>_ _. True"]) (simp_all add: triple_def)

lemma executeChildStartSafely_guarded:
  assumes "triple P ctx (\<lambda>_. P)"
  shows "agree P (executeChildStartSafely ctx starter request)
    (executeChildStartSafely ctx (guard_handler P starter) request)"
  unfolding executeChildStartSafely_def Let_def
proof (rule agree_bind [OF agree_refl assms], goal_cases)
  case (1 c)
  have "agree P (starter d request \<bind> f) (guard_handler P starter d request \<bind> f)"
    for d and f :: "_ \<Rightarrow> (_, ChildStartOutcome) state"
    by (rule agree_bind [OF agree_guard_handler, where R = "\<lambda>_ _. True"]) (simp_all add: triple_def)
  then show ?case by simp
qed

section \<open>The store contract\<close>

text \<open>A computation after which every record is still there.\<close>

definition steady :: "(string \<Rightarrow> 'w \<Rightarrow> bool) \<Rightarrow> ('w, 'a) state \<Rightarrow> bool" where
  "steady recorded m \<longleftrightarrow> (\<forall>n. triple (recorded n) m (\<lambda>_. recorded n))"

locale durable_store =
  fixes store :: "'w ExecutionStore" and ctx_ok :: "'w ctx \<Rightarrow> bool" and recorded :: "string \<Rightarrow> 'w \<Rightarrow> bool"
  assumes commit_steady: "ctx_ok ctx \<Longrightarrow> steady recorded (do_Commit store ctx t)"
    and commit_recorded: "ctx_ok ctx \<Longrightarrow> run_state (do_Commit store ctx t) w = (r, w') \<Longrightarrow>
      r = Inr () \<or> (\<exists>e. r = Inl e \<and> StoreCommitOutcomeOf e = StoreCommitCommitted) \<Longrightarrow> recorded (tr_id t) w'"
    and reconcile_steady: "ctx_ok ctx \<Longrightarrow> steady recorded (do_ReconcileTransition store ctx rc)"
    and reconcile_true: "ctx_ok ctx \<Longrightarrow>
      run_state (do_ReconcileTransition store ctx rc) w = (Inr TransitionCommitted, w') \<Longrightarrow>
      reconciliation_Valid rc \<and> recorded (rc_transitionID rc) w'"
    and history_steady: "ctx_ok ctx \<Longrightarrow> steady recorded (do_History store ctx q)"
    and ctx_steady: "ctx_ok ctx \<Longrightarrow> steady recorded ctx"
begin

lemma steadyD: "steady recorded m \<Longrightarrow> triple (recorded n) m (\<lambda>_. recorded n)"
  by (simp add: steady_def)

lemma steady_inspect:
  assumes "ctx_ok ctx" "px_Store p = store"
  shows "steady recorded (inspect p ctx n)"
  unfolding steady_def
proof
  fix k
  have "triple (recorded k) (traverse_loop (do_History store) (\<lambda>events _ page. gives (events @ page)) ctx i s m a c acc)
      (\<lambda>_. recorded k)" for i s m a c acc
    by (rule triple_traverse_loop)
      (simp_all add: steadyD [OF ctx_steady [OF assms(1)]] steadyD [OF history_steady [OF assms(1)]])
  then show "triple (recorded k) (inspect p ctx n) (\<lambda>_. recorded k)"
    unfolding inspect_def InspectInstance_def traverseHistory_def
    by (auto simp: assms(2) intro!: triple_check)
qed

text \<open>A transition that \<open>commitActivityTransition\<close> reports as committed is recorded.\<close>

lemma commit_records:
  assumes "ctx_ok ctx" "run_state (commitActivityTransition ctx store t) w = (Inr u, w')"
  shows "recorded (tr_id t) w'"
proof -
  obtain r w1 where c: "run_state (do_Commit store ctx t) w = (r, w1)" by fastforce
  show ?thesis
  proof (cases r)
    case (Inr v)
    then show ?thesis
      using assms(2) c commit_recorded [OF assms(1) c] by (simp add: commitActivityTransition_def)
  next
    case (Inl e)
    let ?rc = "value_or zero_TransitionReconciliation (NewTransitionReconciliation
        \<lparr>rc_transitionID = tr_id t, rc_fingerprint = tr_fingerprint t\<rparr>)"
    obtain q w2 where rec: "run_state (do_ReconcileTransition store ctx ?rc) w1 = (q, w2)" by fastforce
    have "recorded (tr_id t) w2" if "q = Inr TransitionCommitted"
      using reconcile_true [OF assms(1) rec [unfolded that]] instanceIDPattern_nonempty [of "[]"]
      by (auto simp: NewTransitionReconciliation_def zero_TransitionReconciliation_def reconciliation_Valid_def
          value_or_def split: if_splits)
    then show ?thesis
      using assms(2) c Inl rec commit_recorded [OF assms(1)]
      by (auto simp: commitActivityTransition_def run_check split: if_splits sum.splits
          TransitionReconciliationOutcome.splits)
  qed
qed

lemma steady_commit: "ctx_ok ctx \<Longrightarrow> steady recorded (commitActivityTransition ctx store t)"
  unfolding steady_def commitActivityTransition_def Let_def
  by (auto intro!: triple_bind [OF steadyD [OF commit_steady]] triple_check [OF steadyD [OF reconcile_steady]]
      steadyD [OF commit_steady] split: sum.split TransitionReconciliationOutcome.split)

lemma triple_commit_records:
  "ctx_ok ctx \<Longrightarrow> triple (\<lambda>_. True) (commitActivityTransition ctx store t)
     (\<lambda>r w. case r of Inl _ \<Rightarrow> True | Inr _ \<Rightarrow> recorded (tr_id t) w)"
  by (auto intro!: tripleI split: sum.split dest: commit_records)

end

section \<open>Records around an attempt\<close>

lemma start_ids:
  "NewActivityAttemptStart s1 = Inr t \<Longrightarrow> tr_id t = ss_TransitionID s1"
  "NewActivityAttemptOutcome s2 = Inr t \<Longrightarrow> tr_id t = os_TransitionID s2"
  "NewCompensationAttemptStart s3 = Inr t \<Longrightarrow> tr_id t = kt_TransitionID s3"
  "NewCompensationAttemptOutcome s4 = Inr t \<Longrightarrow> tr_id t = ko_TransitionID s4"
  "NewChildStartAttempt s5 = Inr t \<Longrightarrow> tr_id t = xt_TransitionID s5"
  "NewChildStartAttemptOutcome s6 = Inr t \<Longrightarrow> tr_id t = xa_TransitionID s6"
  by (auto simp: NewActivityAttemptStart_def NewActivityAttemptOutcome_def NewCompensationAttemptStart_def
      NewCompensationAttemptOutcome_def NewChildStartAttempt_def NewChildStartAttemptOutcome_def
      NewTransition_Inr Let_def split: sum.splits if_splits option.splits)

definition after_record :: "(string \<Rightarrow> 'w \<Rightarrow> bool) \<Rightarrow> string \<Rightarrow> 'a result \<Rightarrow> 'w \<Rightarrow> bool" where
  "after_record recorded n r w \<longleftrightarrow> (case r of Inl _ \<Rightarrow> True | Inr _ \<Rightarrow> recorded n w)"

lemma after_record_fails [simp]: "after_record recorded n (Inl e) w"
  by (simp add: after_record_def)

context durable_store
begin

lemma steady_check:
  "steady recorded m \<Longrightarrow> (\<And>e. steady recorded (h e)) \<Longrightarrow> (\<And>v. steady recorded (f v)) \<Longrightarrow> steady recorded (check m h f)"
  unfolding steady_def by (blast intro: triple_check)

lemma steady_bind:
  "steady recorded m \<Longrightarrow> (\<And>v. steady recorded (f v)) \<Longrightarrow> steady recorded (State_Monad.bind m f)"
  unfolding steady_def by (blast intro: triple_bind)

lemma steady_pure [simp]:
  "steady recorded (State_Monad.return a)" "steady recorded (fails e)" "steady recorded (gives v)"
  by (simp_all add: steady_def)

lemma steady_clamped: "steady recorded (px_Clock p) \<Longrightarrow> steady recorded (clamped_now p inst)"
  unfolding clamped_now_def by (rule steady_bind) simp_all

lemma steady_schedules:
  assumes "ctx_ok ctx"
  shows "px_Store p = store \<Longrightarrow> steady recorded (px_Clock p) \<Longrightarrow>
      steady recorded (schedule_activity_retry p ctx work inst defn step d)"
    "px_Store q = store \<Longrightarrow> steady recorded (px_Clock q) \<Longrightarrow>
      steady recorded (schedule_compensation_retry q ctx work inst defn step d)"
    "px_Store x = store \<Longrightarrow> steady recorded (px_Clock x) \<Longrightarrow>
      steady recorded (schedule_child_retry x ctx work inst defn step dc)"
  using steady_commit [OF assms]
  by (auto simp: schedule_activity_retry_def schedule_compensation_retry_def schedule_child_retry_def Let_def
      intro!: steady_bind steady_check steady_clamped split: option.split sum.split)

text \<open>After a commit: \<open>n\<close> is recorded, and what keeps records keeps it.\<close>

lemma triple_after_commit:
  assumes "ctx_ok ctx" "tr_id t = n" "\<And>u. steady recorded (f u)"
  shows "triple (\<lambda>_. True) (check (commitActivityTransition ctx store t) fails f) (after_record recorded n)"
proof (rule triple_check [OF triple_commit_records [OF assms(1)]], goal_cases)
  case (2 u)
  have "triple (recorded n) (f u) (\<lambda>_. recorded n)" using assms(3) by (simp add: steadyD)
  then show ?case using assms(2) by (auto elim!: triple_weaken simp: after_record_def split: sum.split)
qed (simp add: after_record_def)

lemma triple_any: "triple (\<lambda>_. True) m (\<lambda>_ _. True)"
  by (simp add: triple_def)

text \<open>What the three \<open>persistOutcome\<close> methods have in common: the transition, its commit, and steps that
  keep what is recorded.\<close>

lemma triple_persisted:
  assumes "ctx_ok ctx" "\<And>t. b = Inr t \<Longrightarrow> tr_id t = n" "\<And>u. steady recorded (f u)"
  shows "triple (\<lambda>_. True) (case b of Inl _ \<Rightarrow> fails e | Inr t \<Rightarrow> check (commitActivityTransition ctx store t) fails f)
    (after_record recorded n)"
proof (cases b)
  case (Inr t)
  show ?thesis
    unfolding Inr sum.case by (rule triple_after_commit [OF assms(1) assms(2) [OF Inr] assms(3)])
qed simp

lemma triple_persist:
  assumes "ctx_ok ctx"
  shows "px_Store p = store \<Longrightarrow> steady recorded (px_Clock p) \<Longrightarrow>
      triple (\<lambda>_. True) (persist_activity_outcome p ctx work inst defn d outcome)
        (after_record recorded (processorTransitionID (pw_id work) ''outcome''))"
    "px_Store q = store \<Longrightarrow> steady recorded (px_Clock q) \<Longrightarrow>
      triple (\<lambda>_. True) (persist_compensation_outcome q ctx work inst defn d outcome)
        (after_record recorded (compensationProcessorTransitionID (pw_id work) ''outcome''))"
    "px_Store x = store \<Longrightarrow> steady recorded (px_Clock x) \<Longrightarrow>
      triple (\<lambda>_. True) (persist_child_outcome x ctx work inst defn dc outc)
        (after_record recorded (childProcessorTransitionID (pw_id work) ''outcome''))"
proof (goal_cases)
  case 1
  show ?case unfolding persist_activity_outcome_def 1(1)
    by (rule triple_bind [OF triple_any], rule triple_persisted [OF assms])
      (simp_all add: start_ids Let_def steady_check steady_inspect [OF assms 1(1)] steady_schedules [OF assms] 1)
next
  case 2
  show ?case unfolding persist_compensation_outcome_def 2(1)
    by (rule triple_bind [OF triple_any], rule triple_persisted [OF assms])
      (simp_all add: start_ids Let_def steady_check steady_inspect [OF assms 2(1)] steady_schedules [OF assms] 2)
next
  case 3
  show ?case unfolding persist_child_outcome_def 3(1)
    by (rule triple_bind [OF triple_any], rule triple_persisted [OF assms])
      (simp_all add: start_ids Let_def steady_check steady_inspect [OF assms 3(1)] steady_schedules [OF assms] 3)
qed

end

section \<open>Attempts\<close>

lemma agree_case_sum:
  assumes "\<And>t. b = Inr t \<Longrightarrow> agree P (f t) (f' t)"
  shows "agree P (case b of Inl _ \<Rightarrow> fails e | Inr t \<Rightarrow> f t) (case b of Inl _ \<Rightarrow> fails e | Inr t \<Rightarrow> f' t)"
  using assms by (cases b) simp_all

lemma agree_case_option:
  assumes "\<And>t. agree P (f t) (f' t)"
  shows "agree P (case b of None \<Rightarrow> m | Some t \<Rightarrow> f t) (case b of None \<Rightarrow> m | Some t \<Rightarrow> f' t)"
  using assms by (cases b) simp_all

text \<open>Only the attempt itself looks at the registry or the starter.\<close>

lemma inspect_free [simp]:
  "inspect (x\<lparr>px_Starter := s\<rparr>) = inspect x"
  "inspect (p\<lparr>px_Activities := r\<rparr>) = inspect p"
  "inspect (q\<lparr>px_Compensations := r\<rparr>) = inspect q"
  "clamped_now (x\<lparr>px_Starter := s\<rparr>) = clamped_now x"
  "clamped_now (p\<lparr>px_Activities := r\<rparr>) = clamped_now p"
  "clamped_now (q\<lparr>px_Compensations := r\<rparr>) = clamped_now q"
  by (simp_all add: inspect_def clamped_now_def fun_eq_iff)

lemma schedule_free [simp]:
  "schedule_child_retry (x\<lparr>px_Starter := s\<rparr>) = schedule_child_retry x"
  "schedule_activity_retry (p\<lparr>px_Activities := r\<rparr>) = schedule_activity_retry p"
  "schedule_compensation_retry (q\<lparr>px_Compensations := r\<rparr>) = schedule_compensation_retry q"
  by (simp_all add: schedule_child_retry_def schedule_activity_retry_def schedule_compensation_retry_def
      fun_eq_iff Let_def cong: sum.case_cong option.case_cong if_cong)

lemma persist_free [simp]:
  "persist_child_outcome (x\<lparr>px_Starter := s\<rparr>) = persist_child_outcome x"
  "persist_activity_outcome (p\<lparr>px_Activities := r\<rparr>) = persist_activity_outcome p"
  "persist_compensation_outcome (q\<lparr>px_Compensations := r\<rparr>) = persist_compensation_outcome q"
  by (simp_all add: persist_child_outcome_def persist_activity_outcome_def persist_compensation_outcome_def
      fun_eq_iff Let_def cong: sum.case_cong if_cong)

lemma execute_free [simp]:
  "execute_activity (p\<lparr>px_Activities := r\<rparr>) = execute_activity p"
  "execute_compensation (q\<lparr>px_Compensations := r\<rparr>) = execute_compensation q"
  by (simp_all add: execute_activity_def execute_compensation_def fun_eq_iff
      cong: sum.case_cong option.case_cong)

lemma agree_attempt:
  "agree P m m' \<Longrightarrow> agree P (State_Monad.bind m f) (State_Monad.bind m' f)"
  by (rule agree_bind [where R = "\<lambda>_ _. True"]) (simp_all add: triple_def)

context durable_store
begin

lemma agree_started:
  assumes "ctx_ok ctx" "\<And>t. b = Inr t \<Longrightarrow> tr_id t = n" "steady recorded m"
    "\<And>v. agree (recorded n) (g v) (g' v)"
  shows "agree P
    (case b of Inl _ \<Rightarrow> fails e | Inr t \<Rightarrow> check (commitActivityTransition ctx store t) fails (\<lambda>_. check m fails g))
    (case b of Inl _ \<Rightarrow> fails e | Inr t \<Rightarrow> check (commitActivityTransition ctx store t) fails (\<lambda>_. check m fails g'))"
proof (rule agree_case_sum)
  fix t assume "b = Inr t"
  have "agree (recorded (tr_id t)) (check m fails g) (check m fails g')"
    using assms(2) [OF \<open>b = Inr t\<close>] assms(3,4) by (auto intro: agree_check [OF steadyD])
  then show "agree P (check (commitActivityTransition ctx store t) fails (\<lambda>_. check m fails g))
      (check (commitActivityTransition ctx store t) fails (\<lambda>_. check m fails g'))"
    by - (rule agree_check [where R = "\<lambda>r w. case r of Inl _ \<Rightarrow> True | Inr _ \<Rightarrow> recorded (tr_id t) w"],
      auto intro: triple_weaken [OF triple_commit_records [OF assms(1)]])
qed

lemma execute_guarded:
  fixes p :: "'w ActivityWorkProcessor" and q :: "'w CompensationWorkProcessor" and x :: "'w ChildWorkProcessor"
  assumes "ctx_ok ctx"
  shows "px_Store p = store \<Longrightarrow> agree (\<lambda>_. True) (execute_activity p ctx lease inst defn step a d)
      (execute_activity p ctx lease inst defn step
         (guard_activity (recorded (processorTransitionID (pw_id (wl_work lease)) ''start'')) a) d)"
    "px_Store q = store \<Longrightarrow> agree (\<lambda>_. True) (execute_compensation q ctx lease inst defn step a d)
      (execute_compensation q ctx lease inst defn step
         (guard_activity (recorded (compensationProcessorTransitionID (pw_id (wl_work lease)) ''start'')) a) d)"
    "px_Store x = store \<Longrightarrow> agree (\<lambda>_. True) (execute_child x ctx lease inst defn step dc)
      (execute_child (x\<lparr>px_Starter := guard_handler
         (recorded (childProcessorTransitionID (pw_id (wl_work lease)) ''start'')) (px_Starter x)\<rparr>) ctx lease inst defn step dc)"
proof (goal_cases)
  case 1
  show ?case
    unfolding execute_activity_def 1
    by (intro agree_bind [OF agree_refl triple_any] agree_started [OF assms] steady_inspect [OF assms 1]
        agree_case_sum agree_attempt)
      (simp_all add: start_ids, rule executeActivitySafely_guarded, rule steadyD [OF ctx_steady [OF assms]])
next
  case 2
  show ?case
    unfolding execute_compensation_def 2
    by (intro agree_bind [OF agree_refl triple_any] agree_started [OF assms] steady_inspect [OF assms 2]
        agree_case_sum agree_case_option agree_attempt)
      (simp_all add: start_ids, rule executeCompensationSafely_guarded, rule steadyD [OF ctx_steady [OF assms]])
next
  case 3
  let ?y = "x\<lparr>px_Starter := guard_handler
      (recorded (childProcessorTransitionID (pw_id (wl_work lease)) ''start'')) (px_Starter x)\<rparr>"
  have same: "px_Clock ?y = px_Clock x" "px_Store ?y = px_Store x" "inspect ?y = inspect x"
      "persist_child_outcome ?y = persist_child_outcome x" "px_Starter ?y = guard_handler
         (recorded (childProcessorTransitionID (pw_id (wl_work lease)) ''start'')) (px_Starter x)"
    by simp_all
  show ?case
    unfolding execute_child_def same 3
    by (intro agree_bind [OF agree_refl triple_any] agree_started [OF assms] steady_inspect [OF assms 3]
        agree_case_sum agree_attempt)
      (simp_all add: start_ids, rule executeChildStartSafely_guarded, rule steadyD [OF ctx_steady [OF assms]])
qed

text \<open>An attempt that ends with a decision has its outcome recorded.\<close>

lemma after_check:
  "(\<And>v. triple (\<lambda>_. True) (f v) (after_record recorded n)) \<Longrightarrow>
     triple (\<lambda>_. True) (check m fails f) (after_record recorded n)"
  by (rule triple_check [OF triple_any]) simp_all

lemma triple_execute:
  fixes p :: "'w ActivityWorkProcessor" and q :: "'w CompensationWorkProcessor" and x :: "'w ChildWorkProcessor"
  assumes "ctx_ok ctx"
  shows "px_Store p = store \<Longrightarrow> steady recorded (px_Clock p) \<Longrightarrow>
      triple (\<lambda>_. True) (execute_activity p ctx lease inst defn step a d)
        (after_record recorded (processorTransitionID (pw_id (wl_work lease)) ''outcome''))"
    "px_Store q = store \<Longrightarrow> steady recorded (px_Clock q) \<Longrightarrow>
      triple (\<lambda>_. True) (execute_compensation q ctx lease inst defn step a d)
        (after_record recorded (compensationProcessorTransitionID (pw_id (wl_work lease)) ''outcome''))"
    "px_Store x = store \<Longrightarrow> steady recorded (px_Clock x) \<Longrightarrow>
      triple (\<lambda>_. True) (execute_child x ctx lease inst defn step dc)
        (after_record recorded (childProcessorTransitionID (pw_id (wl_work lease)) ''outcome''))"
  unfolding execute_activity_def execute_compensation_def execute_child_def
  by (rule triple_bind [OF triple_any], split sum.split,
      auto intro!: after_check triple_bind [OF triple_any] triple_persist [OF assms] split: sum.split option.split)+

end

section \<open>Whole work items\<close>

lemma load_guarded:
  "run_state (load_activity (p\<lparr>px_Activities := guard_registry P (px_Activities p)\<rparr>) ctx work d) w =
     (case run_state (load_activity p ctx work d) w of (r, w') \<Rightarrow>
        (map_sum id (\<lambda>(inst, defn, step, a). (inst, defn, step, guard_activity P a)) r, w'))"
  "run_state (load_compensation (q\<lparr>px_Compensations := guard_registry P (px_Compensations q)\<rparr>) ctx work d) w =
     (case run_state (load_compensation q ctx work d) w of (r, w') \<Rightarrow>
        (map_sum id (\<lambda>(inst, defn, step, a). (inst, defn, step, guard_activity P a)) r, w'))"
  "load_child (x\<lparr>px_Starter := s\<rparr>) = load_child x"
  by (auto simp: load_activity_def load_compensation_def load_child_def ResolveActivity_def guard_registry_def
      run_check Let_def fun_eq_iff split: sum.split option.split prod.split)

context durable_store
begin

lemma process_progress_guarded:
  fixes p :: "'w ActivityWorkProcessor" and q :: "'w CompensationWorkProcessor" and x :: "'w ChildWorkProcessor"
  assumes "ctx_ok ctx"
  shows "px_Store p = store \<Longrightarrow> run_state (process_activity_progress
        (p\<lparr>px_Activities := r\<rparr>) ctx lease inst defn step
        (guard_activity (recorded (processorTransitionID (pw_id (wl_work lease)) ''start'')) a) d ap) w =
      run_state (process_activity_progress p ctx lease inst defn step a d ap) w"
    "px_Store q = store \<Longrightarrow> run_state (process_compensation_progress
        (q\<lparr>px_Compensations := r\<rparr>) ctx lease inst defn step
        (guard_activity (recorded (compensationProcessorTransitionID (pw_id (wl_work lease)) ''start'')) a) d kp) w =
      run_state (process_compensation_progress q ctx lease inst defn step a d kp) w"
    "px_Store x = store \<Longrightarrow> run_state (process_child_progress (x\<lparr>px_Starter := guard_handler
         (recorded (childProcessorTransitionID (pw_id (wl_work lease)) ''start'')) (px_Starter x)\<rparr>)
         ctx lease inst defn step dc cp) w =
      run_state (process_child_progress x ctx lease inst defn step dc cp) w"
proof (goal_cases)
  case 1
  show ?case
    using execute_guarded(1) [OF assms 1, of lease inst defn step a d]
    by (cases "ap_status ap") (simp_all add: process_activity_progress_def agree_def Let_def)
next
  case 2
  show ?case
    using execute_guarded(2) [OF assms 2, of lease inst defn step a d]
    by (cases "kp_status kp") (simp_all add: process_compensation_progress_def agree_def Let_def)
next
  case 3
  show ?case
    using execute_guarded(3) [OF assms 3, of lease inst defn step dc]
    by (cases "cp_status cp") (simp_all add: process_child_progress_def agree_def Let_def)
qed

lemma Process_guarded:
  fixes p :: "'w ActivityWorkProcessor" and q :: "'w CompensationWorkProcessor" and x :: "'w ChildWorkProcessor"
  assumes "ctx_ok ctx"
  shows "px_Store p = store \<Longrightarrow> run_state (ProcessActivity (Some p) (Some ctx) lease) w =
      run_state (ProcessActivity (Some (p\<lparr>px_Activities := guard_registry
        (recorded (processorTransitionID (pw_id (wl_work lease)) ''start'')) (px_Activities p)\<rparr>)) (Some ctx) lease) w"
    "px_Store q = store \<Longrightarrow> run_state (ProcessCompensation (Some q) (Some ctx) lease) w =
      run_state (ProcessCompensation (Some (q\<lparr>px_Compensations := guard_registry
        (recorded (compensationProcessorTransitionID (pw_id (wl_work lease)) ''start'')) (px_Compensations q)\<rparr>))
        (Some ctx) lease) w"
    "px_Store x = store \<Longrightarrow> run_state (ProcessChild (Some x) (Some ctx) lease) w =
      run_state (ProcessChild (Some (x\<lparr>px_Starter := guard_handler
        (recorded (childProcessorTransitionID (pw_id (wl_work lease)) ''start'')) (px_Starter x)\<rparr>)) (Some ctx) lease) w"
proof (goal_cases)
  case 1
  show ?case
    by (simp add: ProcessActivity_def run_check load_guarded process_progress_guarded(1) [OF assms 1]
        split: sum.split option.split prod.split)
next
  case 2
  show ?case
    by (simp add: ProcessCompensation_def run_check load_guarded process_progress_guarded(2) [OF assms 2]
        split: sum.split option.split prod.split)
next
  case 3
  show ?case
    by (simp add: ProcessChild_def run_check load_guarded process_progress_guarded(3) [OF assms 3]
        split: sum.split option.split prod.split)
qed

end

section \<open>Decisions\<close>

text \<open>Whatever a processor decides is a decision that the worker accepts.\<close>

definition decides :: "('w, WorkDecision result) state \<Rightarrow> bool" where
  "decides m \<longleftrightarrow> triple (\<lambda>_. True) m (\<lambda>r _. \<forall>d. r = Inr d \<longrightarrow> decision_Valid d)"

lemma NewWorkDecision_valid: "NewWorkDecision spec = Inr d \<Longrightarrow> decision_Valid d"
  by (auto simp: NewWorkDecision_def Let_def split: if_splits)

lemma decides_return [simp]:
  "decides (State_Monad.return activityComplete)" "decides (State_Monad.return (activityDeadLetter code))"
  "decides (State_Monad.return (compensationDeadLetter code))" "decides (fails e)"
  by (auto simp: decides_def activityComplete_def activityDeadLetter_def compensationDeadLetter_def
      dest: NewWorkDecision_valid)

lemma decides_bind: "(\<And>v. decides (f v)) \<Longrightarrow> decides (State_Monad.bind m f)"
  unfolding decides_def by (rule triple_bind [where R = "\<lambda>_ _. True"]) (simp_all add: triple_def)

lemma decides_check: "(\<And>e. decides (h e)) \<Longrightarrow> (\<And>v. decides (f v)) \<Longrightarrow> decides (check m h f)"
  unfolding check_def by (rule decides_bind) (simp split: sum.split)

lemma decides_schedule:
  "decides (schedule_activity_retry p ctx work inst defn step d)"
  "decides (schedule_compensation_retry q ctx work inst defn step d)"
  "decides (schedule_child_retry x ctx work inst defn step dc)"
  by (auto simp: schedule_activity_retry_def schedule_compensation_retry_def schedule_child_retry_def Let_def
      intro!: decides_bind decides_check split: option.split sum.split)

lemma decides_persist:
  "decides (persist_activity_outcome p ctx work inst defn d outcome)"
  "decides (persist_compensation_outcome q ctx work inst defn d outcome)"
  "decides (persist_child_outcome x ctx work inst defn dc outc)"
  by (auto simp: persist_activity_outcome_def persist_compensation_outcome_def persist_child_outcome_def Let_def
      decides_schedule intro!: decides_bind decides_check split: sum.split)

lemma decides_execute:
  "decides (execute_activity p ctx lease inst defn step a d)"
  "decides (execute_compensation q ctx lease inst defn step a d)"
  "decides (execute_child x ctx lease inst defn step dc)"
  by (auto simp: execute_activity_def execute_compensation_def execute_child_def decides_persist
      intro!: decides_bind decides_check split: sum.split option.split)

lemma decides_progress:
  "decides (process_activity_progress p ctx lease inst defn step a d ap)"
  "decides (process_compensation_progress q ctx lease inst defn step a d kp)"
  "decides (process_child_progress x ctx lease inst defn step dc cp)"
proof -
  note parts = decides_execute decides_persist decides_schedule
  show "decides (process_activity_progress p ctx lease inst defn step a d ap)"
    by (cases "ap_status ap") (simp_all add: process_activity_progress_def Let_def parts)
  show "decides (process_compensation_progress q ctx lease inst defn step a d kp)"
    by (cases "kp_status kp") (simp_all add: process_compensation_progress_def Let_def parts)
  show "decides (process_child_progress x ctx lease inst defn step dc cp)"
    by (cases "cp_status cp") (simp_all add: process_child_progress_def Let_def parts)
qed

lemma decides_Process:
  "decides (ProcessActivity p ctx lease)" "decides (ProcessCompensation q ctx lease)" "decides (ProcessChild x ctx lease)"
  by (auto simp: ProcessActivity_def ProcessCompensation_def ProcessChild_def decides_progress
      intro!: decides_check split: option.split sum.split prod.split)

end
