(* ===== verification/Worker_Safety.thy ===== *)
theory Worker_Safety
  imports Worker "HOL-Library.Multiset"
begin

text \<open>
  The order of a claim is a fair permutation, the claim loop never has more handlers than it is
  allowed and joins them all before it returns, and a lease is reported as handled only after a
  valid decision was finalised.
\<close>

section \<open>Fair order\<close>

abbreviation tenant :: "WorkLease \<Rightarrow> string" where "tenant l \<equiv> pw_tenantID (wl_work l)"

abbreviation of_tenant :: "string \<Rightarrow> WorkLease list \<Rightarrow> WorkLease list" where
  "of_tenant t ls \<equiv> filter (\<lambda>l. tenant l = t) ls"

lemma grouped:
  assumes "foldl group_lease (Map.empty, [], 0) ls = (groups, order, m)"
  shows "lookup_zero [] groups t = of_tenant t ls" "has_key groups t \<longleftrightarrow> t \<in> tenant ` set ls"
    "distinct order" "set order = tenant ` set ls" "length (of_tenant t ls) \<le> m"
proof -
  have "(\<forall>t. lookup_zero [] groups t = of_tenant t ls) \<and> (\<forall>t. has_key groups t \<longleftrightarrow> t \<in> tenant ` set ls) \<and>
      distinct order \<and> set order = tenant ` set ls \<and> (\<forall>t. length (of_tenant t ls) \<le> m)"
    using assms
  proof (induction ls arbitrary: groups order m rule: rev_induct)
    case Nil
    then show ?case by (auto simp: lookup_zero_def has_key_def)
  next
    case (snoc l ls)
    obtain g o' k where f: "foldl group_lease (Map.empty, [], 0) ls = (g, o', k)" by (metis prod_cases3)
    have ih: "\<forall>t. lookup_zero [] g t = of_tenant t ls" "\<forall>t. has_key g t \<longleftrightarrow> t \<in> tenant ` set ls"
        "distinct o'" "set o' = tenant ` set ls" "\<forall>t. length (of_tenant t ls) \<le> k"
      using snoc.IH [OF f] by blast+
    have step: "group_lease (g, o', k) l = (groups, order, m)" using snoc.prems f by simp
    have new: "groups = g(tenant l \<mapsto> lookup_zero [] g (tenant l) @ [l])"
        "order = (if has_key g (tenant l) then o' else o' @ [tenant l])"
        "m = max k (Suc (length (lookup_zero [] g (tenant l))))"
      using step by (simp_all add: group_lease_def Let_def)
    have "\<forall>t. length (of_tenant t (ls @ [l])) \<le> m"
      using ih(1,5) new(3) by (auto simp: le_max_iff_disj)
    moreover have "\<forall>t. lookup_zero [] groups t = of_tenant t (ls @ [l])"
      using ih(1) by (auto simp: new(1) lookup_zero_def)
    moreover have "\<forall>t. has_key groups t \<longleftrightarrow> t \<in> tenant ` set (ls @ [l])"
      using ih(2) by (auto simp: new(1) has_key_def)
    ultimately show ?case using ih(2-4) by (auto simp: new(2))
  qed
  then show "lookup_zero [] groups t = of_tenant t ls" "has_key groups t \<longleftrightarrow> t \<in> tenant ` set ls"
    "distinct order" "set order = tenant ` set ls" "length (of_tenant t ls) \<le> m" by simp_all
qed

text \<open>A round has one lease of every tenant that still has one.\<close>

lemma tenant_in_round:
  assumes "\<And>t. lookup_zero [] groups t = of_tenant t ls" "distinct order" "set order = tenant ` set ls"
  shows "of_tenant t (lease_round groups order i) =
    (if i < length (of_tenant t ls) then [of_tenant t ls ! i] else [])"
proof -
  have own: "tenant (of_tenant s ls ! i) = s" if "i < length (of_tenant s ls)" for s
    using nth_mem [OF that] by simp
  have "of_tenant t (map (\<lambda>s. of_tenant s ls ! i) (filter (\<lambda>s. i < length (of_tenant s ls)) ts)) =
      (if t \<in> set ts \<and> i < length (of_tenant t ls) then [of_tenant t ls ! i] else [])"
    if "distinct ts" for ts
    using that by (induction ts) (auto simp: own)
  moreover have "t \<in> set order" if "i < length (of_tenant t ls)"
    using nth_mem [OF that] by (force simp: assms(3))
  ultimately show ?thesis
    using assms(2) by (auto simp: lease_round_def assms(1) not_le)
qed

lemma tenant_in_rounds:
  assumes "\<And>t. lookup_zero [] groups t = of_tenant t ls" "distinct order" "set order = tenant ` set ls"
  shows "of_tenant t (concat (map (lease_round groups order) [0..<k])) = take k (of_tenant t ls)"
proof (induction k)
  case 0
  then show ?case by simp
next
  case (Suc k)
  then show ?case using tenant_in_round [OF assms] by (simp add: take_Suc_conv_app_nth)
qed

lemma same_by_tenant:
  assumes "\<And>t. of_tenant t xs = of_tenant t ys"
  shows "mset xs = mset ys"
proof (rule multiset_eqI)
  fix x
  have "count (mset zs) x = count (mset (of_tenant (tenant x) zs)) x" for zs
    by (simp add: mset_filter)
  then show "count (mset xs) x = count (mset ys) x" using assms by metis
qed

lemma take_concat:
  "\<exists>r ys zs. r \<le> length xss \<and> take k (concat xss) = concat (take r xss) @ ys \<and>
     (ys = [] \<or> (r < length xss \<and> xss ! r = ys @ zs))"
proof (induction xss arbitrary: k)
  case Nil
  then show ?case by simp
next
  case (Cons xs xss)
  show ?case
  proof (cases "k \<le> length xs")
    case True
    then show ?thesis
      by (intro exI [of _ 0] exI [of _ "take k xs"] exI [of _ "drop k xs"]) simp
  next
    case False
    obtain r ys zs where "r \<le> length xss" "take (k - length xs) (concat xss) = concat (take r xss) @ ys"
        "ys = [] \<or> (r < length xss \<and> xss ! r = ys @ zs)"
      using Cons.IH by blast
    then show ?thesis
      using False by (intro exI [of _ "Suc r"] exI [of _ ys] exI [of _ zs]) auto
  qed
qed

lemma fairLeaseOrder_tenant: "of_tenant t (fairLeaseOrder ls) = of_tenant t ls"
proof -
  obtain groups order m where f: "foldl group_lease (Map.empty, [], 0) ls = (groups, order, m)"
    by (metis prod_cases3)
  note g = grouped [OF f]
  show ?thesis
    using tenant_in_rounds [OF g(1,3,4)] g(5) by (simp add: fairLeaseOrder_def f)
qed

lemma fairLeaseOrder_mset: "mset (fairLeaseOrder ls) = mset ls"
  using fairLeaseOrder_tenant by (rule same_by_tenant)

lemma fairLeaseOrder_length [simp]: "length (fairLeaseOrder ls) = length ls"
  using fairLeaseOrder_mset [of ls] by (metis size_mset)

lemma fairLeaseOrder_prefix:
  "length (of_tenant a (take k (fairLeaseOrder ls))) \<le> length (of_tenant b (take k (fairLeaseOrder ls))) + 1 \<or>
   of_tenant b (take k (fairLeaseOrder ls)) = of_tenant b ls"
proof -
  obtain groups order m where f: "foldl group_lease (Map.empty, [], 0) ls = (groups, order, m)"
    by (metis prod_cases3)
  note g = grouped [OF f]
  let ?rounds = "map (lease_round groups order) [0..<m]"
  obtain r ys zs where "r \<le> length ?rounds" "take k (concat ?rounds) = concat (take r ?rounds) @ ys"
      "ys = [] \<or> (r < length ?rounds \<and> ?rounds ! r = ys @ zs)"
    using take_concat [of ?rounds k] by blast
  then have p: "r \<le> m" "take k (concat ?rounds) = concat (take r ?rounds) @ ys"
      "ys = [] \<or> (r < m \<and> lease_round groups order r = ys @ zs)"
    by auto
  have split: "of_tenant t (take k (fairLeaseOrder ls)) = take r (of_tenant t ls) @ of_tenant t ys" for t
    using tenant_in_rounds [OF g(1,3,4), of t r] p(1,2)
    by (simp add: fairLeaseOrder_def f take_map min_def)
  have one: "length (of_tenant t ys) \<le> (if r < length (of_tenant t ls) then 1 else 0)" for t
    using p(3)
  proof
    assume "r < m \<and> lease_round groups order r = ys @ zs"
    then have "of_tenant t ys @ of_tenant t zs = (if r < length (of_tenant t ls) then [of_tenant t ls ! r] else [])"
      using tenant_in_round [OF g(1,3,4), of t r] by simp
    then show ?thesis by (auto dest: arg_cong [where f = length] split: if_splits)
  qed simp
  show ?thesis
  proof (cases "r < length (of_tenant b ls)")
    case True
    then show ?thesis using split one [of a] by (simp add: min_def split: if_splits)
  next
    case False
    then have "of_tenant b ys = []" using one [of b] by simp
    then show ?thesis using split False by simp
  qed
qed

section \<open>The claim loop\<close>

text \<open>
  The count is exact, within the limit, and after the return nothing runs any more. The only error
  of \<open>Run\<close> is that of a broken claim.
\<close>

definition run_ok :: "'w Worker \<Rightarrow> RunState \<Rightarrow> bool" where
  "run_ok worker st \<longleftrightarrow> unat (rs_active st) = length (rs_running st) + rs_results st \<and>
     rs_active st \<le> wk_MaxConcurrent (wr_config worker) \<and>
     (rs_returned st \<noteq> None \<longrightarrow> rs_running st = [] \<and> rs_cancelled st \<and> \<not> rs_selecting st) \<and>
     rs_err st \<in> {None, Some ErrInvalidWorker} \<and>
     rs_returned st \<in> {None, Some (Inr ()), Some (Inl ErrInvalidWorker)}"

lemma run_ok_init: "run_ok worker run_init"
  by (simp add: run_ok_def run_init_def)

lemma admitted_count:
  assumes "(a :: uint32) \<le> m" "n \<le> unat (min l (m - a))"
  shows "unat (a + of_nat n) = unat a + n" "a + of_nat n \<le> m"
proof -
  have "unat (m - a) = unat m - unat a" using assms(1) by (simp add: unat_sub)
  moreover have "unat (min l (m - a)) \<le> unat (m - a)" by (simp add: min_def word_le_nat_alt)
  ultimately have n: "unat a + n \<le> unat m" using assms by (simp add: word_le_nat_alt)
  moreover have "unat m < 2 ^ 32" using unsigned_less [of m, where 'a = nat] by simp
  ultimately show u: "unat (a + of_nat n) = unat a + n" by (simp add: unat_word_ariths unat_of_nat)
  show "a + of_nat n \<le> m" using u n by (simp add: word_le_nat_alt)
qed

lemma run_iteration_cases:
  assumes "run_state (run_iteration worker ctx st) w = (st', w')"
  obtains "st' = st\<lparr>rs_selecting := True\<rparr>"
    | "st' = st\<lparr>rs_err := Some ErrInvalidWorker, rs_cancelled := True\<rparr>"
    | leases where "length leases \<le> unat (min (wk_ClaimLimit (wr_config worker))
          (wk_MaxConcurrent (wr_config worker) - rs_active st))"
        "st' = st\<lparr>rs_active := rs_active st + of_nat (length leases),
          rs_running := rs_running st @ fairLeaseOrder leases, rs_selecting := (leases = [])\<rparr>"
  using assms unfolding run_iteration_def Let_def
  by (auto split: if_splits prod.splits sum.splits simp: not_less)

lemma run_step_ok:
  assumes "run_step worker ctx p q" "run_ok worker (fst p)"
  shows "run_ok worker (fst q)"
  using assms
proof (induction rule: run_step.induct)
  case (iterate st w st' w')
  have ok: "run_ok worker st" using iterate.prems by simp
  from iterate.hyps(4) show ?case
  proof (cases rule: run_iteration_cases)
    case (3 leases)
    have "rs_active st \<le> wk_MaxConcurrent (wr_config worker)" using ok by (simp add: run_ok_def)
    from admitted_count [OF this 3(1)] show ?thesis using ok iterate.hyps(1) by (simp add: 3(2) run_ok_def)
  qed (use ok iterate.hyps(1) in \<open>simp_all add: run_ok_def\<close>)
next
  case (handler_done lease st w)
  have "0 < length (rs_running st)" using handler_done.hyps(1) by (cases "rs_running st") auto
  then show ?case
    using handler_done by (auto simp: run_ok_def length_remove1)
next
  case (select_result st w)
  then have "rs_active st \<noteq> 0" by (auto simp: run_ok_def)
  then have "unat (rs_active st - 1) = unat (rs_active st) - 1" by (simp add: unat_minus_one)
  with select_result show ?case by (auto simp: run_ok_def word_le_nat_alt)
qed (auto simp: run_ok_def split: option.splits)

lemma reachable_run_ok:
  "(run_step worker ctx)\<^sup>*\<^sup>* (run_init, w0) p \<Longrightarrow> run_ok worker (fst p)"
  by (induction rule: rtranclp_induct) (simp_all add: run_ok_init run_step_ok)

text \<open>A handler that is done can always hand in its result: the channel never is full then.\<close>

lemma result_fits:
  "run_ok worker st \<Longrightarrow> lease \<in> set (rs_running st) \<Longrightarrow> rs_results st < unat (wk_MaxConcurrent (wr_config worker))"
  by (cases "rs_running st") (auto simp: run_ok_def word_le_nat_alt)

text \<open>
  What a cancelled run still has to do: its handlers, the wait, the return. Every step but those of
  the rest of the program takes something off, and one is always enabled.
\<close>

definition run_left :: "RunState \<Rightarrow> nat" where
  "run_left st = length (rs_running st) + (if rs_selecting st then 1 else 0) + (if rs_returned st = None then 1 else 0)"

lemma cancelled_step:
  assumes "run_step worker ctx (st, w) (st', w')" "rs_cancelled st"
  shows "rs_cancelled st' \<and> (run_left st' < run_left st \<or> st' = st)"
  using assms(1)
proof (cases rule: run_step.cases)
  case (handler_done lease)
  then show ?thesis
    using assms(2) length_pos_if_in_set [of lease "rs_running st"] by (simp add: run_left_def length_remove1)
qed (use assms(2) in \<open>simp_all add: run_left_def\<close>)

lemma cancelled_progress:
  assumes "run_ok worker st" "rs_cancelled st" "rs_returned st = None"
  shows "\<exists>st'. run_step worker ctx (st, w) (st', w) \<and> run_left st' < run_left st"
proof (cases "rs_running st")
  case (Cons l ls)
  then have "l \<in> set (rs_running st)" by simp
  from run_step.handler_done [OF this result_fits [OF assms(1) this]]
  show ?thesis by (intro exI conjI, assumption) (simp add: run_left_def Cons)
next
  case Nil
  show ?thesis
  proof (cases "rs_selecting st")
    case True
    from run_step.select_done [OF this assms(2)] show ?thesis
      by (intro exI conjI, assumption) (simp add: run_left_def True)
  next
    case False
    from run_step.join [OF assms(3) False assms(2) Nil] show ?thesis
      by (intro exI conjI, assumption) (simp add: run_left_def assms(3))
  qed
qed

section \<open>One lease\<close>

text \<open>
  \<open>Handle\<close> returns exactly when the processor has handed in its result, whatever happens before:
  every way out joins the processor.
\<close>

lemma await_processed_returns:
  "run_state (await_processed k script) w = (x, w') \<Longrightarrow> x = None \<longleftrightarrow> (\<forall>r. Processed r \<notin> set script)"
  by (induction k script arbitrary: w rule: await_processed.induct) (auto split: prod.splits)

lemma handle_loop_returns:
  "run_state (handle_loop worker ctx cur script) w = (x, w') \<Longrightarrow> x = None \<longleftrightarrow> (\<forall>r. Processed r \<notin> set script)"
proof (induction worker ctx cur script arbitrary: w rule: handle_loop.induct)
  case (3 worker ctx cur script)
  then show ?case by (auto split: prod.splits sum.splits dest: await_processed_returns)
next
  case (4 worker ctx cur err script)
  then show ?case by (simp add: await_processed_returns)
qed (auto split: prod.splits)

text \<open>The result that ends the loop: the first one of the script.\<close>

fun first_result :: "'w handle_event list \<Rightarrow> WorkDecision result option" where
  "first_result [] = None"
| "first_result (Processed r # script) = Some r"
| "first_result (_ # script) = first_result script"

lemma settle_Inr:
  "run_state (settle worker ctx cur c outcome) w = (Inr u, w') \<Longrightarrow>
     \<exists>d. outcome = Inr d \<and> decision_Valid d \<and> run_state (finalize worker ctx cur d) w = (Inr u, w')"
  by (auto simp: settle_def split: sum.splits option.splits if_splits)

lemma await_processed_settled:
  "run_state (await_processed k script) w = (Some r, w') \<Longrightarrow>
     \<exists>outcome w1. first_result script = Some outcome \<and> run_state (k outcome) w1 = (r, w')"
  by (induction k script arbitrary: w rule: await_processed.induct) (auto split: prod.splits)

text \<open>
  What a worker relies on when it renews: the store hands back the same fence with a later end. The
  decision is then finalised under the fence of the lease that was handed in.
\<close>

definition same_fence :: "WorkLease \<Rightarrow> WorkLease \<Rightarrow> bool" where
  "same_fence l l' \<longleftrightarrow> pw_id (wl_work l) = pw_id (wl_work l') \<and> wl_owner l = wl_owner l' \<and> wl_token l = wl_token l'"

lemma same_fence_refl [simp]: "same_fence l l"
  by (simp add: same_fence_def)

lemma same_fence_trans: "same_fence l m \<Longrightarrow> same_fence m n \<Longrightarrow> same_fence l n"
  by (simp add: same_fence_def)

locale renewing_store =
  fixes store :: "'w WorkStore" and ctx_ok :: "'w ctx \<Rightarrow> bool"
  assumes renew_fence: "ctx_ok c \<Longrightarrow> run_state (do_Renew store c renewal) w = (Inr l, w') \<Longrightarrow>
    pw_id (wl_work l) = rn_workID renewal \<and> wl_owner l = rn_owner renewal \<and> wl_token l = rn_token renewal"
begin

lemma renew_lease_fence:
  assumes "ctx_ok ctx" "wr_store worker = store" "run_state (renew_lease worker ctx cur) w = (Inr l, w')"
  shows "same_fence l cur"
  using assms(3) renew_fence [OF assms(1)]
  by (fastforce simp: renew_lease_def assms(2) run_check NewWorkLeaseRenewal_def Let_def same_fence_def
      split: prod.splits sum.splits if_splits)

lemma handle_loop_Inr:
  assumes "ctx_ok ctx" "wr_store worker = store" "run_state (handle_loop worker ctx cur script) w = (Some (Inr u), w')"
  shows "\<exists>d lease w1. first_result script = Some (Inr d) \<and> decision_Valid d \<and> same_fence lease cur \<and>
    run_state (finalize worker ctx lease d) w1 = (Inr u, w')"
  using assms
proof (induction worker ctx cur script arbitrary: w rule: handle_loop.induct)
  case (3 worker ctx cur script)
  obtain renewed w2 where "run_state (renew_lease worker ctx cur) w = (Inr renewed, w2)"
      "run_state (handle_loop worker ctx renewed script) w2 = (Some (Inr u), w')"
    using 3(4) by (auto split: prod.splits sum.splits dest!: await_processed_settled)
  note renewed = this
  obtain d lease w1 where "first_result script = Some (Inr d)" "decision_Valid d" "same_fence lease renewed"
      "run_state (finalize worker ctx lease d) w1 = (Inr u, w')"
    using 3(1) [OF 3(2,3) renewed(2)] by blast
  moreover have "same_fence lease cur"
    using same_fence_trans [OF \<open>same_fence lease renewed\<close> renew_lease_fence [OF 3(2,3) renewed(1)]] .
  ultimately show ?case by auto
next
  case (4 worker ctx cur err script)
  obtain outcome w1 where "first_result script = Some outcome"
      "run_state (settle worker ctx cur (Some err) outcome) w1 = (Inr u, w')"
    using await_processed_settled 4(3) by fastforce
  then show ?case by (auto dest!: settle_Inr) (metis same_fence_refl)
next
  case (2 worker ctx cur outcome script)
  then show ?case by (auto split: prod.splits dest!: settle_Inr) (metis same_fence_refl)
next
  case (5 worker ctx cur act script)
  then show ?case by (auto split: prod.splits)
qed simp

end

end
