(* ===== verification/Runtime.thy ===== *)
theory Runtime
  imports Processor_Safety Worker_Safety Store_Log Store_Leases
begin

text \<open>
  The runtime on the PostgreSQL store: processors and workers composed with the store they borrow.
\<close>

section \<open>The store behind the processors\<close>

text \<open>\<open>*postgres.Store\<close> as the \<open>ActivityExecutionStore\<close> and as the \<open>WorkStore\<close> of its clients.\<close>

definition pg_execution :: "PgConfig \<Rightarrow> Db ExecutionStore" where
  "pg_execution pg = \<lparr>do_Commit = (\<lambda>c. Commit pg (Some c)), do_History = (\<lambda>c. History (Some c)),
     do_ReconcileTransition = (\<lambda>c. ReconcileTransition (Some c))\<rparr>"

definition pg_work :: "PgConfig \<Rightarrow> Db WorkStore" where
  "pg_work pg = \<lparr>do_Claim = (\<lambda>c. Claim pg (Some c)), do_Renew = (\<lambda>c. Renew pg (Some c)),
     do_Complete = (\<lambda>c. Complete pg (Some c)), do_Fail = (\<lambda>c. Fail pg (Some c))\<rparr>"

text \<open>A transition is recorded when its identity is in the transitions table.\<close>

definition recorded :: "string \<Rightarrow> Db \<Rightarrow> bool" where
  "recorded n db \<longleftrightarrow> findTransition n (db_tables db) \<noteq> None"

lemma steady_recordedI:
  assumes "\<And>db r db'. run_state m db = (r, db') \<Longrightarrow> db_tables db' = db_tables db"
  shows "steady recorded m"
  using assms by (auto simp: steady_def recorded_def intro!: tripleI)

lemma findTransition_kept:
  "findTransition n T = Some f \<Longrightarrow> findTransition n (staged pg t T) = Some f"
  by (auto simp: findTransition_def staged_def find_append split: option.split)

lemma Commit_post:
  "quiet c \<Longrightarrow> run_state (Commit pg (Some c) t) db = (r, db') \<Longrightarrow> commit_post pg t (db_tables db) r (db_tables db')"
  by (rule tripleD [OF triple_store_Commit [of "Some c"]]) (simp_all add: at_rest_def)

lemma History_reads:
  assumes "quiet c"
  shows "triple (at_rest T) (History (Some c) q) (\<lambda>_. at_rest T)"
proof -
  have query: "triple (at_rest T) (db_Query f) (\<lambda>_. at_rest T)" for f :: "Tables \<Rightarrow> 'a"
    by (rule triple_weaken [OF triple_db_Query]) auto
  have rows: "triple (at_rest T) rows_Err (\<lambda>_. at_rest T)"
    by (rule triple_weaken [OF triple_rows_Err]) simp_all
  show ?thesis
    unfolding History_def
    by (rule triple_guarded)
      (auto simp: Let_def assms intro!: triple_check [OF query] triple_check [OF rows] split: sum.split)
qed

lemma Reconcile_reads:
  assumes "quiet c" "run_state (ReconcileTransition (Some c) rc) db = (r, db')"
  shows "db_tables db' = db_tables db"
    "r = Inr TransitionCommitted \<Longrightarrow> reconciliation_Valid rc \<and> findTransition (rc_transitionID rc) (db_tables db) \<noteq> None"
proof -
  note post = tripleD [OF triple_ReconcileTransition [of "Some c"] _ assms(2), of "db_tables db"]
  show "db_tables db' = db_tables db" using post assms(1) by (simp add: at_rest_def)
  assume r: "r = Inr TransitionCommitted"
  then have "reconciliation_Valid rc"
    using assms(2) by (auto simp: ReconcileTransition_def guarded_def split: if_splits)
  then show "reconciliation_Valid rc \<and> findTransition (rc_transitionID rc) (db_tables db) \<noteq> None"
    using post assms(1) r by (auto simp: at_rest_def split: option.splits)
qed

interpretation pg_durable: durable_store "pg_execution pg" quiet recorded for pg
proof (unfold_locales, goal_cases)
  case (1 c t)
  then show ?case
    unfolding steady_def recorded_def
    by (auto simp: pg_execution_def commit_post_iff findTransition_kept intro!: tripleI
        dest!: Commit_post split: sum.splits)
next
  case (2 c t w r w')
  then have "commit_post pg t (db_tables w) r (db_tables w')" by (auto simp: pg_execution_def dest: Commit_post)
  with 2(3) show ?case
    by (auto simp: commit_post_iff recorded_def findTransition_staged)
next
  case (3 c rc)
  then show ?case by (auto simp: pg_execution_def intro!: steady_recordedI dest: Reconcile_reads(1))
next
  case (4 c rc w w')
  then show ?case
    using Reconcile_reads [of c rc w "Inr TransitionCommitted" w'] by (simp add: pg_execution_def recorded_def)
next
  case (5 c q)
  then show ?case
    by (auto simp: pg_execution_def at_rest_def intro!: steady_recordedI dest: tripleD [OF History_reads])
next
  case (6 c)
  then show ?case unfolding quiet_def by (intro steady_recordedI) (metis snd_conv)
qed

section \<open>Finishing leased work\<close>

lemma fencedExec_one:
  "triple (at_rest T) (fencedExec stmt operation) (\<lambda>r db. r = Inr () \<longrightarrow> stmt T = Some (1, db_tables db))"
  unfolding fencedExec_def
  by (rule triple_check [OF triple_databaseExec]) (auto simp: exec_post_def)

text \<open>The statement that a decision stands for.\<close>

definition finish_statement :: "PgConfig \<Rightarrow> WorkDecision \<Rightarrow> WorkLease \<Rightarrow> int \<Rightarrow> statement" where
  "finish_statement pg d lease now = (case wd_kind d of
     WorkComplete \<Rightarrow> completeWork (pw_id (wl_work lease)) (wl_owner lease) (uint (wl_token lease)) now
   | WorkRetryDecision \<Rightarrow> retryWork (pw_id (wl_work lease)) (wl_owner lease) (uint (wl_token lease)) (wd_code d)
       (stamped pg (canonicalTime (wd_retryAt d))) now
   | _ \<Rightarrow> deadLetterWork (pw_id (wl_work lease)) (wl_owner lease) (uint (wl_token lease)) (wd_code d) now)"

lemma Complete_one:
  assumes "quiet c" "run_state (Complete pg (Some c) x) db = (Inr (), db')"
  shows "completeWork (wc_workID x) (wc_owner x) (uint (wc_token x)) (stamped pg (wc_completedAt x)) (db_tables db) =
    Some (1, db_tables db')"
proof -
  have "triple (at_rest T) (Complete pg (Some c) x) (\<lambda>r db'. r = Inr () \<longrightarrow> completeWork (wc_workID x) (wc_owner x)
      (uint (wc_token x)) (stamped pg (wc_completedAt x)) T = Some (1, db_tables db'))" for T
    unfolding Complete_def by (rule triple_guarded) (simp_all add: assms(1) fencedExec_one [simplified])
  from tripleD [OF this _ assms(2)] show ?thesis by (simp add: at_rest_def)
qed

lemma Fail_one:
  assumes "quiet c" "run_state (Fail pg (Some c) x) db = (Inr (), db')"
  shows "(if wf_disposition x = WorkRetry
    then retryWork (wf_workID x) (wf_owner x) (uint (wf_token x)) (wf_code x) (stamped pg (wf_retryAt x))
      (stamped pg (wf_failedAt x))
    else deadLetterWork (wf_workID x) (wf_owner x) (uint (wf_token x)) (wf_code x) (stamped pg (wf_failedAt x)))
    (db_tables db) = Some (1, db_tables db')" (is "?stmt (db_tables db) = _")
proof -
  have "triple (at_rest T) (Fail pg (Some c) x) (\<lambda>r db'. r = Inr () \<longrightarrow> ?stmt T = Some (1, db_tables db'))" for T
    unfolding Fail_def by (rule triple_guarded) (simp_all add: assms(1) fencedExec_one [simplified])
  from tripleD [OF this _ assms(2)] show ?thesis by (simp add: at_rest_def)
qed

lemma quiet_detached: "quiet c \<Longrightarrow> quiet (detached c t)"
  by (auto simp: quiet_def detached_def split: prod.split) (metis snd_conv)

lemma finalize_one:
  assumes "quiet c" "wr_store worker = pg_work pg" "wk_Hooks (wr_config worker) = None"
    "run_state (finalize worker c lease d) db = (Inr (), db')"
  shows "\<exists>T now. finish_statement pg d lease now T = Some (1, db_tables db')"
  using assms(4) Complete_one [OF quiet_detached [OF assms(1)]] Fail_one [OF quiet_detached [OF assms(1)]]
  by (fastforce simp: finalize_def observeLease_def assms(2,3) pg_work_def run_check finish_statement_def Let_def
      NewWorkCompletion_def NewWorkFailure_def split: prod.splits sum.splits WorkDecisionKind.splits if_splits)

lemma scanWorkLease_fence:
  "scanWorkLease row owner now = Inr l \<Longrightarrow> pw_id (wl_work l) = rw_work_id row \<and> wl_owner l = owner \<and>
     wl_token l = of_int (rw_lease_token row)"
  by (auto simp: scanWorkLease_def row_work_spec_def NewPendingWork_Inr NewWorkLease_def Let_def
      split: option.splits if_splits sum.splits)

lemma Renew_fence:
  assumes "quiet c" "run_state (Renew pg (Some c) renewal) db = (Inr l, db')"
  shows "pw_id (wl_work l) = rn_workID renewal \<and> wl_owner l = rn_owner renewal \<and> wl_token l = rn_token renewal"
proof -
  have "triple (at_rest T) (Renew pg (Some c) renewal) (\<lambda>r _. \<forall>l. r = Inr l \<longrightarrow>
      pw_id (wl_work l) = rn_workID renewal \<and> wl_owner l = rn_owner renewal \<and> wl_token l = rn_token renewal)" for T
    unfolding Renew_def
    by (rule triple_guarded, simp add: assms(1), rule triple_check [OF triple_db_change])
      (auto simp: exec_post_def renewWork_def find_Some_iff fenced_def Let_def intro!: tripleI
        split: option.splits sum.splits dest!: scanWorkLease_fence)
  from tripleD [OF this _ assms(2)] show ?thesis by (simp add: at_rest_def)
qed

interpretation pg_renewing: renewing_store "pg_work pg" quiet for pg
  by unfold_locales (auto simp: pg_work_def dest: Renew_fence)

end
