(* ===== verification/Runtime_Properties.thy ===== *)
theory Runtime_Properties
  imports Runtime Store_Properties
begin

text \<open>
  The properties of workers and processors, with their witnesses on the small database of the store
  properties.
\<close>

section \<open>Effects between records\<close>

definition ex_processing :: "Db Clock \<Rightarrow> Db ActivityWorkProcessor" where
  "ex_processing clock = \<lparr>px_Store = pg_execution ex_pg, px_Definitions = the ex_registry, px_Clock = clock,
     px_PageSize = 10, px_MaxHistoryEvents = 100, px_Activities = Map.empty\<rparr>"

definition ex_clock :: "Db Clock" where
  "ex_clock = State_Monad.return (utc 5000)"

lemma ex_clock_steady: "steady recorded ex_clock"
  by (rule steady_recordedI) (simp add: ex_clock_def)

text \<open>
  C5: On the PostgreSQL store an activity handler runs only after the start of its attempt is on
  record: replacing every handler by one that refuses to run in a database without the start
  transition of the work item makes no difference, whatever driver calls fail and whatever the
  handlers do. And an attempt ends with a decision only after its outcome is on record.
\<close>

theorem activity_effects_recorded:
  fixes p :: "Db ActivityWorkProcessor"
  assumes "quiet c" "px_Store p = pg_execution pg" "steady recorded (px_Clock p)"
  shows "run_state (ProcessActivity (Some p) (Some c) lease) db =
      run_state (ProcessActivity (Some (p\<lparr>px_Activities := guard_registry
        (recorded (processorTransitionID (pw_id (wl_work lease)) ''start'')) (px_Activities p)\<rparr>)) (Some c) lease) db \<and>
    (\<forall>inst defn step a d decision db'. run_state (execute_activity p c lease inst defn step a d) db = (Inr decision, db') \<longrightarrow>
       recorded (processorTransitionID (pw_id (wl_work lease)) ''outcome'') db')"
  using pg_durable.Process_guarded(1) [OF assms(1,2)]
    tripleD [OF pg_durable.triple_execute(1) [OF assms(1,2,3)]] by (fastforce simp: after_record_def)

definition ex_held_lease :: WorkLease where
  "ex_held_lease = \<lparr>wl_work = \<lparr>pw_id = ''w-2'', pw_kind = WorkActivity, pw_instanceID = ''order-1'', pw_sequence = 1,
       pw_availableAt = utc 1000, pw_deadline = utc 900000, pw_payload = None, pw_tenantID = [], pw_correlationID = []\<rparr>,
     wl_owner = ''worker-0'', wl_token = 4, wl_attempt = 1, wl_claimedAt = utc 2000, wl_expiresAt = utc 8000\<rparr>"

theorem activity_effects_recorded_witness:
  "run_state (ProcessActivity (Some (ex_processing ex_clock)) (Some ex_ctx) ex_held_lease) (ex_db ex_leased []) =
     run_state (ProcessActivity (Some ((ex_processing ex_clock)\<lparr>px_Activities := guard_registry
       (recorded (processorTransitionID ''w-2'' ''start'')) Map.empty\<rparr>)) (Some ex_ctx) ex_held_lease) (ex_db ex_leased [])"
proof -
  have "px_Store (ex_processing ex_clock) = pg_execution ex_pg" "steady recorded (px_Clock (ex_processing ex_clock))"
    by (simp_all add: ex_processing_def ex_clock_steady)
  from activity_effects_recorded [OF ex_ctx_open(2) this, of ex_held_lease "ex_db ex_leased []"] show ?thesis
    by (simp add: ex_held_lease_def ex_processing_def)
qed

text \<open>
  C37: Compensation handlers and child starters too run only after the start of their attempt is on
  record, and their attempts end with a decision only after the outcome is.
\<close>

theorem other_effects_recorded:
  fixes q :: "Db CompensationWorkProcessor" and x :: "Db ChildWorkProcessor"
  assumes "quiet c" "px_Store q = pg_execution pg" "steady recorded (px_Clock q)"
    "px_Store x = pg_execution pg" "steady recorded (px_Clock x)"
  shows "run_state (ProcessCompensation (Some q) (Some c) lease) db =
      run_state (ProcessCompensation (Some (q\<lparr>px_Compensations := guard_registry
        (recorded (compensationProcessorTransitionID (pw_id (wl_work lease)) ''start'')) (px_Compensations q)\<rparr>))
        (Some c) lease) db \<and>
    run_state (ProcessChild (Some x) (Some c) lease) db =
      run_state (ProcessChild (Some (x\<lparr>px_Starter := guard_handler
        (recorded (childProcessorTransitionID (pw_id (wl_work lease)) ''start'')) (px_Starter x)\<rparr>)) (Some c) lease) db \<and>
    (\<forall>inst defn step a d decision db'.
       run_state (execute_compensation q c lease inst defn step a d) db = (Inr decision, db') \<longrightarrow>
       recorded (compensationProcessorTransitionID (pw_id (wl_work lease)) ''outcome'') db') \<and>
    (\<forall>inst defn step d decision db'. run_state (execute_child x c lease inst defn step d) db = (Inr decision, db') \<longrightarrow>
       recorded (childProcessorTransitionID (pw_id (wl_work lease)) ''outcome'') db')"
  using pg_durable.Process_guarded(2) [OF assms(1,2)] pg_durable.Process_guarded(3) [OF assms(1,4)]
    tripleD [OF pg_durable.triple_execute(2) [OF assms(1-3)]]
    tripleD [OF pg_durable.triple_execute(3) [OF assms(1,4,5)]] by (fastforce simp: after_record_def)

definition ex_compensating :: "Db CompensationWorkProcessor" where
  "ex_compensating = \<lparr>px_Store = pg_execution ex_pg, px_Definitions = the ex_registry, px_Clock = ex_clock,
     px_PageSize = 10, px_MaxHistoryEvents = 100, px_Compensations = Map.empty\<rparr>"

definition ex_starting :: "Db ChildWorkProcessor" where
  "ex_starting = \<lparr>px_Store = pg_execution ex_pg, px_Definitions = the ex_registry, px_Clock = ex_clock,
     px_PageSize = 10, px_MaxHistoryEvents = 100,
     px_Starter = (\<lambda>_ _. State_Monad.return (Inr (child_outcome ChildStarted [] False)))\<rparr>"

theorem other_effects_recorded_witness:
  "run_state (ProcessChild (Some ex_starting) (Some ex_ctx) ex_held_lease) (ex_db ex_leased []) =
     run_state (ProcessChild (Some (ex_starting\<lparr>px_Starter := guard_handler
       (recorded (childProcessorTransitionID ''w-2'' ''start'')) (px_Starter ex_starting)\<rparr>)) (Some ex_ctx) ex_held_lease)
       (ex_db ex_leased [])"
proof -
  have "px_Store ex_compensating = pg_execution ex_pg" "steady recorded (px_Clock ex_compensating)"
      "px_Store ex_starting = pg_execution ex_pg" "steady recorded (px_Clock ex_starting)"
    by (simp_all add: ex_compensating_def ex_starting_def ex_clock_steady)
  from other_effects_recorded [OF ex_ctx_open(2) this, of ex_held_lease "ex_db ex_leased []"] show ?thesis
    by (simp add: ex_held_lease_def)
qed


lemma ex_lease_valid: "lease_Valid ex_held_lease"
  by (simp add: lease_Valid_def ex_held_lease_def pattern_eval work_valid_def canonicalTime_utc optionalMetadataValid_def
      IsZero_def After_def Sub_def saturate64_def MaxWorkLeaseDuration_def leaseIdentityValid_def utc_def id_char_def is_alnum_def)


section \<open>One lease\<close>


definition ex_worker :: "Db Worker" where
  "ex_worker = \<lparr>wr_config = \<lparr>wk_Store = None, wk_Processor = None, wk_Clock = None, wk_Owner = ''worker-0'',
       wk_MaxConcurrent = 2, wk_ClaimLimit = 1, wk_LeaseDuration = 2000, wk_RenewEvery = 1000, wk_PollInterval = 1000,
       wk_FinalizeTimeout = 1000, wk_Hooks = None\<rparr>,
     wr_store = pg_work ex_pg, wr_processor = (\<lambda>_ _. State_Monad.return activityComplete), wr_clock = ex_clock\<rparr>"





text \<open>
  C25: \<open>Handle\<close> returns exactly when its processor has handed in a result. Whatever the order of
  renewals, their failures and cancellation, no way out leaves the processor running, and none
  waits for anything after the processor is done.
\<close>

theorem handle_joins_processor:
  assumes "lease_Valid lease" "wl_owner lease = wk_Owner (wr_config worker)"
    "run_state (Handle (Some worker) (Some c) lease script) w = (x, w')"
  shows "x \<noteq> None \<longleftrightarrow> (\<exists>r. Processed r \<in> set script)"
proof -
  obtain w1 where "run_state (handle_loop worker c lease script) w1 = (x, w')"
    using assms by (auto simp: Handle_def split: prod.splits)
  from handle_loop_returns [OF this] show ?thesis by blast
qed

definition ex_tick :: "(Db, unit) state" where
  "ex_tick = State (\<lambda>db. ((), db\<lparr>db_tables := ex_tables\<rparr>))"

theorem handle_joins_processor_witness:
  "fst (run_state (Handle (Some ex_worker) (Some ex_ctx) ex_held_lease [RenewalDue, ContextDone ContextCanceled]) (ex_db ex_leased [])) = None \<and>
   fst (run_state (Handle (Some ex_worker) (Some ex_ctx) ex_held_lease
     [ContextDone ContextCanceled, Elsewhere ex_tick, Processed activityComplete]) (ex_db ex_leased [])) \<noteq> None"
proof -
  have own: "wl_owner ex_held_lease = wk_Owner (wr_config ex_worker)" by (simp add: ex_held_lease_def ex_worker_def)
  show ?thesis
    using handle_joins_processor [OF ex_lease_valid own surjective_pairing, of ex_ctx
        "[RenewalDue, ContextDone ContextCanceled]" "ex_db ex_leased []"]
      handle_joins_processor [OF ex_lease_valid own surjective_pairing, of ex_ctx
        "[ContextDone ContextCanceled, Elsewhere ex_tick, Processed activityComplete]" "ex_db ex_leased []"]
    by auto
qed

section \<open>The claim loop\<close>

text \<open>
  C23: In every interleaving of the claim loop with its handlers, the count of active handlers is
  exact and never above \<open>MaxConcurrent\<close>, a handler can always hand in its result, and when \<open>Run\<close>
  has returned no handler is left; the only error it returns is \<open>ErrInvalidWorker\<close>.
\<close>

theorem worker_run_bounded:
  assumes "(run_step worker ctx)\<^sup>*\<^sup>* (run_init, w0) (st, w)"
  shows "unat (rs_active st) = length (rs_running st) + rs_results st \<and>
    length (rs_running st) \<le> unat (wk_MaxConcurrent (wr_config worker)) \<and>
    (rs_running st \<noteq> [] \<longrightarrow> rs_results st < unat (wk_MaxConcurrent (wr_config worker))) \<and>
    (\<forall>r. rs_returned st = Some r \<longrightarrow> rs_running st = [] \<and> r \<in> {Inr (), Inl ErrInvalidWorker})"
  using reachable_run_ok [OF assms] by (cases "rs_running st") (auto simp: run_ok_def word_le_nat_alt)

text \<open>A lease is claimed and its handler started; then the caller cancels.\<close>

definition ex_claiming :: "nat Worker" where
  "ex_claiming = \<lparr>wr_config = \<lparr>wk_Store = None, wk_Processor = None, wk_Clock = None, wk_Owner = ''worker-0'',
       wk_MaxConcurrent = 2, wk_ClaimLimit = 2, wk_LeaseDuration = 2000, wk_RenewEvery = 1000, wk_PollInterval = 1000,
       wk_FinalizeTimeout = 1000, wk_Hooks = None\<rparr>,
     wr_store = \<lparr>do_Claim = (\<lambda>_ _. State_Monad.return (Inr [ex_held_lease])), do_Renew = (\<lambda>_ _. fails ErrStaleWorkLease),
       do_Complete = (\<lambda>_ _. gives ()), do_Fail = (\<lambda>_ _. gives ())\<rparr>,
     wr_processor = (\<lambda>_ _. State_Monad.return activityComplete), wr_clock = State_Monad.return (utc 5000)\<rparr>"

definition ex_running :: RunState where
  "ex_running = run_init\<lparr>rs_active := 1, rs_running := [ex_held_lease], rs_cancelled := True\<rparr>"

lemma ex_run: "(run_step ex_claiming ex_ctx)\<^sup>*\<^sup>* (run_init, 0) (ex_running, 0)"
proof -
  have "run_state (run_iteration ex_claiming ex_ctx run_init) 0 = (run_init\<lparr>rs_active := 1, rs_running := [ex_held_lease]\<rparr>, 0)"
    by (simp add: run_iteration_def ex_claiming_def run_init_def NewWorkClaimRequest_def claim_Valid_def pattern_eval
        MaxWorkLeaseDuration_def MaxWorkClaimItems_def canonicalTime_utc IsZero_def fairLeaseOrder_def group_lease_def
        lease_round_def lookup_zero_def has_key_def observeLease_def Let_def)
  then have "run_step ex_claiming ex_ctx (run_init, 0) (run_init\<lparr>rs_active := 1, rs_running := [ex_held_lease]\<rparr>, 0)"
    by (intro run_step.iterate) (simp_all add: run_init_def)
  moreover have "run_step ex_claiming ex_ctx (run_init\<lparr>rs_active := 1, rs_running := [ex_held_lease]\<rparr>, 0) (ex_running, 0)"
    using run_step.cancel [of ex_claiming ex_ctx "run_init\<lparr>rs_active := 1, rs_running := [ex_held_lease]\<rparr>" 0]
    by (simp add: ex_running_def)
  ultimately show ?thesis by (meson converse_rtranclp_into_rtranclp r_into_rtranclp)
qed

theorem worker_run_bounded_witness:
  "(run_step ex_claiming ex_ctx)\<^sup>*\<^sup>* (run_init, 0) (ex_running, 0) \<and> unat (rs_active ex_running) = 1 \<and>
   length (rs_running ex_running) \<le> 2"
  using worker_run_bounded [OF ex_run] ex_run by (simp add: ex_running_def run_init_def ex_claiming_def)



text \<open>
  C38: The order in which a claim is admitted is a permutation of the claim that keeps the order of
  each tenant and is fair: in every prefix a tenant is at most one ahead of any other that still
  has leases left.
\<close>

theorem fair_lease_order:
  "mset (fairLeaseOrder leases) = mset leases \<and>
   (\<forall>t. filter (\<lambda>l. pw_tenantID (wl_work l) = t) (fairLeaseOrder leases) = filter (\<lambda>l. pw_tenantID (wl_work l) = t) leases) \<and>
   (\<forall>k a b. let served = (\<lambda>t. filter (\<lambda>l. pw_tenantID (wl_work l) = t) (take k (fairLeaseOrder leases)))
      in length (served a) \<le> length (served b) + 1 \<or> served b = filter (\<lambda>l. pw_tenantID (wl_work l) = b) leases)"
  using fairLeaseOrder_mset fairLeaseOrder_tenant fairLeaseOrder_prefix by (auto simp: Let_def)

end
