(* ===== verification/Snapshot.thy ===== *)
theory Snapshot
  imports Replay_Invariants Digest
begin

text \<open>
  The ordered views of an instance and its digest: the \<open>sorted...Progress\<close> and
  \<open>...ProgressSnapshots\<close> functions of activity\_history.go, wait\_history.go, race\_history.go,
  child\_history.go, compensation\_history.go and operator.go, and the accessors and
  \<open>SnapshotDigest\<close> of history.go. Go leaves the order in which a loop visits a map open: it is an
  argument here, one list of keys for each map. The views never return an empty slice that is not
  nil, so the empty list stands for nil.
\<close>

section \<open>Sorted progress\<close>

record RangeOrders =
  ro_activities :: "string list"
  ro_timers :: "string list"
  ro_signals :: "string list"
  ro_races :: "string list"
  ro_children :: "string list"
  ro_compensations :: "string list"

definition zero_SignalProgress :: SignalProgress where
  "zero_SignalProgress = \<lparr>sp_stepName = [], sp_signalID = [], sp_receivedAt = time_zero, sp_payload = None\<rparr>"

definition zero_RaceProgress :: RaceProgress where
  "zero_RaceProgress = \<lparr>rc_stepName = [], rc_winnerStepName = [], rc_decidedAt = time_zero\<rparr>"

definition cloneActivityProgress :: "ActivityProgress \<Rightarrow> ActivityProgress" where
  "cloneActivityProgress progress =
     progress\<lparr>ap_input := cloneBytes (ap_input progress), ap_result := cloneBytes (ap_result progress)\<rparr>"

definition cloneSignalProgress :: "SignalProgress \<Rightarrow> SignalProgress" where
  "cloneSignalProgress progress = progress\<lparr>sp_payload := cloneBytes (sp_payload progress)\<rparr>"

definition cloneChildProgress :: "ChildProgress \<Rightarrow> ChildProgress" where
  "cloneChildProgress progress =
     progress\<lparr>cp_input := cloneBytes (cp_input progress), cp_result := cloneBytes (cp_result progress)\<rparr>"

definition cloneCompensationProgress :: "CompensationProgress \<Rightarrow> CompensationProgress" where
  "cloneCompensationProgress progress =
     progress\<lparr>kp_input := cloneBytes (kp_input progress), kp_result := cloneBytes (kp_result progress)\<rparr>"

definition sortedProgressNames :: "string list \<Rightarrow> string list" where
  "sortedProgressNames order = sort order"

definition sortedActivityProgress :: "string list \<Rightarrow> (string \<rightharpoonup> ActivityProgress) \<Rightarrow> ActivityProgress list" where
  "sortedActivityProgress order activities =
     map (\<lambda>name. cloneActivityProgress (lookup_zero zero_ActivityProgress activities name)) (sort order)"

definition sortedTimerProgress :: "string list \<Rightarrow> (string \<rightharpoonup> TimerProgress) \<Rightarrow> TimerProgress list" where
  "sortedTimerProgress order progress = map (lookup_zero zero_TimerProgress progress) (sortedProgressNames order)"

definition sortedSignalProgress :: "string list \<Rightarrow> (string \<rightharpoonup> SignalProgress) \<Rightarrow> SignalProgress list" where
  "sortedSignalProgress order progress =
     map (\<lambda>name. cloneSignalProgress (lookup_zero zero_SignalProgress progress name)) (sortedProgressNames order)"

definition sortedRaceProgress :: "string list \<Rightarrow> (string \<rightharpoonup> RaceProgress) \<Rightarrow> RaceProgress list" where
  "sortedRaceProgress order progress = map (lookup_zero zero_RaceProgress progress) (sort order)"

definition sortedChildProgress :: "string list \<Rightarrow> (string \<rightharpoonup> ChildProgress) \<Rightarrow> ChildProgress list" where
  "sortedChildProgress order progress =
     map (\<lambda>name. cloneChildProgress (lookup_zero zero_ChildProgress progress name)) (sort order)"

text \<open>\<open>slices.SortFunc\<close> by the schedule position.\<close>

definition sortedCompensationProgress ::
  "string list \<Rightarrow> (string \<rightharpoonup> CompensationProgress) \<Rightarrow> CompensationProgress list" where
  "sortedCompensationProgress order progress = sort_key kp_scheduledSequence
     (map (\<lambda>name. cloneCompensationProgress (lookup_zero zero_CompensationProgress progress name)) order)"

section \<open>Accessors\<close>

definition Activities :: "RangeOrders \<Rightarrow> Instance \<Rightarrow> ActivityProgress list" where
  "Activities ro inst = sortedActivityProgress (ro_activities ro) (in_activities inst)"

definition Timers :: "RangeOrders \<Rightarrow> Instance \<Rightarrow> TimerProgress list" where
  "Timers ro inst = sortedTimerProgress (ro_timers ro) (in_timers inst)"

definition Signals :: "RangeOrders \<Rightarrow> Instance \<Rightarrow> SignalProgress list" where
  "Signals ro inst = sortedSignalProgress (ro_signals ro) (in_signals inst)"

definition Races :: "RangeOrders \<Rightarrow> Instance \<Rightarrow> RaceProgress list" where
  "Races ro inst = sortedRaceProgress (ro_races ro) (in_races inst)"

definition Children :: "RangeOrders \<Rightarrow> Instance \<Rightarrow> ChildProgress list" where
  "Children ro inst = sortedChildProgress (ro_children ro) (in_children inst)"

definition Compensations :: "RangeOrders \<Rightarrow> Instance \<Rightarrow> CompensationProgress list" where
  "Compensations ro inst = sortedCompensationProgress (ro_compensations ro) (in_compensations inst)"

text \<open>Looking one record up: a missing key gives the zero value and false.\<close>

definition instance_Activity :: "Instance \<Rightarrow> string \<Rightarrow> ActivityProgress \<times> bool" where
  "instance_Activity inst stepName = (cloneActivityProgress (lookup_zero zero_ActivityProgress (in_activities inst) stepName),
     has_key (in_activities inst) stepName)"

definition instance_Timer :: "Instance \<Rightarrow> string \<Rightarrow> TimerProgress \<times> bool" where
  "instance_Timer inst stepName = (lookup_zero zero_TimerProgress (in_timers inst) stepName, has_key (in_timers inst) stepName)"

definition instance_Signal :: "Instance \<Rightarrow> string \<Rightarrow> SignalProgress \<times> bool" where
  "instance_Signal inst stepName = (cloneSignalProgress (lookup_zero zero_SignalProgress (in_signals inst) stepName),
     has_key (in_signals inst) stepName)"

definition instance_Race :: "Instance \<Rightarrow> string \<Rightarrow> RaceProgress \<times> bool" where
  "instance_Race inst stepName = (lookup_zero zero_RaceProgress (in_races inst) stepName, has_key (in_races inst) stepName)"

definition instance_Child :: "Instance \<Rightarrow> string \<Rightarrow> ChildProgress \<times> bool" where
  "instance_Child inst stepName = (cloneChildProgress (lookup_zero zero_ChildProgress (in_children inst) stepName),
     has_key (in_children inst) stepName)"

definition instance_Compensation :: "Instance \<Rightarrow> string \<Rightarrow> CompensationProgress \<times> bool" where
  "instance_Compensation inst stepName =
     (cloneCompensationProgress (lookup_zero zero_CompensationProgress (in_compensations inst) stepName),
      has_key (in_compensations inst) stepName)"

definition OperatorActions :: "Instance \<Rightarrow> OperatorActionRecord list" where
  "OperatorActions inst = [] @ in_operatorActions inst"

section \<open>Snapshots\<close>

definition j_code :: "nat \<Rightarrow> json option" where
  "j_code n = Some (JNum (dec_nat n))"

fun status_code :: "InstanceStatus \<Rightarrow> nat" where
  "status_code StatusRunning = 1" | "status_code StatusPaused = 2" | "status_code StatusCancelling = 3"
| "status_code StatusCompleted = 4" | "status_code StatusFailed = 5" | "status_code StatusCancelled = 6"
| "status_code StatusTerminated = 7" | "status_code StatusContinuedAsNew = 8" | "status_code StatusNone = 0"

fun activity_status_code :: "ActivityProgressStatus \<Rightarrow> nat" where
  "activity_status_code ActivityProgressReady = 1" | "activity_status_code ActivityProgressRunning = 2"
| "activity_status_code ActivityProgressSucceeded = 3" | "activity_status_code ActivityProgressFailed = 4"
| "activity_status_code ActivityProgressUnknown = 5" | "activity_status_code ActivityProgressRetryWaiting = 6"
| "activity_status_code ActivityProgressNone = 0"

fun timer_status_code :: "TimerProgressStatus \<Rightarrow> nat" where
  "timer_status_code TimerWaiting = 1" | "timer_status_code TimerFired = 2" | "timer_status_code TimerNone = 0"

fun child_status_code :: "ChildProgressStatus \<Rightarrow> nat" where
  "child_status_code ChildScheduled = 1" | "child_status_code ChildSucceeded = 2"
| "child_status_code ChildFailed = 3" | "child_status_code ChildStartRunning = 4"
| "child_status_code ChildActive = 5" | "child_status_code ChildStartFailedStatus = 6"
| "child_status_code ChildStartUnknownStatus = 7" | "child_status_code ChildStartRetryWaiting = 8"
| "child_status_code ChildNone = 0"

fun compensation_status_code :: "CompensationProgressStatus \<Rightarrow> nat" where
  "compensation_status_code CompensationReady = 1" | "compensation_status_code CompensationRunning = 2"
| "compensation_status_code CompensationSucceeded = 3" | "compensation_status_code CompensationFailed = 4"
| "compensation_status_code CompensationUnknown = 5" | "compensation_status_code CompensationRetryWaiting = 6"
| "compensation_status_code CompensationManuallyResolved = 7" | "compensation_status_code CompensationNone = 0"

definition activityProgressSnapshot :: "ActivityProgress \<Rightarrow> json option" where
  "activityProgressSnapshot progress = j_object [
     (''StepName'', Some (JStr (ap_stepName progress))),
     (''Status'', j_code (activity_status_code (ap_status progress))),
     (''Attempt'', Some (j_uint (ap_attempt progress))),
     (''IdempotencyKey'', Some (JStr (ap_idempotencyKey progress))),
     (''DueAt'', j_time (ap_dueAt progress)),
     (''Input'', Some (j_bytes (ap_input progress))),
     (''Result'', Some (j_bytes (ap_result progress))),
     (''Code'', Some (JStr (ap_code progress))),
     (''Retryable'', Some (JBool (ap_retryable progress)))]"

definition activityProgressSnapshots ::
  "string list \<Rightarrow> (string \<rightharpoonup> ActivityProgress) \<Rightarrow> json option list" where
  "activityProgressSnapshots order activities = map activityProgressSnapshot (sortedActivityProgress order activities)"

definition timerProgressSnapshot :: "TimerProgress \<Rightarrow> json option" where
  "timerProgressSnapshot timer = j_object [
     (''StepName'', Some (JStr (tp_stepName timer))),
     (''Status'', j_code (timer_status_code (tp_status timer))),
     (''DueAt'', j_time (tp_dueAt timer)),
     (''FiredAt'', j_time (tp_firedAt timer))]"

definition timerProgressSnapshots :: "string list \<Rightarrow> (string \<rightharpoonup> TimerProgress) \<Rightarrow> json option list" where
  "timerProgressSnapshots order progress = map timerProgressSnapshot (sortedTimerProgress order progress)"

definition signalProgressSnapshot :: "SignalProgress \<Rightarrow> json option" where
  "signalProgressSnapshot signal = j_object [
     (''StepName'', Some (JStr (sp_stepName signal))),
     (''SignalID'', Some (JStr (sp_signalID signal))),
     (''ReceivedAt'', j_time (sp_receivedAt signal)),
     (''Payload'', Some (j_bytes (sp_payload signal)))]"

definition signalProgressSnapshots :: "string list \<Rightarrow> (string \<rightharpoonup> SignalProgress) \<Rightarrow> json option list" where
  "signalProgressSnapshots order progress = map signalProgressSnapshot (sortedSignalProgress order progress)"

definition raceProgressSnapshot :: "RaceProgress \<Rightarrow> json option" where
  "raceProgressSnapshot race = j_object [
     (''StepName'', Some (JStr (rc_stepName race))),
     (''WinnerStepName'', Some (JStr (rc_winnerStepName race))),
     (''DecidedAt'', j_time (rc_decidedAt race))]"

definition raceProgressSnapshots :: "string list \<Rightarrow> (string \<rightharpoonup> RaceProgress) \<Rightarrow> json option list" where
  "raceProgressSnapshots order progress = map raceProgressSnapshot (sortedRaceProgress order progress)"

definition childProgressSnapshot :: "ChildProgress \<Rightarrow> json option" where
  "childProgressSnapshot child = j_object [
     (''StepName'', Some (JStr (cp_stepName child))),
     (''ChildID'', Some (JStr (cp_childID child))),
     (''DefinitionName'', Some (JStr (dr_name (cp_definition child)))),
     (''DefinitionVersion'', Some (JStr (dr_version (cp_definition child)))),
     (''DefinitionFingerprint'', Some (JStr (dr_fingerprint (cp_definition child)))),
     (''Status'', j_code (child_status_code (cp_status child))),
     (''Input'', Some (j_bytes (cp_input child))),
     (''Result'', Some (j_bytes (cp_result child))),
     (''Code'', Some (JStr (cp_code child))),
     (''Attempt'', Some (j_uint (cp_attempt child))),
     (''IdempotencyKey'', Some (JStr (cp_idempotencyKey child))),
     (''DueAt'', j_time (cp_dueAt child)),
     (''Retryable'', Some (JBool (cp_retryable child)))]"

definition childProgressSnapshots :: "string list \<Rightarrow> (string \<rightharpoonup> ChildProgress) \<Rightarrow> json option list" where
  "childProgressSnapshots order progress = map childProgressSnapshot (sortedChildProgress order progress)"

definition compensationProgressSnapshot :: "CompensationProgress \<Rightarrow> json option" where
  "compensationProgressSnapshot item = j_object [
     (''StepName'', Some (JStr (kp_stepName item))),
     (''Status'', j_code (compensation_status_code (kp_status item))),
     (''ScheduledSequence'', Some (j_uint (kp_scheduledSequence item))),
     (''Attempt'', Some (j_uint (kp_attempt item))),
     (''IdempotencyKey'', Some (JStr (kp_idempotencyKey item))),
     (''DueAt'', j_time (kp_dueAt item)),
     (''Input'', Some (j_bytes (kp_input item))),
     (''Result'', Some (j_bytes (kp_result item))),
     (''Code'', Some (JStr (kp_code item))),
     (''Retryable'', Some (JBool (kp_retryable item)))]"

definition compensationProgressSnapshots ::
  "string list \<Rightarrow> (string \<rightharpoonup> CompensationProgress) \<Rightarrow> json option list" where
  "compensationProgressSnapshots order progress =
     map compensationProgressSnapshot (sortedCompensationProgress order progress)"

definition operatorActionSnapshot :: "OperatorActionRecord \<Rightarrow> json option" where
  "operatorActionSnapshot record = j_object [
     (''CommandID'', Some (JStr (oa_commandID record))),
     (''Action'', j_code (action_code (oa_action record))),
     (''Actor'', Some (JStr (oa_actor record))),
     (''Reason'', Some (JStr (oa_reason record))),
     (''OccurredAt'', j_time (oa_occurredAt record))]"

definition operatorActionSnapshots :: "OperatorActionRecord list \<Rightarrow> json option list" where
  "operatorActionSnapshots records = map operatorActionSnapshot records"

text \<open>A member with \<open>omitempty\<close>: left out when its slice is empty.\<close>

definition omit_empty :: "string \<Rightarrow> json option list \<Rightarrow> (string \<times> json option) list" where
  "omit_empty name items = (if items = [] then [] else [(name, j_array items)])"

definition snapshot_json :: "RangeOrders \<Rightarrow> Instance \<Rightarrow> json option" where
  "snapshot_json ro inst =
     (let activities = activityProgressSnapshots (ro_activities ro) (in_activities inst)
      in j_object ([
       (''ID'', Some (JStr (in_id inst))),
       (''DefinitionName'', Some (JStr (dr_name (in_definition inst)))),
       (''DefinitionVersion'', Some (JStr (dr_version (in_definition inst)))),
       (''DefinitionFingerprint'', Some (JStr (dr_fingerprint (in_definition inst)))),
       (''Status'', j_code (status_code (in_status inst))),
       (''Sequence'', Some (j_uint (in_sequence inst))),
       (''StartedAt'', j_time (in_startedAt inst)),
       (''UpdatedAt'', j_time (in_updatedAt inst)),
       (''Input'', Some (j_bytes (in_input inst))),
       (''Result'', Some (j_bytes (in_result inst))),
       (''SuccessorID'', Some (JStr (in_successorID inst))),
       (''Activities'', if activities = [] then Some JNull else j_array activities)] @
       omit_empty ''Timers'' (timerProgressSnapshots (ro_timers ro) (in_timers inst)) @
       omit_empty ''Signals'' (signalProgressSnapshots (ro_signals ro) (in_signals inst)) @
       omit_empty ''Races'' (raceProgressSnapshots (ro_races ro) (in_races inst)) @
       omit_empty ''Children'' (childProgressSnapshots (ro_children ro) (in_children inst)) @
       omit_empty ''Compensations'' (compensationProgressSnapshots (ro_compensations ro) (in_compensations inst)) @
       omit_empty ''OperatorActions'' (operatorActionSnapshots (in_operatorActions inst))))"

definition SnapshotDigest :: "RangeOrders \<Rightarrow> Instance \<Rightarrow> string" where
  "SnapshotDigest ro inst = sha256_hex (marshal (snapshot_json ro inst))"

section \<open>The order of the maps does not matter\<close>

text \<open>A loop over a map visits every key once.\<close>

definition visits :: "string list \<Rightarrow> (string \<rightharpoonup> 'v) \<Rightarrow> bool" where
  "visits order m \<longleftrightarrow> distinct order \<and> set order = dom m"

definition range_ok :: "RangeOrders \<Rightarrow> Instance \<Rightarrow> bool" where
  "range_ok ro i \<longleftrightarrow> visits (ro_activities ro) (in_activities i) \<and> visits (ro_timers ro) (in_timers i) \<and>
     visits (ro_signals ro) (in_signals i) \<and> visits (ro_races ro) (in_races i) \<and>
     visits (ro_children ro) (in_children i) \<and> visits (ro_compensations ro) (in_compensations i)"

lemma visits_sort: "visits order m \<Longrightarrow> visits order' m \<Longrightarrow> sort order = sort order'"
  unfolding visits_def by (metis distinct_sort set_sort sorted_distinct_set_unique sorted_sort)

lemma visited_values:
  assumes "visits order m"
  shows "set (map (\<lambda>name. lookup_zero z m name) (sort order)) = ran m"
  using assms by (force simp: visits_def lookup_zero_def ran_def dom_def image_iff)

lemma visited_names:
  assumes "visits order m" "\<And>n p. m n = Some p \<Longrightarrow> name p = n"
  shows "map name (map (\<lambda>n. lookup_zero z m n) (sort order)) = sort order"
proof -
  have "name (lookup_zero z m n) = n" if "n \<in> set order" for n
    using that assms by (auto simp: visits_def lookup_zero_def dom_def)
  then show ?thesis by (auto intro: map_idI)
qed

lemma clone_id [simp]:
  "cloneActivityProgress p = p" "cloneSignalProgress s = s" "cloneChildProgress c = c" "cloneCompensationProgress k = k"
  by (simp_all add: cloneActivityProgress_def cloneSignalProgress_def cloneChildProgress_def
      cloneCompensationProgress_def)

text \<open>Looking a record up finds exactly the listed record of that name.\<close>

lemma lookup_listed:
  assumes "set listed = ran m" "\<And>n p. m n = Some p \<Longrightarrow> name p = n"
  shows "(lookup_zero z m n, has_key m n) = (p, True) \<longleftrightarrow> p \<in> set listed \<and> name p = n"
  using assms by (auto simp: lookup_zero_def has_key_def ran_def split: option.splits)

text \<open>Every compensation was scheduled at a position of its own.\<close>

definition schedules_ok :: "Instance \<Rightarrow> bool" where
  "schedules_ok i \<longleftrightarrow> (\<forall>n k. in_compensations i n = Some k \<longrightarrow> kp_scheduledSequence k \<le> in_sequence i) \<and>
     (\<forall>n k m l. in_compensations i n = Some k \<longrightarrow> in_compensations i m = Some l \<longrightarrow>
        kp_scheduledSequence k = kp_scheduledSequence l \<longrightarrow> n = m)"

lemma compensations_after:
  assumes "replay_step registry i e k"
  shows "in_compensations k = in_compensations i \<or> (\<exists>n k'. in_compensations k = (in_compensations i)(n \<mapsto> k') \<and>
    (case in_compensations i n of None \<Rightarrow> kp_scheduledSequence k' = ev_sequence e
     | Some p \<Rightarrow> kp_scheduledSequence k' = kp_scheduledSequence p))"
  using assms
proof cases
  case (compensation step policy k')
  then show ?thesis
    by (intro disjI2 exI [of _ "ev_stepName e"] exI [of _ k'])
      (auto simp: compensation_step_def split: option.splits dest: compensation_progress_frame(2))
next
  case wait
  then show ?thesis by (auto elim!: applyWait_frame)
next
  case race
  then show ?thesis by (auto simp: applyRace_Inr)
qed auto

lemma schedules_ok_step:
  assumes "schedules_ok i" "apply_event registry i e = Inr j" "in_sequence i \<noteq> 0" "event_ok e"
  shows "schedules_ok j"
proof -
  from assms(2) obtain k where k: "apply_kind registry i e = Inr k" "j = finish_event i e k"
      and seq: "ev_sequence e = in_sequence i + 1"
    by (auto simp: apply_event_Inr [OF assms(3)])
  have "in_sequence i + 1 \<noteq> 0" using event_ok_basic(1) [OF assms(4)] seq by simp
  then have less: "in_sequence i < ev_sequence e" using seq by (simp add: word_less_nat_alt unat_Suc_word)
  have j: "in_compensations j = in_compensations k" "in_sequence j = ev_sequence e" by (simp_all add: k(2))
  have le: "kp_scheduledSequence l \<le> in_sequence i" if "in_compensations i n = Some l" for n l
    using assms(1) that by (auto simp: schedules_ok_def)
  have le': "kp_scheduledSequence l \<le> ev_sequence e" if "in_compensations i n = Some l" for n l
    using le [OF that] less by (rule order.strict_implies_order [OF order.strict_trans1])
  from compensations_after [OF apply_kind_sound [OF k(1) event_ok_basic(5) [OF assms(4)]]]
  show ?thesis
  proof (elim disjE exE conjE)
    assume "in_compensations k = in_compensations i"
    then show ?thesis using assms(1) le' unfolding schedules_ok_def j by auto
  next
    fix n k'
    assume new: "in_compensations k = (in_compensations i)(n \<mapsto> k')"
      "case in_compensations i n of None \<Rightarrow> kp_scheduledSequence k' = ev_sequence e
       | Some p \<Rightarrow> kp_scheduledSequence k' = kp_scheduledSequence p"
    have fresh: "kp_scheduledSequence l \<noteq> ev_sequence e" if "in_compensations i m = Some l" for m l
      using le [OF that] less by auto
    show ?thesis
    proof (cases "in_compensations i n")
      case None
      then show ?thesis
        using assms(1) new le' unfolding schedules_ok_def j by (auto split: if_splits dest: fresh)
    next
      case (Some p)
      then show ?thesis
        using assms(1) new le' unfolding schedules_ok_def j by (auto split: if_splits)
    qed
  qed
qed

lemma reach_schedules_ok:
  "reach registry es i \<Longrightarrow> list_all event_ok es \<Longrightarrow> schedules_ok i \<and> in_sequence i \<noteq> 0"
proof (induction rule: reach.induct)
  case (first e i)
  have "in_compensations zero_Instance = Map.empty" by (simp add: zero_Instance_def)
  then show ?case using first by (auto simp: apply_event_start schedules_ok_def)
next
  case (snoc es i e i')
  then show ?case
    using schedules_ok_step [OF _ snoc.hyps(2)] event_ok_basic(1)
    by (auto simp: apply_event_Inr)
qed

section \<open>Views of a replayed instance\<close>

lemma compensation_view:
  assumes "visits order (in_compensations i)" "schedules_ok i"
  shows "sorted_wrt (<) (map kp_scheduledSequence (sortedCompensationProgress order (in_compensations i)))"
    "set (sortedCompensationProgress order (in_compensations i)) = ran (in_compensations i)"
proof -
  let ?v = "map (\<lambda>name. lookup_zero zero_CompensationProgress (in_compensations i) name) order"
  have "inj_on (\<lambda>n. kp_scheduledSequence (lookup_zero zero_CompensationProgress (in_compensations i) n)) (set order)"
    using assms by (auto simp: visits_def inj_on_def schedules_ok_def lookup_zero_def dom_def)
  then have "distinct (map kp_scheduledSequence ?v)"
    using assms(1) by (simp add: visits_def distinct_map comp_def)
  then have "distinct (map kp_scheduledSequence (sort_key kp_scheduledSequence ?v))"
    by (metis distinct_map distinct_sort set_sort)
  then show "sorted_wrt (<) (map kp_scheduledSequence (sortedCompensationProgress order (in_compensations i)))"
    by (simp add: sortedCompensationProgress_def strict_sorted_iff)
  show "set (sortedCompensationProgress order (in_compensations i)) = ran (in_compensations i)"
    using visited_values [OF assms(1)] by (simp add: sortedCompensationProgress_def)
qed

lemma compensation_view_unique:
  assumes "visits order (in_compensations i)" "visits order' (in_compensations i)" "schedules_ok i"
  shows "sortedCompensationProgress order (in_compensations i) = sortedCompensationProgress order' (in_compensations i)"
proof (rule map_sorted_distinct_set_unique [where f = kp_scheduledSequence])
  note v = compensation_view [OF assms(1,3)] compensation_view [OF assms(2,3)]
  show "inj_on kp_scheduledSequence (set (sortedCompensationProgress order (in_compensations i)) \<union>
      set (sortedCompensationProgress order' (in_compensations i)))"
    using assms(3) unfolding v(2,4) by (fastforce simp: inj_on_def ran_def schedules_ok_def)
qed (use compensation_view [OF assms(1,3)] compensation_view [OF assms(2,3)] in \<open>simp_all add: strict_sorted_iff\<close>)

lemma snapshot_order:
  assumes "range_ok ro i" "range_ok ro' i" "schedules_ok i"
  shows "Activities ro i = Activities ro' i" "Timers ro i = Timers ro' i" "Signals ro i = Signals ro' i"
    "Races ro i = Races ro' i" "Children ro i = Children ro' i" "Compensations ro i = Compensations ro' i"
    "SnapshotDigest ro i = SnapshotDigest ro' i"
proof -
  have s: "sort (ro_activities ro) = sort (ro_activities ro')" "sort (ro_timers ro) = sort (ro_timers ro')"
      "sort (ro_signals ro) = sort (ro_signals ro')" "sort (ro_races ro) = sort (ro_races ro')"
      "sort (ro_children ro) = sort (ro_children ro')"
    using assms(1,2) visits_sort unfolding range_ok_def by blast+
  have k: "sortedCompensationProgress (ro_compensations ro) (in_compensations i) =
      sortedCompensationProgress (ro_compensations ro') (in_compensations i)"
    using compensation_view_unique assms by (auto simp: range_ok_def)
  show "Activities ro i = Activities ro' i" "Timers ro i = Timers ro' i" "Signals ro i = Signals ro' i"
    "Races ro i = Races ro' i" "Children ro i = Children ro' i" "Compensations ro i = Compensations ro' i"
    by (simp_all add: Activities_def Timers_def Signals_def Races_def Children_def Compensations_def k
        sortedActivityProgress_def sortedTimerProgress_def sortedSignalProgress_def sortedRaceProgress_def
        sortedChildProgress_def sortedProgressNames_def s)
  show "SnapshotDigest ro i = SnapshotDigest ro' i"
    by (simp add: SnapshotDigest_def snapshot_json_def activityProgressSnapshots_def timerProgressSnapshots_def
        signalProgressSnapshots_def raceProgressSnapshots_def childProgressSnapshots_def
        compensationProgressSnapshots_def k sortedActivityProgress_def sortedTimerProgress_def
        sortedSignalProgress_def sortedRaceProgress_def sortedChildProgress_def sortedProgressNames_def s)
qed

end
