(* ===== verification/Snapshot_Properties.thy ===== *)
theory Snapshot_Properties
  imports Snapshot Replay_Properties
begin

text \<open>The property of the ordered views, with its witness on the example history.\<close>

text \<open>
  C39: The views of a replayed instance do not depend on the order in which Go visits its maps:
  every accessor and the snapshot digest give the same result for any two such orders. Activities
  come in strictly increasing order of their step names, compensations in strictly increasing
  order of their schedule positions (no two share one, so the unstable sort has nothing to choose),
  both list exactly the records of the instance, and looking a record up by its step name finds the
  listed record of that name.
\<close>

theorem instance_views_deterministic:
  assumes "Replay registry es = Inr i" "list_all event_ok es" "range_ok ro i" "range_ok ro' i"
  shows "SnapshotDigest ro i = SnapshotDigest ro' i \<and> Activities ro i = Activities ro' i \<and> Timers ro i = Timers ro' i \<and>
    Signals ro i = Signals ro' i \<and> Races ro i = Races ro' i \<and> Children ro i = Children ro' i \<and>
    Compensations ro i = Compensations ro' i \<and>
    sorted_wrt (<) (map ap_stepName (Activities ro i)) \<and> set (Activities ro i) = ran (in_activities i) \<and>
    sorted_wrt (<) (map kp_scheduledSequence (Compensations ro i)) \<and> set (Compensations ro i) = ran (in_compensations i) \<and>
    (\<forall>n p. instance_Activity i n = (p, True) \<longleftrightarrow> p \<in> set (Activities ro i) \<and> ap_stepName p = n) \<and>
    (\<forall>n k. instance_Compensation i n = (k, True) \<longleftrightarrow> k \<in> set (Compensations ro i) \<and> kp_stepName k = n)"
proof -
  have ok: "schedules_ok i" using reach_schedules_ok assms(1,2) by (auto simp: Replay_iff)
  have v: "visits (ro_activities ro) (in_activities i)" "visits (ro_compensations ro) (in_compensations i)"
    using assms(3) by (simp_all add: range_ok_def)
  have shape: "progress_shape i" using shape.Replay_P [OF assms(1,2)] by (simp add: list_all_iff)
  have "map ap_stepName (Activities ro i) = sort (ro_activities ro)"
    using visited_names [OF v(1), of ap_stepName zero_ActivityProgress] shape
    by (auto simp: Activities_def sortedActivityProgress_def progress_shape_def activity_shape_def)
  moreover have "sorted_wrt (<) (sort (ro_activities ro))" using v(1) by (simp add: visits_def strict_sorted_iff)
  moreover have listed: "set (Activities ro i) = ran (in_activities i)"
    using visited_values [OF v(1)] by (simp add: Activities_def sortedActivityProgress_def)
  moreover have "\<forall>n p. instance_Activity i n = (p, True) \<longleftrightarrow> p \<in> set (Activities ro i) \<and> ap_stepName p = n"
    using lookup_listed [OF listed, of ap_stepName] shape
    by (auto simp: instance_Activity_def progress_shape_def activity_shape_def)
  moreover have undone: "set (Compensations ro i) = ran (in_compensations i)"
    using compensation_view [OF v(2) ok] by (simp add: Compensations_def)
  moreover have "\<forall>n k. instance_Compensation i n = (k, True) \<longleftrightarrow> k \<in> set (Compensations ro i) \<and> kp_stepName k = n"
    using lookup_listed [OF undone, of kp_stepName] shape
    by (auto simp: instance_Compensation_def progress_shape_def)
  ultimately show ?thesis
    using snapshot_order [OF assms(3,4) ok] compensation_view [OF v(2) ok] by (simp add: Compensations_def)
qed

definition ex_order :: RangeOrders where
  "ex_order = \<lparr>ro_activities = [''charge''], ro_timers = [], ro_signals = [], ro_races = [], ro_children = [],
     ro_compensations = []\<rparr>"

theorem instance_views_deterministic_witness:
  "Replay ex_registry ex_history = Inr ex_i4 \<and> range_ok ex_order ex_i4 \<and> map ap_stepName (Activities ex_order ex_i4) = [''charge''] \<and>
   sorted_wrt (<) (map ap_stepName (Activities ex_order ex_i4)) \<and> set (Compensations ex_order ex_i4) = {}"
proof -
  have ro: "range_ok ex_order ex_i4"
    by (auto simp: range_ok_def visits_def ex_order_def ex_i4_def ex_i1_def zero_Instance_def)
  from instance_views_deterministic [OF ex_history_replays ex_history_ok ro ro] show ?thesis
    using ro ex_history_replays
    by (auto simp: Activities_def sortedActivityProgress_def ex_order_def ex_i4_def ex_i1_def zero_Instance_def
        lookup_zero_def ex_charged_def)
qed

end
