(* ===== verification/Schema.thy ===== *)
theory Schema
  imports Database
begin

text \<open>
  The migrations of the PostgreSQL schema (postgres/migration.go) as the statements their texts
  denote, and what \<open>New\<close> of postgres/store.go requires of a schema name. A migration is named
  \<open>PostgresMigration\<close> here, to tell it from the migration of a definition in \<open>Registry\<close>. Not
  modelled are the concrete syntax of the texts and the quoting of identifiers, which pgx does.
  What PostgreSQL does with the statements is in \<open>Catalog\<close>.
\<close>

section \<open>Data definition\<close>

datatype sql_type = SqlText | SqlBigint | SqlInteger | SqlSmallint | SqlTimestamptz | SqlBytea | SqlBoolean

datatype sql_value = Null | VText string | VInt int | VTime int | VBytes string | VBool bool

datatype operand = Column string | Length string | Num int

datatype condition =
    Eq operand operand | Gt operand operand | Ge operand operand | Between operand int int
  | IsNull string | IsNotNull string | AndAlso condition condition | OrElse condition condition

type_synonym relation_name = "string \<times> string"

datatype column_constraint =
    NotNull | PrimaryKey | Default sql_value | Check condition | References relation_name string

datatype table_constraint =
    PrimaryKeys "string list" | Unique "string list" | ForeignKey "string list" relation_name "string list"
  | Checks condition

record TableDef =
  td_columns :: "(string \<times> sql_type \<times> column_constraint list) list"
  td_constraints :: "table_constraint list"

record IndexDef =
  ix_table :: relation_name
  ix_columns :: "string list"
  ix_where :: condition

datatype ddl =
    CreateTable relation_name TableDef
  | CreateIndex string IndexDef
  | DropTable relation_name
  | DropIndex relation_name

section \<open>The migrations\<close>

definition schemaPattern :: "string \<Rightarrow> bool" where
  "schemaPattern s = (case s of [] \<Rightarrow> False
     | c # cs \<Rightarrow> (in_range 97 122 c \<or> c = CHR ''_'') \<and> length cs \<le> 62 \<and>
         list_all (\<lambda>d. in_range 97 122 d \<or> is_digit d \<or> d = CHR ''_'') cs)"

record PostgresMigration =
  mg_Version :: "64 word"
  mg_Name :: string
  mg_Up :: "ddl list"
  mg_Down :: "ddl list"

definition instances_table :: TableDef where
  "instances_table = \<lparr>td_columns =
     [(''instance_id'', SqlText, [PrimaryKey]),
      (''definition_name'', SqlText, [NotNull]),
      (''definition_version'', SqlText, [NotNull]),
      (''definition_fingerprint'', SqlText, [NotNull, Check (Eq (Length ''definition_fingerprint'') (Num 64))]),
      (''sequence'', SqlBigint, [NotNull, Check (Ge (Column ''sequence'') (Num 0))]),
      (''created_at'', SqlTimestamptz, [NotNull]),
      (''updated_at'', SqlTimestamptz, [NotNull]),
      (''archived_at'', SqlTimestamptz, [])],
     td_constraints = []\<rparr>"

definition transitions_table :: "string \<Rightarrow> TableDef" where
  "transitions_table schema = \<lparr>td_columns =
     [(''transition_id'', SqlText, [PrimaryKey]),
      (''instance_id'', SqlText, [NotNull, References (schema, ''workflow_instances'') ''instance_id'']),
      (''fingerprint'', SqlText, [NotNull, Check (Eq (Length ''fingerprint'') (Num 64))]),
      (''expected_sequence'', SqlBigint, [NotNull, Check (Ge (Column ''expected_sequence'') (Num 0))]),
      (''committed_sequence'', SqlBigint,
        [NotNull, Check (Gt (Column ''committed_sequence'') (Column ''expected_sequence''))]),
      (''committed_at'', SqlTimestamptz, [NotNull])],
     td_constraints = []\<rparr>"

definition history_table :: "string \<Rightarrow> TableDef" where
  "history_table schema = \<lparr>td_columns =
     [(''instance_id'', SqlText, [NotNull, References (schema, ''workflow_instances'') ''instance_id'']),
      (''sequence'', SqlBigint, [NotNull, Check (Gt (Column ''sequence'') (Num 0))]),
      (''kind'', SqlSmallint, [NotNull, Check (Gt (Column ''kind'') (Num 0))]),
      (''occurred_at'', SqlTimestamptz, [NotNull]),
      (''definition_name'', SqlText, [NotNull, Default (VText [])]),
      (''definition_version'', SqlText, [NotNull, Default (VText [])]),
      (''definition_fingerprint'', SqlText, [NotNull, Default (VText [])]),
      (''successor_id'', SqlText, [NotNull, Default (VText [])]),
      (''step_name'', SqlText, [NotNull, Default (VText [])]),
      (''attempt'', SqlBigint, [NotNull, Default (VInt 0), Check (Ge (Column ''attempt'') (Num 0))]),
      (''idempotency_key'', SqlText, [NotNull, Default (VText [])]),
      (''due_at'', SqlTimestamptz, []),
      (''code'', SqlText, [NotNull, Default (VText [])]),
      (''retryable'', SqlBoolean, [NotNull, Default (VBool False)]),
      (''data'', SqlBytea, [])],
     td_constraints = [PrimaryKeys [''instance_id'', ''sequence'']]\<rparr>"

definition work_table :: "string \<Rightarrow> TableDef" where
  "work_table schema = \<lparr>td_columns =
     [(''work_id'', SqlText, [PrimaryKey]),
      (''kind'', SqlSmallint, [NotNull, Check (Gt (Column ''kind'') (Num 0))]),
      (''instance_id'', SqlText, [NotNull]),
      (''sequence'', SqlBigint, [NotNull]),
      (''available_at'', SqlTimestamptz, [NotNull]),
      (''deadline'', SqlTimestamptz, [NotNull]),
      (''payload'', SqlBytea, []),
      (''tenant_id'', SqlText, [NotNull, Default (VText [])]),
      (''correlation_id'', SqlText, [NotNull, Default (VText [])]),
      (''state'', SqlSmallint, [NotNull, Default (VInt 1), Check (Between (Column ''state'') 1 4)]),
      (''attempts'', SqlInteger, [NotNull, Default (VInt 0), Check (Ge (Column ''attempts'') (Num 0))]),
      (''lease_owner'', SqlText, []),
      (''lease_token'', SqlBigint, [NotNull, Default (VInt 0), Check (Ge (Column ''lease_token'') (Num 0))]),
      (''lease_expires_at'', SqlTimestamptz, []),
      (''failure_code'', SqlText, [NotNull, Default (VText [])]),
      (''completed_at'', SqlTimestamptz, [])],
     td_constraints =
      [ForeignKey [''instance_id'', ''sequence''] (schema, ''workflow_history'') [''instance_id'', ''sequence'']]\<rparr>"

definition SchemaMigrationFor :: "string \<Rightarrow> PostgresMigration result" where
  "SchemaMigrationFor schema =
     (if \<not> schemaPattern schema then Inl ErrInvalidStoreRequest
      else
        let instances = (schema, ''workflow_instances'');
            transitions = (schema, ''workflow_transitions'');
            history = (schema, ''workflow_history'');
            work = (schema, ''workflow_work'')
        in Inr \<lparr>mg_Version = 1, mg_Name = ''create_workflow_store'',
             mg_Up =
               [CreateTable instances instances_table,
                CreateIndex ''workflow_instances_archive_idx'' \<lparr>ix_table = instances,
                  ix_columns = [''archived_at'', ''instance_id''], ix_where = IsNotNull ''archived_at''\<rparr>,
                CreateTable transitions (transitions_table schema),
                CreateTable history (history_table schema),
                CreateTable work (work_table schema),
                CreateIndex ''workflow_work_due_idx'' \<lparr>ix_table = work,
                  ix_columns = [''available_at'', ''work_id''], ix_where = Eq (Column ''state'') (Num 1)\<rparr>],
             mg_Down = [DropTable work, DropTable history, DropTable transitions, DropTable instances]\<rparr>)"

definition resolutions_table :: "string \<Rightarrow> TableDef" where
  "resolutions_table schema = \<lparr>td_columns =
     [(''command_id'', SqlText, [PrimaryKey]),
      (''fingerprint'', SqlText, [NotNull, Check (Eq (Length ''fingerprint'') (Num 64))]),
      (''work_id'', SqlText, [NotNull, References (schema, ''workflow_work'') ''work_id'']),
      (''lease_token'', SqlBigint, [NotNull, Check (Gt (Column ''lease_token'') (Num 0))]),
      (''action'', SqlSmallint, [NotNull, Check (Between (Column ''action'') 1 2)]),
      (''actor'', SqlText, [NotNull]),
      (''reason'', SqlText, [NotNull]),
      (''occurred_at'', SqlTimestamptz, [NotNull]),
      (''retry_at'', SqlTimestamptz, []),
      (''deadline'', SqlTimestamptz, [])],
     td_constraints =
      [Unique [''work_id'', ''lease_token''],
       Checks (OrElse
         (AndAlso (Eq (Column ''action'') (Num 1)) (AndAlso (IsNotNull ''retry_at'') (AndAlso (IsNotNull ''deadline'')
           (AndAlso (Ge (Column ''retry_at'') (Column ''occurred_at'')) (Gt (Column ''deadline'') (Column ''retry_at''))))))
         (AndAlso (Eq (Column ''action'') (Num 2)) (AndAlso (IsNull ''retry_at'') (IsNull ''deadline''))))]\<rparr>"

definition deadLetterResolutionMigrationFor :: "string \<Rightarrow> PostgresMigration" where
  "deadLetterResolutionMigrationFor schema =
     (let work = (schema, ''workflow_work'');
          resolutions = (schema, ''workflow_work_resolutions'')
      in \<lparr>mg_Version = 2, mg_Name = ''add_workflow_dead_letter_resolutions'',
          mg_Up =
            [CreateTable resolutions (resolutions_table schema),
             CreateIndex ''workflow_work_dead_letter_idx'' \<lparr>ix_table = work,
               ix_columns = [''completed_at'', ''work_id'', ''lease_token''], ix_where = Eq (Column ''state'') (Num 4)\<rparr>],
          mg_Down = [DropIndex (schema, ''workflow_work_dead_letter_idx''), DropTable resolutions]\<rparr>)"

definition SchemaMigrationsFor :: "string \<Rightarrow> PostgresMigration list result" where
  "SchemaMigrationsFor schema = (case SchemaMigrationFor schema of
     Inl err \<Rightarrow> Inl err
   | Inr initial \<Rightarrow> Inr [initial, deadLetterResolutionMigrationFor schema])"

text \<open>The defaults discard the error, so that a failure would be the zero value.\<close>

definition SchemaMigration :: PostgresMigration where
  "SchemaMigration = (case SchemaMigrationFor ''workflow'' of
     Inl _ \<Rightarrow> \<lparr>mg_Version = 0, mg_Name = [], mg_Up = [], mg_Down = []\<rparr> | Inr migration \<Rightarrow> migration)"

definition SchemaMigrations :: "PostgresMigration list" where
  "SchemaMigrations = (case SchemaMigrationsFor ''workflow'' of Inl _ \<Rightarrow> [] | Inr migrations \<Rightarrow> migrations)"

text \<open>
  \<open>New\<close> validates what the store is made of: a pool, and a schema name that defaults to
  \<open>workflow\<close>. The value is the schema whose tables the statements of \<open>newStore\<close> name.
\<close>

definition New :: "'pool option \<Rightarrow> string \<Rightarrow> string result" where
  "New pool configured =
     (let schema = (if configured = [] then ''workflow'' else configured)
      in if pool = None \<or> \<not> schemaPattern schema then Inl ErrInvalidStoreRequest else Inr schema)"

end
