(* ===== verification/Catalog.thy ===== *)
theory Catalog
  imports Schema Postgres_Store
begin

text \<open>
  What PostgreSQL makes of the migrations: the catalog that data definition statements change, and
  the constraints that a row of a table has to meet, with SQL's logic of unknown values. The rows
  of the model's tables are read as rows of the declared ones.
\<close>

section \<open>The catalog\<close>

record Catalog =
  ct_schemas :: "string list"
  ct_tables :: "(relation_name \<times> TableDef) list"
  ct_indexes :: "(relation_name \<times> IndexDef) list"

definition columns_of :: "TableDef \<Rightarrow> string list" where
  "columns_of td = map fst (td_columns td)"

text \<open>The keys of a table: its column constraints first, as they are declared first.\<close>

definition keys_of :: "TableDef \<Rightarrow> string list list" where
  "keys_of td =
     concat (map (\<lambda>(c, _, cs). if PrimaryKey \<in> set cs then [[c]] else []) (td_columns td)) @
     concat (map (\<lambda>t. case t of PrimaryKeys ks \<Rightarrow> [ks] | Unique ks \<Rightarrow> [ks] | _ \<Rightarrow> []) (td_constraints td))"

definition foreign_keys_of :: "TableDef \<Rightarrow> (string list \<times> relation_name \<times> string list) list" where
  "foreign_keys_of td =
     concat (map (\<lambda>(c, _, cs). concat (map (\<lambda>k. case k of References t d \<Rightarrow> [([c], t, [d])] | _ \<Rightarrow> []) cs))
       (td_columns td)) @
     concat (map (\<lambda>k. case k of ForeignKey cs t ds \<Rightarrow> [(cs, t, ds)] | _ \<Rightarrow> []) (td_constraints td))"

definition checks_of :: "TableDef \<Rightarrow> condition list" where
  "checks_of td =
     concat (map (\<lambda>(_, _, cs). concat (map (\<lambda>k. case k of Check b \<Rightarrow> [b] | _ \<Rightarrow> []) cs)) (td_columns td)) @
     concat (map (\<lambda>k. case k of Checks b \<Rightarrow> [b] | _ \<Rightarrow> []) (td_constraints td))"

definition required_of :: "TableDef \<Rightarrow> string list" where
  "required_of td =
     map fst (filter (\<lambda>(_, _, cs). NotNull \<in> set cs \<or> PrimaryKey \<in> set cs) (td_columns td)) @
     concat (map (\<lambda>k. case k of PrimaryKeys ks \<Rightarrow> ks | _ \<Rightarrow> []) (td_constraints td))"

definition defaults_of :: "TableDef \<Rightarrow> (string \<times> sql_value) list" where
  "defaults_of td = concat (map (\<lambda>(c, _, cs). concat (map (\<lambda>k. case k of Default v \<Rightarrow> [(c, v)] | _ \<Rightarrow> []) cs))
     (td_columns td))"

definition relations :: "Catalog \<Rightarrow> relation_name list" where
  "relations cat = map fst (ct_tables cat) @ map fst (ct_indexes cat)"

text \<open>
  A statement is refused when its schema or a relation it needs is missing, when the name is taken,
  when a foreign key does not point at a key, and when a table to drop is still referred to.
\<close>

fun run_ddl :: "ddl \<Rightarrow> Catalog \<Rightarrow> Catalog option" where
  "run_ddl (CreateTable t td) cat =
     (if fst t \<in> set (ct_schemas cat) \<and> t \<notin> set (relations cat) \<and> distinct (columns_of td) \<and>
         list_all (\<lambda>(cs, u, ds). set cs \<subseteq> set (columns_of td) \<and>
           (case map_of (ct_tables cat) u of None \<Rightarrow> False | Some ud \<Rightarrow> ds \<in> set (keys_of ud))) (foreign_keys_of td)
      then Some (cat\<lparr>ct_tables := ct_tables cat @ [(t, td)]\<rparr>) else None)"
| "run_ddl (CreateIndex n ix) cat =
     (case map_of (ct_tables cat) (ix_table ix) of
        None \<Rightarrow> None
      | Some td \<Rightarrow> if (fst (ix_table ix), n) \<notin> set (relations cat) \<and> set (ix_columns ix) \<subseteq> set (columns_of td)
          then Some (cat\<lparr>ct_indexes := ct_indexes cat @ [((fst (ix_table ix), n), ix)]\<rparr>) else None)"
| "run_ddl (DropTable t) cat =
     (if t \<in> fst ` set (ct_tables cat) \<and>
         list_all (\<lambda>(u, ud). u = t \<or> list_all (\<lambda>(_, v, _). v \<noteq> t) (foreign_keys_of ud)) (ct_tables cat)
      then Some (cat\<lparr>ct_tables := filter (\<lambda>(u, _). u \<noteq> t) (ct_tables cat),
                     ct_indexes := filter (\<lambda>(_, ix). ix_table ix \<noteq> t) (ct_indexes cat)\<rparr>) else None)"
| "run_ddl (DropIndex i) cat =
     (if i \<in> fst ` set (ct_indexes cat)
      then Some (cat\<lparr>ct_indexes := filter (\<lambda>(j, _). j \<noteq> i) (ct_indexes cat)\<rparr>) else None)"

fun run_script :: "ddl list \<Rightarrow> Catalog \<Rightarrow> Catalog option" where
  "run_script [] cat = Some cat"
| "run_script (d # ds) cat = (case run_ddl d cat of None \<Rightarrow> None | Some cat' \<Rightarrow> run_script ds cat')"

text \<open>Applying migrations in order, and rolling them back in reverse.\<close>

definition apply_migrations :: "PostgresMigration list \<Rightarrow> Catalog \<Rightarrow> Catalog option" where
  "apply_migrations ms = run_script (concat (map mg_Up ms))"

definition revert_migrations :: "PostgresMigration list \<Rightarrow> Catalog \<Rightarrow> Catalog option" where
  "revert_migrations ms = run_script (concat (map mg_Down (rev ms)))"

section \<open>Constraints of a row\<close>

type_synonym sql_row = "(string \<times> sql_value) list"

definition cell :: "sql_row \<Rightarrow> string \<Rightarrow> sql_value" where
  "cell row c = (case map_of row c of None \<Rightarrow> Null | Some v \<Rightarrow> v)"

fun operand_value :: "sql_row \<Rightarrow> operand \<Rightarrow> int option" where
  "operand_value row (Column c) = (case cell row c of VInt n \<Rightarrow> Some n | VTime t \<Rightarrow> Some t | _ \<Rightarrow> None)"
| "operand_value row (Length c) = (case cell row c of VText s \<Rightarrow> Some (int (length s)) | _ \<Rightarrow> None)"
| "operand_value row (Num n) = Some n"

definition compare :: "(int \<Rightarrow> int \<Rightarrow> bool) \<Rightarrow> int option \<Rightarrow> int option \<Rightarrow> bool option" where
  "compare r a b = (case (a, b) of (Some x, Some y) \<Rightarrow> Some (r x y) | _ \<Rightarrow> None)"

text \<open>Truth values are \<open>Some True\<close>, \<open>Some False\<close> and the unknown \<open>None\<close>.\<close>

fun sql_and :: "bool option \<Rightarrow> bool option \<Rightarrow> bool option" where
  "sql_and (Some False) _ = Some False"
| "sql_and _ (Some False) = Some False"
| "sql_and (Some True) (Some True) = Some True"
| "sql_and _ _ = None"

fun sql_or :: "bool option \<Rightarrow> bool option \<Rightarrow> bool option" where
  "sql_or (Some True) _ = Some True"
| "sql_or _ (Some True) = Some True"
| "sql_or (Some False) (Some False) = Some False"
| "sql_or _ _ = None"

fun condition_value :: "sql_row \<Rightarrow> condition \<Rightarrow> bool option" where
  "condition_value row (Eq a b) = compare (=) (operand_value row a) (operand_value row b)"
| "condition_value row (Gt a b) = compare (>) (operand_value row a) (operand_value row b)"
| "condition_value row (Ge a b) = compare (\<ge>) (operand_value row a) (operand_value row b)"
| "condition_value row (Between a l h) =
     sql_and (compare (\<ge>) (operand_value row a) (Some l)) (compare (\<le>) (operand_value row a) (Some h))"
| "condition_value row (IsNull c) = Some (cell row c = Null)"
| "condition_value row (IsNotNull c) = Some (cell row c \<noteq> Null)"
| "condition_value row (AndAlso b c) = sql_and (condition_value row b) (condition_value row c)"
| "condition_value row (OrElse b c) = sql_or (condition_value row b) (condition_value row c)"

text \<open>A check holds unless it is false; NULL in a key or a foreign key takes the row out of it.\<close>

definition row_admitted :: "TableDef \<Rightarrow> sql_row \<Rightarrow> bool" where
  "row_admitted td row \<longleftrightarrow> list_all (\<lambda>c. cell row c \<noteq> Null) (required_of td) \<and>
     list_all (\<lambda>b. condition_value row b \<noteq> Some False) (checks_of td)"

definition same_key :: "string list \<Rightarrow> sql_row \<Rightarrow> sql_row \<Rightarrow> bool" where
  "same_key ks row other \<longleftrightarrow> list_all (\<lambda>k. cell row k \<noteq> Null \<and> cell row k = cell other k) ks"

definition key_taken :: "TableDef \<Rightarrow> sql_row list \<Rightarrow> sql_row \<Rightarrow> bool" where
  "key_taken td rows row \<longleftrightarrow> list_ex (\<lambda>ks. list_ex (same_key ks row) rows) (keys_of td)"

definition refers :: "(relation_name \<Rightarrow> sql_row list) \<Rightarrow> sql_row \<Rightarrow> string list \<times> relation_name \<times> string list \<Rightarrow> bool" where
  "refers db row k = (case k of (cs, t, ds) \<Rightarrow> list_ex (\<lambda>c. cell row c = Null) cs \<or>
     list_ex (\<lambda>other. map (cell row) cs = map (cell other) ds) (db t))"

datatype insertion = Rejected | Skipped | Inserted sql_row

text \<open>
  \<open>INSERT\<close> with some columns given, the others at their defaults: the constraints of the row come
  first, then the keys, where \<open>ON CONFLICT DO NOTHING\<close> skips the row, then the foreign keys.
\<close>

definition sql_insert :: "Catalog \<Rightarrow> (relation_name \<Rightarrow> sql_row list) \<Rightarrow> relation_name \<Rightarrow> bool \<Rightarrow> sql_row \<Rightarrow> insertion" where
  "sql_insert cat db t doNothing given = (case map_of (ct_tables cat) t of
     None \<Rightarrow> Rejected
   | Some td \<Rightarrow>
       let row = given @ defaults_of td
       in if \<not> row_admitted td row then Rejected
          else if key_taken td (db t) row then (if doNothing then Skipped else Rejected)
          else if \<not> list_all (refers (db(t := db t @ [row])) row) (foreign_keys_of td) then Rejected
          else Inserted row)"

section \<open>The model's rows\<close>

definition time_value :: "int option \<Rightarrow> sql_value" where
  "time_value t = (case t of None \<Rightarrow> Null | Some n \<Rightarrow> VTime n)"

definition bytes_value :: "bytes \<Rightarrow> sql_value" where
  "bytes_value b = (case b of None \<Rightarrow> Null | Some s \<Rightarrow> VBytes s)"

definition text_value :: "string option \<Rightarrow> sql_value" where
  "text_value t = (case t of None \<Rightarrow> Null | Some s \<Rightarrow> VText s)"

definition reference_values :: "DefinitionReference \<Rightarrow> sql_row" where
  "reference_values d = [(''definition_name'', VText (dr_name d)), (''definition_version'', VText (dr_version d)),
     (''definition_fingerprint'', VText (dr_fingerprint d))]"

definition instance_values :: "InstanceRow \<Rightarrow> sql_row" where
  "instance_values r = [(''instance_id'', VText (ri_instance_id r))] @ reference_values (ri_definition r) @
     [(''sequence'', VInt (ri_sequence r)), (''created_at'', VTime (ri_created_at r)),
      (''updated_at'', VTime (ri_updated_at r)), (''archived_at'', time_value (ri_archived_at r))]"

definition transition_values :: "TransitionRow \<Rightarrow> sql_row" where
  "transition_values r = [(''transition_id'', VText (rt_transition_id r)), (''instance_id'', VText (rt_instance_id r)),
     (''fingerprint'', VText (rt_fingerprint r)), (''expected_sequence'', VInt (rt_expected_sequence r)),
     (''committed_sequence'', VInt (rt_committed_sequence r)), (''committed_at'', VTime (rt_committed_at r))]"

definition history_values :: "HistoryRow \<Rightarrow> sql_row" where
  "history_values r = [(''instance_id'', VText (rh_instance_id r)), (''sequence'', VInt (rh_sequence r)),
     (''kind'', VInt (int (rh_kind r))), (''occurred_at'', VTime (rh_occurred_at r))] @
     reference_values (rh_definition r) @
     [(''successor_id'', VText (rh_successor_id r)), (''step_name'', VText (rh_step_name r)),
      (''attempt'', VInt (rh_attempt r)), (''idempotency_key'', VText (rh_idempotency_key r)),
      (''due_at'', time_value (rh_due_at r)), (''code'', VText (rh_code r)), (''retryable'', VBool (rh_retryable r)),
      (''data'', bytes_value (rh_data r))]"

text \<open>\<open>insertWork\<close> gives the first nine columns; the others have defaults or are NULL.\<close>

definition pending_values :: "WorkRow \<Rightarrow> sql_row" where
  "pending_values r = [(''work_id'', VText (rw_work_id r)), (''kind'', VInt (int (rw_kind r))),
     (''instance_id'', VText (rw_instance_id r)), (''sequence'', VInt (rw_sequence r)),
     (''available_at'', VTime (rw_available_at r)), (''deadline'', VTime (rw_deadline r)),
     (''payload'', bytes_value (rw_payload r)), (''tenant_id'', VText (rw_tenant_id r)),
     (''correlation_id'', VText (rw_correlation_id r))]"

definition work_values :: "WorkRow \<Rightarrow> sql_row" where
  "work_values r = pending_values r @
     [(''state'', VInt (int (rw_state r))), (''attempts'', VInt (rw_attempts r)),
      (''lease_owner'', text_value (rw_lease_owner r)), (''lease_token'', VInt (rw_lease_token r)),
      (''lease_expires_at'', time_value (rw_lease_expires_at r)), (''failure_code'', VText (rw_failure_code r)),
      (''completed_at'', time_value (rw_completed_at r))]"

definition resolution_values :: "ResolutionRow \<Rightarrow> sql_row" where
  "resolution_values r = [(''command_id'', VText (rr_command_id r)), (''fingerprint'', VText (rr_fingerprint r)),
     (''work_id'', VText (rr_work_id r)), (''lease_token'', VInt (rr_lease_token r)),
     (''action'', VInt (int (rr_action r))), (''actor'', VText (rr_actor r)), (''reason'', VText (rr_reason r)),
     (''occurred_at'', VTime (rr_occurred_at r)), (''retry_at'', time_value (rr_retry_at r)),
     (''deadline'', time_value (rr_deadline r))]"

definition stored_rows :: "string \<Rightarrow> Tables \<Rightarrow> relation_name \<Rightarrow> sql_row list" where
  "stored_rows schema tb t =
     (if t = (schema, ''workflow_instances'') then map instance_values (tb_instances tb)
      else if t = (schema, ''workflow_transitions'') then map transition_values (tb_transitions tb)
      else if t = (schema, ''workflow_history'') then map history_values (tb_history tb)
      else if t = (schema, ''workflow_work'') then map work_values (tb_work tb)
      else if t = (schema, ''workflow_work_resolutions'') then map resolution_values (tb_resolutions tb)
      else [])"

end
