(* ===== verification/Catalog_Safety.thy ===== *)
theory Catalog_Safety
  imports Catalog Store_Safety
begin

text \<open>
  The migrations on a catalog, and the declared constraints against the insert statements of the
  store: helper lemmas for both.
\<close>

section \<open>The declared tables\<close>

lemmas table_defs = instances_table_def transitions_table_def history_table_def work_table_def resolutions_table_def

lemma declared_columns:
  "columns_of instances_table = [''instance_id'', ''definition_name'', ''definition_version'', ''definition_fingerprint'',
     ''sequence'', ''created_at'', ''updated_at'', ''archived_at'']"
  "columns_of (transitions_table s) = [''transition_id'', ''instance_id'', ''fingerprint'', ''expected_sequence'',
     ''committed_sequence'', ''committed_at'']"
  "columns_of (history_table s) = [''instance_id'', ''sequence'', ''kind'', ''occurred_at'', ''definition_name'',
     ''definition_version'', ''definition_fingerprint'', ''successor_id'', ''step_name'', ''attempt'', ''idempotency_key'',
     ''due_at'', ''code'', ''retryable'', ''data'']"
  "columns_of (work_table s) = [''work_id'', ''kind'', ''instance_id'', ''sequence'', ''available_at'', ''deadline'',
     ''payload'', ''tenant_id'', ''correlation_id'', ''state'', ''attempts'', ''lease_owner'', ''lease_token'',
     ''lease_expires_at'', ''failure_code'', ''completed_at'']"
  "columns_of (resolutions_table s) = [''command_id'', ''fingerprint'', ''work_id'', ''lease_token'', ''action'', ''actor'',
     ''reason'', ''occurred_at'', ''retry_at'', ''deadline'']"
  by (simp_all add: columns_of_def table_defs)

lemma declared_keys:
  "keys_of instances_table = [[''instance_id'']]"
  "keys_of (transitions_table s) = [[''transition_id'']]"
  "keys_of (history_table s) = [[''instance_id'', ''sequence'']]"
  "keys_of (work_table s) = [[''work_id'']]"
  "keys_of (resolutions_table s) = [[''command_id''], [''work_id'', ''lease_token'']]"
  by (simp_all add: keys_of_def table_defs)

lemma declared_foreign_keys:
  "foreign_keys_of instances_table = []"
  "foreign_keys_of (transitions_table s) = [([''instance_id''], (s, ''workflow_instances''), [''instance_id''])]"
  "foreign_keys_of (history_table s) = [([''instance_id''], (s, ''workflow_instances''), [''instance_id''])]"
  "foreign_keys_of (work_table s) =
     [([''instance_id'', ''sequence''], (s, ''workflow_history''), [''instance_id'', ''sequence''])]"
  "foreign_keys_of (resolutions_table s) = [([''work_id''], (s, ''workflow_work''), [''work_id''])]"
  by (simp_all add: foreign_keys_of_def table_defs)

section \<open>Migrating\<close>

definition workflow_tables :: "string \<Rightarrow> (relation_name \<times> TableDef) list" where
  "workflow_tables s = [((s, ''workflow_instances''), instances_table), ((s, ''workflow_transitions''), transitions_table s),
     ((s, ''workflow_history''), history_table s), ((s, ''workflow_work''), work_table s),
     ((s, ''workflow_work_resolutions''), resolutions_table s)]"

definition workflow_indexes :: "string \<Rightarrow> (relation_name \<times> IndexDef) list" where
  "workflow_indexes s =
     [((s, ''workflow_instances_archive_idx''), \<lparr>ix_table = (s, ''workflow_instances''),
        ix_columns = [''archived_at'', ''instance_id''], ix_where = IsNotNull ''archived_at''\<rparr>),
      ((s, ''workflow_work_due_idx''), \<lparr>ix_table = (s, ''workflow_work''),
        ix_columns = [''available_at'', ''work_id''], ix_where = Eq (Column ''state'') (Num 1)\<rparr>),
      ((s, ''workflow_work_dead_letter_idx''), \<lparr>ix_table = (s, ''workflow_work''),
        ix_columns = [''completed_at'', ''work_id'', ''lease_token''], ix_where = Eq (Column ''state'') (Num 4)\<rparr>)]"

definition migrated :: "string \<Rightarrow> Catalog \<Rightarrow> Catalog" where
  "migrated s cat = cat\<lparr>ct_tables := ct_tables cat @ workflow_tables s, ct_indexes := ct_indexes cat @ workflow_indexes s\<rparr>"

text \<open>A catalog without dangling references, in which the names of the workflow schema are free.\<close>

definition catalog_ok :: "Catalog \<Rightarrow> bool" where
  "catalog_ok cat \<longleftrightarrow>
     list_all (\<lambda>(_, td). list_all (\<lambda>(_, t, _). t \<in> fst ` set (ct_tables cat)) (foreign_keys_of td)) (ct_tables cat) \<and>
     list_all (\<lambda>(_, ix). ix_table ix \<in> fst ` set (ct_tables cat)) (ct_indexes cat)"

definition names_free :: "string \<Rightarrow> Catalog \<Rightarrow> bool" where
  "names_free s cat \<longleftrightarrow>
     list_all (\<lambda>t. t \<notin> set (relations cat)) (map fst (workflow_tables s) @ map fst (workflow_indexes s))"

lemma migrations_of: "schemaPattern s \<Longrightarrow> \<exists>m. SchemaMigrationsFor s = Inr [m, deadLetterResolutionMigrationFor s] \<and>
    SchemaMigrationFor s = Inr m"
  by (simp add: SchemaMigrationsFor_def SchemaMigrationFor_def Let_def)

text \<open>The catalog with relations added: creating adds one more, dropping takes it out again.\<close>

definition grown_catalog :: "Catalog \<Rightarrow> (relation_name \<times> TableDef) list \<Rightarrow> (relation_name \<times> IndexDef) list \<Rightarrow> Catalog" where
  "grown_catalog cat ts is = cat\<lparr>ct_tables := ct_tables cat @ ts, ct_indexes := ct_indexes cat @ is\<rparr>"

lemma grown_lookup: "t \<notin> set (relations cat) \<Longrightarrow> map_of (ct_tables (grown_catalog cat ts is)) t = map_of ts t"
  using map_of_eq_None_iff [of "ct_tables cat" t]
  by (auto simp: grown_catalog_def relations_def map_add_def)

lemma create_grown_table:
  assumes "fst t \<in> set (ct_schemas cat)" "t \<notin> set (relations cat)" "t \<notin> fst ` set ts" "t \<notin> fst ` set is"
    "distinct (columns_of td)" "list_all (\<lambda>(cs, u, ds). u \<notin> set (relations cat) \<and> set cs \<subseteq> set (columns_of td) \<and>
      (\<exists>ud. map_of ts u = Some ud \<and> ds \<in> set (keys_of ud))) (foreign_keys_of td)"
  shows "run_ddl (CreateTable t td) (grown_catalog cat ts is) = Some (grown_catalog cat (ts @ [(t, td)]) is)"
proof -
  have "list_all (\<lambda>(cs, u, ds). set cs \<subseteq> set (columns_of td) \<and>
      (case map_of (ct_tables (grown_catalog cat ts is)) u of None \<Rightarrow> False | Some ud \<Rightarrow> ds \<in> set (keys_of ud)))
      (foreign_keys_of td)"
    using assms(6) by (auto simp: list_all_iff grown_lookup)
  moreover have "t \<notin> set (relations (grown_catalog cat ts is))"
    using assms(2-4) by (auto simp: relations_def grown_catalog_def)
  ultimately show ?thesis using assms(1,5) by (simp add: grown_catalog_def)
qed

lemma create_grown_index:
  assumes "(fst (ix_table ix), n) \<notin> set (relations cat)" "(fst (ix_table ix), n) \<notin> fst ` set ts"
    "(fst (ix_table ix), n) \<notin> fst ` set is" "ix_table ix \<notin> set (relations cat)" "map_of ts (ix_table ix) = Some td"
    "set (ix_columns ix) \<subseteq> set (columns_of td)"
  shows "run_ddl (CreateIndex n ix) (grown_catalog cat ts is) =
    Some (grown_catalog cat ts (is @ [((fst (ix_table ix), n), ix)]))"
proof -
  have "(fst (ix_table ix), n) \<notin> set (relations (grown_catalog cat ts is))"
    using assms(1-3) by (auto simp: relations_def grown_catalog_def)
  then show ?thesis using assms(5,6) grown_lookup [OF assms(4)] by (simp add: grown_catalog_def)
qed

lemma names_free_iff:
  "names_free s cat \<longleftrightarrow> list_all (\<lambda>n. (s, n) \<notin> set (relations cat))
     [''workflow_instances'', ''workflow_transitions'', ''workflow_history'', ''workflow_work'',
      ''workflow_work_resolutions'', ''workflow_instances_archive_idx'', ''workflow_work_due_idx'',
      ''workflow_work_dead_letter_idx'']"
  by (simp add: names_free_def workflow_tables_def workflow_indexes_def)

lemmas migration_texts = SchemaMigrationsFor_def SchemaMigrationFor_def deadLetterResolutionMigrationFor_def Let_def
  workflow_tables_def workflow_indexes_def

lemma migrated_grown:
  "migrated s cat = grown_catalog cat (workflow_tables s) (workflow_indexes s)" "grown_catalog cat [] [] = cat"
  by (simp_all add: migrated_def grown_catalog_def)

lemma migrate_up:
  assumes "SchemaMigrationsFor s = Inr ms" "s \<in> set (ct_schemas cat)" "names_free s cat"
  shows "apply_migrations ms cat = Some (migrated s cat)"
proof -
  have "apply_migrations ms (grown_catalog cat [] []) = Some (migrated s cat)"
    using assms
    by (auto simp: migration_texts apply_migrations_def names_free_iff migrated_grown(1) create_grown_table
        create_grown_index declared_columns declared_keys declared_foreign_keys simp del: run_ddl.simps split: if_splits)
  then show ?thesis by (simp add: migrated_grown)
qed

lemma drop_grown_table:
  assumes "catalog_ok cat" "t \<notin> set (relations cat)" "t \<in> fst ` set ts"
    "list_all (\<lambda>(u, ud). u = t \<or> list_all (\<lambda>(_, v, _). v \<noteq> t) (foreign_keys_of ud)) ts"
  shows "run_ddl (DropTable t) (grown_catalog cat ts is) =
    Some (grown_catalog cat (filter (\<lambda>(u, _). u \<noteq> t) ts) (filter (\<lambda>(_, ix). ix_table ix \<noteq> t) is))"
proof -
  have t: "t \<notin> fst ` set (ct_tables cat)" using assms(2) by (simp add: relations_def)
  then have "filter (\<lambda>(u, _). u \<noteq> t) (ct_tables cat) = ct_tables cat" by (force intro: filter_True)
  moreover have "filter (\<lambda>(_, ix). ix_table ix \<noteq> t) (ct_indexes cat) = ct_indexes cat"
    using t assms(1) by (intro filter_True) (force simp: catalog_ok_def list_all_iff)
  moreover have "list_all (\<lambda>(u, ud). u = t \<or> list_all (\<lambda>(_, v, _). v \<noteq> t) (foreign_keys_of ud)) (ct_tables cat)"
    using t assms(1) by (fastforce simp: catalog_ok_def list_all_iff)
  ultimately show ?thesis using assms(3,4) by (auto simp: grown_catalog_def)
qed

lemma drop_grown_index:
  assumes "i \<notin> set (relations cat)" "i \<in> fst ` set is"
  shows "run_ddl (DropIndex i) (grown_catalog cat ts is) = Some (grown_catalog cat ts (filter (\<lambda>(j, _). j \<noteq> i) is))"
proof -
  have "filter (\<lambda>(j, _). j \<noteq> i) (ct_indexes cat) = ct_indexes cat"
    using assms(1) by (intro filter_True) (force simp: relations_def)
  then show ?thesis using assms(2) by (auto simp: grown_catalog_def)
qed

lemma migrate_down:
  assumes "SchemaMigrationsFor s = Inr ms" "catalog_ok cat" "names_free s cat"
  shows "revert_migrations ms (migrated s cat) = Some cat"
  using assms(1,3)
  by (auto simp: migration_texts revert_migrations_def names_free_iff migrated_grown drop_grown_table [OF assms(2)]
      drop_grown_index declared_foreign_keys simp del: run_ddl.simps split: if_splits)

lemma migrated_catalog_ok: "catalog_ok cat \<Longrightarrow> catalog_ok (migrated s cat)"
  by (auto simp: catalog_ok_def migrated_def list_all_iff workflow_tables_def workflow_indexes_def declared_foreign_keys)

section \<open>Inserting\<close>

lemma sql_connectives [simp]:
  "sql_and (Some a) (Some b) = Some (a \<and> b)" "sql_or (Some a) (Some b) = Some (a \<or> b)"
  "sql_and (Some False) x = Some False" "sql_and x (Some False) = Some False"
  by (cases a; cases b; simp; fail)+ (cases x; cases "the x"; auto)+

lemma cell_simps [simp]:
  "cell [] c = Null" "cell ((k, v) # row) c = (if k = c then v else cell row c)"
  by (simp_all add: cell_def)

lemma cell_append: "cell (xs @ ys) c = (case map_of xs c of None \<Rightarrow> cell ys c | Some v \<Rightarrow> v)"
  by (simp add: cell_def map_add_def split: option.split)

lemma compare_Some [simp]: "compare r (Some x) (Some y) = Some (r x y)" "compare r None b = None" "compare r a None = None"
  by (simp_all add: compare_def split: option.split)

text \<open>What the catalog of a migrated schema demands of a row, spelled out per table.\<close>

lemma declared_checks:
  "checks_of instances_table = [Eq (Length ''definition_fingerprint'') (Num 64), Ge (Column ''sequence'') (Num 0)]"
  "checks_of (transitions_table s) = [Eq (Length ''fingerprint'') (Num 64), Ge (Column ''expected_sequence'') (Num 0),
     Gt (Column ''committed_sequence'') (Column ''expected_sequence'')]"
  "checks_of (history_table s) = [Gt (Column ''sequence'') (Num 0), Gt (Column ''kind'') (Num 0), Ge (Column ''attempt'') (Num 0)]"
  "checks_of (work_table s) = [Gt (Column ''kind'') (Num 0), Between (Column ''state'') 1 4, Ge (Column ''attempts'') (Num 0),
     Ge (Column ''lease_token'') (Num 0)]"
  by (simp_all add: checks_of_def table_defs)

lemma declared_required:
  "required_of instances_table = [''instance_id'', ''definition_name'', ''definition_version'', ''definition_fingerprint'',
     ''sequence'', ''created_at'', ''updated_at'']"
  "required_of (transitions_table s) = [''transition_id'', ''instance_id'', ''fingerprint'', ''expected_sequence'',
     ''committed_sequence'', ''committed_at'']"
  "required_of (history_table s) = [''instance_id'', ''sequence'', ''kind'', ''occurred_at'', ''definition_name'',
     ''definition_version'', ''definition_fingerprint'', ''successor_id'', ''step_name'', ''attempt'', ''idempotency_key'',
     ''code'', ''retryable'', ''instance_id'', ''sequence'']"
  "required_of (work_table s) = [''work_id'', ''kind'', ''instance_id'', ''sequence'', ''available_at'', ''deadline'',
     ''tenant_id'', ''correlation_id'', ''state'', ''attempts'', ''lease_token'', ''failure_code'']"
  "required_of (resolutions_table s) = [''command_id'', ''fingerprint'', ''work_id'', ''lease_token'', ''action'', ''actor'',
     ''reason'', ''occurred_at'']"
  by (simp_all add: required_of_def table_defs)

lemma declared_defaults:
  "defaults_of instances_table = []" "defaults_of (transitions_table s) = []" "defaults_of (resolutions_table s) = []"
  "defaults_of (work_table s) = [(''tenant_id'', VText []), (''correlation_id'', VText []), (''state'', VInt 1),
     (''attempts'', VInt 0), (''lease_token'', VInt 0), (''failure_code'', VText [])]"
  by (simp_all add: defaults_of_def table_defs)

lemmas row_values = instance_values_def transition_values_def history_values_def work_values_def pending_values_def
  resolution_values_def reference_values_def

lemma admitted_instance:
  "row_admitted instances_table (instance_values r @ ds) \<longleftrightarrow>
     length (dr_fingerprint (ri_definition r)) = 64 \<and> ri_sequence r \<ge> 0"
  by (auto simp: row_admitted_def declared_required declared_checks row_values)

lemma admitted_transition:
  "row_admitted (transitions_table s) (transition_values r @ ds) \<longleftrightarrow> length (rt_fingerprint r) = 64 \<and>
     rt_expected_sequence r \<ge> 0 \<and> rt_committed_sequence r > rt_expected_sequence r"
  by (auto simp: row_admitted_def declared_required declared_checks row_values)

lemma admitted_history:
  "row_admitted (history_table s) (history_values r @ ds) \<longleftrightarrow> rh_sequence r > 0 \<and> rh_kind r > 0 \<and> rh_attempt r \<ge> 0"
  by (auto simp: row_admitted_def declared_required declared_checks row_values)

lemma admitted_work:
  "row_admitted (work_table s) (work_values r @ ds) \<longleftrightarrow> rw_kind r > 0 \<and> 1 \<le> rw_state r \<and> rw_state r \<le> 4 \<and>
     rw_attempts r \<ge> 0 \<and> rw_lease_token r \<ge> 0"
  by (auto simp: row_admitted_def declared_required declared_checks row_values)

lemma admitted_pending:
  "row_admitted (work_table s) (pending_values r @ defaults_of (work_table s)) \<longleftrightarrow> rw_kind r > 0"
  by (auto simp: row_admitted_def declared_required declared_checks declared_defaults row_values)

lemma admitted_resolution:
  "row_admitted (resolutions_table s) (resolution_values r @ ds) \<longleftrightarrow> resolution_row_ok r"
proof -
  have "checks_of (resolutions_table s) = [Eq (Length ''fingerprint'') (Num 64), Gt (Column ''lease_token'') (Num 0),
      Between (Column ''action'') 1 2, OrElse
         (AndAlso (Eq (Column ''action'') (Num 1)) (AndAlso (IsNotNull ''retry_at'') (AndAlso (IsNotNull ''deadline'')
           (AndAlso (Ge (Column ''retry_at'') (Column ''occurred_at'')) (Gt (Column ''deadline'') (Column ''retry_at''))))))
         (AndAlso (Eq (Column ''action'') (Num 2)) (AndAlso (IsNull ''retry_at'') (IsNull ''deadline'')))]"
    by (simp add: checks_of_def table_defs)
  then show ?thesis
    by (cases "rr_retry_at r"; cases "rr_deadline r")
      (auto simp: row_admitted_def declared_required row_values resolution_row_ok_def time_value_def)
qed

lemma find_unknown: "find (\<lambda>r. f r = k) xs = None \<longleftrightarrow> (\<forall>r \<in> set xs. k \<noteq> f r)"
  by (auto simp: find_None_iff)

lemma migrated_lookup:
  assumes "names_free s cat" "map_of (workflow_tables s) t = Some td"
  shows "map_of (ct_tables (migrated s cat)) t = Some td"
proof -
  have "t \<in> fst ` set (workflow_tables s)" using map_of_SomeD [OF assms(2)] by force
  then have "t \<notin> set (relations cat)" using assms(1) by (auto simp: names_free_def list_all_iff)
  then show ?thesis using grown_lookup assms(2) by (simp add: migrated_grown)
qed

text \<open>The outcome of an insert as the statements of the store report it.\<close>

fun insert_outcome :: "insertion \<Rightarrow> 'a \<Rightarrow> 'a \<Rightarrow> 'a option" where
  "insert_outcome Rejected _ _ = None"
| "insert_outcome Skipped skipped _ = Some skipped"
| "insert_outcome (Inserted _) _ added = Some added"

lemma inserted_instance:
  assumes "names_free s cat"
  shows "insertInstance row tb = insert_outcome
      (sql_insert (migrated s cat) (stored_rows s tb) (s, ''workflow_instances'') True (instance_values row))
      (0, tb) (1, tb\<lparr>tb_instances := tb_instances tb @ [row]\<rparr>)"
proof -
  have "map_of (ct_tables (migrated s cat)) (s, ''workflow_instances'') = Some instances_table"
    by (rule migrated_lookup [OF assms]) (simp add: workflow_tables_def)
  moreover have "list_ex (same_key [''instance_id''] (instance_values row)) (map instance_values (tb_instances tb)) \<longleftrightarrow>
      lockInstance (ri_instance_id row) tb \<noteq> None"
    by (auto simp: list_ex_iff same_key_def lockInstance_def find_unknown row_values)
  ultimately show ?thesis
    using admitted_instance [of row "[]"]
    by (auto simp: sql_insert_def insertInstance_def declared_defaults stored_rows_def key_taken_def declared_keys
        declared_foreign_keys)
qed

lemma inserted_transition:
  assumes "names_free s cat"
  shows "insertTransition row tb = insert_outcome
      (sql_insert (migrated s cat) (stored_rows s tb) (s, ''workflow_transitions'') True (transition_values row))
      (None, tb) (Some (rt_fingerprint row), tb\<lparr>tb_transitions := tb_transitions tb @ [row]\<rparr>)"
proof -
  have "map_of (ct_tables (migrated s cat)) (s, ''workflow_transitions'') = Some (transitions_table s)"
    by (rule migrated_lookup [OF assms]) (simp add: workflow_tables_def)
  moreover have "list_ex (same_key [''transition_id''] (transition_values row)) (map transition_values (tb_transitions tb)) \<longleftrightarrow>
      findTransition (rt_transition_id row) tb \<noteq> None"
    by (auto simp: list_ex_iff same_key_def findTransition_def find_unknown row_values)
  moreover have "refers ((stored_rows s tb)((s, ''workflow_transitions'') := rows)) (transition_values row)
      ([''instance_id''], (s, ''workflow_instances''), [''instance_id'']) \<longleftrightarrow> lockInstance (rt_instance_id row) tb \<noteq> None"
    for rows
    by (auto simp: refers_def stored_rows_def list_ex_iff lockInstance_def find_unknown row_values)
  ultimately show ?thesis
    using admitted_transition [of s row "[]"]
    by (auto simp: sql_insert_def insertTransition_def declared_defaults stored_rows_def key_taken_def declared_keys
        declared_foreign_keys)
qed

lemma inserted_history:
  assumes "names_free s cat"
  shows "insertHistory row tb = insert_outcome
      (sql_insert (migrated s cat) (stored_rows s tb) (s, ''workflow_history'') False (history_values row))
      (0, tb) (1, tb\<lparr>tb_history := tb_history tb @ [row]\<rparr>)"
proof -
  have "map_of (ct_tables (migrated s cat)) (s, ''workflow_history'') = Some (history_table s)"
    by (rule migrated_lookup [OF assms]) (simp add: workflow_tables_def)
  moreover have "list_ex (same_key [''instance_id'', ''sequence''] (history_values row @ ds))
      (map history_values (tb_history tb)) \<longleftrightarrow> history_key row \<in> history_key ` set (tb_history tb)" for ds
    by (fastforce simp: list_ex_iff same_key_def history_key_def row_values)
  moreover have "refers ((stored_rows s tb)((s, ''workflow_history'') := rows)) (history_values row @ ds)
      ([''instance_id''], (s, ''workflow_instances''), [''instance_id'']) \<longleftrightarrow> lockInstance (rh_instance_id row) tb \<noteq> None"
    for rows ds
    by (auto simp: refers_def stored_rows_def list_ex_iff lockInstance_def find_unknown row_values)
  ultimately show ?thesis
    by (auto simp: sql_insert_def insertHistory_def stored_rows_def key_taken_def declared_keys declared_foreign_keys
        admitted_history Let_def)
qed

lemma inserted_work:
  assumes "names_free s cat"
  shows "insertWork row tb = insert_outcome
      (sql_insert (migrated s cat) (stored_rows s tb) (s, ''workflow_work'') False (pending_values row))
      (0, tb) (1, tb\<lparr>tb_work := tb_work tb @ [row]\<rparr>)"
proof -
  have "map_of (ct_tables (migrated s cat)) (s, ''workflow_work'') = Some (work_table s)"
    by (rule migrated_lookup [OF assms]) (simp add: workflow_tables_def)
  moreover have "list_ex (same_key [''work_id''] (pending_values row @ ds)) (map work_values (tb_work tb)) \<longleftrightarrow>
      findWork (rw_work_id row) tb \<noteq> None" for ds
    by (auto simp: list_ex_iff same_key_def findWork_def find_unknown row_values)
  moreover have "refers ((stored_rows s tb)((s, ''workflow_work'') := rows)) (pending_values row @ ds)
      ([''instance_id'', ''sequence''], (s, ''workflow_history''), [''instance_id'', ''sequence'']) \<longleftrightarrow>
      (rw_instance_id row, rw_sequence row) \<in> history_key ` set (tb_history tb)" for rows ds
    by (force simp: refers_def stored_rows_def list_ex_iff history_key_def row_values)
  ultimately show ?thesis
    by (auto simp: sql_insert_def insertWork_def stored_rows_def key_taken_def declared_keys declared_foreign_keys
        admitted_pending Let_def)
qed

lemma inserted_work_cells:
  assumes "names_free s cat"
    "sql_insert (migrated s cat) db (s, ''workflow_work'') False (pending_values (workArguments pg w)) = Inserted row"
  shows "cell row c = cell (work_values (workArguments pg w)) c"
proof -
  have "map_of (ct_tables (migrated s cat)) (s, ''workflow_work'') = Some (work_table s)"
    by (rule migrated_lookup [OF assms(1)]) (simp add: workflow_tables_def)
  then have "row = pending_values (workArguments pg w) @ defaults_of (work_table s)"
    using assms(2) by (auto simp: sql_insert_def Let_def split: if_splits)
  moreover have "cell (defaults_of (work_table s)) c = cell [(''state'', VInt 1), (''attempts'', VInt 0), (''lease_owner'', Null),
      (''lease_token'', VInt 0), (''lease_expires_at'', Null), (''failure_code'', VText []), (''completed_at'', Null)] c"
    if "map_of (pending_values (workArguments pg w)) c = None"
  proof -
    have "c \<noteq> ''tenant_id''" "c \<noteq> ''correlation_id''" using that by (auto simp: pending_values_def)
    then show ?thesis by (auto simp: declared_defaults)
  qed
  moreover have "work_values (workArguments pg w) = pending_values (workArguments pg w) @
      [(''state'', VInt 1), (''attempts'', VInt 0), (''lease_owner'', Null), (''lease_token'', VInt 0),
       (''lease_expires_at'', Null), (''failure_code'', VText []), (''completed_at'', Null)]"
    unfolding work_values_def by (simp add: workArguments_def text_value_def time_value_def)
  ultimately show ?thesis by (simp add: cell_append del: cell_simps split: option.split)
qed

lemma inserted_resolution:
  assumes "names_free s cat"
  shows "insertResolution row tb = insert_outcome
      (sql_insert (migrated s cat) (stored_rows s tb) (s, ''workflow_work_resolutions'') True (resolution_values row))
      (None, tb) (Some (rr_fingerprint row), tb\<lparr>tb_resolutions := tb_resolutions tb @ [row]\<rparr>)"
proof -
  have "map_of (ct_tables (migrated s cat)) (s, ''workflow_work_resolutions'') = Some (resolutions_table s)"
    by (rule migrated_lookup [OF assms]) (simp add: workflow_tables_def)
  moreover have "key_taken (resolutions_table s) (map resolution_values (tb_resolutions tb)) (resolution_values row) \<longleftrightarrow>
      list_ex (\<lambda>r. rr_command_id r = rr_command_id row \<or>
         (rr_work_id r = rr_work_id row \<and> rr_lease_token r = rr_lease_token row)) (tb_resolutions tb)"
    by (fastforce simp: key_taken_def declared_keys list_ex_iff same_key_def row_values)
  moreover have "refers ((stored_rows s tb)((s, ''workflow_work_resolutions'') := rows)) (resolution_values row)
      ([''work_id''], (s, ''workflow_work''), [''work_id'']) \<longleftrightarrow> findWork (rr_work_id row) tb \<noteq> None" for rows
    by (auto simp: refers_def stored_rows_def list_ex_iff findWork_def find_unknown row_values)
  ultimately show ?thesis
    using admitted_resolution [of s row "[]"]
    by (auto simp: sql_insert_def insertResolution_def declared_defaults stored_rows_def declared_foreign_keys)
qed

end
