(* ===== verification/Schema_Invariant.thy ===== *)
theory Schema_Invariant
  imports Catalog_Safety Store_Leases
begin

text \<open>
  The declared constraints as an invariant of the tables: every statement of the store keeps them,
  and so does every method, whatever calls of the driver fail.
\<close>

section \<open>Tables that meet their schema\<close>

definition relation_ok :: "(relation_name \<Rightarrow> sql_row list) \<Rightarrow> relation_name \<Rightarrow> TableDef \<Rightarrow> bool" where
  "relation_ok db t td \<longleftrightarrow> list_all (row_admitted td) (db t) \<and>
     list_all (\<lambda>ks. sorted_wrt (\<lambda>a b. \<not> same_key ks a b) (db t)) (keys_of td) \<and>
     list_all (\<lambda>row. list_all (refers db row) (foreign_keys_of td)) (db t)"

definition schema_holds :: "string \<Rightarrow> Tables \<Rightarrow> bool" where
  "schema_holds s tb \<longleftrightarrow> list_all (\<lambda>(t, td). relation_ok (stored_rows s tb) t td) (workflow_tables s)"

text \<open>The same, spelled out over the records of the model.\<close>

definition work_row_ok :: "WorkRow \<Rightarrow> bool" where
  "work_row_ok r \<longleftrightarrow> rw_kind r > 0 \<and> 1 \<le> rw_state r \<and> rw_state r \<le> 4 \<and> rw_attempts r \<ge> 0 \<and> rw_lease_token r \<ge> 0"

definition instances_hold :: "Tables \<Rightarrow> bool" where
  "instances_hold tb \<longleftrightarrow> distinct (map ri_instance_id (tb_instances tb)) \<and>
     (\<forall>r \<in> set (tb_instances tb). length (dr_fingerprint (ri_definition r)) = 64 \<and> ri_sequence r \<ge> 0)"

definition transitions_hold :: "Tables \<Rightarrow> bool" where
  "transitions_hold tb \<longleftrightarrow> distinct (map rt_transition_id (tb_transitions tb)) \<and>
     (\<forall>r \<in> set (tb_transitions tb). length (rt_fingerprint r) = 64 \<and> rt_expected_sequence r \<ge> 0 \<and>
        rt_committed_sequence r > rt_expected_sequence r \<and> rt_instance_id r \<in> ri_instance_id ` set (tb_instances tb))"

definition history_holds :: "Tables \<Rightarrow> bool" where
  "history_holds tb \<longleftrightarrow> distinct (map history_key (tb_history tb)) \<and>
     (\<forall>r \<in> set (tb_history tb). rh_sequence r > 0 \<and> rh_kind r > 0 \<and> rh_attempt r \<ge> 0 \<and>
        rh_instance_id r \<in> ri_instance_id ` set (tb_instances tb))"

definition work_holds :: "Tables \<Rightarrow> bool" where
  "work_holds tb \<longleftrightarrow> distinct (map rw_work_id (tb_work tb)) \<and>
     (\<forall>r \<in> set (tb_work tb). work_row_ok r \<and> (rw_instance_id r, rw_sequence r) \<in> history_key ` set (tb_history tb))"

definition resolutions_hold :: "Tables \<Rightarrow> bool" where
  "resolutions_hold tb \<longleftrightarrow> distinct (map rr_command_id (tb_resolutions tb)) \<and>
     distinct (map (\<lambda>r. (rr_work_id r, rr_lease_token r)) (tb_resolutions tb)) \<and>
     (\<forall>r \<in> set (tb_resolutions tb). resolution_row_ok r \<and> rr_work_id r \<in> rw_work_id ` set (tb_work tb))"

lemma distinct_sorted_wrt: "distinct (map f xs) \<longleftrightarrow> sorted_wrt (\<lambda>a b. f a \<noteq> f b) xs"
  by (induction xs) auto

lemma same_keys:
  "same_key [''instance_id''] (instance_values a) (instance_values a') \<longleftrightarrow> ri_instance_id a = ri_instance_id a'"
  "same_key [''transition_id''] (transition_values b) (transition_values b') \<longleftrightarrow> rt_transition_id b = rt_transition_id b'"
  "same_key [''instance_id'', ''sequence''] (history_values c) (history_values c') \<longleftrightarrow> history_key c = history_key c'"
  "same_key [''work_id''] (work_values d) (work_values d') \<longleftrightarrow> rw_work_id d = rw_work_id d'"
  "same_key [''command_id''] (resolution_values e) (resolution_values e') \<longleftrightarrow> rr_command_id e = rr_command_id e'"
  "same_key [''work_id'', ''lease_token''] (resolution_values e) (resolution_values e') \<longleftrightarrow>
     (rr_work_id e, rr_lease_token e) = (rr_work_id e', rr_lease_token e')"
  by (simp_all add: same_key_def row_values history_key_def)

lemma references:
  "refers (stored_rows s tb) (transition_values b) ([''instance_id''], (s, ''workflow_instances''), [''instance_id'']) \<longleftrightarrow>
     rt_instance_id b \<in> ri_instance_id ` set (tb_instances tb)"
  "refers (stored_rows s tb) (history_values c) ([''instance_id''], (s, ''workflow_instances''), [''instance_id'']) \<longleftrightarrow>
     rh_instance_id c \<in> ri_instance_id ` set (tb_instances tb)"
  "refers (stored_rows s tb) (work_values d)
     ([''instance_id'', ''sequence''], (s, ''workflow_history''), [''instance_id'', ''sequence'']) \<longleftrightarrow>
     (rw_instance_id d, rw_sequence d) \<in> history_key ` set (tb_history tb)"
  "refers (stored_rows s tb) (resolution_values e) ([''work_id''], (s, ''workflow_work''), [''work_id'']) \<longleftrightarrow>
     rr_work_id e \<in> rw_work_id ` set (tb_work tb)"
  by (auto simp: refers_def stored_rows_def list_ex_iff row_values history_key_def)

lemmas admitted = admitted_instance [of _ "[]", simplified] admitted_transition [of _ _ "[]", simplified]
  admitted_history [of _ _ "[]", simplified] admitted_work [of _ _ "[]", simplified]
  admitted_resolution [of _ _ "[]", simplified]

lemma relation_ok_map:
  "db t = map f rows \<Longrightarrow> relation_ok db t td \<longleftrightarrow> (\<forall>r \<in> set rows. row_admitted td (f r)) \<and>
     (\<forall>ks \<in> set (keys_of td). sorted_wrt (\<lambda>a b. \<not> same_key ks (f a) (f b)) rows) \<and>
     (\<forall>r \<in> set rows. \<forall>k \<in> set (foreign_keys_of td). refers db (f r) k)"
  by (auto simp: relation_ok_def list_all_iff sorted_wrt_map)

lemma stored_relations:
  "stored_rows s tb (s, ''workflow_instances'') = map instance_values (tb_instances tb)"
  "stored_rows s tb (s, ''workflow_transitions'') = map transition_values (tb_transitions tb)"
  "stored_rows s tb (s, ''workflow_history'') = map history_values (tb_history tb)"
  "stored_rows s tb (s, ''workflow_work'') = map work_values (tb_work tb)"
  "stored_rows s tb (s, ''workflow_work_resolutions'') = map resolution_values (tb_resolutions tb)"
  by (simp_all add: stored_rows_def)

lemma schema_holds_iff:
  "schema_holds s tb \<longleftrightarrow> instances_hold tb \<and> transitions_hold tb \<and> history_holds tb \<and> work_holds tb \<and> resolutions_hold tb"
proof -
  note reading = relation_ok_map [of "stored_rows s tb" "(s, ''workflow_instances'')", OF stored_relations(1)] relation_ok_map [of "stored_rows s tb" "(s, ''workflow_transitions'')", OF stored_relations(2)]
    relation_ok_map [of "stored_rows s tb" "(s, ''workflow_history'')", OF stored_relations(3)] relation_ok_map [of "stored_rows s tb" "(s, ''workflow_work'')", OF stored_relations(4)]
    relation_ok_map [of "stored_rows s tb" "(s, ''workflow_work_resolutions'')", OF stored_relations(5)] admitted same_keys references declared_keys declared_foreign_keys
    distinct_sorted_wrt
  have "relation_ok (stored_rows s tb) (s, ''workflow_instances'') instances_table = instances_hold tb"
      "relation_ok (stored_rows s tb) (s, ''workflow_transitions'') (transitions_table s) = transitions_hold tb"
      "relation_ok (stored_rows s tb) (s, ''workflow_history'') (history_table s) = history_holds tb"
      "relation_ok (stored_rows s tb) (s, ''workflow_work'') (work_table s) = work_holds tb"
      "relation_ok (stored_rows s tb) (s, ''workflow_work_resolutions'') (resolutions_table s) = resolutions_hold tb"
    by (auto simp: reading instances_hold_def transitions_hold_def history_holds_def work_holds_def work_row_ok_def
        resolutions_hold_def)
  then show ?thesis by (simp add: schema_holds_def workflow_tables_def)
qed

section \<open>Statements\<close>

text \<open>A statement keeps \<open>P\<close> when the tables it gives back meet \<open>P\<close> if those it was given do.\<close>

definition keeps :: "('t \<Rightarrow> bool) \<Rightarrow> ('t \<Rightarrow> ('a \<times> 't) option) \<Rightarrow> bool" where
  "keeps P stmt \<longleftrightarrow> (\<forall>tb a tb'. P tb \<longrightarrow> stmt tb = Some (a, tb') \<longrightarrow> P tb')"

lemmas holds_defs = instances_hold_def transitions_hold_def history_holds_def work_holds_def resolutions_hold_def

lemma known_rows:
  "lockInstance n tb = None \<longleftrightarrow> n \<notin> ri_instance_id ` set (tb_instances tb)"
  "findTransition n tb = None \<longleftrightarrow> n \<notin> rt_transition_id ` set (tb_transitions tb)"
  "findWork n tb = None \<longleftrightarrow> n \<notin> rw_work_id ` set (tb_work tb)"
  by (auto simp: lockInstance_def findTransition_def findWork_def find_None_iff)

lemma inserts_keep_schema:
  "keeps (schema_holds s) (insertInstance i)" "keeps (schema_holds s) (insertTransition t)"
  "keeps (schema_holds s) (insertHistory h)" "keeps (schema_holds s) (insertWork (workArguments pg w))"
  "keeps (schema_holds s) (insertResolution r)"
proof -
  note reading = keeps_def schema_holds_iff holds_defs known_rows
  show "keeps (schema_holds s) (insertInstance i)"
    by (auto simp: reading insertInstance_def split: if_splits)
  show "keeps (schema_holds s) (insertTransition t)"
    by (auto simp: reading insertTransition_def split: if_splits)
  show "keeps (schema_holds s) (insertHistory h)"
    by (auto simp: reading insertHistory_def split: if_splits)
  show "keeps (schema_holds s) (insertWork (workArguments pg w))"
    by (auto simp: reading insertWork_def work_row_ok_def split: if_splits) (auto simp: workArguments_def)
  show "keeps (schema_holds s) (insertResolution r)"
    by (auto simp: reading insertResolution_def list_ex_iff split: if_splits)
qed

lemma updated_work_holds:
  assumes "schema_holds s tb" "\<And>r. work_row_ok r \<Longrightarrow> work_row_ok (f r)"
    "\<And>r. rw_work_id (f r) = rw_work_id r \<and> rw_instance_id (f r) = rw_instance_id r \<and> rw_sequence (f r) = rw_sequence r"
  shows "schema_holds s (tb\<lparr>tb_work := map f (tb_work tb)\<rparr>)"
proof -
  have same: "rw_work_id \<circ> f = rw_work_id" using assms(3) by auto
  then have "rw_work_id ` f ` set (tb_work tb) = rw_work_id ` set (tb_work tb)" by (simp only: image_comp)
  then show ?thesis using assms by (auto simp: schema_holds_iff holds_defs same)
qed

lemma updateWork_keeps_schema:
  assumes "\<And>r. work_row_ok r \<Longrightarrow> hit r \<Longrightarrow> work_row_ok (f r)"
    "\<And>r. rw_work_id (f r) = rw_work_id r \<and> rw_instance_id (f r) = rw_instance_id r \<and> rw_sequence (f r) = rw_sequence r"
  shows "keeps (schema_holds s) (updateWork hit f)"
  using assms by (auto simp: keeps_def updateWork_def intro!: updated_work_holds)

lemma updates_keep_schema:
  "keeps (schema_holds s) (updateInstance d n u i e a)"
  "keeps (schema_holds s) (claimWork pg now l owner expires)"
  "keeps (schema_holds s) (\<lambda>tb. Some (renewWork w owner token expires now tb))"
  "keeps (schema_holds s) (completeWork w owner token now)"
  "keeps (schema_holds s) (retryWork w owner token code retry now)"
  "keeps (schema_holds s) (deadLetterWork w owner token code now)"
  "keeps (schema_holds s) (retryDeadLetter w token retry deadline)"
proof -
  show "keeps (schema_holds s) (updateInstance d n u i e a)"
  proof (unfold keeps_def, intro allI impI)
    fix tb k tb'
    assume a: "schema_holds s tb" "updateInstance d n u i e a tb = Some (k, tb')"
    let ?hit = "\<lambda>r. ri_instance_id r = i \<and> ri_sequence r = e"
    let ?f = "\<lambda>r :: InstanceRow. if ?hit r then r\<lparr>ri_definition := d, ri_sequence := n, ri_updated_at := u,
        ri_archived_at := (case ri_archived_at r of None \<Rightarrow> a | Some t \<Rightarrow> Some t)\<rparr> else r"
    have ok: "length (dr_fingerprint d) = 64 \<and> n \<ge> 0" if "r \<in> set (tb_instances tb)" "?hit r" for r
      using a(2) that by (auto simp: updateInstance_def Let_def filter_empty_conv split: if_splits)
    have tb': "tb' = tb\<lparr>tb_instances := map ?f (tb_instances tb)\<rparr>"
      using a(2) by (auto simp: updateInstance_def Let_def split: if_splits)
    define f where "f = ?f"
    have same: "ri_instance_id \<circ> f = ri_instance_id" by (auto simp: f_def)
    then have "ri_instance_id ` f ` set (tb_instances tb) = ri_instance_id ` set (tb_instances tb)"
      by (simp only: image_comp)
    moreover have "length (dr_fingerprint (ri_definition (f r))) = 64 \<and> ri_sequence (f r) \<ge> 0"
      if "r \<in> set (tb_instances tb)" for r
      using that ok a(1) by (auto simp: f_def schema_holds_iff instances_hold_def)
    ultimately show "schema_holds s tb'"
      using a(1) unfolding tb' f_def [symmetric] by (auto simp: schema_holds_iff holds_defs same)
  qed
  show "keeps (schema_holds s) (claimWork pg now l owner expires)"
    by (auto simp: keeps_def claimWork_def Let_def claim_row_def work_row_ok_def intro!: updated_work_holds split: if_splits)
  show "keeps (schema_holds s) (\<lambda>tb. Some (renewWork w owner token expires now tb))"
    by (auto simp: keeps_def renewWork_def Let_def work_row_ok_def intro!: updated_work_holds)
qed (auto simp: completeWork_def retryWork_def deadLetterWork_def retryDeadLetter_def work_row_ok_def
    intro!: updateWork_keeps_schema)

section \<open>Methods\<close>

definition inv_db :: "(Tables \<Rightarrow> bool) \<Rightarrow> Db \<Rightarrow> bool" where
  "inv_db I db \<longleftrightarrow> I (db_tables db) \<and> (\<forall>tb. db_tx db = Some tb \<longrightarrow> I tb)"

definition steadily :: "(Tables \<Rightarrow> bool) \<Rightarrow> (Db, 'a) state \<Rightarrow> bool" where
  "steadily I m \<longleftrightarrow> triple (inv_db I) m (\<lambda>_. inv_db I)"

lemma steadily_bind: "steadily I m \<Longrightarrow> (\<And>a. steadily I (f a)) \<Longrightarrow> steadily I (State_Monad.bind m f)"
  unfolding steadily_def by (rule triple_bind)

lemma steadily_check:
  "steadily I m \<Longrightarrow> (\<And>e. steadily I (h e)) \<Longrightarrow> (\<And>v. steadily I (f v)) \<Longrightarrow> steadily I (check m h f)"
  unfolding steadily_def by (rule triple_check)

lemma steadily_end [simp]: "steadily I (State_Monad.return a)" "steadily I (fails e)" "steadily I (gives v)"
  by (simp_all add: steadily_def)

lemma steadily_next_fault: "steadily I next_fault"
  by (auto simp: steadily_def inv_db_def intro!: tripleI dest!: run_next_fault)

lemma steadily_driver:
  "steadily I Begin" "steadily I (tx_QueryRow q)" "steadily I tx_Commit" "steadily I rollback"
  "steadily I (db_Query g)" "steadily I rows_Err"
  unfolding Begin_def tx_QueryRow_def tx_Commit_def rollback_def db_Query_def rows_Err_def
  by (auto intro!: steadily_bind steadily_next_fault split: fault.split)
    (auto simp: steadily_def inv_db_def tx_view_def intro!: tripleI split: option.splits)

lemma steadily_change:
  assumes "keeps I stmt"
  shows "steadily I (tx_change stmt)" "steadily I (db_change stmt)"
  unfolding tx_change_def db_change_def
  by (auto intro!: steadily_bind steadily_next_fault split: fault.split)
    (use assms in \<open>auto simp: steadily_def keeps_def inv_db_def tx_view_def intro!: tripleI split: option.splits prod.splits\<close>)

lemma steadily_exec_all: "(\<And>stmt. stmt \<in> set stmts \<Longrightarrow> keeps I stmt) \<Longrightarrow> steadily I (exec_all stmts)"
  by (induction stmts) (auto intro!: steadily_check steadily_change)

lemma steadily_guarded:
  assumes "\<And>c. ctx = Some c \<Longrightarrow> steadily I c" "steadily I body"
  shows "steadily I (guarded ctx ok wrap body)"
  using assms by (auto simp: guarded_def intro!: steadily_bind split: option.split)

lemma reads_steady:
  assumes "\<And>c. ctx = Some c \<Longrightarrow> steadily I c"
  shows "steadily I (ReconcileTransition ctx rc)" "steadily I (History ctx hq)" "steadily I (ListInstances pg ctx lq)"
    "steadily I (ListDeadLetters pg ctx dq)"
  unfolding ReconcileTransition_def History_def ListInstances_def ListDeadLetters_def Let_def
  by (auto intro!: steadily_guarded assms steadily_check steadily_driver split: option.split sum.split)

text \<open>
  The contract of an invariant of the tables that the statements on work keep; then the methods that
  only change work keep it, in the committed tables and in an open transaction.
\<close>

locale work_invariant =
  fixes I :: "Tables \<Rightarrow> bool"
  assumes work_law: "keeps I (claimWork pg now l owner expires)"
      "keeps I (\<lambda>tb. Some (renewWork k owner token expires now tb))" "keeps I (completeWork k owner token now)"
      "keeps I (retryWork k owner token code retry now)" "keeps I (deadLetterWork k owner token code now)"
      "keeps I (retryDeadLetter k token retry deadline)" "keeps I (insertResolution r)"
begin

lemmas steadily_work = work_law [THEN steadily_change(1)] work_law [THEN steadily_change(2)]

lemma steadily_stage_resolution: "steadily I (stage_resolution pg r)"
  unfolding stage_resolution_def exactDeadLetterResolution_def
  by (auto intro!: steadily_check steadily_work steadily_driver split: option.split)

lemma steadily_fencedExec: "keeps I stmt \<Longrightarrow> steadily I (fencedExec stmt operation)"
  unfolding fencedExec_def databaseExec_def
  by (auto intro!: steadily_check steadily_bind steadily_driver steadily_change)

lemma work_methods_steady:
  assumes "\<And>c. ctx = Some c \<Longrightarrow> steadily I c"
  shows "steadily I (ResolveDeadLetter pg ctx r)" "steadily I (Claim pg ctx cr)" "steadily I (Renew pg ctx rn)"
    "steadily I (Complete pg ctx wc)" "steadily I (Fail pg ctx failure)"
  unfolding ResolveDeadLetter_def Claim_def Renew_def Complete_def Fail_def
  by (auto intro!: steadily_guarded assms steadily_check steadily_bind steadily_driver steadily_work
      steadily_stage_resolution steadily_fencedExec work_law split: option.split sum.split)

end

text \<open>An invariant that the statements of a commit keep as well is kept by every method.\<close>

locale table_invariant = work_invariant +
  assumes commit_law: "keeps I (insertInstance i)" "keeps I (insertTransition t)" "keeps I (insertHistory h)"
      "keeps I (insertWork (workArguments pg w))" "keeps I (updateInstance d n u i' e a)"
begin

lemmas steadily_commit = commit_law [THEN steadily_change(1)]

lemma steadily_exactTransition: "steadily I (exactTransition t)"
  unfolding exactTransition_def by (auto intro!: steadily_check steadily_driver split: option.split)

lemma steadily_concurrentTransition: "steadily I (concurrentTransition t)"
  unfolding concurrentTransition_def by (auto intro!: steadily_check steadily_exactTransition)

lemma steadily_stage_rows: "steadily I (stage_rows pg t)"
  unfolding stage_rows_def Let_def
  by (auto intro!: steadily_check steadily_commit steadily_exec_all steadily_concurrentTransition commit_law
      split: option.split)

lemma steadily_stageTransition: "steadily I (stageTransition pg t)"
  unfolding stageTransition_def
  by (auto intro!: steadily_check steadily_commit steadily_driver steadily_exactTransition
      steadily_concurrentTransition steadily_stage_rows split: option.split)

lemma transition_methods_steady:
  assumes "\<And>c. ctx = Some c \<Longrightarrow> steadily I c"
  shows "steadily I (Commit pg ctx t)" "steadily I (Stage pg ctx t)"
  unfolding Commit_def Stage_def
  by (auto intro!: steadily_guarded assms steadily_check steadily_bind steadily_driver steadily_stageTransition)

end

interpretation schema_kept: table_invariant "schema_holds s" for s
  by unfold_locales (rule inserts_keep_schema updates_keep_schema)+

text \<open>Work never touches the instances, their transitions and their history.\<close>

definition same_record :: "Tables \<Rightarrow> Tables \<Rightarrow> bool" where
  "same_record old tb \<longleftrightarrow> tb_instances tb = tb_instances old \<and> tb_transitions tb = tb_transitions old \<and>
     tb_history tb = tb_history old"

interpretation record_kept: work_invariant "same_record old" for old
  by unfold_locales (auto simp: keeps_def same_record_def claimWork_def renewWork_def completeWork_def retryWork_def
      deadLetterWork_def retryDeadLetter_def insertResolution_def updateWork_def Let_def split: if_splits)

section \<open>Serving\<close>

text \<open>
  Calls of the methods under contexts that leave the database alone, as effects: those that read or
  only change work, and all of them.
\<close>

definition calm :: "Db ctx \<Rightarrow> bool" where
  "calm c \<longleftrightarrow> (\<forall>db. db_tables (snd (run_state c db)) = db_tables db \<and> db_tx (snd (run_state c db)) = db_tx db)"

definition effect :: "(Db, 'a) state \<Rightarrow> (Db, unit) state" where
  "effect m = do { _ \<leftarrow> m; State_Monad.return () }"

definition work_calls :: "PgConfig \<Rightarrow> (Db, unit) state set" where
  "work_calls pg = (\<Union>c \<in> Collect calm.
     range (\<lambda>q. effect (ReconcileTransition (Some c) q)) \<union> range (\<lambda>q. effect (History (Some c) q)) \<union>
     range (\<lambda>q. effect (ListInstances pg (Some c) q)) \<union> range (\<lambda>q. effect (Claim pg (Some c) q)) \<union>
     range (\<lambda>q. effect (Renew pg (Some c) q)) \<union> range (\<lambda>q. effect (Complete pg (Some c) q)) \<union>
     range (\<lambda>q. effect (Fail pg (Some c) q)) \<union> range (\<lambda>q. effect (ListDeadLetters pg (Some c) q)) \<union>
     range (\<lambda>q. effect (ResolveDeadLetter pg (Some c) q)))"

definition store_calls :: "PgConfig \<Rightarrow> (Db, unit) state set" where
  "store_calls pg = work_calls pg \<union> (\<Union>c \<in> Collect calm.
     range (\<lambda>t. effect (Commit pg (Some c) t)) \<union> range (\<lambda>t. effect (Stage pg (Some c) t)))"

lemma calm_steadily: "calm c \<Longrightarrow> steadily I c"
  by (auto simp: calm_def steadily_def inv_db_def intro!: tripleI) (metis snd_conv)+

lemma steadily_effect: "steadily I m \<Longrightarrow> steadily I (effect m)"
  unfolding effect_def by (auto intro: steadily_bind)

context work_invariant
begin

lemma steadily_work_calls: "m \<in> work_calls pg \<Longrightarrow> steadily I m"
  unfolding work_calls_def
  by (elim UN_E UnE rangeE) (auto intro!: steadily_effect work_methods_steady reads_steady calm_steadily)

end

context table_invariant
begin

lemma steadily_store_calls: "m \<in> store_calls pg \<Longrightarrow> steadily I m"
  unfolding store_calls_def
  by (elim UN_E UnE rangeE, erule steadily_work_calls)
    (auto intro!: steadily_effect transition_methods_steady calm_steadily)

end

end
