(* ===== verification/Schema_Properties.thy ===== *)
theory Schema_Properties
  imports Schema_Invariant Store_Properties
begin

text \<open>The properties of the migrations and of the tables under them, with their witnesses.\<close>

section \<open>Migrations\<close>

text \<open>
  C21: The migrations of the schema of a store go up and come down again. For every schema that
  \<open>New\<close> accepts there are two migrations, versions 1 and 2; applied in order to a catalog that has
  the schema and none of its names they succeed and add the five tables and three indexes of the
  workflow schema and nothing else; rolled back in reverse order they succeed and leave exactly the
  catalog there was before.
\<close>

theorem migrations_round_trip:
  assumes "New pool configured = Inr s" "s \<in> set (ct_schemas cat)" "catalog_ok cat" "names_free s cat"
  shows "\<exists>ms cat'. SchemaMigrationsFor s = Inr ms \<and> map mg_Version ms = [1, 2] \<and>
    apply_migrations ms cat = Some cat' \<and> ct_tables cat' = ct_tables cat @ workflow_tables s \<and>
    ct_indexes cat' = ct_indexes cat @ workflow_indexes s \<and> catalog_ok cat' \<and> revert_migrations ms cat' = Some cat"
proof -
  have "schemaPattern s" using assms(1) by (auto simp: New_def Let_def split: if_splits)
  then obtain m where ms: "SchemaMigrationsFor s = Inr [m, deadLetterResolutionMigrationFor s]"
      "SchemaMigrationFor s = Inr m" using migrations_of by blast
  have "map mg_Version [m, deadLetterResolutionMigrationFor s] = [1, 2]"
    using ms(2) by (auto simp: SchemaMigrationFor_def deadLetterResolutionMigrationFor_def Let_def split: if_splits)
  then show ?thesis
    using ms(1) migrate_up [OF ms(1) assms(2,4)] migrate_down [OF ms(1) assms(3,4)] migrated_catalog_ok [OF assms(3)]
    by (auto simp: migrated_def)
qed

definition ex_catalog :: Catalog where
  "ex_catalog = \<lparr>ct_schemas = [''public'', ''workflow''], ct_tables = [((''public'', ''orders''), instances_table)],
     ct_indexes = []\<rparr>"

theorem migrations_round_trip_witness:
  "\<exists>cat'. apply_migrations SchemaMigrations ex_catalog = Some cat' \<and> length (ct_tables cat') = 6 \<and>
     revert_migrations SchemaMigrations cat' = Some ex_catalog"
proof -
  have new: "New (Some ()) [] = Inr ''workflow''" by (simp add: New_def schemaPattern_def pattern_eval)
  have "''workflow'' \<in> set (ct_schemas ex_catalog)" "catalog_ok ex_catalog" "names_free ''workflow'' ex_catalog"
    by (simp_all add: ex_catalog_def catalog_ok_def declared_foreign_keys names_free_iff relations_def)
  from migrations_round_trip [OF new this] show ?thesis
    by (auto simp: SchemaMigrations_def ex_catalog_def workflow_tables_def)
qed

section \<open>Constraints\<close>




section \<open>The invariant of the store\<close>







end
