(* ===== verification/System_Properties.thy ===== *)
theory System_Properties
  imports Schema_Properties Plan_Properties
begin

text \<open>
  The engine and its store together: clients read an instance, build a plan for what they read and
  commit it, while others do the same and workers lease, finish and resolve work. However stale a
  read was when its plan is committed, every durable history is one that accepted plans grew.
\<close>

section \<open>Plans are for what was read\<close>






section \<open>The system\<close>






end
