(* ===== verification/Divergences.thy ===== *)
theory Divergences
  imports Store_Properties Plan_Properties
begin

text \<open>
  Where two parts of the code disagree, shown on the example: plans that a constructor accepts and
  replay rejects, which is why the theorems on plans ask for the state of the instance as well, and
  values that PostgreSQL gives back otherwise than the engine expects, which is why the theorems on
  the store ask for its precision and its text order.
\<close>

section \<open>Plans that cannot be replayed\<close>

lemma replay_append_one:
  assumes "Replay registry es = Inr i" "apply_event registry i e = Inl err"
  shows "Replay registry (es @ [e]) = Inl err"
  using assms by (auto simp: Replay_def apply_all_append split: if_splits sum.splits)

definition ex_pausing :: HistoryEvent where
  "ex_pausing = ex_event 5 EventInstancePaused 1035"

definition ex_ip :: Instance where
  "ex_ip = ex_if\<lparr>in_status := StatusPaused, in_sequence := 5, in_updatedAt := utc 1035\<rparr>"

definition ex_ended :: HistoryEvent where
  "ex_ended = ex_event 4 EventInstanceTerminated 1025"

definition ex_it :: Instance where
  "ex_it = ex_i3\<lparr>in_status := StatusTerminated, in_sequence := 4, in_updatedAt := utc 1025\<rparr>"

lemma ex_paused_replay: "Replay ex_registry [ex_started, ex_scheduled, ex_attempt, ex_failed, ex_pausing] = Inr ex_ip"
proof -
  have "apply_event ex_registry ex_if ex_pausing = Inr ex_ip" by (simp add: ex_eval ex_pausing_def ex_ip_def)
  moreover have "in_pendingOperator ex_ip = OperatorNone" by (simp add: ex_ip_def ex_idle)
  ultimately show ?thesis by (simp add: ex_replay)
qed

lemma ex_ended_replay: "Replay ex_registry [ex_started, ex_scheduled, ex_attempt, ex_ended] = Inr ex_it"
proof -
  have "apply_event ex_registry ex_i3 ex_ended = Inr ex_it" by (simp add: ex_eval ex_ended_def ex_it_def)
  moreover have "in_pendingOperator ex_it = OperatorNone" by (simp add: ex_it_def ex_idle)
  ultimately show ?thesis by (simp add: ex_replay)
qed

text \<open>
  \<open>NewActivityRetry\<close> does not look at the status of the instance: for a paused instance it returns a
  plan whose history replay rejects.
\<close>

theorem paused_retry_not_replayable:
  "\<exists>t. NewActivityRetry (ex_retry_plan\<lparr>ay_Instance := ex_ip\<rparr>) = Inr t \<and>
     Replay ex_registry ([ex_started, ex_scheduled, ex_attempt, ex_failed, ex_pausing] @ tr_events t) =
       Inl ErrInvalidTransition"
proof -
  let ?s = "ex_retry_plan\<lparr>ay_Instance := ex_ip\<rparr>"
  have "\<exists>t. NewActivityRetry ?s = Inr t"
    using ex_dispatch(1) [of 2]
    by (simp add: NewActivityRetry_def ex_retry_plan_def retryDelay_def ex_ip_def accept_eval) (simp add: word_le_def)
  then obtain t where t: "NewActivityRetry ?s = Inr t" by blast
  have fields: "ev_kind e = hs_Kind spec \<and> ev_stepName e = hs_StepName spec \<and> ev_instanceID e = hs_InstanceID spec \<and>
      ev_sequence e = hs_Sequence spec \<and> ev_occurredAt e = canonicalTime (hs_OccurredAt spec)"
    if "NewHistoryEvent spec = Inr e" for spec e using NewHistoryEvent_fields [OF that] by simp
  from t obtain e where "tr_events t = [e]" "ev_kind e = EventActivityRetryScheduled" "ev_stepName e = ''charge''"
      "ev_instanceID e = ''order-1''" "ev_sequence e = 6" "ev_occurredAt e = utc 1040"
    by (rule NewActivityRetry_Inr)
      (auto dest!: fields simp: NewTransition_Inr ex_retry_plan_def ex_ip_def ex_if_def ex_i1_def
        canonicalTime_utc)
  moreover from this have "apply_event ex_registry ex_ip e = Inl ErrInvalidTransition"
    by (simp add: apply_event_def apply_kind_def applyActivity_def ex_ip_def ex_if_def ex_i1_def Before_def
        terminalStatus_def Let_def zero_Instance_def resolved_def Resolve_def ex_registry_def ex_ref_def ex_definition_def
        ex_spec_def definitionActivityStep_def definitionStep_def ex_steps zero_StepSpec_def)
  ultimately show ?thesis using t replay_append_one [OF ex_paused_replay] by auto
qed

text \<open>\<open>NewActivityAttemptOutcome\<close> does not either: after termination the outcome cannot be replayed.\<close>

theorem late_outcome_not_replayable:
  "\<exists>t err. NewActivityAttemptOutcome (ex_outcome\<lparr>os_Instance := ex_it\<rparr>) = Inr t \<and>
     Replay ex_registry ([ex_started, ex_scheduled, ex_attempt, ex_ended] @ tr_events t) = Inl err"
proof -
  have "\<exists>t. NewActivityAttemptOutcome (ex_outcome\<lparr>os_Instance := ex_it\<rparr>) = Inr t"
    by (simp add: NewActivityAttemptOutcome_def ex_outcome_def outcome_valid_def ex_it_def accept_eval)
  then obtain t where t: "NewActivityAttemptOutcome (ex_outcome\<lparr>os_Instance := ex_it\<rparr>) = Inr t" by blast
  then obtain e where "tr_events t = [e]" by (rule NewActivityAttemptOutcome_Inr) (auto simp: NewTransition_Inr)
  moreover obtain err where "apply_event ex_registry ex_it e = Inl err"
    using apply_event_terminal [of ex_it ex_registry e] by (auto simp: ex_it_def)
  ultimately show ?thesis using t replay_append_one [OF ex_ended_replay] by auto
qed

section \<open>Values that the database changes\<close>

text \<open>
  Replay asks that an attempt is due exactly its timeout after its start, to the nanosecond. A
  history that replays does not replay any more when its instants come back in microseconds.
\<close>

definition ex_late :: "int \<Rightarrow> int \<Rightarrow> HistoryEvent" where
  "ex_late start due_at = ex_attempt\<lparr>ev_occurredAt := utc start, ev_dueAt := utc due_at\<rparr>"

theorem microseconds_break_replay:
  "(\<exists>i. Replay ex_registry [ex_started, ex_scheduled, ex_late 2950 3050] = Inr i) \<and>
   (\<exists>es. scan_rows (scanHistoryEvent ''order-1'')
        (map (historyArguments ex_pg) [ex_started, ex_scheduled, ex_late 2950 3050]) = Inr es \<and>
      Replay ex_registry es = Inl ErrInvalidTransition)"
proof
  show "\<exists>i. Replay ex_registry [ex_started, ex_scheduled, ex_late 2950 3050] = Inr i"
    by (simp add: Replay_def ex_apply) (simp add: ex_eval ex_late_def)
  let ?es = "[ex_started, ex_scheduled\<lparr>ev_occurredAt := utc 1000\<rparr>, ex_late 2000 3000]"
  have "exact_event ex_pg ex_started" "exact_event ex_pg (ex_scheduled\<lparr>ev_occurredAt := utc 1000\<rparr>)"
      "exact_event ex_pg (ex_late 2000 3000)"
    by (simp_all add: exact_event_def event_eval pattern_eval zero_values ex_definitions ex_events ex_late_def
        stamped_def ex_pg_def)
  then have "exact_event ex_pg e" if "e \<in> set ?es" for e using that by auto
  then have "scanHistoryEvent (ev_instanceID e) (historyArguments ex_pg e) = Inr e" if "e \<in> set ?es" for e
    using that scan_historyArguments by blast
  moreover have "ev_instanceID e = ''order-1''" if "e \<in> set ?es" for e
    using that by (auto simp: ex_events ex_late_def)
  moreover have "map (historyArguments ex_pg) [ex_started, ex_scheduled, ex_late 2950 3050] = map (historyArguments ex_pg) ?es"
    by (simp add: historyArguments_def stamped_def nullableTime_def ex_pg_def ex_scheduled_def ex_late_def ex_attempt_def
        ex_event_def zero_HistoryEvent_def)
  moreover have "Replay ex_registry ?es = Inl ErrInvalidTransition"
    by (simp add: Replay_def ex_apply) (simp add: ex_eval ex_late_def)
  ultimately show "\<exists>es. scan_rows (scanHistoryEvent ''order-1'')
        (map (historyArguments ex_pg) [ex_started, ex_scheduled, ex_late 2950 3050]) = Inr es \<and>
      Replay ex_registry es = Inl ErrInvalidTransition"
    by (intro exI [of _ ?es]) simp
qed

text \<open>
  The list of instances is ordered by the collation of the database and checked in byte order: where
  the two differ, rows in perfect order are reported as a corrupt store.
\<close>

theorem collation_rejects_page:
  "fst (run_state (ListInstances (ex_pg\<lparr>pg_collation := rev\<rparr>) (Some ex_ctx)
     \<lparr>lq_selection = ListAllInstances, lq_after = \<lparr>lc_createdAt = time_zero, lc_instanceID = []\<rparr>, lq_limit = 10\<rparr>)
     (ex_db (ex_tables\<lparr>tb_instances := [ex_instance ''ab'' 2000 None, ex_instance ''ba'' 2000 None]\<rparr>) [])) =
   Inl (OperationError ''validate instance page'' (JoinedError ErrCorruptStore ErrInvalidStoreRequest))"
proof -
  let ?a = "ex_instance ''ab'' 2000 None" and ?b = "ex_instance ''ba'' 2000 None"
  obtain i j where ij: "scanInstanceRecord ?b = Inr i" "scanInstanceRecord ?a = Inr j"
    using ex_instance_scans [of "''ab''" 2000 None] ex_instance_scans [of "''ba''" 2000 None] by (auto simp: pattern_eval)
  have keys: "ir_createdAt i = utc 2000" "ir_instanceID i = ''ba''" "ir_createdAt j = utc 2000" "ir_instanceID j = ''ab''"
    using scanInstanceRecord_Inr [OF ij(1)] scanInstanceRecord_Inr [OF ij(2)] by (simp_all add: list_key_def ex_instance_def)
  have "sort_key (\<lambda>r. (ri_created_at r, rev (ri_instance_id r))) [?a, ?b] = [?b, ?a]"
    by (simp add: ex_instance_def)
  moreover have "list_page_loop ListAllInstances \<lparr>lc_createdAt = time_zero, lc_instanceID = []\<rparr> [i, j] = None"
    using keys by (simp add: cursorBefore_def list_key_def After_def Equal_def)
  ultimately show ?thesis
    using ij
    by (simp add: ListInstances_def guarded_def ex_ctx_def run_check db_Query_def rows_Err_def next_fault_def ex_db_def
        listInstances_def nullableTime_def list_query_Valid_def list_cursor_valid_def MaxInstanceListItems_def
        NewInstanceListPage_def newOperationError_def Let_def)
qed

end
