(* ===== verification/Spec2Isabelle.thy ===== *)
theory Spec2Isabelle
  imports Definition_Properties Replay_Properties Codec_Properties Plan_Properties Store_Properties Runtime_Properties
    Snapshot_Properties Schema_Properties System_Properties Divergences
begin

text \<open>
  Verification of go-workflow, a durable workflow engine.

  \<^bold>\<open>The program.\<close> A workflow is a versioned definition of steps. An instance of it is nothing but its
  history: events are appended by transition plans, and replaying the history under the registered
  definitions gives the state of the instance. A plan carries events and pending work; a store
  commits both in one transaction. Workers claim pending work under fenced leases and pass it to
  processors, which call activity handlers, compensations and child starters and commit what came
  out of them as further plans. Operators intervene by audited commands.

  \<^bold>\<open>Shared ground.\<close>
  \<^item> \<open>Prelude\<close>: results (\<open>go_error + 'a\<close>), 32 and 64 bit words, Go times and durations with their
    saturation, zero values of Go maps, identifier patterns, the error sentinels of the package.
  \<^item> \<open>Json\<close>, \<open>Digest\<close>: the rendering and strict decoding of the JSON documents the program writes,
    and SHA-256, from which fingerprints and transition identities are made.
  \<^item> \<open>Effects\<close>: computations over a world (\<open>State_Monad\<close>), contexts, and triples
    \<open>triple P m Q\<close> with one rule per combinator.
  \<^item> \<open>Plan\<close>: the locale of a plan constructor (what an accepted plan is and that it extends a
    replayable history), interpreted for every constructor of the transition theories.

  \<^bold>\<open>Definitions and histories.\<close>
  \<^item> \<open>Workflow_Definition\<close> (definition.go), \<open>Registry\<close> (registry.go).
  \<^item> \<open>History_Event\<close>, \<open>Instance\<close>, \<open>Replay\<close> (history.go), \<open>Activity_History\<close> (activity\_history.go),
    \<open>Wait_History\<close> (wait\_history.go, race\_history.go), \<open>Child_History\<close> (child\_history.go),
    \<open>Compensation_History\<close> (compensation\_history.go): one function per \<open>apply...\<close> method, composed as
    the code composes them; \<open>Lifecycle\<close> has the step relation that \<open>apply\<close> is shown to decide.
  \<^item> \<open>Replay_Invariants\<close>, \<open>Replay_Properties\<close>: well-formedness, limits, frozen outcomes, pairing of
    operator audits, finality of terminal instances. \<open>Definition_Properties\<close>: what the validator
    and the compiler of registries establish.

  \<^item> \<open>Snapshot\<close>, \<open>Snapshot_Properties\<close>: the lookups, sorted views and snapshots of the same files and
    \<open>SnapshotDigest\<close>, with the order in which Go visits a map as an argument, and that it does not
    matter.

  \<^bold>\<open>Plans.\<close>
  \<^item> \<open>Transition\<close> (transition.go), \<open>Work\<close> (work.go), \<open>Activity\<close> (activity.go), \<open>Activity_Transition\<close>,
    \<open>Compensation_Transition\<close>, \<open>Child_Transition\<close>, \<open>Wait_Transition\<close> (the files of these names),
    \<open>Operator_Command\<close> (operator.go, operator\_work.go), \<open>Orchestration\<close> (orchestration.go).
  \<^item> \<open>Plan_Properties\<close>: accepted plans replay, decisions of the orchestrator complete exactly the
    finished instances, and every history grown by accepted plans is safe. \<open>Codec_Properties\<close>:
    round trips of the documents, retry delays, bounds of plans and leases. \<open>Example\<close>: a small
    definition, registry and history on which the witnesses evaluate.

  \<^bold>\<open>The store.\<close>
  \<^item> \<open>Store\<close> (store.go), \<open>Administration\<close> (administration.go), \<open>Dead_Letter\<close> (deadletter.go),
    \<open>Inspection\<close> (inspection.go): contracts, pages, reconciliation, the paging traversal.
  \<^item> \<open>Database\<close>: the tables of postgres/migration.go as lists of row records, and each prepared
    statement of postgres/store.go as a function on them. \<open>Postgres_Store\<close>: every method of the
    store as a computation over the database, its open transaction and a list of driver faults: at
    every call the driver may fail, and at a commit it may lose the acknowledgement.
  \<^item> \<open>Store_Safety\<close>, \<open>Store_Log\<close>, \<open>Store_Leases\<close>, \<open>Store_Dead_Letters\<close>, \<open>Store_Listing\<close>,
    \<open>Store_Properties\<close>: atomicity and truthful error classification, the durable log, leases and
    fences, dead letters, lists. \<open>Store_Log\<close> interprets the locales of \<open>Inspection\<close> (a reader of a
    log, a reader that is available) on the PostgreSQL store; \<open>Store_Listing\<close> has the locales of
    keyset queries, interpreted for the lists of instances and of dead letters.
  \<^item> \<open>Schema\<close> (postgres/migration.go and \<open>New\<close> of postgres/store.go): the migrations as the
    statements they denote, each column with its type, default and constraints. \<open>Catalog\<close> is the
    reading of such statements that PostgreSQL documents: a catalog they change, conditions in
    three-valued logic, and when a row is inserted, skipped or rejected.
  \<^item> \<open>Catalog_Safety\<close>, \<open>Schema_Invariant\<close>, \<open>Schema_Properties\<close>: the migrations go up and come down
    again, the insert statements of \<open>Database\<close> enforce exactly the declared constraints, and the
    tables meet the declared schema after whatever the store was asked to do. The locales
    \<open>work_invariant\<close> and \<open>table_invariant\<close> of \<open>Schema_Invariant\<close> turn a fact that every statement
    keeps into one that every method keeps; they are interpreted for the schema and for the part of
    the tables that work calls leave alone.

  \<^bold>\<open>The composition.\<close>
  \<^item> \<open>System_Properties\<close>: clients that commit plans built from what they read, at any time since,
    workers, operators and driver faults as one step relation; every durable history is then one
    that accepted plans grew, and so is safe.
  \<^item> \<open>Divergences\<close>: concrete runs on which parts of the program disagree (plans that constructors
    accept and replay rejects, values that come back from PostgreSQL otherwise than they went in).

  \<^bold>\<open>The runtime.\<close>
  \<^item> \<open>Worker\<close> (worker.go): \<open>Handle\<close> runs over a script of what its \<open>select\<close> sees, \<open>Run\<close> is the step
    relation \<open>run_step\<close> of the loop, its handlers, cancellation and the rest of the program.
    \<open>Worker_Safety\<close>: fairness of the claim order, the invariant of the loop, its end after
    cancellation, and the locale \<open>renewing_store\<close> of what \<open>Handle\<close> relies on.
  \<^item> \<open>Activity_Processor\<close>, \<open>Compensation_Processor\<close>, \<open>Child_Processor\<close> (the files of these names).
    \<open>Processor_Safety\<close>: the locale \<open>durable_store\<close> of what they rely on, and that external effects
    happen between durable records.
  \<^item> \<open>Runtime\<close>, \<open>Runtime_Properties\<close>: both locales interpreted on the PostgreSQL store, and the
    properties of workers and processors on top of it.

  \<^bold>\<open>Bounds and loops.\<close> Machine integers are words of their width. Every loop is a total function: the
  paging traversal terminates because each page that goes on moves the cursor up; nothing uses
  fuel. \<open>Handle\<close> and \<open>Run\<close> wait for events, so their progress is stated over the events (\<open>None\<close> is
  a \<open>Handle\<close> that still waits).

  \<^bold>\<open>Parameters.\<close> Activity handlers, child starters, clocks, hooks and export sinks are arbitrary
  computations over the world that may also panic. PostgreSQL is a parameter where its behaviour is
  a matter of configuration (the text order of its collation, the precision of timestamps); its
  statements are atomic and transactions isolated, as the store's locking intends.

  \<^bold>\<open>Not modelled.\<close> The concrete syntax of SQL texts, the quoting of identifiers in them and pgx,
  which hands them to PostgreSQL (statements are modelled by what they denote); migration callbacks, which the module
  stores but never calls; the wall clock and its timers; memory effects of defensive copies, which are
  the identity on values.
\<close>

end
